(* ===== verification/Prelude.thy ===== *)
theory Prelude
  imports Complex_Main "HOL-Library.Word" "HOL-Library.Sublist"
begin

text \<open>
  What every component shares: JavaScript strings and numbers as the runner uses them, results of
  code that may throw, and the lemma collections the component proofs draw on.

  A JavaScript string is a list of UTF-16 code units, each a \<^typ>\<open>16 word\<close>; \<open>J\<close> embeds a literal
  (Latin-1) of the source. A number is a \<open>jsnum\<close>: a finite double by its exact rational value, or
  one of the three non-finite values. Arithmetic on finite values is exact, the rounding of an
  inexact double result is not modelled; the definitions that divide say so.
\<close>

section \<open>Lemma collections\<close>

named_theorems js_string \<open>rewrite rules for operations on JavaScript strings\<close>
named_theorems js_num \<open>definitions of the operations on JavaScript numbers\<close>

section \<open>Results of code that may throw\<close>

text \<open>\<open>Inl e\<close>: the code threw \<open>e\<close>; \<open>Inr v\<close>: it returned \<open>v\<close>.\<close>

definition bindR :: "'e + 'a \<Rightarrow> ('a \<Rightarrow> 'e + 'b) \<Rightarrow> 'e + 'b" where
  "bindR r f = (case r of Inl e \<Rightarrow> Inl e | Inr v \<Rightarrow> f v)"

lemma bindR_simps [simp]: "bindR (Inl e) f = Inl e" "bindR (Inr v) f = f v"
  by (simp_all add: bindR_def)

definition guardR :: "bool \<Rightarrow> 'e \<Rightarrow> 'e + unit" where
  "guardR ok e = (if ok then Inr () else Inl e)"

definition needR :: "'e \<Rightarrow> 'a option \<Rightarrow> 'e + 'a" where
  "needR e v = (case v of None \<Rightarrow> Inl e | Some x \<Rightarrow> Inr x)"

lemma needR_simps [simp]: "needR e None = Inl e" "needR e (Some x) = Inr x"
  by (simp_all add: needR_def)

lemma needR_eq_Inr [simp]: "needR e v = Inr x \<longleftrightarrow> v = Some x"
  by (cases v) simp_all

lemma needR_eq_Inl [simp]: "needR e v = Inl e' \<longleftrightarrow> v = None \<and> e' = e"
  by (cases v) auto

lemma bindR_eq_Inr [simp]: "bindR r f = Inr w \<longleftrightarrow> (\<exists>v. r = Inr v \<and> f v = Inr w)"
  by (cases r) simp_all

lemma bindR_eq_Inl: "bindR r f = Inl e \<longleftrightarrow> r = Inl e \<or> (\<exists>v. r = Inr v \<and> f v = Inl e)"
  by (cases r) auto

lemma guardR_eq_Inr [simp]: "guardR b e = Inr u \<longleftrightarrow> b"
  by (simp add: guardR_def)

lemma guardR_eq_Inl [simp]: "guardR b e = Inl e' \<longleftrightarrow> \<not> b \<and> e' = e"
  by (auto simp: guardR_def)

lemma guardR_simps [simp]: "guardR True e = Inr ()" "guardR False e = Inl e"
  by (simp_all add: guardR_def)

section \<open>Strings\<close>

type_synonym jschar = "16 word"
type_synonym jsstring = "jschar list"

text \<open>A string literal of the source.\<close>

definition J :: "string \<Rightarrow> jsstring" where
  "J s = map of_char s"

lemma of_char_16_inj: "of_char c = (of_char d :: 16 word) \<longleftrightarrow> c = d"
proof
  have lt: "(of_char x :: nat) < 2 ^ 16" for x
    using nat_of_char_less_256 [of x] by (rule less_trans) simp
  have eq: "(of_char x :: 16 word) = of_nat (of_char x)" for x
    by (simp add: of_nat_of_char)
  assume "of_char c = (of_char d :: 16 word)"
  then have "unat (of_nat (of_char c) :: 16 word) = unat (of_nat (of_char d) :: 16 word)"
    by (simp only: eq)
  then have "(of_char c :: nat) = of_char d"
    using lt [of c] lt [of d] by (simp add: unat_of_nat)
  then show "c = d" by simp
qed simp

lemma J_inj [simp]: "J s = J t \<longleftrightarrow> s = t"
proof
  have "inj (of_char :: char \<Rightarrow> 16 word)"
    by (rule injI) (simp add: of_char_16_inj)
  moreover assume "J s = J t"
  ultimately show "s = t" by (simp add: J_def inj_map_eq_map)
qed simp

lemma length_J [simp]: "length (J s) = length s"
  by (simp add: J_def)

lemma J_eq_Nil [simp]: "J s = [] \<longleftrightarrow> s = []" "[] = J s \<longleftrightarrow> s = []"
  by (auto simp: J_def)

lemma J_append [js_string]: "J (s @ t) = J s @ J t"
  by (simp add: J_def)

subsection \<open>White space: the class \<open>\s\<close>, which is also what \<open>trim\<close> removes\<close>

definition isWs :: "jschar \<Rightarrow> bool" where
  "isWs c \<longleftrightarrow> 9 \<le> c \<and> c \<le> 13 \<or> c = 32 \<or> c = 160 \<or> c = 5760 \<or> 8192 \<le> c \<and> c \<le> 8202 \<or>
     c = 8232 \<or> c = 8233 \<or> c = 8239 \<or> c = 8287 \<or> c = 12288 \<or> c = 65279"

definition trimS :: "jsstring \<Rightarrow> jsstring" where
  "trimS s = rev (dropWhile isWs (rev (dropWhile isWs s)))"

definition blankS :: "jsstring \<Rightarrow> bool" where
  "blankS s \<longleftrightarrow> trimS s = []"

lemma blankS_iff: "blankS s \<longleftrightarrow> list_all isWs s"
proof -
  have "dropWhile isWs (rev (dropWhile isWs s)) = [] \<longleftrightarrow> (\<forall>c \<in> set (dropWhile isWs s). isWs c)"
    by (simp add: dropWhile_eq_Nil_conv)
  also have "\<dots> \<longleftrightarrow> (\<forall>c \<in> set s. isWs c)"
  proof (induction s)
    case (Cons a s)
    show ?case by (cases "isWs a") (use Cons in simp_all)
  qed simp
  finally show ?thesis by (simp add: blankS_def trimS_def list_all_iff)
qed

lemma blankS_Nil [simp]: "blankS []"
  by (simp add: blankS_iff)

subsection \<open>Slices and searches\<close>

definition sliceS :: "'a list \<Rightarrow> nat \<Rightarrow> nat \<Rightarrow> 'a list" where
  "sliceS s i j = drop i (take j s)"

lemma length_sliceS [simp]: "length (sliceS s i j) = min j (length s) - i"
  by (simp add: sliceS_def min.commute)

lemma sliceS_all [simp]: "sliceS s 0 (length s) = s"
  by (simp add: sliceS_def)

lemma sliceS_nth: "i \<le> k \<Longrightarrow> k < j \<Longrightarrow> j \<le> length s \<Longrightarrow> sliceS s i j ! (k - i) = s ! k"
  by (simp add: sliceS_def)

fun startsWith :: "'a list \<Rightarrow> 'a list \<Rightarrow> bool" where
  "startsWith s [] = True"
| "startsWith [] (p # ps) = False"
| "startsWith (c # s) (p # ps) = (c = p \<and> startsWith s ps)"

lemma startsWith_prefix: "startsWith s p \<longleftrightarrow> prefix p s"
  by (induction s p rule: startsWith.induct) auto

definition endsWith :: "'a list \<Rightarrow> 'a list \<Rightarrow> bool" where
  "endsWith s p = startsWith (rev s) (rev p)"

text \<open>\<open>s.indexOf(p)\<close>, with \<open>None\<close> for the result \<open>-1\<close>.\<close>

fun indexOf :: "'a list \<Rightarrow> 'a list \<Rightarrow> nat option" where
  "indexOf [] p = (if p = [] then Some 0 else None)"
| "indexOf (c # s) p = (if startsWith (c # s) p then Some 0 else map_option Suc (indexOf s p))"

definition includesS :: "'a list \<Rightarrow> 'a list \<Rightarrow> bool" where
  "includesS s p \<longleftrightarrow> indexOf s p \<noteq> None"

lemma startsWith_Nil: "startsWith [] p \<longleftrightarrow> p = []"
  by (cases p) simp_all

lemma indexOf_SomeD:
  "indexOf s p = Some i \<Longrightarrow> i \<le> length s \<and> prefix p (drop i s) \<and> (\<forall>k < i. \<not> prefix p (drop k s))"
proof (induction s arbitrary: i)
  case Nil
  then show ?case by (auto split: if_splits)
next
  case (Cons c s)
  show ?case
  proof (cases "startsWith (c # s) p")
    case True
    with Cons.prems show ?thesis by (simp add: startsWith_prefix)
  next
    case False
    with Cons.prems obtain j where j: "indexOf s p = Some j" and i: "i = Suc j"
      by auto
    have "\<not> prefix p (drop k (c # s))" if "k < i" for k
      using that i False Cons.IH [OF j] by (cases k) (auto simp: startsWith_prefix)
    with i Cons.IH [OF j] show ?thesis by simp
  qed
qed

lemma indexOf_NoneD: "indexOf s p = None \<Longrightarrow> \<not> prefix p (drop k s)"
proof (induction s arbitrary: k)
  case Nil
  then show ?case by (auto split: if_splits)
next
  case (Cons c s)
  then show ?case by (cases k) (auto simp: startsWith_prefix split: if_splits)
qed

lemma indexOf_eq_SomeI:
  "i \<le> length s \<Longrightarrow> prefix p (drop i s) \<Longrightarrow> (\<And>k. k < i \<Longrightarrow> \<not> prefix p (drop k s)) \<Longrightarrow> indexOf s p = Some i"
  using indexOf_NoneD [of s p i] indexOf_SomeD [of s p]
  by (metis linorder_neqE_nat not_Some_eq)

subsection \<open>\<open>split\<close>, \<open>join\<close> and \<open>repeat\<close>\<close>

fun joinS :: "'a list \<Rightarrow> 'a list list \<Rightarrow> 'a list" where
  "joinS sep [] = []"
| "joinS sep [x] = x"
| "joinS sep (x # y # ys) = x @ sep @ joinS sep (y # ys)"

function splitS :: "'a list \<Rightarrow> 'a list \<Rightarrow> 'a list list" where
  "splitS s sep =
     (case indexOf s sep of
        None \<Rightarrow> [s]
      | Some i \<Rightarrow> if sep = [] then map (\<lambda>c. [c]) s
                  else take i s # splitS (drop (i + length sep) s) sep)"
  by pat_completeness auto
termination
proof (relation "measure (\<lambda>(s, sep). length s)", goal_cases)
  case (2 s sep i)
  from indexOf_SomeD [OF 2(1)] have "prefix sep (drop i s)" by simp
  then have "length sep \<le> length s - i"
    using prefix_length_le by fastforce
  with 2(2) have "0 < length s" by (cases sep) auto
  with 2(2) show ?case by (cases sep) auto
qed simp

declare splitS.simps [simp del]

definition replaceAllS :: "'a list \<Rightarrow> 'a list \<Rightarrow> 'a list \<Rightarrow> 'a list" where
  "replaceAllS s p r = joinS r (splitS s p)"

definition repeatS :: "nat \<Rightarrow> 'a list \<Rightarrow> 'a list" where
  "repeatS n s = concat (replicate n s)"

lemma joinS_Cons: "xs \<noteq> [] \<Longrightarrow> joinS sep (x # xs) = x @ sep @ joinS sep xs"
  by (cases xs) simp_all

lemma splitS_not_Nil: "sep \<noteq> [] \<Longrightarrow> splitS s sep \<noteq> []"
  by (subst splitS.simps) (simp split: option.split)

lemma joinS_splitS: "sep \<noteq> [] \<Longrightarrow> joinS sep (splitS s sep) = s"
proof (induction s sep rule: splitS.induct)
  case (1 s sep)
  show ?case
  proof (cases "indexOf s sep")
    case None
    then show ?thesis by (simp add: splitS.simps [of s sep])
  next
    case (Some i)
    from indexOf_SomeD [OF Some] obtain zs where zs: "drop i s = sep @ zs"
      by (auto simp: prefix_def)
    then have "drop (i + length sep) s = zs"
      by (metis append_eq_conv_conj drop_drop add.commute)
    with Some 1 zs show ?thesis
      by (simp add: splitS.simps [of s sep] joinS_Cons splitS_not_Nil)
        (metis append_take_drop_id)
  qed
qed

subsection \<open>Contiguous blocks\<close>

text \<open>A slice around a block contains it.\<close>

lemma sublist_sliceS:
  assumes "a \<le> i" "i + k \<le> b"
  shows "sublist (take k (drop i t)) (sliceS t a b)"
proof -
  have "take k (drop i t) = take k (drop (i - a) (sliceS t a b))"
    using assms by (simp add: sliceS_def drop_take min_def)
  then show ?thesis by (metis sublist_take sublist_drop sublist_order.order_trans)
qed

lemma sublist_at: "sublist p t \<Longrightarrow> \<exists>i. i + length p \<le> length t \<and> p = take (length p) (drop i t)"
proof -
  assume "sublist p t"
  then obtain xs ys where "t = xs @ p @ ys" by (auto simp: sublist_def)
  then show ?thesis by (intro exI [of _ "length xs"]) simp
qed

lemma blankS_sublist: "blankS t \<Longrightarrow> sublist p t \<Longrightarrow> blankS p"
  by (auto simp: blankS_iff list_all_iff dest: set_mono_sublist)

lemma sublist_joinS: "x \<in> set xs \<Longrightarrow> sublist x (joinS sep xs)"
proof (induction sep xs rule: joinS.induct)
  case (3 sep x' y ys)
  have "sublist (joinS sep (y # ys)) (joinS sep (x' # y # ys))"
    using sublist_append_leftI [of "joinS sep (y # ys)" "x' @ sep"] by simp
  with 3 show ?case by (auto intro: sublist_order.order_trans)
qed auto

lemma set_joinS: "set (joinS sep xs) \<subseteq> set sep \<union> (\<Union>x \<in> set xs. set x)"
  by (induction sep xs rule: joinS.induct) auto

lemma set_splitS: "p \<noteq> [] \<Longrightarrow> x \<in> set (splitS s p) \<Longrightarrow> set x \<subseteq> set s"
proof (induction s p arbitrary: x rule: splitS.induct)
  case (1 s p)
  show ?case
  proof (cases "indexOf s p")
    case None
    with 1(3) show ?thesis by (simp add: splitS.simps [of s p])
  next
    case (Some i)
    with 1(2,3) have "x = take i s \<or> x \<in> set (splitS (drop (i + length p) s) p)"
      by (simp add: splitS.simps [of s p])
    with 1(1) [OF Some 1(2) 1(2)] show ?thesis by (meson in_set_takeD in_set_dropD subset_iff)
  qed
qed

lemma set_replaceAllS: "p \<noteq> [] \<Longrightarrow> set (replaceAllS s p r) \<subseteq> set r \<union> set s"
  unfolding replaceAllS_def using set_joinS [of r "splitS s p"] set_splitS [of p _ s] by blast

text \<open>
  A pattern whose first unit occurs nowhere else in it, replaced by a text with the same property and
  the same length, does not come back where the replacement meets its surroundings.
\<close>

lemma replaceAllS_removes:
  assumes "p = c # p'" "c \<notin> set p'" "r = c # r'" "c \<notin> set r'" "length r' = length p'" "r' \<noteq> p'"
  shows "\<not> sublist p (replaceAllS s p r)"
proof (induction "length s" arbitrary: s rule: less_induct)
  case less
  show ?case
  proof (cases "indexOf s p")
    case None
    then have "\<not> sublist p s" using indexOf_NoneD [OF None] sublist_at [of p s] take_is_prefix by metis
    with None show ?thesis by (simp add: replaceAllS_def splitS.simps [of s p])
  next
    case (Some i)
    let ?s' = "drop (i + length p) s"
    have ne: "p \<noteq> []" using assms(1) by simp
    have rep: "replaceAllS s p r = take i s @ r @ replaceAllS ?s' p r"
      using Some splitS_not_Nil [OF ne, of ?s'] ne
      by (simp add: replaceAllS_def splitS.simps [of s p] joinS_Cons)
    from indexOf_SomeD [OF Some] have i: "i \<le> length s" "prefix p (drop i s)" "\<And>k. k < i \<Longrightarrow> \<not> prefix p (drop k s)"
      by auto
    then have "length ?s' < length s" using assms(1) by (auto dest: prefix_length_le)
    note IH = less [OF this]
    show ?thesis
    proof
      assume "sublist p (replaceAllS s p r)"
      moreover obtain A where A: "take i s = A" "length A = i" using i(1) by simp
      ultimately obtain xs ys where eq: "A @ r @ replaceAllS ?s' p r = xs @ p @ ys"
        unfolding rep by (auto simp: sublist_def)
      let ?k = "length xs"
      have at: "(A @ r @ replaceAllS ?s' p r) ! (?k + j) = p ! j" if "j < length p" for j
        unfolding eq using that by (simp add: nth_append)
      have len: "length r = length p" "0 < length p" using assms(1,3,5) by simp_all
      consider "?k + length p \<le> i" | "?k < i" "i < ?k + length p" | "?k = i" | "i < ?k" "?k < i + length r"
        | "i + length r \<le> ?k" by linarith
      then show False
      proof cases
        case 1
        have "take (length p) (drop ?k A) = p"
          using arg_cong [OF eq, of "\<lambda>l. take (length p) (drop ?k l)"] 1 A(2) by simp
        then have "prefix p (drop ?k A)" by (metis take_is_prefix)
        moreover have "prefix (drop ?k A) (drop ?k s)"
          unfolding A(1) [symmetric] by (simp add: drop_take take_is_prefix)
        ultimately have "prefix p (drop ?k s)" by (rule prefix_order.trans)
        with i(3) [of ?k] 1 len show False by simp
      next
        case 2
        have "p ! (i - ?k) = r ! 0" using at [of "i - ?k"] 2 A(2) len by (simp add: nth_append)
        moreover have "p ! (i - ?k) = p' ! (i - ?k - 1)" "i - ?k - 1 < length p'" using 2 assms(1) by auto
        ultimately show False using assms(2,3) by (metis nth_Cons_0 nth_mem)
      next
        case 3
        have "r ! j = p ! j" if "j < length p" for j
          using at [OF that] that 3 A(2) len by (simp add: nth_append)
        then have "r = p" using len by (intro nth_equalityI) auto
        with assms(1,3,6) show False by simp
      next
        case 4
        then have "?k - i < length r" "\<not> ?k < i" by auto
        then have "r ! (?k - i) = p ! 0" using at [of 0] A(2) len by (simp add: nth_append)
        moreover have "r ! (?k - i) = r' ! (?k - i - 1)" "?k - i - 1 < length r'" using 4 assms(3) by auto
        ultimately show False using assms(1,4) by (metis nth_Cons_0 nth_mem)
      next
        case 5
        then have "replaceAllS ?s' p r = drop (i + length r) xs @ p @ ys"
          using arg_cong [OF eq, of "drop (i + length r)"] A(2) by simp
        with IH show False by (auto simp: sublist_def)
      qed
    qed
  qed
qed

subsection \<open>\<open>toLowerCase\<close>\<close>

text \<open>
  Exact on Latin-1 and on the two further code units whose lower case contains an ASCII letter
  (U+0130 and U+212A). The other units are left alone: the source only compares the result with
  ASCII literals, which they can neither equal nor contain.
\<close>

definition lowerChar :: "jschar \<Rightarrow> jsstring" where
  "lowerChar c =
     (if 65 \<le> c \<and> c \<le> 90 then [c + 32]
      else if 192 \<le> c \<and> c \<le> 222 \<and> c \<noteq> 215 then [c + 32]
      else if c = 304 then [105, 775]
      else if c = 8490 then [107]
      else [c])"

definition lowerS :: "jsstring \<Rightarrow> jsstring" where
  "lowerS s = concat (map lowerChar s)"

subsection \<open>Decimal numerals\<close>

fun showNat :: "nat \<Rightarrow> jsstring" where
  "showNat n = (if n < 10 then [of_nat (48 + n)] else showNat (n div 10) @ [of_nat (48 + n mod 10)])"

declare showNat.simps [simp del]

definition showInt :: "int \<Rightarrow> jsstring" where
  "showInt i = (if i < 0 then 45 # showNat (nat (- i)) else showNat (nat i))"

fun digitsVal :: "jsstring \<Rightarrow> nat \<Rightarrow> nat" where
  "digitsVal [] acc = acc"
| "digitsVal (c # s) acc = digitsVal s (10 * acc + (unat c - 48))"

lemma digitsVal_append: "digitsVal (s @ t) acc = digitsVal t (digitsVal s acc)"
  by (induction s arbitrary: acc) simp_all

lemma unat_digit: "d < 10 \<Longrightarrow> unat (of_nat (48 + d) :: 16 word) = 48 + d"
  by (subst unat_of_nat) simp

lemma digitsVal_showNat: "digitsVal (showNat n) 0 = n"
proof (induction n rule: showNat.induct)
  case (1 n)
  show ?case
  proof (cases "n < 10")
    case True
    then show ?thesis
      using unat_digit [of n] by (simp add: showNat.simps [of n])
  next
    case False
    with 1 unat_digit [of "n mod 10"] show ?thesis
      by (simp add: showNat.simps [of n] digitsVal_append)
  qed
qed

lemma showNat_inj [simp]: "showNat m = showNat n \<longleftrightarrow> m = n"
  by (metis digitsVal_showNat)

lemma set_showNat: "set (showNat n) \<subseteq> {c. 48 \<le> c \<and> c \<le> 57}"
proof (induction n rule: showNat.induct)
  case (1 n)
  have dig: "48 \<le> (of_nat (48 + d) :: 16 word) \<and> (of_nat (48 + d) :: 16 word) \<le> 57" if "d < 10" for d
    using unat_digit [OF that] that by (simp add: word_le_nat_alt)
  show ?case
    using dig [of n] dig [of "n mod 10"] 1 by (subst showNat.simps) (auto split: if_splits)
qed

lemma showNat_not_Nil [simp]: "showNat n \<noteq> []"
  by (subst showNat.simps) simp

section \<open>Numbers\<close>

datatype jsnum = Fin rat | NaN | PosInf | NegInf

fun isFiniteN :: "jsnum \<Rightarrow> bool" where
  "isFiniteN (Fin q) = True"
| "isFiniteN _ = False"

text \<open>\<open>a < b\<close> and \<open>a \<le> b\<close> on numbers; every comparison with NaN is false.\<close>

fun ltN :: "jsnum \<Rightarrow> jsnum \<Rightarrow> bool" where
  "ltN NaN _ = False"
| "ltN _ NaN = False"
| "ltN (Fin a) (Fin b) = (a < b)"
| "ltN NegInf b = (b \<noteq> NegInf)"
| "ltN _ NegInf = False"
| "ltN PosInf _ = False"
| "ltN (Fin a) PosInf = True"

definition leN :: "jsnum \<Rightarrow> jsnum \<Rightarrow> bool" where
  "leN a b \<longleftrightarrow> a \<noteq> NaN \<and> b \<noteq> NaN \<and> (a = b \<or> ltN a b)"

text \<open>\<open>Math.max\<close> and \<open>Math.min\<close> of two numbers: NaN if either is.\<close>

definition maxN :: "jsnum \<Rightarrow> jsnum \<Rightarrow> jsnum" where
  "maxN a b = (if a = NaN \<or> b = NaN then NaN else if ltN a b then b else a)"

definition minN :: "jsnum \<Rightarrow> jsnum \<Rightarrow> jsnum" where
  "minN a b = (if a = NaN \<or> b = NaN then NaN else if ltN b a then b else a)"

text \<open>\<open>Math.round\<close> on a finite number: to the nearest integer, halves upwards.\<close>

definition roundN :: "rat \<Rightarrow> int" where
  "roundN q = \<lfloor>q + 1 / 2\<rfloor>"

lemma roundN_of_int [simp]: "roundN (of_int i) = i"
  by (simp add: roundN_def) linarith

lemma leN_Fin [simp]: "leN (Fin a) (Fin b) \<longleftrightarrow> a \<le> b"
  by (auto simp: leN_def)

lemma isFiniteN_iff: "isFiniteN n \<longleftrightarrow> (\<exists>q. n = Fin q)"
  by (cases n) simp_all

end
