(* ===== verification/Json.thy ===== *)
theory Json
  imports Prelude
begin

text \<open>
  Values of type \<open>unknown\<close> in the runner: what \<open>JSON.parse\<close> returns. A missing property reads as
  \<open>undefined\<close>, here \<open>None\<close> of \<^typ>\<open>'a option\<close>. An object is the list of its entries in the order
  \<open>Object.entries\<close> enumerates them, with distinct keys. The type guards of
  \<^verbatim>\<open>src/runner/src/types.ts\<close> are the first definitions that use them.
\<close>

section \<open>Values\<close>

datatype jsval =
    JNull
  | JBool bool
  | JNum jsnum
  | JStr jsstring
  | JArr "jsval list"
  | JObj "(jsstring \<times> jsval) list"

type_synonym jsobj = "(jsstring \<times> jsval) list"

text \<open>\<open>obj[key]\<close>; \<open>None\<close> is \<open>undefined\<close>.\<close>

definition fld :: "('k \<times> 'v) list \<Rightarrow> 'k \<Rightarrow> 'v option" where
  "fld = map_of"

lemma fld_simps [simp]:
  "fld [] k = None"
  "fld ((k', v) # o') k = (if k' = k then Some v else fld o' k)"
  by (auto simp: fld_def)

text \<open>
  Functions of the host the runner calls on such values: \<open>JSON.parse\<close> (\<open>None\<close>: it throws a
  \<open>SyntaxError\<close> with the message \<open>hParseErr\<close> gives),
  \<open>JSON.stringify\<close> with and without indentation, and the two conversions of numbers to text. The
  definitions take them as an argument and no theorem assumes anything about them.
\<close>

record host =
  hParse :: "jsstring \<Rightarrow> jsval option"
  hParseErr :: "jsstring \<Rightarrow> jsstring"
  hStringify :: "jsval \<Rightarrow> jsstring"
  hPretty :: "jsval \<Rightarrow> jsstring"
  hNumStr :: "jsnum \<Rightarrow> jsstring"
  hToFixed :: "jsnum \<Rightarrow> nat \<Rightarrow> jsstring"

text \<open>A host for concrete runs of the model: it parses only the texts it is given, and prints nothing.\<close>

definition sampleHost :: "(jsstring \<times> jsval) list \<Rightarrow> host" where
  "sampleHost texts =
     \<lparr>hParse = map_of texts, hParseErr = (\<lambda>_. J ''unexpected token''), hStringify = (\<lambda>_. []), hPretty = (\<lambda>_. []),
      hNumStr = (\<lambda>_. []), hToFixed = (\<lambda>_ _. [])\<rparr>"

section \<open>Type guards\<close>

fun isRecord :: "jsval option \<Rightarrow> bool" where
  "isRecord (Some (JObj _)) = True"
| "isRecord _ = False"

fun isNonEmptyString :: "jsval option \<Rightarrow> bool" where
  "isNonEmptyString (Some (JStr s)) = (length s > 0)"
| "isNonEmptyString _ = False"

fun isFiniteNumber :: "jsval option \<Rightarrow> bool" where
  "isFiniteNumber (Some (JNum n)) = isFiniteN n"
| "isFiniteNumber _ = False"

text \<open>
  The value behind a guard that has succeeded. \<open>typeof v === "string"\<close> and its kin are the tests
  that these return a value.
\<close>

fun asRec :: "jsval option \<Rightarrow> jsobj option" where
  "asRec (Some (JObj o')) = Some o'"
| "asRec _ = None"

fun asStr :: "jsval option \<Rightarrow> jsstring option" where
  "asStr (Some (JStr s)) = Some s"
| "asStr _ = None"

fun asNum :: "jsval option \<Rightarrow> jsnum option" where
  "asNum (Some (JNum n)) = Some n"
| "asNum _ = None"

fun asBool :: "jsval option \<Rightarrow> bool option" where
  "asBool (Some (JBool b)) = Some b"
| "asBool _ = None"

fun asArr :: "jsval option \<Rightarrow> jsval list option" where
  "asArr (Some (JArr xs)) = Some xs"
| "asArr _ = None"

text \<open>A non-empty string, and a finite number, as the guards above accept them.\<close>

definition neStr :: "jsval option \<Rightarrow> jsstring option" where
  "neStr v = (case asStr v of Some s \<Rightarrow> if s = [] then None else Some s | None \<Rightarrow> None)"

definition finNum :: "jsval option \<Rightarrow> rat option" where
  "finNum v = (case asNum v of Some (Fin q) \<Rightarrow> Some q | _ \<Rightarrow> None)"

lemma isRecord_iff: "isRecord v \<longleftrightarrow> (\<exists>o'. asRec v = Some o')"
  by (cases v rule: isRecord.cases) simp_all

lemma asRec_Some [simp]: "asRec v = Some o' \<longleftrightarrow> v = Some (JObj o')"
  by (cases v rule: asRec.cases) auto

lemma asStr_Some [simp]: "asStr v = Some s \<longleftrightarrow> v = Some (JStr s)"
  by (cases v rule: asStr.cases) auto

lemma asNum_Some [simp]: "asNum v = Some n \<longleftrightarrow> v = Some (JNum n)"
  by (cases v rule: asNum.cases) auto

lemma asBool_Some [simp]: "asBool v = Some b \<longleftrightarrow> v = Some (JBool b)"
  by (cases v rule: asBool.cases) auto

lemma asArr_Some [simp]: "asArr v = Some xs \<longleftrightarrow> v = Some (JArr xs)"
  by (cases v rule: asArr.cases) auto

lemma neStr_Some [simp]: "neStr v = Some s \<longleftrightarrow> v = Some (JStr s) \<and> s \<noteq> []"
  by (auto simp: neStr_def split: option.splits)

lemma finNum_Some [simp]: "finNum v = Some q \<longleftrightarrow> v = Some (JNum (Fin q))"
  by (auto simp: finNum_def split: option.splits jsnum.splits)

lemma isNonEmptyString_iff: "isNonEmptyString v \<longleftrightarrow> (\<exists>s. neStr v = Some s)"
  by (cases v rule: isNonEmptyString.cases) simp_all

lemma isFiniteNumber_iff: "isFiniteNumber v \<longleftrightarrow> (\<exists>q. finNum v = Some q)"
  by (cases v rule: isFiniteNumber.cases) (simp_all add: isFiniteN_iff)

section \<open>Writing properties\<close>

text \<open>
  A key that is a canonical array index is enumerated before the others, in numeric order; every
  other new key is enumerated last. An existing key keeps its place.
\<close>

definition isIndexKey :: "jsstring \<Rightarrow> bool" where
  "isIndexKey k \<longleftrightarrow> k \<noteq> [] \<and> list_all (\<lambda>c. 48 \<le> c \<and> c \<le> 57) k \<and> (k = [48] \<or> hd k \<noteq> 48) \<and>
     digitsVal k 0 < 4294967295"

fun insertKey :: "jsstring \<Rightarrow> 'v \<Rightarrow> (jsstring \<times> 'v) list \<Rightarrow> (jsstring \<times> 'v) list" where
  "insertKey k v [] = [(k, v)]"
| "insertKey k v ((k', v') # ps) =
     (if isIndexKey k \<and> (\<not> isIndexKey k' \<or> digitsVal k 0 < digitsVal k' 0)
      then (k, v) # (k', v') # ps else (k', v') # insertKey k v ps)"

text \<open>\<open>{ ...obj, [k]: v }\<close>\<close>

definition defineProp :: "(jsstring \<times> 'v) list \<Rightarrow> jsstring \<Rightarrow> 'v \<Rightarrow> (jsstring \<times> 'v) list" where
  "defineProp ps k v =
     (if k \<in> fst ` set ps then map (\<lambda>(k', v'). (k', if k' = k then v else v')) ps
      else insertKey k v ps)"

text \<open>
  \<open>obj[k] = v\<close>: assigning \<open>__proto__\<close> on a plain object that has no property of that name runs the
  inherited setter and creates none.
\<close>

definition assignProp :: "(jsstring \<times> 'v) list \<Rightarrow> jsstring \<Rightarrow> 'v \<Rightarrow> (jsstring \<times> 'v) list" where
  "assignProp ps k v =
     (if k = J ''__proto__'' \<and> k \<notin> fst ` set ps then ps else defineProp ps k v)"

text \<open>\<open>delete obj[k]\<close>\<close>

definition deleteProp :: "(jsstring \<times> 'v) list \<Rightarrow> jsstring \<Rightarrow> (jsstring \<times> 'v) list" where
  "deleteProp ps k = filter (\<lambda>(k', _). k' \<noteq> k) ps"

lemma insertKey_split: "\<exists>xs ys. ps = xs @ ys \<and> insertKey k v ps = xs @ (k, v) # ys"
proof (induction ps)
  case (Cons p ps)
  then obtain xs ys where "ps = xs @ ys" "insertKey k v ps = xs @ (k, v) # ys" by blast
  then have "p # ps = (p # xs) @ ys" "p # insertKey k v ps = (p # xs) @ (k, v) # ys" by simp_all
  then show ?case by (cases p) (metis append_Nil insertKey.simps(2))
qed simp

lemma set_insertKey [simp]: "set (insertKey k v ps) = insert (k, v) (set ps)"
  using insertKey_split [of ps k v] by auto

lemma distinct_insertKey [simp]:
  "distinct (map fst (insertKey k v ps)) \<longleftrightarrow> k \<notin> fst ` set ps \<and> distinct (map fst ps)"
proof -
  obtain xs ys where "ps = xs @ ys" "insertKey k v ps = xs @ (k, v) # ys"
    using insertKey_split [of ps k v] by blast
  then show ?thesis by (simp add: image_Un) blast
qed

lemma fld_insertKey: "k \<notin> fst ` set ps \<Longrightarrow> fld (insertKey k v ps) = (fld ps)(k \<mapsto> v)"
  by (induction ps) (auto simp: fun_eq_iff)

lemma fld_replace:
  "fld (map (\<lambda>(k', v'). (k', if k' = k then v else v')) ps) x =
     (if x = k then map_option (\<lambda>_. v) (fld ps k) else fld ps x)"
  by (induction ps) auto

lemma fld_None_iff: "fld ps k = None \<longleftrightarrow> k \<notin> fst ` set ps"
  by (simp add: fld_def map_of_eq_None_iff)

lemma fld_defineProp: "fld (defineProp ps k v) = (fld ps)(k \<mapsto> v)"
proof (cases "k \<in> fst ` set ps")
  case True
  then obtain w where "fld ps k = Some w" using fld_None_iff [of ps k] by auto
  with True show ?thesis by (auto simp: defineProp_def fld_replace fun_eq_iff)
next
  case False
  then show ?thesis by (simp add: defineProp_def fld_insertKey)
qed

lemma distinct_defineProp [simp]:
  "distinct (map fst ps) \<Longrightarrow> distinct (map fst (defineProp ps k v))"
  by (auto simp: defineProp_def comp_def case_prod_beta')

lemma fld_assignProp:
  "fld (assignProp ps k v) =
     (if k = J ''__proto__'' \<and> k \<notin> fst ` set ps then fld ps else (fld ps)(k \<mapsto> v))"
  unfolding assignProp_def by (rule if_split [THEN iffD2]) (auto simp: fld_defineProp)

lemma distinct_assignProp [simp]:
  "distinct (map fst ps) \<Longrightarrow> distinct (map fst (assignProp ps k v))"
  by (simp add: assignProp_def)

lemma fld_deleteProp: "fld (deleteProp ps k) = (fld ps)(k := None)"
  by (induction ps) (auto simp: deleteProp_def fun_eq_iff)

lemma distinct_deleteProp [simp]:
  "distinct (map fst ps) \<Longrightarrow> distinct (map fst (deleteProp ps k))"
  by (auto simp: deleteProp_def distinct_map intro: inj_on_subset)

section \<open>The store interface\<close>

text \<open>
  What the runner relies on when it keeps values under string keys: a lookup after a write returns
  what was written and leaves the other keys alone, and no key is held twice. Dictionaries built by
  computed keys and the client's \<open>Map\<close> of pending requests are both such stores.
\<close>

locale keyed_store =
  fixes get :: "'s \<Rightarrow> 'k \<Rightarrow> 'v option"
    and put :: "'s \<Rightarrow> 'k \<Rightarrow> 'v \<Rightarrow> 's"
    and remove :: "'s \<Rightarrow> 'k \<Rightarrow> 's"
    and valid :: "'s \<Rightarrow> bool"
  assumes get_put: "valid s \<Longrightarrow> get (put s k v) = (get s)(k \<mapsto> v)"
    and get_remove: "valid s \<Longrightarrow> get (remove s k) = (get s)(k := None)"
    and valid_put: "valid s \<Longrightarrow> valid (put s k v)"
    and valid_remove: "valid s \<Longrightarrow> valid (remove s k)"
begin

lemma get_put_same: "valid s \<Longrightarrow> get (put s k v) k = Some v"
  by (simp add: get_put)

lemma get_put_other: "valid s \<Longrightarrow> k' \<noteq> k \<Longrightarrow> get (put s k v) k' = get s k'"
  by (simp add: get_put)

lemma remove_put: "valid s \<Longrightarrow> get (remove (put s k v) k) = (get s)(k := None)"
  by (simp add: get_remove get_put valid_put)

text \<open>Writes under different keys, in any number, keep what was written before them.\<close>

lemma get_fold_put:
  "valid s \<Longrightarrow> k \<notin> fst ` set kvs \<Longrightarrow> get (foldl (\<lambda>s (k, v). put s k v) s kvs) k = get s k"
  by (induction kvs arbitrary: s) (auto simp: get_put_other valid_put)

end

interpretation props: keyed_store fld defineProp deleteProp "\<lambda>ps. distinct (map fst ps)"
  by unfold_locales (simp_all add: fld_defineProp fld_deleteProp)

end
