(* ===== verification/Types.thy ===== *)
theory Types
  imports Json
begin

text \<open>
  \<^verbatim>\<open>src/runner/src/types.ts\<close>: the custom resources, the JSON-RPC and report shapes, the error classes
  and the validators of resources read from the API server. Interfaces are records whose fields
  carry a prefix (Isabelle field names are global), string unions are datatypes with the function
  that gives their text. Optional properties are options.
\<close>

section \<open>Constants\<close>

definition API_GROUP :: jsstring where "API_GROUP = J ''security.eval.io''"
definition API_VERSION :: jsstring where "API_VERSION = J ''v1alpha1''"
definition PLURAL_AGENTS :: jsstring where "PLURAL_AGENTS = J ''opencodeagents''"
definition PLURAL_SERVERS :: jsstring where "PLURAL_SERVERS = J ''mcpservers''"
definition PLURAL_RUNS :: jsstring where "PLURAL_RUNS = J ''mcpevaluationruns''"

definition apiVersionDefault :: jsstring where
  "apiVersionDefault = API_GROUP @ J ''/'' @ API_VERSION"

section \<open>Custom resources\<close>

record ObjectMeta =
  om_name :: jsstring
  om_namespace :: "jsstring option"
  om_uid :: "jsstring option"
  om_labels :: "(jsstring \<times> jsstring) list option"
  om_annotations :: "(jsstring \<times> jsstring) list option"

type_synonym JsonSchema = jsobj

record OpenCodeAgentModel =
  am_providerID :: jsstring
  am_modelID :: jsstring
  am_contextTokens :: "int option"

record OpenCodeAgentConfig =
  ac_timeoutMs :: "rat option"
  ac_retryCount :: "int option"

text \<open>\<open>type\<close> is always \<open>"json_schema"\<close>.\<close>

record OpenCodeAgentOutputFormat =
  of_schema :: JsonSchema

record OpenCodeAgentSpec =
  as_role :: jsstring
  as_model :: OpenCodeAgentModel
  as_config :: OpenCodeAgentConfig
  as_systemPrompt :: jsstring
  as_outputFormat :: OpenCodeAgentOutputFormat

text \<open>\<open>kind\<close> is always \<open>"OpenCodeAgent"\<close>.\<close>

record OpenCodeAgent =
  oa_apiVersion :: jsstring
  oa_metadata :: ObjectMeta
  oa_spec :: OpenCodeAgentSpec

datatype Transport = Stdio | Sse

record MCPServerSpec =
  ms_repositoryUrl :: jsstring
  ms_ref :: jsstring
  ms_path :: "jsstring option"
  ms_transport :: Transport
  ms_targetPort :: rat
  ms_schedule :: jsstring
  ms_active :: bool
  ms_credentialsSecretRef :: "jsstring option"
  ms_agentSuite :: "jsstring list"
  ms_timeoutSeconds :: "rat option"

record MCPServer =
  srv_apiVersion :: jsstring
  srv_metadata :: ObjectMeta
  srv_spec :: MCPServerSpec

datatype RunPhase = Pending | Cloning | Running | Evaluating | Completed | Failed

datatype RiskCategory = Safe | Caution | Untrusted | Malicious | UnknownRisk

datatype Severity = Critical | High | Medium | Low | Info

fun riskStr :: "RiskCategory \<Rightarrow> jsstring" where
  "riskStr Safe = J ''Safe''"
| "riskStr Caution = J ''Caution''"
| "riskStr Untrusted = J ''Untrusted''"
| "riskStr Malicious = J ''Malicious''"
| "riskStr UnknownRisk = J ''Unknown''"

fun severityStr :: "Severity \<Rightarrow> jsstring" where
  "severityStr Critical = J ''Critical''"
| "severityStr High = J ''High''"
| "severityStr Medium = J ''Medium''"
| "severityStr Low = J ''Low''"
| "severityStr Info = J ''Info''"

text \<open>Scores are integers: every one the runner stores went through \<open>Math.round\<close>.\<close>

record ScoringBlock =
  sc_safetyScore :: int
  sc_reliabilityScore :: int
  sc_riskCategory :: RiskCategory
  sc_summary :: jsstring

record Finding =
  fi_agent :: jsstring
  fi_severity :: Severity
  fi_title :: jsstring
  fi_description :: jsstring
  fi_remediation :: "jsstring option"

text \<open>\<open>Partial<MCPEvaluationRunStatus>\<close>: the body of a status patch; \<open>None\<close> leaves the field alone.\<close>

record StatusPatch =
  sp_phase :: "RunPhase option"
  sp_currentAgent :: "jsstring option"
  sp_agentResults :: "(jsstring \<times> jsval) list option"
  sp_finalScore :: "int option"
  sp_scoring :: "ScoringBlock option"
  sp_findings :: "Finding list option"
  sp_message :: "jsstring option"

definition emptyPatch :: StatusPatch where
  "emptyPatch = \<lparr>sp_phase = None, sp_currentAgent = None, sp_agentResults = None,
     sp_finalScore = None, sp_scoring = None, sp_findings = None, sp_message = None\<rparr>"

section \<open>Runner environment\<close>

record RunnerEnv =
  re_runName :: jsstring
  re_runNamespace :: jsstring
  re_serverName :: jsstring
  re_agentNames :: "jsstring list"
  re_transport :: Transport
  re_targetPort :: int
  re_workspaceDir :: jsstring
  re_ipcDir :: jsstring
  re_outputDir :: jsstring
  re_opencodePort :: int
  re_dryRun :: bool
  re_vigilUrl :: jsstring
  re_vigilGpuUrl :: "jsstring option"
  re_vigilEnabled :: bool
  re_vigilEnforce :: bool
  re_vigilTimeoutMs :: int
  re_vigilMaxPayloadBytes :: int
  re_vigilTransformerThreshold :: rat
  re_occludraBaseUrl :: jsstring
  re_occludraEnabled :: bool
  re_meshProxyUrl :: "jsstring option"
  re_meshBridgePort :: int
  re_meshReadyTimeoutMs :: int

section \<open>JSON-RPC and MCP\<close>

record JsonRpcError =
  je_code :: jsnum
  je_message :: jsstring
  je_data :: "jsval option"

record McpToolDefinition =
  td_name :: jsstring
  td_description :: "jsstring option"
  td_inputSchema :: "JsonSchema option"
  td_annotations :: "jsobj option"

record McpPromptArgument =
  pa_name :: jsstring
  pa_description :: "jsstring option"
  pa_required :: "bool option"

record McpPromptDefinition =
  pd_name :: jsstring
  pd_description :: "jsstring option"
  pd_arguments :: "McpPromptArgument list"

record McpResourceDefinition =
  rd_uri :: jsstring
  rd_name :: "jsstring option"
  rd_description :: "jsstring option"
  rd_mimeType :: "jsstring option"

record McpInitializeResult =
  ir_protocolVersion :: jsstring
  ir_capabilities :: jsobj
  ir_serverName :: "jsstring option"
  ir_serverVersion :: "jsstring option"
  ir_instructions :: "jsstring option"

text \<open>Outcome of one request. Times are whole milliseconds (differences of \<open>Date.now()\<close>).\<close>

record RpcOutcome =
  ro_ok :: bool
  ro_result :: "jsval option"
  ro_error :: "JsonRpcError option"
  ro_hang :: bool
  ro_crashed :: bool
  ro_latencyMs :: int
  ro_transportError :: "jsstring option"

section \<open>Telemetry\<close>

record LatencyStats =
  ls_count :: nat
  ls_avgMs :: rat
  ls_p95Ms :: int
  ls_maxMs :: int
  ls_minMs :: int

record Telemetry =
  te_initializeOk :: bool
  te_protocolVersion :: jsstring
  te_serverName :: "jsstring option"
  te_serverVersion :: "jsstring option"
  te_toolsCount :: nat
  te_promptsCount :: nat
  te_resourcesCount :: nat
  te_fuzzCases :: nat
  te_crashes :: nat
  te_avgLatencyMs :: rat
  te_p95LatencyMs :: int
  te_maxLatencyMs :: int
  te_hangs :: nat
  te_malformedFrames :: nat
  te_unsolicitedRequests :: nat
  te_notifications :: nat

section \<open>Fuzzing\<close>

datatype FuzzCategory =
    FBoundary | FTypeMismatch | FNullRequired | FMissingRequired | FExtraProps
  | FPrototypePollution | FPathTraversal | FCommandInjection | FUnicode | FOversize
  | FDeepNesting | FProtocol

record FuzzCase =
  fc_id :: jsstring
  fc_tool :: jsstring
  fc_category :: FuzzCategory
  fc_description :: jsstring
  fc_args :: "jsval option"
  fc_rawFrame :: "jsstring option"

datatype FuzzErrorClass =
    FOk | FJsonrpcError | FToolError | FHang | FCrash | FTransportError | FMalformedResponse

record FuzzCaseResult =
  fr_caseId :: jsstring
  fr_tool :: jsstring
  fr_category :: FuzzCategory
  fr_description :: jsstring
  fr_errorClass :: FuzzErrorClass
  fr_latencyMs :: int
  fr_errorCode :: "jsnum option"
  fr_errorMessage :: "jsstring option"
  fr_transportError :: "jsstring option"
  fr_responseExcerpt :: "jsstring option"
  fr_echoOfInput :: bool

record NotableResponse =
  nr_caseId :: jsstring
  nr_tool :: jsstring
  nr_reason :: jsstring
  nr_excerpt :: jsstring

record FuzzReport =
  fz_cases :: "FuzzCaseResult list"
  fz_totalCases :: nat
  fz_crashes :: nat
  fz_hangs :: nat
  fz_errorsByClass :: "FuzzErrorClass \<Rightarrow> nat"
  fz_latency :: LatencyStats
  fz_notableResponses :: "NotableResponse list"
  fz_timeBudgetExhausted :: bool

section \<open>Adversarial probes\<close>

datatype DetectorFlag =
    InjectionMarker | HiddenInstruction | Base64Instruction | ZeroWidthChars | ExfilMarker
  | SsrfIndicator | HostFileRead | EnvLeak | AbsolutePathLeak

fun flagStr :: "DetectorFlag \<Rightarrow> jsstring" where
  "flagStr InjectionMarker = J ''injection-marker''"
| "flagStr HiddenInstruction = J ''hidden-instruction''"
| "flagStr Base64Instruction = J ''base64-instruction''"
| "flagStr ZeroWidthChars = J ''zero-width-chars''"
| "flagStr ExfilMarker = J ''exfil-marker''"
| "flagStr SsrfIndicator = J ''ssrf-indicator''"
| "flagStr HostFileRead = J ''host-file-read''"
| "flagStr EnvLeak = J ''env-leak''"
| "flagStr AbsolutePathLeak = J ''absolute-path-leak''"

record DetectorHit =
  dh_flag :: DetectorFlag
  dh_pattern :: jsstring
  dh_excerpt :: jsstring

record ToolProbeResult =
  tp_tool :: jsstring
  tp_argsUsed :: jsval
  tp_ok :: bool
  tp_isError :: bool
  tp_latencyMs :: int
  tp_hang :: bool
  tp_crashed :: bool
  tp_outputExcerpt :: jsstring
  tp_fromServer :: "bool option"
  tp_hits :: "DetectorHit list"

datatype ProbeKind = KSsrf | KHostFileRead | KPathTraversal

fun probeKindStr :: "ProbeKind \<Rightarrow> jsstring" where
  "probeKindStr KSsrf = J ''ssrf''"
| "probeKindStr KHostFileRead = J ''host-file-read''"
| "probeKindStr KPathTraversal = J ''path-traversal''"

record ActiveProbeResult =
  ap_tool :: jsstring
  ap_parameter :: jsstring
  ap_payload :: jsstring
  ap_kind :: ProbeKind
  ap_ok :: bool
  ap_succeeded :: bool
  ap_latencyMs :: int
  ap_evidence :: jsstring
  ap_fromServer :: "bool option"
  ap_echoOfInput :: bool

record ProbeFlags =
  pf_promptInjectionDetected :: bool
  pf_exfiltrationAttemptDetected :: bool
  pf_ssrfPossible :: bool
  pf_hostFileReadPossible :: bool
  pf_unsolicitedServerRequests :: bool
  pf_silentSecondaryActions :: bool

record ProbeReport =
  pr_benignCalls :: "ToolProbeResult list"
  pr_activeProbes :: "ActiveProbeResult list"
  pr_unsolicitedRequests :: "(jsstring \<times> nat) list"
  pr_notificationsCount :: nat
  pr_serverInstructionsHits :: "DetectorHit list"
  pr_toolDescriptionHits :: "(jsstring \<times> DetectorHit list) list"
  pr_flags :: ProbeFlags

section \<open>Static evidence\<close>

record ManifestFile =
  mf_path :: jsstring
  mf_content :: jsstring
  mf_truncated :: bool

datatype Ecosystem = Npm | Pypi | GoMod | Cargo

record DependencyEntry =
  de_ecosystem :: Ecosystem
  de_name :: jsstring
  de_version :: jsstring
  de_source :: jsstring

record SinkHit =
  sh_file :: jsstring
  sh_line :: nat
  sh_pattern :: jsstring
  sh_category :: jsstring
  sh_snippet :: jsstring

record RegistrationHit =
  rh_file :: jsstring
  rh_line :: nat
  rh_pattern :: jsstring
  rh_snippet :: jsstring

record StaticEvidence =
  se_runtime :: jsstring
  se_fileCount :: nat
  se_filesSampled :: "jsstring list"
  se_manifests :: "ManifestFile list"
  se_dependencies :: "DependencyEntry list"
  se_registrations :: "RegistrationHit list"
  se_sinks :: "SinkHit list"
  se_launchFile :: jsval
  se_truncated :: bool
  se_totalBytes :: nat

section \<open>Report\<close>

datatype AgentKind = KStatic | KDynamic | KAdversarial | KSynthesis | KGeneric

record AgentRunRecord =
  ar_role :: jsstring
  ar_kind :: AgentKind
  ar_model :: jsstring
  ar_durationMs :: int
  ar_statusOk :: bool
  ar_error :: "jsstring option"
  ar_structuredOutput :: "jsval option"

record VigilDetectionRecord =
  vd_source :: jsstring
  vd_segment :: "jsstring option"
  vd_confidence :: "rat option"
  vd_scanners :: "jsstring list"
  vd_excerpt :: jsstring
  vd_abortive :: bool

record VigilScannerHit =
  vh_scanner :: jsstring
  vh_score :: "jsnum option"
  vh_detail :: "jsstring option"

record VigilWarningRecord =
  vw_source :: jsstring
  vw_segment :: jsstring
  vw_scanners :: "jsstring list"
  vw_hits :: "VigilScannerHit list"
  vw_excerpt :: jsstring

record VigilGateRecord =
  vg_enabled :: bool
  vg_enforced :: bool
  vg_url :: jsstring
  vg_transformerThreshold :: rat
  vg_payloadsScanned :: nat
  vg_detections :: "VigilDetectionRecord list"
  vg_warnings :: "VigilWarningRecord list"
  vg_unavailableErrors :: nat

record SecurityGateReport =
  sg_vigil :: VigilGateRecord
  sg_occludraEnabled :: bool
  sg_occludraBaseUrl :: jsstring
  sg_meshProxyUrl :: "jsstring option"
  sg_meshBridgePort :: "int option"

record StaticEvidenceSummary =
  ss_fileCount :: nat
  ss_dependencyCount :: nat
  ss_sinkCount :: nat
  ss_registrationCount :: nat

record EvaluationReport =
  er_runName :: jsstring
  er_serverName :: jsstring
  er_startedAt :: jsstring
  er_finishedAt :: jsstring
  er_transport :: Transport
  er_agents :: "(jsstring \<times> AgentRunRecord) list"
  er_telemetry :: Telemetry
  er_probes :: "ProbeReport option"
  er_fuzz :: "FuzzReport option"
  er_staticEvidenceSummary :: "StaticEvidenceSummary option"
  er_finalScore :: int
  er_scoring :: ScoringBlock
  er_findings :: "Finding list"
  er_securityGate :: SecurityGateReport
  er_degraded :: bool
  er_phase :: RunPhase
  er_message :: jsstring

record TerminationMessage =
  tm_phase :: RunPhase
  tm_finalScore :: int
  tm_riskCategory :: RiskCategory
  tm_message :: jsstring

section \<open>Synthesis output\<close>

record RemediationItem =
  ri_title :: jsstring
  ri_severity :: Severity
  ri_description :: jsstring
  ri_codeGuidance :: jsstring

record SynthesisOutput =
  so_safetyScore :: int
  so_reliabilityScore :: int
  so_riskCategory :: RiskCategory
  so_summary :: jsstring
  so_remediationPlan :: "RemediationItem list"
  so_findings :: "Finding list"

end
