(* ===== verification/Resources.thy ===== *)
theory Resources
  imports Types
begin

text \<open>
  The second half of \<^verbatim>\<open>src/runner/src/types.ts\<close>: the error classes, the guards of string unions and
  the validators \<open>assertOpenCodeAgent\<close> and \<open>assertMCPServer\<close>, through which every resource read from
  the API server passes before the evaluation uses it.
\<close>

section \<open>Error classes\<close>

text \<open>
  One constructor per class, with the arguments of the class's constructor; \<open>RunnerErrorBase\<close> is the
  base class. What the class passes to \<open>super\<close> (name, stage and message) is computed from them.
\<close>

datatype RunnerError =
    RunnerErrorBase jsstring jsstring jsstring
  | AgentTimeoutError jsstring rat
  | StructuredOutputExhaustedError jsstring int jsstring
  | TargetCrashError jsstring
  | MalformedFrameError jsstring jsstring
  | TargetUnavailableError jsstring
  | AgentPromptError jsstring jsstring
  | ConfigurationError jsstring
  | VigilInjectionError jsstring "rat option" "jsstring list" jsstring
  | VigilUnavailableError jsstring jsstring
  | MeshTransportError jsstring
  | RunTerminatedError jsstring

text \<open>\<open>"${s}"\<close> with its double quotes.\<close>

definition quot :: "jsstring \<Rightarrow> jsstring" where
  "quot s = [34] @ s @ [34]"

fun runnerName :: "RunnerError \<Rightarrow> jsstring" where
  "runnerName (RunnerErrorBase name _ _) = name"
| "runnerName (AgentTimeoutError _ _) = J ''AgentTimeoutError''"
| "runnerName (StructuredOutputExhaustedError _ _ _) = J ''StructuredOutputExhaustedError''"
| "runnerName (TargetCrashError _) = J ''TargetCrashError''"
| "runnerName (MalformedFrameError _ _) = J ''MalformedFrameError''"
| "runnerName (TargetUnavailableError _) = J ''TargetUnavailableError''"
| "runnerName (AgentPromptError _ _) = J ''AgentPromptError''"
| "runnerName (ConfigurationError _) = J ''ConfigurationError''"
| "runnerName (VigilInjectionError _ _ _ _) = J ''VigilInjectionError''"
| "runnerName (VigilUnavailableError _ _) = J ''VigilUnavailableError''"
| "runnerName (MeshTransportError _) = J ''MeshTransportError''"
| "runnerName (RunTerminatedError _) = J ''RunTerminatedError''"

fun runnerStage :: "RunnerError \<Rightarrow> jsstring" where
  "runnerStage (RunnerErrorBase _ stage _) = stage"
| "runnerStage (AgentTimeoutError agent _) = J ''agent:'' @ agent"
| "runnerStage (StructuredOutputExhaustedError agent _ _) = J ''agent:'' @ agent"
| "runnerStage (TargetCrashError _) = J ''target''"
| "runnerStage (MalformedFrameError _ _) = J ''target''"
| "runnerStage (TargetUnavailableError _) = J ''target''"
| "runnerStage (AgentPromptError agent _) = J ''agent:'' @ agent"
| "runnerStage (ConfigurationError _) = J ''config''"
| "runnerStage (VigilInjectionError source _ _ _) = J ''vigil:'' @ source"
| "runnerStage (VigilUnavailableError source _) = J ''vigil:'' @ source"
| "runnerStage (MeshTransportError _) = J ''mesh''"
| "runnerStage (RunTerminatedError _) = J ''signal''"

fun runnerMessage :: "host \<Rightarrow> RunnerError \<Rightarrow> jsstring" where
  "runnerMessage h (RunnerErrorBase _ _ message) = message"
| "runnerMessage h (AgentTimeoutError agent ms) =
     J ''agent '' @ quot agent @ J '' exceeded timeout of '' @ hNumStr h (Fin ms) @ J ''ms''"
| "runnerMessage h (StructuredOutputExhaustedError agent retries detail) =
     J ''agent '' @ quot agent @ J '' failed to produce schema-conformant output after '' @
     showInt retries @ J '' retries: '' @ detail"
| "runnerMessage h (TargetCrashError detail) = J ''target MCP server crashed: '' @ detail"
| "runnerMessage h (MalformedFrameError _ detail) =
     J ''malformed JSON-RPC frame from target: '' @ detail"
| "runnerMessage h (TargetUnavailableError detail) = J ''target MCP server unavailable: '' @ detail"
| "runnerMessage h (AgentPromptError agent detail) =
     J ''agent '' @ quot agent @ J '' prompt failed: '' @ detail"
| "runnerMessage h (ConfigurationError detail) = detail"
| "runnerMessage h (VigilInjectionError source confidence scanners excerpt) =
     J ''Vigil-LLM detected prompt injection in untrusted content from '' @ quot source @
     (if length scanners > 0 then J '' (scanners: '' @ joinS (J '', '') scanners @ J '')'' else []) @
     (case confidence of Some c \<Rightarrow> J '' confidence='' @ hToFixed h (Fin c) 2 | None \<Rightarrow> []) @
     J '' '' @ [8212] @ J '' excerpt: '' @ excerpt"
| "runnerMessage h (VigilUnavailableError source detail) =
     J ''Vigil-LLM scan failed for '' @ quot source @ J '': '' @ detail"
| "runnerMessage h (MeshTransportError detail) = J ''mesh transport failure: '' @ detail"
| "runnerMessage h (RunTerminatedError signal) = J ''run terminated by '' @ signal"

text \<open>
  What a \<open>catch (err: unknown)\<close> may receive: one of the classes above, another \<open>Error\<close> by its name
  and message, or a value that is no \<open>Error\<close>.
\<close>

datatype thrown = Runner RunnerError | BuiltinError jsstring jsstring | NonError jsval

fun errorMessage :: "host \<Rightarrow> thrown \<Rightarrow> jsstring" where
  "errorMessage h (Runner e) = runnerName e @ J '': '' @ runnerMessage h e"
| "errorMessage h (BuiltinError name message) = name @ J '': '' @ message"
| "errorMessage h (NonError v) = (case v of JStr s \<Rightarrow> s | _ \<Rightarrow> hStringify h v)"

fun errorName :: "thrown \<Rightarrow> jsstring" where
  "errorName (Runner e) = runnerName e"
| "errorName (BuiltinError name message) = name"
| "errorName (NonError v) = J ''UnknownError''"

section \<open>String unions\<close>

definition RISK_CATEGORIES :: "RiskCategory list" where
  "RISK_CATEGORIES = [Safe, Caution, Untrusted, Malicious, UnknownRisk]"

definition SEVERITIES :: "Severity list" where
  "SEVERITIES = [Critical, High, Medium, Low, Info]"

text \<open>The member with the given text: the guards below with the value they narrow to.\<close>

definition asRiskCategory :: "jsval option \<Rightarrow> RiskCategory option" where
  "asRiskCategory v =
     (case asStr v of Some s \<Rightarrow> find (\<lambda>c. riskStr c = s) RISK_CATEGORIES | None \<Rightarrow> None)"

definition asSeverity :: "jsval option \<Rightarrow> Severity option" where
  "asSeverity v =
     (case asStr v of Some s \<Rightarrow> find (\<lambda>c. severityStr c = s) SEVERITIES | None \<Rightarrow> None)"

definition isRiskCategory :: "jsval option \<Rightarrow> bool" where
  "isRiskCategory v = (asRiskCategory v \<noteq> None)"

definition isSeverity :: "jsval option \<Rightarrow> bool" where
  "isSeverity v = (asSeverity v \<noteq> None)"

lemma asRiskCategory_riskStr [simp]: "asRiskCategory (Some (JStr (riskStr c))) = Some c"
  by (cases c) (simp_all add: asRiskCategory_def RISK_CATEGORIES_def)

lemma asSeverity_severityStr [simp]: "asSeverity (Some (JStr (severityStr c))) = Some c"
  by (cases c) (simp_all add: asSeverity_def SEVERITIES_def)

lemma isSeverity_iff: "isSeverity v \<longleftrightarrow> (\<exists>c. v = Some (JStr (severityStr c)))"
proof
  assume "isSeverity v"
  then obtain s where s: "v = Some (JStr s)" and "find (\<lambda>c. severityStr c = s) SEVERITIES \<noteq> None"
    by (auto simp: isSeverity_def asSeverity_def split: option.splits)
  then obtain c where "severityStr c = s" by (auto simp: find_None_iff)
  with s show "\<exists>c. v = Some (JStr (severityStr c))" by auto
qed (auto simp: isSeverity_def)

section \<open>Validators\<close>

fun stringRecord :: "jsobj \<Rightarrow> (jsstring \<times> jsstring) list" where
  "stringRecord [] = []"
| "stringRecord ((k, v) # ps) =
     (case v of JStr s \<Rightarrow> if k = J ''__proto__'' then stringRecord ps else (k, s) # stringRecord ps
      | _ \<Rightarrow> stringRecord ps)"

definition agentErr :: "jsstring \<Rightarrow> string \<Rightarrow> RunnerError" where
  "agentErr name detail = ConfigurationError (J ''OpenCodeAgent '' @ name @ J '': '' @ J detail)"

text \<open>\<open>spec.config\<close>: the part of \<open>assertOpenCodeAgent\<close> that reads the two optional numbers.\<close>

definition agentConfig :: "jsstring \<Rightarrow> jsval option \<Rightarrow> RunnerError + OpenCodeAgentConfig" where
  "agentConfig name rawConfig =
     (case asRec rawConfig of
        None \<Rightarrow> Inr \<lparr>ac_timeoutMs = None, ac_retryCount = None\<rparr>
      | Some c \<Rightarrow>
          bindR (case fld c (J ''timeoutMs'') of
                   None \<Rightarrow> Inr None
                 | Some v \<Rightarrow>
                     (case finNum (Some v) of
                        Some t \<Rightarrow> if t \<le> 0
                          then Inl (agentErr name ''spec.config.timeoutMs must be a positive number'')
                          else Inr (Some t)
                      | None \<Rightarrow> Inl (agentErr name ''spec.config.timeoutMs must be a positive number'')))
          (\<lambda>timeoutMs.
           bindR (case fld c (J ''retryCount'') of
                    None \<Rightarrow> Inr None
                  | Some v \<Rightarrow>
                      (case finNum (Some v) of
                         Some r \<Rightarrow> if r < 0
                           then Inl (agentErr name ''spec.config.retryCount must be a non-negative number'')
                           else Inr (Some \<lfloor>r\<rfloor>)
                       | None \<Rightarrow> Inl (agentErr name ''spec.config.retryCount must be a non-negative number'')))
           (\<lambda>retryCount. Inr \<lparr>ac_timeoutMs = timeoutMs, ac_retryCount = retryCount\<rparr>)))"

text \<open>\<open>spec.model\<close>: both identifiers, then the optional context window.\<close>

definition agentContextTokens :: "jsstring \<Rightarrow> jsval option \<Rightarrow> RunnerError + int option" where
  "agentContextTokens name v =
     (let e = agentErr name ''spec.model.contextTokens must be a number >= 1024'' in
      if v = None then Inr None
      else bindR (needR e (finNum v)) (\<lambda>t. if t < 1024 then Inl e else Inr (Some \<lfloor>t\<rfloor>)))"

definition agentModel :: "jsstring \<Rightarrow> jsval option \<Rightarrow> RunnerError + OpenCodeAgentModel" where
  "agentModel name rawModel =
     (let e = agentErr name ''spec.model.providerID and spec.model.modelID are required'' in
      bindR (needR e (asRec rawModel)) (\<lambda>model.
      bindR (needR e (neStr (fld model (J ''providerID'')))) (\<lambda>providerID.
      bindR (needR e (neStr (fld model (J ''modelID'')))) (\<lambda>modelID.
      bindR (agentContextTokens name (fld model (J ''contextTokens''))) (\<lambda>contextTokens. Inr \<lparr>am_providerID = providerID, am_modelID = modelID,
                           am_contextTokens = contextTokens\<rparr>)))))"

text \<open>\<open>spec.outputFormat\<close>: \<open>{ type: "json_schema", schema: <object> }\<close>.\<close>

definition agentFormat :: "jsstring \<Rightarrow> jsval option \<Rightarrow> RunnerError + OpenCodeAgentOutputFormat" where
  "agentFormat name rawFormat =
     (let e = ConfigurationError (J ''OpenCodeAgent '' @ name @
                J '': spec.outputFormat must be { type: '' @ quot (J ''json_schema'') @
                J '', schema: <object> }'') in
      bindR (needR e (asRec rawFormat)) (\<lambda>f.
      bindR (guardR (fld f (J ''type'') = Some (JStr (J ''json_schema''))) e) (\<lambda>_.
      bindR (needR e (asRec (fld f (J ''schema'')))) (\<lambda>schema. Inr \<lparr>of_schema = schema\<rparr>))))"

definition agentMeta :: "jsobj \<Rightarrow> jsstring \<Rightarrow> ObjectMeta" where
  "agentMeta metadata name =
     \<lparr>om_name = name,
      om_namespace = asStr (fld metadata (J ''namespace'')),
      om_uid = asStr (fld metadata (J ''uid'')),
      om_labels = map_option stringRecord (asRec (fld metadata (J ''labels''))),
      om_annotations = map_option stringRecord (asRec (fld metadata (J ''annotations'')))\<rparr>"

definition assertOpenCodeAgent :: "jsval \<Rightarrow> RunnerError + OpenCodeAgent" where
  "assertOpenCodeAgent v =
     bindR (needR (ConfigurationError (J ''OpenCodeAgent object is not an object'')) (asRec (Some v)))
     (\<lambda>obj.
     bindR (needR (ConfigurationError (J ''OpenCodeAgent.metadata.name is missing''))
              (asRec (fld obj (J ''metadata'')))) (\<lambda>metadata.
     bindR (needR (ConfigurationError (J ''OpenCodeAgent.metadata.name is missing''))
              (neStr (fld metadata (J ''name'')))) (\<lambda>name.
     bindR (needR (agentErr name ''spec is missing'') (asRec (fld obj (J ''spec'')))) (\<lambda>spec.
     bindR (needR (agentErr name ''spec.role is required'') (neStr (fld spec (J ''role'')))) (\<lambda>role.
     bindR (agentModel name (fld spec (J ''model''))) (\<lambda>model.
     bindR (needR (agentErr name ''spec.systemPrompt is required'')
              (neStr (fld spec (J ''systemPrompt'')))) (\<lambda>systemPrompt.
     bindR (agentFormat name (fld spec (J ''outputFormat''))) (\<lambda>outputFormat.
     bindR (agentConfig name (fld spec (J ''config''))) (\<lambda>config. Inr
        \<lparr>oa_apiVersion = (case asStr (fld obj (J ''apiVersion'')) of
                            Some s \<Rightarrow> s | None \<Rightarrow> apiVersionDefault),
         oa_metadata = agentMeta metadata name,
         oa_spec =
           \<lparr>as_role = role,
            as_model = model,
            as_config = config,
            as_systemPrompt = systemPrompt,
            as_outputFormat = outputFormat\<rparr>\<rparr>)))))))))"

fun agentSuiteNames :: "jsval list \<Rightarrow> jsstring list" where
  "agentSuiteNames [] = []"
| "agentSuiteNames (entry # es) =
     (case Option.bind (asRec (Some entry)) (\<lambda>e. neStr (fld e (J ''name''))) of
        Some name \<Rightarrow> name # agentSuiteNames es
      | None \<Rightarrow> agentSuiteNames es)"

definition serverSpec :: "jsobj \<Rightarrow> jsstring \<Rightarrow> MCPServerSpec" where
  "serverSpec spec repositoryUrl =
     \<lparr>ms_repositoryUrl = repositoryUrl,
      ms_ref = (case neStr (fld spec (J ''ref'')) of Some r \<Rightarrow> r | None \<Rightarrow> J ''main''),
      ms_path = neStr (fld spec (J ''path'')),
      ms_transport = (if fld spec (J ''transport'') = Some (JStr (J ''sse'')) then Sse else Stdio),
      ms_targetPort = (case finNum (fld spec (J ''targetPort'')) of Some p \<Rightarrow> p | None \<Rightarrow> 8080),
      ms_schedule = (case asStr (fld spec (J ''schedule'')) of Some s \<Rightarrow> s | None \<Rightarrow> []),
      ms_active = (fld spec (J ''active'') \<noteq> Some (JBool False)),
      ms_credentialsSecretRef = neStr (fld spec (J ''credentialsSecretRef'')),
      ms_agentSuite = (case asArr (fld spec (J ''agentSuite'')) of
                         Some xs \<Rightarrow> agentSuiteNames xs | None \<Rightarrow> []),
      ms_timeoutSeconds = finNum (fld spec (J ''timeoutSeconds''))\<rparr>"

definition serverErr :: "jsstring \<Rightarrow> jsstring \<Rightarrow> RunnerError" where
  "serverErr name detail = ConfigurationError (J ''MCPServer '' @ name @ J '': '' @ detail)"

definition assertMCPServer :: "jsval \<Rightarrow> RunnerError + MCPServer" where
  "assertMCPServer v =
     bindR (needR (ConfigurationError (J ''MCPServer object is not an object'')) (asRec (Some v)))
     (\<lambda>obj.
     bindR (needR (ConfigurationError (J ''MCPServer.metadata.name is missing''))
              (asRec (fld obj (J ''metadata'')))) (\<lambda>metadata.
     bindR (needR (ConfigurationError (J ''MCPServer.metadata.name is missing''))
              (neStr (fld metadata (J ''name'')))) (\<lambda>name.
     bindR (needR (serverErr name (J ''spec is missing'')) (asRec (fld obj (J ''spec'')))) (\<lambda>spec.
     bindR (needR (serverErr name (J ''spec.repositoryUrl is required''))
              (neStr (fld spec (J ''repositoryUrl'')))) (\<lambda>repositoryUrl.
     bindR (guardR (fld spec (J ''transport'') = None \<or>
                    fld spec (J ''transport'') = Some (JStr (J ''stdio'')) \<or>
                    fld spec (J ''transport'') = Some (JStr (J ''sse'')))
              (serverErr name (J ''spec.transport must be '' @ quot (J ''stdio'') @ J '' or '' @
                 quot (J ''sse'')))) (\<lambda>_. Inr
        \<lparr>srv_apiVersion = (case asStr (fld obj (J ''apiVersion'')) of
                             Some s \<Rightarrow> s | None \<Rightarrow> apiVersionDefault),
         srv_metadata =
           \<lparr>om_name = name,
            om_namespace = asStr (fld metadata (J ''namespace'')),
            om_uid = asStr (fld metadata (J ''uid'')),
            om_labels = None, om_annotations = None\<rparr>,
         srv_spec = serverSpec spec repositoryUrl\<rparr>))))))"

section \<open>Initial values\<close>

definition emptyScoring :: ScoringBlock where
  "emptyScoring = \<lparr>sc_safetyScore = 0, sc_reliabilityScore = 0, sc_riskCategory = UnknownRisk,
     sc_summary = []\<rparr>"

definition emptyTelemetry :: Telemetry where
  "emptyTelemetry = \<lparr>te_initializeOk = False, te_protocolVersion = [], te_serverName = None,
     te_serverVersion = None, te_toolsCount = 0, te_promptsCount = 0, te_resourcesCount = 0,
     te_fuzzCases = 0, te_crashes = 0, te_avgLatencyMs = 0, te_p95LatencyMs = 0,
     te_maxLatencyMs = 0, te_hangs = 0, te_malformedFrames = 0, te_unsolicitedRequests = 0,
     te_notifications = 0\<rparr>"

section \<open>What a validated resource guarantees\<close>

text \<open>The invariant of an accepted agent, and the JSON form a resource has on the API server.\<close>

definition noProto :: "(jsstring \<times> 'v) list option \<Rightarrow> bool" where
  "noProto ls = (case ls of None \<Rightarrow> True | Some l \<Rightarrow> J ''__proto__'' \<notin> fst ` set l)"

definition wfConfig :: "OpenCodeAgentConfig \<Rightarrow> bool" where
  "wfConfig c \<longleftrightarrow> (case ac_timeoutMs c of None \<Rightarrow> True | Some t \<Rightarrow> 0 < t) \<and>
     (case ac_retryCount c of None \<Rightarrow> True | Some r \<Rightarrow> 0 \<le> r)"

definition wfModel :: "OpenCodeAgentModel \<Rightarrow> bool" where
  "wfModel m \<longleftrightarrow> am_providerID m \<noteq> [] \<and> am_modelID m \<noteq> [] \<and>
     (case am_contextTokens m of None \<Rightarrow> True | Some t \<Rightarrow> 1024 \<le> t)"

definition wfAgent :: "OpenCodeAgent \<Rightarrow> bool" where
  "wfAgent a \<longleftrightarrow>
     om_name (oa_metadata a) \<noteq> [] \<and> as_role (oa_spec a) \<noteq> [] \<and> as_systemPrompt (oa_spec a) \<noteq> [] \<and>
     wfModel (as_model (oa_spec a)) \<and> wfConfig (as_config (oa_spec a)) \<and>
     noProto (om_labels (oa_metadata a)) \<and> noProto (om_annotations (oa_metadata a))"

definition optField :: "string \<Rightarrow> ('a \<Rightarrow> jsval) \<Rightarrow> 'a option \<Rightarrow> jsobj" where
  "optField k f v = (case v of None \<Rightarrow> [] | Some x \<Rightarrow> [(J k, f x)])"

definition strObj :: "(jsstring \<times> jsstring) list \<Rightarrow> jsval" where
  "strObj ps = JObj (map (\<lambda>(k, s). (k, JStr s)) ps)"

definition configJson :: "OpenCodeAgentConfig \<Rightarrow> jsval" where
  "configJson c = JObj (optField ''timeoutMs'' (\<lambda>t. JNum (Fin t)) (ac_timeoutMs c) @
     optField ''retryCount'' (\<lambda>r. JNum (Fin (of_int r))) (ac_retryCount c))"

definition modelJson :: "OpenCodeAgentModel \<Rightarrow> jsval" where
  "modelJson m = JObj ((J ''providerID'', JStr (am_providerID m)) #
     (J ''modelID'', JStr (am_modelID m)) #
     optField ''contextTokens'' (\<lambda>t. JNum (Fin (of_int t))) (am_contextTokens m))"

definition metaRest :: "ObjectMeta \<Rightarrow> jsobj" where
  "metaRest m = optField ''namespace'' JStr (om_namespace m) @ optField ''uid'' JStr (om_uid m) @
     optField ''labels'' strObj (om_labels m) @ optField ''annotations'' strObj (om_annotations m)"

definition agentJson :: "OpenCodeAgent \<Rightarrow> jsval" where
  "agentJson a =
     (let m = oa_metadata a; s = oa_spec a in JObj
       [(J ''apiVersion'', JStr (oa_apiVersion a)),
        (J ''kind'', JStr (J ''OpenCodeAgent'')),
        (J ''metadata'', JObj ((J ''name'', JStr (om_name m)) # metaRest m)),
        (J ''spec'', JObj
          [(J ''role'', JStr (as_role s)),
           (J ''model'', modelJson (as_model s)),
           (J ''config'', configJson (as_config s)),
           (J ''systemPrompt'', JStr (as_systemPrompt s)),
           (J ''outputFormat'', JObj [(J ''type'', JStr (J ''json_schema'')),
              (J ''schema'', JObj (of_schema (as_outputFormat s)))])])])"

lemma fld_optField [simp]:
  "k \<noteq> k' \<Longrightarrow> fld (optField k f v @ ys) (J k') = fld ys (J k')"
  "fld ys (J k) = None \<Longrightarrow> fld (optField k f v @ ys) (J k) = map_option f v"
  "fld (optField k f v) (J k') = (if k = k' then map_option f v else None)"
  by (simp_all add: optField_def split: option.split)

lemma stringRecord_strObj:
  "J ''__proto__'' \<notin> fst ` set l \<Longrightarrow> stringRecord (map (\<lambda>(k, s). (k, JStr s)) l) = l"
  by (induction l) auto

lemma stringRecord_noProto: "J ''__proto__'' \<notin> fst ` set (stringRecord l)"
  by (induction l rule: stringRecord.induct) (auto split: jsval.splits)

lemma map_stringRecord_strObj:
  "noProto l \<Longrightarrow> map_option stringRecord (asRec (map_option strObj l)) = l"
  by (cases l) (simp_all add: noProto_def strObj_def stringRecord_strObj)

lemma noProto_map_stringRecord: "noProto (map_option stringRecord l)"
  by (cases l) (use stringRecord_noProto in \<open>auto simp: noProto_def\<close>)

lemma asStr_map_JStr [simp]: "asStr (map_option JStr v) = v"
  by (cases v) simp_all

lemma agentConfig_wf: "agentConfig name v = Inr c \<Longrightarrow> wfConfig c"
  by (auto simp: agentConfig_def wfConfig_def split: option.splits if_splits)

lemma agentConfig_configJson: "wfConfig c \<Longrightarrow> agentConfig name (Some (configJson c)) = Inr c"
  by (cases c; cases "ac_timeoutMs c"; cases "ac_retryCount c")
    (auto simp: agentConfig_def configJson_def wfConfig_def optField_def finNum_def)

lemma agentContextTokens_wf:
  "agentContextTokens name v = Inr (Some t) \<Longrightarrow> 1024 \<le> t"
  by (auto simp: agentContextTokens_def Let_def le_floor_iff split: if_splits)

lemma agentContextTokens_int:
  "case ct of None \<Rightarrow> True | Some t \<Rightarrow> 1024 \<le> t \<Longrightarrow>
   agentContextTokens name (map_option (\<lambda>t. JNum (Fin (of_int t))) ct) = Inr ct"
  by (cases ct) (auto simp: agentContextTokens_def finNum_def Let_def)

lemma agentModel_wf: "agentModel name v = Inr m \<Longrightarrow> wfModel m"
  by (auto simp: agentModel_def wfModel_def Let_def split: option.split dest: agentContextTokens_wf)

lemma agentModel_modelJson: "wfModel m \<Longrightarrow> agentModel name (Some (modelJson m)) = Inr m"
  by (cases m) (simp add: agentModel_def modelJson_def wfModel_def neStr_def agentContextTokens_int)

lemma assertOpenCodeAgent_wf:
  assumes "assertOpenCodeAgent v = Inr a"
  shows "wfAgent a"
  using assms
  by (auto simp: assertOpenCodeAgent_def wfAgent_def agentMeta_def noProto_map_stringRecord
        dest: agentConfig_wf agentModel_wf)

lemma assertOpenCodeAgent_agentJson:
  assumes "wfAgent a"
  shows "assertOpenCodeAgent (agentJson a) = Inr a"
proof -
  obtain ap m s where a: "a = \<lparr>oa_apiVersion = ap, oa_metadata = m, oa_spec = s\<rparr>"
    by (cases a) blast
  have meta: "agentMeta ((J ''name'', JStr (om_name m)) # metaRest m) (om_name m) = m"
    using assms
    by (cases m) (simp add: a wfAgent_def agentMeta_def metaRest_def map_stringRecord_strObj)
  show ?thesis
    using assms meta
    by (cases s; cases "as_outputFormat s")
      (simp add: a assertOpenCodeAgent_def agentJson_def wfAgent_def agentFormat_def
        agentConfig_configJson agentModel_modelJson neStr_def)
qed

lemma agentModel_error: "agentModel name v = Inl e \<Longrightarrow> \<exists>d. e = ConfigurationError d"
  by (auto simp: agentModel_def agentContextTokens_def agentErr_def Let_def bindR_eq_Inl split: if_splits)

lemma agentFormat_error: "agentFormat name v = Inl e \<Longrightarrow> \<exists>d. e = ConfigurationError d"
  by (auto simp: agentFormat_def Let_def bindR_eq_Inl)

lemma agentConfig_error: "agentConfig name v = Inl e \<Longrightarrow> \<exists>d. e = ConfigurationError d"
  by (auto simp: agentConfig_def agentErr_def bindR_eq_Inl split: option.splits if_splits)

lemma assertOpenCodeAgent_error: "assertOpenCodeAgent v = Inl e \<Longrightarrow> \<exists>d. e = ConfigurationError d"
  by (auto simp: assertOpenCodeAgent_def agentErr_def bindR_eq_Inl
        dest: agentModel_error agentFormat_error agentConfig_error)

lemma assertMCPServer_error: "assertMCPServer v = Inl e \<Longrightarrow> \<exists>d. e = ConfigurationError d"
  by (auto simp: assertMCPServer_def serverErr_def bindR_eq_Inl)

section \<open>Properties\<close>

text \<open>
  An agent that \<open>assertOpenCodeAgent\<close> accepts satisfies the invariant the evaluation relies on
  (name, role, prompt, provider and model not empty, a context window of at least 1024 tokens, a
  positive timeout, a non-negative whole retry count), and validating the accepted agent again
  returns it unchanged.
\<close>

theorem agent_validation_stable:
  assumes "assertOpenCodeAgent v = Inr a"
  shows "wfAgent a \<and> assertOpenCodeAgent (agentJson a) = Inr a"
  using assertOpenCodeAgent_wf [OF assms] by (simp add: assertOpenCodeAgent_agentJson)

definition sampleAgentJson :: jsval where
  "sampleAgentJson = JObj
     [(J ''metadata'', JObj [(J ''name'', JStr (J ''sast'')),
                            (J ''labels'', JObj [(J ''tier'', JStr (J ''a'')), (J ''n'', JNum (Fin 1))])]),
      (J ''spec'', JObj
        [(J ''role'', JStr (J ''StaticSecurityAuditor'')),
         (J ''model'', JObj [(J ''providerID'', JStr (J ''opencode'')), (J ''modelID'', JStr (J ''big'')),
                            (J ''contextTokens'', JNum (Fin (4097 / 2)))]),
         (J ''config'', JObj [(J ''retryCount'', JNum (Fin (5 / 2)))]),
         (J ''systemPrompt'', JStr (J ''Audit.'')),
         (J ''outputFormat'', JObj [(J ''type'', JStr (J ''json_schema'')), (J ''schema'', JObj [])])])]"

theorem agent_validation_stable_witness:
  "\<exists>a. assertOpenCodeAgent sampleAgentJson = Inr a \<and> wfAgent a \<and>
     am_contextTokens (as_model (oa_spec a)) = Some 2048 \<and>
     ac_retryCount (as_config (oa_spec a)) = Some 2 \<and>
     om_labels (oa_metadata a) = Some [(J ''tier'', J ''a'')]"
proof -
  have floor: "\<lfloor>4097 / 2 :: rat\<rfloor> = 2048" "\<lfloor>5 / 2 :: rat\<rfloor> = 2"
    by (simp_all add: floor_eq_iff)
  obtain a where "assertOpenCodeAgent sampleAgentJson = Inr a"
    and "am_contextTokens (as_model (oa_spec a)) = Some 2048"
    and "ac_retryCount (as_config (oa_spec a)) = Some 2"
    and "om_labels (oa_metadata a) = Some [(J ''tier'', J ''a'')]"
    by (simp add: assertOpenCodeAgent_def sampleAgentJson_def agentModel_def agentContextTokens_def
        agentFormat_def agentConfig_def agentMeta_def neStr_def finNum_def Let_def floor)
  with agent_validation_stable show ?thesis by blast
qed

text \<open>
  The two validators fail with a \<open>ConfigurationError\<close> and nothing else, whatever value the API
  server returned.
\<close>

theorem validators_raise_configuration_errors:
  "(assertOpenCodeAgent v = Inl e \<longrightarrow> (\<exists>d. e = ConfigurationError d)) \<and>
   (assertMCPServer v = Inl e \<longrightarrow> (\<exists>d. e = ConfigurationError d))"
  using assertOpenCodeAgent_error assertMCPServer_error by blast

theorem validators_raise_configuration_errors_witness:
  "\<exists>e d. assertMCPServer (JArr []) = Inl e \<and> e = ConfigurationError d"
proof -
  have "assertMCPServer (JArr []) = Inl (ConfigurationError (J ''MCPServer object is not an object''))"
    by (simp add: assertMCPServer_def)
  with validators_raise_configuration_errors [of "JArr []"] show ?thesis by blast
qed

text \<open>
  The exact acceptance condition of \<open>assertMCPServer\<close>, and what an accepted server guarantees:
  a repository URL and a ref that are not empty, a transport that defaults to stdio, an agent suite
  of non-empty names.
\<close>

theorem server_acceptance:
  "(\<exists>s. assertMCPServer v = Inr s) \<longleftrightarrow>
     (\<exists>obj metadata spec name url. v = JObj obj \<and> fld obj (J ''metadata'') = Some (JObj metadata) \<and>
        fld obj (J ''spec'') = Some (JObj spec) \<and>
        fld metadata (J ''name'') = Some (JStr name) \<and> name \<noteq> [] \<and>
        fld spec (J ''repositoryUrl'') = Some (JStr url) \<and> url \<noteq> [] \<and>
        fld spec (J ''transport'') \<in> {None, Some (JStr (J ''stdio'')), Some (JStr (J ''sse''))})"
  by (auto simp: assertMCPServer_def)

lemma agentSuiteNames_nonempty: "[] \<notin> set (agentSuiteNames xs)"
  by (induction xs) (auto split: option.split simp: bind_eq_Some_conv)

lemma serverSpec_guarantees:
  "ms_repositoryUrl (serverSpec spec url) = url" "ms_ref (serverSpec spec url) \<noteq> []"
  "[] \<notin> set (ms_agentSuite (serverSpec spec url))"
  "ms_active (serverSpec spec url) \<longleftrightarrow> fld spec (J ''active'') \<noteq> Some (JBool False)"
  by (cases "neStr (fld spec (J ''ref''))")
    (auto simp: serverSpec_def agentSuiteNames_nonempty split: option.split)

text \<open>
  An accepted server has a repository URL, a ref and agent names that are never empty, and is
  active unless the resource says \<open>active: false\<close>.
\<close>

theorem server_spec_defaults:
  assumes "assertMCPServer v = Inr s"
  shows "ms_repositoryUrl (srv_spec s) \<noteq> [] \<and> ms_ref (srv_spec s) \<noteq> [] \<and>
     om_name (srv_metadata s) \<noteq> [] \<and> [] \<notin> set (ms_agentSuite (srv_spec s)) \<and>
     (\<exists>obj spec. v = JObj obj \<and> fld obj (J ''spec'') = Some (JObj spec) \<and>
        (ms_active (srv_spec s) \<longleftrightarrow> fld spec (J ''active'') \<noteq> Some (JBool False)))"
  using assms
  by (auto simp: assertMCPServer_def serverSpec_guarantees)

theorem server_spec_defaults_witness:
  "\<exists>s. assertMCPServer (JObj [(J ''metadata'', JObj [(J ''name'', JStr (J ''fs''))]),
        (J ''spec'', JObj [(J ''repositoryUrl'', JStr (J ''u''))])]) = Inr s \<and>
      ms_ref (srv_spec s) \<noteq> [] \<and> ms_ref (srv_spec s) = J ''main''"
proof -
  let ?v = "JObj [(J ''metadata'', JObj [(J ''name'', JStr (J ''fs''))]),
        (J ''spec'', JObj [(J ''repositoryUrl'', JStr (J ''u''))])]"
  obtain s where s: "assertMCPServer ?v = Inr s" and "ms_ref (srv_spec s) = J ''main''"
    by (simp add: assertMCPServer_def serverSpec_def neStr_def)
  with server_spec_defaults [OF s] show ?thesis by blast
qed

end
