(* ===== verification/Framing.thy ===== *)
theory Framing
  imports Types "HOL-Library.Multiset"
begin

text \<open>
  The parts of \<^verbatim>\<open>src/runner/src/mcpclient.ts\<close> that turn a byte stream into frames and frames into
  numbers: \<open>StdioFifoTransport.drainBuffer\<close>, \<open>SseParser\<close> and \<open>LatencyRecorder\<close>. Both parsers are
  shown to give the same frames however the stream is cut into chunks, by one argument in the locale
  \<open>incremental\<close>.
\<close>

section \<open>Newline-delimited frames\<close>

definition NL :: jsstring where "NL = [10]"

text \<open>\<open>s.replace(/\r$/, "")\<close>\<close>

definition stripCR :: "jsstring \<Rightarrow> jsstring" where
  "stripCR s = (if s \<noteq> [] \<and> last s = 13 then butlast s else s)"

text \<open>The \<open>while\<close> loop of \<open>drainBuffer\<close>: the frames it delivers and the buffer it leaves.\<close>

function drainLines :: "jsstring \<Rightarrow> jsstring list \<times> jsstring" where
  "drainLines buffer =
     (case indexOf buffer NL of
        None \<Rightarrow> ([], buffer)
      | Some i \<Rightarrow>
          let line = stripCR (sliceS buffer 0 i);
              (frames, rest) = drainLines (drop (i + 1) buffer) in
          (if blankS line then frames else line # frames, rest))"
  by pat_completeness auto
termination
proof (relation "measure length", goal_cases)
  case (2 buffer i)
  from indexOf_SomeD [OF 2(1)] have "prefix NL (drop i buffer)" by simp
  then have "drop i buffer \<noteq> []" by (auto simp: NL_def)
  then show ?case by simp
qed simp

declare drainLines.simps [simp del]

definition MAX_BUFFER :: nat where "MAX_BUFFER = 8 * 1024 * 1024"

definition drainBuffer :: "jsstring \<Rightarrow> jsstring list \<times> jsstring" where
  "drainBuffer buffer =
     (case drainLines buffer of
        (frames, rest) \<Rightarrow> if length rest > MAX_BUFFER then (frames @ [rest], []) else (frames, rest))"

text \<open>The \<open>data\<close> handler of the stream: append the chunk, then drain.\<close>

definition stdioData :: "jsstring \<Rightarrow> jsstring \<Rightarrow> jsstring list \<times> jsstring" where
  "stdioData buffer chunk = drainBuffer (buffer @ chunk)"

text \<open>What \<open>send\<close> writes for a frame.\<close>

definition stdioPayload :: "jsstring \<Rightarrow> jsstring" where
  "stdioPayload frame = (if endsWith frame NL then frame else frame @ NL)"

section \<open>Server-sent events\<close>

record SseEvent =
  ev_event :: jsstring
  ev_data :: jsstring

text \<open>\<open>findSeparator\<close>: the first blank line, with its length; \<open>None\<close> for the index \<open>-1\<close>.\<close>

definition findSeparator :: "jsstring \<Rightarrow> (nat \<times> nat) option" where
  "findSeparator buffer =
     (case (indexOf buffer [10, 10], indexOf buffer [13, 10, 13, 10]) of
        (None, None) \<Rightarrow> None
      | (Some a, None) \<Rightarrow> Some (a, 2)
      | (Some a, Some b) \<Rightarrow> if a < b then Some (a, 2) else Some (b, 4)
      | (None, Some b) \<Rightarrow> Some (b, 4))"

text \<open>\<open>block.split(/\r?\n/)\<close>\<close>

definition splitLines :: "jsstring \<Rightarrow> jsstring list" where
  "splitLines block = (case splitS block NL of [] \<Rightarrow> [] | ls \<Rightarrow> map stripCR (butlast ls) @ [last ls])"

fun blockFields :: "jsstring list \<Rightarrow> jsstring \<times> jsstring list \<Rightarrow> jsstring \<times> jsstring list" where
  "blockFields [] st = st"
| "blockFields (rawLine # ls) (event, dataLines) =
     blockFields ls
       (if startsWith rawLine (J '':'') \<or> rawLine = [] then (event, dataLines)
        else let colon = indexOf rawLine (J '':'');
                 field = (case colon of Some c \<Rightarrow> sliceS rawLine 0 c | None \<Rightarrow> rawLine);
                 value0 = (case colon of Some c \<Rightarrow> drop (c + 1) rawLine | None \<Rightarrow> []);
                 value1 = (if startsWith value0 (J '' '') then drop 1 value0 else value0) in
             if field = J ''event'' then (value1, dataLines)
             else if field = J ''data'' then (event, dataLines @ [value1])
             else (event, dataLines))"

definition parseBlock :: "jsstring \<Rightarrow> SseEvent option" where
  "parseBlock block =
     (case blockFields (splitLines block) (J ''message'', []) of
        (event, dataLines) \<Rightarrow>
          if dataLines = [] then None else Some \<lparr>ev_event = event, ev_data = joinS NL dataLines\<rparr>)"

lemma findSeparator_bound: "findSeparator s = Some (i, l) \<Longrightarrow> 0 < l \<and> i + l \<le> length s"
proof -
  have len: "i + length p \<le> length s" if "indexOf s p = Some i" for i p
    using indexOf_SomeD [OF that] prefix_length_le [of p "drop i s"] by auto
  assume "findSeparator s = Some (i, l)"
  then show ?thesis
    using len [where p = "[10, 10]"] len [where p = "[13, 10, 13, 10]"]
    by (auto simp: findSeparator_def numeral_eq_Suc split: option.splits if_splits)
qed

text \<open>The loop of \<open>push\<close>.\<close>

function sseLoop :: "jsstring \<Rightarrow> SseEvent list \<times> jsstring" where
  "sseLoop buffer =
     (case findSeparator buffer of
        None \<Rightarrow> ([], buffer)
      | Some (i, l) \<Rightarrow>
          let block = sliceS buffer 0 i;
              (events, rest) = sseLoop (drop (i + l) buffer) in
          (case parseBlock block of Some e \<Rightarrow> e # events | None \<Rightarrow> events, rest))"
  by pat_completeness auto
termination
  by (relation "measure length") (auto dest: findSeparator_bound)

declare sseLoop.simps [simp del]

definition ssePush :: "jsstring \<Rightarrow> jsstring \<Rightarrow> SseEvent list \<times> jsstring" where
  "ssePush buffer chunk = sseLoop (buffer @ chunk)"

section \<open>Latencies\<close>

text \<open>Samples are differences of \<open>Date.now()\<close>, whole milliseconds; a clock set back gives a negative one.\<close>

definition recordLatency :: "int \<Rightarrow> int list \<Rightarrow> int list" where
  "recordLatency ms samples = (if ms \<ge> 0 then samples @ [ms] else samples)"

text \<open>
  \<open>Math.ceil(n * 0.95) - 1\<close> is \<open>(19 n + 19) div 20 - 1\<close>, which for \<open>n > 0\<close> is between \<open>0\<close> and \<open>n - 1\<close>.
\<close>

definition latencyStats :: "int list \<Rightarrow> LatencyStats" where
  "latencyStats samples =
     (if samples = [] then \<lparr>ls_count = 0, ls_avgMs = 0, ls_p95Ms = 0, ls_maxMs = 0, ls_minMs = 0\<rparr>
      else let sorted = sort samples; n = length sorted;
               p95Index = min (n - 1) (max 0 ((19 * n + 19) div 20 - 1)) in
           \<lparr>ls_count = n,
            ls_avgMs = of_int (roundN (of_int (sum_list sorted) / of_nat n * 100)) / 100,
            ls_p95Ms = sorted ! p95Index,
            ls_maxMs = sorted ! (n - 1),
            ls_minMs = sorted ! 0\<rparr>)"

section \<open>Incremental parsers\<close>

text \<open>
  A parser that reads what it has buffered, delivers outputs and keeps a rest is incremental when
  reading more input continues from that rest.
\<close>

locale incremental =
  fixes parse :: "'a list \<Rightarrow> 'o list \<times> 'a list"
  assumes parse_append: "parse (s @ t) =
    (case parse s of (os, r) \<Rightarrow> (case parse (r @ t) of (os', r') \<Rightarrow> (os @ os', r')))"
    and parse_Nil: "parse [] = ([], [])"
begin

fun feed :: "'a list list \<Rightarrow> 'a list \<Rightarrow> 'o list \<times> 'a list" where
  "feed [] buffer = ([], buffer)"
| "feed (c # cs) buffer =
     (case parse (buffer @ c) of (os, r) \<Rightarrow> (case feed cs r of (os', r') \<Rightarrow> (os @ os', r')))"

text \<open>The rest is drained: parsing it again delivers nothing.\<close>

lemma parse_rest: "parse s = (os, r) \<Longrightarrow> parse r = ([], r)"
  using parse_append [of s "[]"] by (auto split: prod.splits)

lemma feed_concat: "parse b = ([], b) \<Longrightarrow> feed cs b = (case parse (b @ concat cs) of (os, r) \<Rightarrow> (os, r))"
proof (induction cs arbitrary: b)
  case (Cons c cs)
  obtain os r where p: "parse (b @ c) = (os, r)" by force
  from Cons.IH [OF parse_rest [OF p]] parse_append [of "b @ c" "concat cs"] p show ?case
    by (simp split: prod.splits)
qed simp

lemma feed_any_chunks: "feed cs [] = parse (concat cs)"
  using feed_concat [OF parse_Nil, of cs] by simp

lemma feed_same_stream: "concat cs = concat ds \<Longrightarrow> feed cs [] = feed ds []"
  by (simp add: feed_any_chunks)

end

section \<open>The two parsers are incremental\<close>

definition occ :: "'a list \<Rightarrow> 'a list \<Rightarrow> nat \<Rightarrow> bool" where
  "occ s p i \<longleftrightarrow> i + length p \<le> length s \<and> (\<forall>j < length p. s ! (i + j) = p ! j)"

lemma prefix_take: "prefix p xs \<longleftrightarrow> length p \<le> length xs \<and> take (length p) xs = p"
  by (auto simp: prefix_def) (metis append_take_drop_id)

lemma occ_prefix: "i \<le> length s \<Longrightarrow> prefix p (drop i s) \<longleftrightarrow> occ s p i"
  by (auto simp: prefix_take occ_def list_eq_iff_nth_eq)

lemma indexOf_occ: "indexOf s p = Some i \<longleftrightarrow> occ s p i \<and> (\<forall>k < i. \<not> occ s p k)"
proof
  assume "indexOf s p = Some i"
  from indexOf_SomeD [OF this] show "occ s p i \<and> (\<forall>k < i. \<not> occ s p k)"
    by (metis occ_prefix le_trans less_imp_le)
next
  assume o: "occ s p i \<and> (\<forall>k < i. \<not> occ s p k)"
  then have "i \<le> length s" by (simp add: occ_def)
  then show "indexOf s p = Some i" using o by (intro indexOf_eq_SomeI) (simp_all add: occ_prefix)
qed

lemma indexOf_None_occ: "indexOf s p = None \<longleftrightarrow> (\<forall>i. \<not> occ s p i)"
proof
  assume "indexOf s p = None"
  from indexOf_NoneD [OF this] show "\<forall>i. \<not> occ s p i" by (metis occ_def add_leD1 occ_prefix)
next
  assume "\<forall>i. \<not> occ s p i"
  then show "indexOf s p = None" using indexOf_occ by (metis not_Some_eq)
qed

lemma occ_append: "i + length p \<le> length s \<Longrightarrow> occ (s @ t) p i \<longleftrightarrow> occ s p i"
  by (auto simp: occ_def nth_append)

lemma indexOf_append: "indexOf s p = Some i \<Longrightarrow> indexOf (s @ t) p = Some i"
proof -
  assume i: "indexOf s p = Some i"
  then have "i + length p \<le> length s" by (simp add: indexOf_occ occ_def)
  with i show ?thesis by (auto simp: indexOf_occ occ_append)
qed

lemma findSeparator_append:
  assumes "findSeparator s = Some (i, l)"
  shows "findSeparator (s @ t) = Some (i, l)"
proof -
  let ?lf = "[10, 10] :: jsstring" and ?cr = "[13, 10, 13, 10] :: jsstring"
  have late: "a < b" if a: "occ s ?lf a" and b: "occ (s @ t) ?cr b" "\<not> occ s ?cr b" for a b
  proof (rule ccontr)
    assume "\<not> a < b"
    have "a + 2 \<le> length s" using a by (simp add: occ_def)
    have "\<forall>j < 4. (s @ t) ! (b + j) = ?cr ! j" using b(1) by (simp add: occ_def)
    from this [rule_format, of 0] this [rule_format, of 1] this [rule_format, of 2]
    have chars: "(s @ t) ! b = 13" "(s @ t) ! (b + 1) = 10" "(s @ t) ! (b + 2) = 13" by simp_all
    have "occ (s @ t) ?lf a" using a occ_append [of a ?lf s t] by (auto simp: occ_def)
    then have "\<forall>j < 2. (s @ t) ! (a + j) = ?lf ! j" by (simp add: occ_def)
    from this [rule_format, of 0] this [rule_format, of 1]
    have lf: "(s @ t) ! a = 10" "(s @ t) ! (a + 1) = 10" by simp_all
    have "length s < b + 4" using b occ_append [of b ?cr s t] by (cases "b + length ?cr \<le> length s") auto
    with \<open>\<not> a < b\<close> \<open>a + 2 \<le> length s\<close> have "b = a \<or> b + 1 = a" by linarith
    then show False using chars lf by auto
  qed
  have early: "occ s ?lf a" if "occ (s @ t) ?lf a" "occ s ?cr b" "a < b" for a b
    using that occ_append [of a ?lf s t] by (auto simp: occ_def)
  show ?thesis
  proof (cases "indexOf s ?lf")
    case None
    then obtain b where b: "indexOf s ?cr = Some b" "i = b" "l = 4"
      using assms by (auto simp: findSeparator_def split: option.splits)
    have "\<not> a < b" if "indexOf (s @ t) ?lf = Some a" for a
      using early [of a b] None b(1) that by (auto simp: indexOf_occ indexOf_None_occ)
    with b indexOf_append [OF b(1), of t] show ?thesis
      by (auto simp: findSeparator_def split: option.splits)
  next
    case (Some a)
    show ?thesis
    proof (cases "indexOf s ?cr")
      case (Some b)
      with \<open>indexOf s ?lf = Some a\<close> assms indexOf_append [of s _ _ t] show ?thesis
        by (simp add: findSeparator_def)
    next
      case None
      have "a < b" if "indexOf (s @ t) ?cr = Some b" for b
        using late [of a b] None Some that by (auto simp: indexOf_occ indexOf_None_occ)
      with None Some assms indexOf_append [OF Some, of t] show ?thesis
        by (auto simp: findSeparator_def split: option.splits)
    qed
  qed
qed

lemma drainLines_append:
  "drainLines (s @ t) = (case drainLines s of (os, r) \<Rightarrow> (case drainLines (r @ t) of (os', r') \<Rightarrow> (os @ os', r')))"
proof (induction s rule: drainLines.induct)
  case (1 s)
  show ?case
  proof (cases "indexOf s NL")
    case None
    then show ?thesis by (simp add: drainLines.simps [of s] split: prod.split)
  next
    case (Some i)
    then have i: "i + 1 \<le> length s" by (simp add: indexOf_occ occ_def NL_def)
    note IH = 1 [OF Some refl]
    from i have "drop (i + 1) (s @ t) = drop (i + 1) s @ t" "sliceS (s @ t) 0 i = sliceS s 0 i"
      by (simp_all add: sliceS_def)
    with IH Some indexOf_append [OF Some, of t] show ?thesis
      by (simp add: drainLines.simps [of s] drainLines.simps [of "s @ t"] Let_def split: prod.splits)
  qed
qed

lemma sseLoop_append:
  "sseLoop (s @ t) = (case sseLoop s of (os, r) \<Rightarrow> (case sseLoop (r @ t) of (os', r') \<Rightarrow> (os @ os', r')))"
proof (induction s rule: sseLoop.induct)
  case (1 s)
  show ?case
  proof (cases "findSeparator s")
    case None
    then show ?thesis by (simp add: sseLoop.simps [of s] split: prod.split)
  next
    case (Some il)
    obtain i l where il: "il = (i, l)" by force
    note Some' = Some [unfolded il]
    have i: "i + l \<le> length s" using findSeparator_bound [OF Some'] by simp
    note IH = 1 [OF Some il [symmetric] refl]
    from i have "drop (i + l) (s @ t) = drop (i + l) s @ t" "sliceS (s @ t) 0 i = sliceS s 0 i"
      by (simp_all add: sliceS_def)
    with IH Some' findSeparator_append [OF Some', of t] show ?thesis
      by (simp add: sseLoop.simps [of s] sseLoop.simps [of "s @ t"] Let_def split: prod.splits option.splits)
  qed
qed

interpretation lines: incremental drainLines
  by unfold_locales (rule drainLines_append, simp add: drainLines.simps NL_def)

interpretation sse: incremental sseLoop
  by unfold_locales (rule sseLoop_append, simp add: sseLoop.simps findSeparator_def)

section \<open>Feeding chunks\<close>

text \<open>The transports read their streams chunk by chunk.\<close>

fun stdioFeed :: "jsstring list \<Rightarrow> jsstring \<Rightarrow> jsstring list \<times> jsstring" where
  "stdioFeed [] buffer = ([], buffer)"
| "stdioFeed (c # cs) buffer =
     (case stdioData buffer c of (fs, b) \<Rightarrow> (case stdioFeed cs b of (fs', b') \<Rightarrow> (fs @ fs', b')))"

fun sseFeed :: "jsstring list \<Rightarrow> jsstring \<Rightarrow> SseEvent list \<times> jsstring" where
  "sseFeed [] buffer = ([], buffer)"
| "sseFeed (c # cs) buffer =
     (case ssePush buffer c of (es, b) \<Rightarrow> (case sseFeed cs b of (es', b') \<Rightarrow> (es @ es', b')))"

lemma drainLines_suffix: "drainLines s = (fs, r) \<Longrightarrow> suffix r s"
proof (induction s arbitrary: fs r rule: drainLines.induct)
  case (1 s)
  show ?case
  proof (cases "indexOf s NL")
    case None
    with 1(2) show ?thesis by (simp add: drainLines.simps [of s])
  next
    case (Some i)
    obtain fs' where "drainLines (drop (i + 1) s) = (fs', r)"
      using 1(2) Some by (auto simp: drainLines.simps [of s] Let_def split: prod.splits)
    from 1(1) [OF Some refl this] show ?thesis using suffix_drop suffix_order.trans by blast
  qed
qed

lemma stdioFeed_lines:
  "length b + length (concat cs) \<le> MAX_BUFFER \<Longrightarrow> stdioFeed cs b = lines.feed cs b"
proof (induction cs arbitrary: b)
  case (Cons c cs)
  obtain fs r where d: "drainLines (b @ c) = (fs, r)" by force
  have r: "length r \<le> length b + length c" using suffix_length_le [OF drainLines_suffix [OF d]] by simp
  with Cons.prems d have "stdioData b c = (fs, r)" by (simp add: stdioData_def drainBuffer_def)
  with d r Cons.IH [of r] Cons.prems show ?case by simp
qed simp

lemma sseFeed_sse: "sseFeed cs b = sse.feed cs b"
  by (induction cs arbitrary: b) (simp_all add: ssePush_def)

text \<open>A frame the client sends: one line, not blank.\<close>

definition lineFrame :: "jsstring \<Rightarrow> bool" where
  "lineFrame f \<longleftrightarrow> 10 \<notin> set f \<and> \<not> blankS f \<and> last f \<noteq> 13"

lemma stdioPayload_line: "lineFrame f \<Longrightarrow> stdioPayload f = f @ NL"
  by (cases f rule: rev_cases) (auto simp: stdioPayload_def lineFrame_def endsWith_def NL_def startsWith_prefix)

lemma drainLines_line:
  assumes "lineFrame f"
  shows "drainLines (f @ NL @ s) = (case drainLines s of (fs, r) \<Rightarrow> (f # fs, r))"
proof -
  have "indexOf (f @ NL @ s) NL = Some (length f)"
    using assms by (auto simp: indexOf_occ occ_def NL_def lineFrame_def nth_append in_set_conv_nth)
  moreover have "stripCR f = f" using assms by (auto simp: stripCR_def lineFrame_def)
  ultimately show ?thesis using assms
    unfolding drainLines.simps [of "f @ NL @ s"]
    by (simp add: sliceS_def NL_def lineFrame_def Let_def split: prod.split)
qed

lemma drainLines_payloads: "\<forall>f \<in> set fs. lineFrame f \<Longrightarrow> drainLines (concat (map stdioPayload fs)) = (fs, [])"
  by (induction fs) (simp_all add: stdioPayload_line drainLines_line lines.parse_Nil)

lemma drainLines_frames:
  "drainLines s = (fs, r) \<Longrightarrow> 10 \<notin> set r \<and> (\<forall>f \<in> set fs. 10 \<notin> set f \<and> \<not> blankS f)"
proof (induction s arbitrary: fs r rule: drainLines.induct)
  case (1 s)
  show ?case
  proof (cases "indexOf s NL")
    case None
    then have "10 \<notin> set s" by (auto simp: indexOf_None_occ occ_def NL_def in_set_conv_nth)
    with None 1(2) show ?thesis by (simp add: drainLines.simps [of s])
  next
    case (Some i)
    then have "10 \<notin> set (sliceS s 0 i)"
      by (auto simp: indexOf_occ occ_def NL_def sliceS_def in_set_conv_nth)
    then have "10 \<notin> set (stripCR (sliceS s 0 i))" by (auto simp: stripCR_def dest: in_set_butlastD)
    with 1(1) [OF Some refl] 1(2) Some show ?thesis
      by (auto simp: drainLines.simps [of s] Let_def split: prod.splits if_splits)
  qed
qed

section \<open>Latencies: lemmas\<close>

lemma length_filter_sort: "length (filter P (sort xs)) = length (filter P xs)" for xs :: "'a::linorder list"
  by (metis mset_filter mset_sort size_mset)

lemma sorted_prefix_below:
  assumes "sorted xs" "k < length xs"
  shows "Suc k \<le> length (filter (\<lambda>x. x \<le> xs ! k) xs)"
proof -
  have "filter (\<lambda>x. x \<le> xs ! k) (take (Suc k) xs) = take (Suc k) xs"
    using assms by (auto simp: filter_id_conv in_set_conv_nth sorted_iff_nth_mono)
  then have "Suc k = length (filter (\<lambda>x. x \<le> xs ! k) (take (Suc k) xs))" using assms(2) by simp
  also have "\<dots> \<le> length (filter (\<lambda>x. x \<le> xs ! k) (take (Suc k) xs @ drop (Suc k) xs))"
    unfolding filter_append by simp
  finally show ?thesis by (simp only: append_take_drop_id)
qed

lemma p95_index:
  assumes "0 < (n::nat)"
  shows "min (n - 1) (max 0 ((19 * n + 19) div 20 - 1)) < n"
    "19 * n \<le> 20 * Suc (min (n - 1) (max 0 ((19 * n + 19) div 20 - 1)))"
proof -
  define q where "q = (19 * n + 19) div 20"
  have "q * 20 + (19 * n + 19) mod 20 = 19 * n + 19" unfolding q_def by (rule div_mult_mod_eq)
  moreover have "(19 * n + 19) mod 20 < 20" by simp
  ultimately have "19 * n \<le> 20 * q" "q \<le> n" "1 \<le> q" using assms by linarith+
  then show "min (n - 1) (max 0 ((19 * n + 19) div 20 - 1)) < n"
    "19 * n \<le> 20 * Suc (min (n - 1) (max 0 ((19 * n + 19) div 20 - 1)))"
    unfolding q_def [symmetric] by auto
qed

section \<open>Properties\<close>

text \<open>
  C16. Frames survive the FIFO however the stream is cut: whatever single-line frames a peer writes,
  and however the runner reads the stream in chunks, it delivers exactly these frames in order and
  keeps nothing back, as long as the stream stays below the 8 MiB guard.
\<close>

theorem stdio_framing_round_trip:
  assumes "\<forall>f \<in> set fs. lineFrame f" "concat cs = concat (map stdioPayload fs)" "length (concat cs) \<le> MAX_BUFFER"
  shows "stdioFeed cs [] = (fs, [])"
  using assms stdioFeed_lines [of "[]" cs] by (simp add: lines.feed_any_chunks drainLines_payloads)

theorem stdio_framing_round_trip_witness:
  "stdioFeed [J ''{}'' , [10], J ''[1'', J '']'' @ [10]] [] = ([J ''{}'', J ''[1]''], [])"
proof (rule stdio_framing_round_trip)
  have frames: "lineFrame (J ''{}'')" "lineFrame (J ''[1]'')"
    by (simp_all add: lineFrame_def J_def blankS_iff isWs_def word_le_nat_alt)
  then show "\<forall>f \<in> set [J ''{}'', J ''[1]'']. lineFrame f" by simp
  show "concat [J ''{}'' , [10], J ''[1'', J '']'' @ [10]] = concat (map stdioPayload [J ''{}'', J ''[1]''])"
    using frames by (simp add: stdioPayload_line NL_def) (simp add: J_def)
  show "length (concat [J ''{}'' , [10], J ''[1'', J '']'' @ [10]]) \<le> MAX_BUFFER"
    by (simp add: MAX_BUFFER_def)
qed

text \<open>
  A target cannot exhaust the runner's memory or smuggle a line: after every chunk the buffer
  holds at most 8 MiB and no newline, and, while the guard is not hit, every delivered frame is one
  non-blank line.
\<close>

theorem stdio_buffer_bounded:
  "case stdioData buffer chunk of (frames, rest) \<Rightarrow>
     length rest \<le> MAX_BUFFER \<and> 10 \<notin> set rest \<and> (\<forall>f \<in> set frames. 10 \<notin> set f) \<and>
     (length buffer + length chunk \<le> MAX_BUFFER \<longrightarrow> (\<forall>f \<in> set frames. \<not> blankS f))"
proof -
  obtain fs r where d: "drainLines (buffer @ chunk) = (fs, r)" by force
  have "length r \<le> length buffer + length chunk" using suffix_length_le [OF drainLines_suffix [OF d]] by simp
  with drainLines_frames [OF d] d show ?thesis by (auto simp: stdioData_def drainBuffer_def)
qed

theorem stdio_buffer_bounded_witness:
  "case stdioData [] (J ''a'' @ [10]) of (frames, rest) \<Rightarrow> length rest \<le> MAX_BUFFER \<and> (\<forall>f \<in> set frames. \<not> blankS f)"
  using stdio_buffer_bounded [of "[]" "J ''a'' @ [10]"] by (auto simp: MAX_BUFFER_def split: prod.splits)

text \<open>
  C17. The events of an SSE stream do not depend on how the network cuts it into chunks, also when a
  cut falls inside a separator.
\<close>

theorem sse_chunking_irrelevant:
  assumes "concat cs = concat ds"
  shows "sseFeed cs [] = sseFeed ds [] \<and> sseFeed cs [] = ssePush [] (concat cs)"
  using sse.feed_same_stream [OF assms] by (simp add: sseFeed_sse sse.feed_any_chunks ssePush_def)

theorem sse_chunking_irrelevant_witness:
  "sseFeed [J ''data: x'' @ [13, 10, 13], [10]] [] = sseFeed [J ''data: x'' @ [13, 10], [13, 10]] []"
  using sse_chunking_irrelevant [of "[J ''data: x'' @ [13, 10, 13], [10]]" "[J ''data: x'' @ [13, 10], [13, 10]]"] by simp

text \<open>
  The latency statistics mean what the report says: the minimum, the 95th percentile and the
  maximum are measured values in that order, every sample lies between the extremes, at least 95
  percent of the samples do not exceed the percentile, and the average is the mean to within half a
  hundredth.
\<close>

theorem latency_statistics:
  assumes "samples \<noteq> []"
  shows "(let st = latencyStats samples in
     ls_count st = length samples \<and> {ls_minMs st, ls_p95Ms st, ls_maxMs st} \<subseteq> set samples \<and>
     ls_minMs st \<le> ls_p95Ms st \<and> ls_p95Ms st \<le> ls_maxMs st \<and>
     (\<forall>x \<in> set samples. ls_minMs st \<le> x \<and> x \<le> ls_maxMs st) \<and>
     19 * length samples \<le> 20 * length (filter (\<lambda>x. x \<le> ls_p95Ms st) samples) \<and>
     \<bar>ls_avgMs st - of_int (sum_list samples) / of_nat (length samples)\<bar> \<le> 1 / 200)"
proof -
  let ?s = "sort samples" and ?n = "length samples"
  define k where "k = min (?n - 1) (max 0 ((19 * ?n + 19) div 20 - 1))"
  have n: "0 < ?n" using assms by simp
  note k = p95_index [OF n, folded k_def]
  have nth: "?s ! i \<in> set samples" if "i < ?n" for i using that by (metis length_sort nth_mem set_sort)
  have mono: "?s ! i \<le> ?s ! j" if "i \<le> j" "j < ?n" for i j
    using that by (simp add: sorted_nth_mono)
  have ext: "?s ! 0 \<le> x \<and> x \<le> ?s ! (?n - 1)" if "x \<in> set samples" for x
  proof -
    from that obtain i where "i < ?n" "x = ?s ! i" by (metis in_set_conv_nth length_sort set_sort)
    then show ?thesis using mono [of 0 i] mono [of i "?n - 1"] by simp
  qed
  have total: "sum_list ?s = sum_list samples" by (metis mset_sort sum_mset_sum_list)
  have near: "\<bar>of_int (roundN (q * 100)) / 100 - q\<bar> \<le> 1 / 200" for q :: rat
    unfolding roundN_def by linarith
  have avg: "\<bar>of_int (roundN (of_int (sum_list ?s) / of_nat ?n * 100)) / 100 -
      of_int (sum_list samples) / of_nat ?n\<bar> \<le> (1 / 200 :: rat)"
    unfolding total by (rule near)
  have "Suc k \<le> length (filter (\<lambda>x. x \<le> ?s ! k) samples)"
    using sorted_prefix_below [of ?s k] k(1) by (simp add: length_filter_sort)
  then have "19 * ?n \<le> 20 * length (filter (\<lambda>x. x \<le> ?s ! k) samples)"
    using k(2) by (meson le_trans mult_le_mono2)
  moreover have "{?s ! 0, ?s ! k, ?s ! (?n - 1)} \<subseteq> set samples"
    using nth [OF n] nth [OF k(1)] nth [of "?n - 1"] n by simp
  moreover have "?s ! 0 \<le> ?s ! k" "?s ! k \<le> ?s ! (?n - 1)"
    using mono [OF le0 k(1)] mono [of k "?n - 1"] n k(1) by auto
  moreover have "ls_count (latencyStats samples) = ?n" "ls_minMs (latencyStats samples) = ?s ! 0"
    "ls_p95Ms (latencyStats samples) = ?s ! k" "ls_maxMs (latencyStats samples) = ?s ! (?n - 1)"
    "ls_avgMs (latencyStats samples) = of_int (roundN (of_int (sum_list ?s) / of_nat ?n * 100)) / 100"
    unfolding k_def using assms by (simp_all only: latencyStats_def Let_def if_False length_sort LatencyStats.simps)
  ultimately show ?thesis using ext avg unfolding Let_def by (intro conjI) (simp_all only:, blast)
qed

theorem latency_statistics_witness:
  "19 * length [30, 10, 20 :: int] \<le> 20 * length (filter (\<lambda>x. x \<le> ls_p95Ms (latencyStats [30, 10, 20])) [30, 10, 20])"
  using latency_statistics [of "[30, 10, 20]"] by (simp only: Let_def) blast

end
