(* ===== verification/McpClient.thy ===== *)
theory McpClient
  imports Resources Framing
begin

text \<open>
  The class \<open>McpClient\<close> of \<^verbatim>\<open>src/runner/src/mcpclient.ts\<close>, a JSON-RPC client whose requests are promises.
  A promise is a ticket; the state keeps the pending requests, the armed timers and what each ticket
  was settled with. The events that reach the client (a frame, a timeout, a failed send, a lost
  connection) are operations on that state, at a time \<open>now\<close> in whole milliseconds. Log lines and
  tracing spans are not modelled.
\<close>

section \<open>\<open>String(v)\<close>\<close>

text \<open>
  The conversion the client applies to ids and messages that come from the target. An object that
  carries its own \<open>toString\<close> (JSON values are never callable) has no primitive value, and the
  conversion throws.
\<close>

definition noPrimitive :: thrown where
  "noPrimitive = BuiltinError (J ''TypeError'') (J ''Cannot convert object to primitive value'')"

fun jsToString :: "host \<Rightarrow> jsval \<Rightarrow> thrown + jsstring"
  and jsJoin :: "host \<Rightarrow> jsval list \<Rightarrow> jsstring list \<Rightarrow> thrown + jsstring" where
  "jsToString h JNull = Inr (J ''null'')"
| "jsToString h (JBool b) = Inr (if b then J ''true'' else J ''false'')"
| "jsToString h (JNum n) = Inr (hNumStr h n)"
| "jsToString h (JStr s) = Inr s"
| "jsToString h (JArr vs) = jsJoin h vs []"
| "jsToString h (JObj o') =
     (if fld o' (J ''toString'') = None then Inr (J ''[object Object]'') else Inl noPrimitive)"
| "jsJoin h [] acc = Inr (joinS (J '','') acc)"
| "jsJoin h (v # vs) acc =
     (if v = JNull then jsJoin h vs (acc @ [[]])
      else case jsToString h v of Inl e \<Rightarrow> Inl e | Inr s \<Rightarrow> jsJoin h vs (acc @ [s]))"

section \<open>State\<close>

record PendingRequest =
  pq_ticket :: nat
  pq_startedAt :: int
  pq_method :: jsstring

text \<open>
  \<open>mc_pending\<close> and \<open>mc_unsolicited\<close> are \<open>Map\<close>s in insertion order. \<open>mc_timers\<close> holds the armed timers
  by ticket, with the key and the start time their callback captured; \<open>mc_outbox\<close> the frames handed to
  the transport; \<open>mc_settled\<close> the outcome of every settled promise.
\<close>

record McpClient =
  mc_pending :: "(jsstring \<times> PendingRequest) list"
  mc_unsolicited :: "(jsstring \<times> nat) list"
  mc_nextId :: nat
  mc_notificationsCount :: nat
  mc_malformedCount :: nat
  mc_lastMalformed :: "RunnerError option"
  mc_crashEvents :: nat
  mc_rawWaiters :: "jsstring list"
  mc_latency :: "int list"
  mc_tickets :: nat
  mc_timers :: "(nat \<times> jsstring \<times> int) list"
  mc_settled :: "(nat \<times> RpcOutcome) list"
  mc_outbox :: "jsstring list"

definition newMcpClient :: McpClient where
  "newMcpClient = \<lparr>mc_pending = [], mc_unsolicited = [], mc_nextId = 1, mc_notificationsCount = 0,
     mc_malformedCount = 0, mc_lastMalformed = None, mc_crashEvents = 0, mc_rawWaiters = [], mc_latency = [],
     mc_tickets = 0, mc_timers = [], mc_settled = [], mc_outbox = []\<rparr>"

text \<open>\<open>Map.set\<close> and \<open>Map.delete\<close>.\<close>

fun mapSet :: "'k \<Rightarrow> 'v \<Rightarrow> ('k \<times> 'v) list \<Rightarrow> ('k \<times> 'v) list" where
  "mapSet k v [] = [(k, v)]"
| "mapSet k v ((k', v') # m) = (if k' = k then (k, v) # m else (k', v') # mapSet k v m)"

definition mapDelete :: "'k \<Rightarrow> ('k \<times> 'v) list \<Rightarrow> ('k \<times> 'v) list" where
  "mapDelete k m = filter (\<lambda>(k', v). k' \<noteq> k) m"

text \<open>A promise keeps its first outcome.\<close>

definition settle :: "nat \<Rightarrow> RpcOutcome \<Rightarrow> McpClient \<Rightarrow> McpClient" where
  "settle ticket outcome st =
     (if ticket \<in> fst ` set (mc_settled st) then st
      else st\<lparr>mc_settled := mc_settled st @ [(ticket, outcome)]\<rparr>)"

definition clearTimer :: "nat \<Rightarrow> McpClient \<Rightarrow> McpClient" where
  "clearTimer ticket st = st\<lparr>mc_timers := filter (\<lambda>(t, _). t \<noteq> ticket) (mc_timers st)\<rparr>"

definition transportSend :: "jsstring \<Rightarrow> McpClient \<Rightarrow> McpClient" where
  "transportSend frame st = st\<lparr>mc_outbox := mc_outbox st @ [frame]\<rparr>"

definition failure :: "bool \<Rightarrow> bool \<Rightarrow> int \<Rightarrow> jsstring \<Rightarrow> RpcOutcome" where
  "failure hang crashed latencyMs transportError =
     \<lparr>ro_ok = False, ro_result = None, ro_error = None, ro_hang = hang, ro_crashed = crashed,
      ro_latencyMs = latencyMs, ro_transportError = Some transportError\<rparr>"

definition rpcError :: "JsonRpcError \<Rightarrow> int \<Rightarrow> RpcOutcome" where
  "rpcError e latencyMs =
     \<lparr>ro_ok = False, ro_result = None, ro_error = Some e, ro_hang = False, ro_crashed = False,
      ro_latencyMs = latencyMs, ro_transportError = None\<rparr>"

definition success :: "jsval \<Rightarrow> int \<Rightarrow> RpcOutcome" where
  "success v latencyMs =
     \<lparr>ro_ok = True, ro_result = Some v, ro_error = None, ro_hang = False, ro_crashed = False,
      ro_latencyMs = latencyMs, ro_transportError = None\<rparr>"

section \<open>Sending\<close>

text \<open>\<open>dispatch\<close>: the promise it returns is the ticket \<open>mc_tickets st\<close>.\<close>

definition dispatch :: "jsstring \<Rightarrow> jsstring \<Rightarrow> jsstring \<Rightarrow> int \<Rightarrow> McpClient \<Rightarrow> McpClient" where
  "dispatch key method frame now st =
     (let ticket = mc_tickets st in
      transportSend frame
        (st\<lparr>mc_tickets := ticket + 1,
            mc_timers := mc_timers st @ [(ticket, key, now)],
            mc_pending := mapSet key \<lparr>pq_ticket = ticket, pq_startedAt = now, pq_method = method\<rparr> (mc_pending st)\<rparr>))"

definition jnat :: "nat \<Rightarrow> jsval" where "jnat n = JNum (Fin (of_nat n))"

definition request :: "host \<Rightarrow> jsstring \<Rightarrow> jsval \<Rightarrow> int \<Rightarrow> McpClient \<Rightarrow> McpClient" where
  "request h method params now st =
     (let i = mc_nextId st in
      dispatch (showNat i) method
        (hStringify h (JObj [(J ''jsonrpc'', JStr (J ''2.0'')), (J ''id'', jnat i), (J ''method'', JStr method),
                             (J ''params'', params)])) now
        (st\<lparr>mc_nextId := i + 1\<rparr>))"

text \<open>\<open>sendRaw\<close>; \<open>expectId\<close> is the id the caller waits for, as text.\<close>

definition sendRaw :: "jsstring \<Rightarrow> jsstring option \<Rightarrow> int \<Rightarrow> McpClient \<Rightarrow> McpClient" where
  "sendRaw raw expectId now st =
     (case expectId of
        Some key \<Rightarrow> dispatch key (J ''raw'') raw now st
      | None \<Rightarrow>
          let key = J ''raw:'' @ showNat (mc_nextId st) in
          dispatch key (J ''raw'') raw now
            (st\<lparr>mc_nextId := mc_nextId st + 1, mc_rawWaiters := mc_rawWaiters st @ [key]\<rparr>))"

definition notify :: "host \<Rightarrow> jsstring \<Rightarrow> jsval \<Rightarrow> McpClient \<Rightarrow> McpClient" where
  "notify h method params st =
     transportSend (hStringify h (JObj [(J ''jsonrpc'', JStr (J ''2.0'')), (J ''method'', JStr method),
                                        (J ''params'', params)])) st"

text \<open>The timer of a ticket fires; a cleared timer does not.\<close>

definition timeoutFires :: "nat \<Rightarrow> int \<Rightarrow> McpClient \<Rightarrow> McpClient" where
  "timeoutFires ticket now st =
     (case map_of (mc_timers st) ticket of
        None \<Rightarrow> st
      | Some (key, startedAt) \<Rightarrow>
          let isRaw = startsWith key (J ''raw:'') in
          settle ticket (failure (\<not> isRaw) False (now - startedAt) (if isRaw then J ''no response'' else J ''timeout''))
            ((clearTimer ticket st)\<lparr>mc_pending := mapDelete key (mc_pending st),
                                   mc_rawWaiters := remove1 key (mc_rawWaiters st)\<rparr>))"

text \<open>The \<open>catch\<close> of \<open>transport.send\<close> in the \<open>dispatch\<close> that made \<open>ticket\<close> at \<open>startedAt\<close>.\<close>

definition sendFailed :: "host \<Rightarrow> nat \<Rightarrow> jsstring \<Rightarrow> int \<Rightarrow> thrown \<Rightarrow> int \<Rightarrow> McpClient \<Rightarrow> McpClient" where
  "sendFailed h ticket key startedAt err now st =
     (case map_of (mc_pending st) key of
        None \<Rightarrow> st
      | Some entry \<Rightarrow>
          let crashed = (case err of Runner (TargetCrashError _) \<Rightarrow> True | _ \<Rightarrow> False) in
          settle ticket (failure False crashed (now - startedAt) (errorMessage h err))
            ((clearTimer (pq_ticket entry) st)\<lparr>mc_pending := mapDelete key (mc_pending st),
               mc_crashEvents := mc_crashEvents st + (if crashed then 1 else 0)\<rparr>))"

section \<open>Receiving\<close>

definition recordMalformed :: "jsstring \<Rightarrow> jsstring \<Rightarrow> McpClient \<Rightarrow> McpClient" where
  "recordMalformed raw detail st =
     st\<lparr>mc_malformedCount := mc_malformedCount st + 1,
        mc_lastMalformed := Some (MalformedFrameError (sliceS raw 0 512) detail)\<rparr>"

text \<open>Take the request of a key out of the pending ones and record its latency.\<close>

definition takePending :: "jsstring \<Rightarrow> PendingRequest \<Rightarrow> int \<Rightarrow> McpClient \<Rightarrow> McpClient" where
  "takePending key p now st =
     (clearTimer (pq_ticket p) st)\<lparr>mc_pending := mapDelete key (mc_pending st),
        mc_latency := recordLatency (now - pq_startedAt p) (mc_latency st)\<rparr>"

text \<open>
  \<open>resolveRawWaiter\<close>: the result tells whether a waiter was resolved; the conversion of the error
  message may throw, after the request was taken out.
\<close>

definition rawOutcome :: "host \<Rightarrow> jsstring \<Rightarrow> int \<Rightarrow> thrown + RpcOutcome" where
  "rawOutcome h raw latencyMs =
     (let parsed = (case hParse h raw of Some v \<Rightarrow> v | None \<Rightarrow> JStr raw) in
      case Option.bind (asRec (Some parsed)) (\<lambda>p. Option.bind (asRec (fld p (J ''error'')))
             (\<lambda>e. map_option (\<lambda>c. (e, c)) (asNum (fld e (J ''code''))))) of
        Some (e, code) \<Rightarrow>
          bindR (case fld e (J ''message'') of None \<Rightarrow> Inr [] | Some JNull \<Rightarrow> Inr [] | Some m \<Rightarrow> jsToString h m)
            (\<lambda>message. Inr (rpcError \<lparr>je_code = code, je_message = message, je_data = fld e (J ''data'')\<rparr> latencyMs))
      | None \<Rightarrow> Inr (success parsed latencyMs))"

definition resolveRawWaiter :: "host \<Rightarrow> jsstring \<Rightarrow> int \<Rightarrow> McpClient \<Rightarrow> thrown option \<times> McpClient" where
  "resolveRawWaiter h raw now st =
     (case mc_rawWaiters st of
        [] \<Rightarrow> (None, st)
      | key # rest \<Rightarrow>
          let st1 = st\<lparr>mc_rawWaiters := rest\<rparr> in
          (case map_of (mc_pending st1) key of
             None \<Rightarrow> (None, st1)
           | Some p \<Rightarrow>
               let st2 = takePending key p now st1 in
               (case rawOutcome h raw (now - pq_startedAt p) of
                  Inl e \<Rightarrow> (Some e, st2)
                | Inr outcome \<Rightarrow> (None, settle (pq_ticket p) outcome st2))))"

definition answerOf :: "jsobj \<Rightarrow> int \<Rightarrow> RpcOutcome option" where
  "answerOf message latencyMs =
     (case Option.bind (asRec (fld message (J ''error''))) (\<lambda>e. case (asNum (fld e (J ''code'')), asStr (fld e (J ''message''))) of
                (Some code, Some m) \<Rightarrow> Some \<lparr>je_code = code, je_message = m, je_data = fld e (J ''data'')\<rparr>
              | _ \<Rightarrow> None) of
        Some err \<Rightarrow> Some (rpcError err latencyMs)
      | None \<Rightarrow> map_option (\<lambda>v. success v latencyMs) (fld message (J ''result'')))"

definition handleMessage :: "host \<Rightarrow> jsval \<Rightarrow> jsstring \<Rightarrow> int \<Rightarrow> McpClient \<Rightarrow> thrown option \<times> McpClient" where
  "handleMessage h v raw now st =
     (case asRec (Some v) of
        None \<Rightarrow> resolveRawWaiter h raw now (recordMalformed raw (J ''frame is not a JSON object'') st)
      | Some message \<Rightarrow>
          if fld message (J ''jsonrpc'') \<noteq> Some (JStr (J ''2.0''))
          then resolveRawWaiter h raw now (recordMalformed raw (J ''missing or invalid jsonrpc version field'') st)
          else (case (asStr (fld message (J ''method'')), fld message (J ''id'')) of
             (Some method, Some i) \<Rightarrow>
               (None, transportSend
                  (hStringify h (JObj [(J ''jsonrpc'', JStr (J ''2.0'')), (J ''id'', i),
                     (J ''error'', JObj [(J ''code'', JNum (Fin (- 32601))),
                                         (J ''message'', JStr (J ''Method not supported by evaluator''))])]))
                  (st\<lparr>mc_unsolicited := mapSet method
                        ((case map_of (mc_unsolicited st) method of Some c \<Rightarrow> c | None \<Rightarrow> 0) + 1) (mc_unsolicited st)\<rparr>))
           | (Some method, None) \<Rightarrow> (None, st\<lparr>mc_notificationsCount := mc_notificationsCount st + 1\<rparr>)
           | (None, None) \<Rightarrow> resolveRawWaiter h raw now (recordMalformed raw (J ''response without id'') st)
           | (None, Some i) \<Rightarrow>
               (case jsToString h i of
                  Inl e \<Rightarrow> (Some e, st)
                | Inr key \<Rightarrow>
                    (case map_of (mc_pending st) key of
                       None \<Rightarrow> resolveRawWaiter h raw now st
                     | Some p \<Rightarrow>
                         let latencyMs = now - pq_startedAt p; st1 = takePending key p now st in
                         (case answerOf message latencyMs of
                            Some outcome \<Rightarrow> (None, settle (pq_ticket p) outcome st1)
                          | None \<Rightarrow>
                              (None, settle (pq_ticket p) (failure False False latencyMs (J ''malformed response''))
                                 (recordMalformed raw (J ''response has neither result nor error'') st1)))))))"

fun handleItems :: "host \<Rightarrow> jsval list \<Rightarrow> jsstring \<Rightarrow> int \<Rightarrow> McpClient \<Rightarrow> thrown option \<times> McpClient" where
  "handleItems h [] raw now st = (None, st)"
| "handleItems h (v # vs) raw now st =
     (case handleMessage h v raw now st of
        (Some e, st') \<Rightarrow> (Some e, st')
      | (None, st') \<Rightarrow> handleItems h vs raw now st')"

definition handleFrame :: "host \<Rightarrow> jsstring \<Rightarrow> int \<Rightarrow> McpClient \<Rightarrow> thrown option \<times> McpClient" where
  "handleFrame h frame now st =
     (case hParse h frame of
        None \<Rightarrow> resolveRawWaiter h frame now
                 (recordMalformed frame (J ''invalid JSON: '' @
                    errorMessage h (BuiltinError (J ''SyntaxError'') (hParseErr h frame))) st)
      | Some (JArr items) \<Rightarrow> handleItems h items frame now st
      | Some v \<Rightarrow> handleMessage h v frame now st)"

section \<open>Closing\<close>

fun settleAll :: "(int \<Rightarrow> RpcOutcome) \<Rightarrow> (jsstring \<times> PendingRequest) list \<Rightarrow> McpClient \<Rightarrow> McpClient" where
  "settleAll outcome [] st = st"
| "settleAll outcome ((key, p) # ps) st =
     settleAll outcome ps
       (settle (pq_ticket p) (outcome (pq_startedAt p))
          ((clearTimer (pq_ticket p) st)\<lparr>mc_pending := mapDelete key (mc_pending st)\<rparr>))"

definition handleClose :: "jsstring \<Rightarrow> int \<Rightarrow> McpClient \<Rightarrow> McpClient" where
  "handleClose reason now st =
     (settleAll (\<lambda>startedAt. failure False True (now - startedAt) (J ''target connection lost: '' @ reason)) (mc_pending st)
        (st\<lparr>mc_crashEvents := mc_crashEvents st + 1\<rparr>))\<lparr>mc_rawWaiters := []\<rparr>"

definition closeClient :: "McpClient \<Rightarrow> McpClient" where
  "closeClient st = settleAll (\<lambda>_. failure False False 0 (J ''client closed'')) (mc_pending st) st"

definition crashes :: "nat \<Rightarrow> McpClient \<Rightarrow> nat" where
  "crashes transportCrashCount st = max (mc_crashEvents st) transportCrashCount"

definition totalUnsolicited :: "McpClient \<Rightarrow> nat" where
  "totalUnsolicited st = sum_list (map snd (mc_unsolicited st))"

section \<open>Handshake and listings\<close>

text \<open>
  The methods below wait for the outcome of \<open>this.request\<close>. They take it from \<open>ask\<close>, a function on a
  state \<open>'w\<close> that answers each request with some outcome.
\<close>

type_synonym 'w Ask = "'w \<Rightarrow> jsstring \<Rightarrow> jsval \<Rightarrow> RpcOutcome \<times> 'w"

text \<open>A match of a regular expression with the flag \<open>i\<close> folds ASCII letters only.\<close>

definition asciiLower :: "jsstring \<Rightarrow> jsstring" where
  "asciiLower s = map (\<lambda>c. if 65 \<le> c \<and> c \<le> 90 then c + 32 else c) s"

definition PROTOCOL_VERSIONS :: "jsstring list" where
  "PROTOCOL_VERSIONS = [J ''2025-06-18'', J ''2024-11-05'']"

definition readInit :: "jsobj \<Rightarrow> jsstring \<Rightarrow> McpInitializeResult" where
  "readInit result version =
     (let serverInfoRaw = (case asRec (fld result (J ''serverInfo'')) of Some o' \<Rightarrow> o' | None \<Rightarrow> []) in
      \<lparr>ir_protocolVersion = (case asStr (fld result (J ''protocolVersion'')) of Some v \<Rightarrow> v | None \<Rightarrow> version),
       ir_capabilities = (case asRec (fld result (J ''capabilities'')) of Some o' \<Rightarrow> o' | None \<Rightarrow> []),
       ir_serverName = asStr (fld serverInfoRaw (J ''name'')),
       ir_serverVersion = asStr (fld serverInfoRaw (J ''version'')),
       ir_instructions = asStr (fld result (J ''instructions''))\<rparr>)"

definition initParams :: "jsstring \<Rightarrow> jsstring \<Rightarrow> jsstring \<Rightarrow> jsval" where
  "initParams clientName clientVersion version = JObj
     [(J ''protocolVersion'', JStr version),
      (J ''capabilities'', JObj [(J ''roots'', JObj [(J ''listChanged'', JBool False)]), (J ''sampling'', JObj []),
                                (J ''elicitation'', JObj [])]),
      (J ''clientInfo'', JObj [(J ''name'', JStr clientName), (J ''version'', JStr clientVersion)])]"

definition rejected :: "host \<Rightarrow> RpcOutcome option \<Rightarrow> RunnerError" where
  "rejected h lastOutcome = TargetUnavailableError (J ''initialize rejected: '' @
     (case Option.bind lastOutcome ro_error of
        Some e \<Rightarrow> hNumStr h (je_code e) @ J '' '' @ je_message e
      | None \<Rightarrow> (case Option.bind lastOutcome ro_transportError of
                   Some t \<Rightarrow> t | None \<Rightarrow> J ''unexpected initialize result'')))"

text \<open>The result also says whether \<open>notifications/initialized\<close> is sent: with a result it is.\<close>

fun initLoop :: "host \<Rightarrow> 'w Ask \<Rightarrow> jsstring \<Rightarrow> jsstring \<Rightarrow> jsstring list \<Rightarrow> RpcOutcome option \<Rightarrow> 'w \<Rightarrow>
    (RunnerError + McpInitializeResult) \<times> 'w" where
  "initLoop h ask clientName clientVersion [] lastOutcome w = (Inl (rejected h lastOutcome), w)"
| "initLoop h ask clientName clientVersion (version # vs) lastOutcome w =
     (case ask w (J ''initialize'') (initParams clientName clientVersion version) of
        (outcome, w') \<Rightarrow>
          if ro_crashed outcome then
            (Inl (TargetCrashError (case ro_transportError outcome of
                Some t \<Rightarrow> t | None \<Rightarrow> J ''target crashed during initialize'')), w')
          else if ro_hang outcome then (Inl (TargetUnavailableError (J ''initialize request hung'')), w')
          else (case (ro_ok outcome, asRec (ro_result outcome)) of
             (True, Some result) \<Rightarrow> (Inr (readInit result version), w')
           | _ \<Rightarrow>
               (case ro_error outcome of
                  Some e \<Rightarrow>
                    if includesS (asciiLower (je_message e)) (J ''protocol'') \<or>
                       includesS (asciiLower (je_message e)) (J ''version'')
                    then initLoop h ask clientName clientVersion vs (Some outcome) w'
                    else (Inl (rejected h (Some outcome)), w')
                | None \<Rightarrow> (Inl (rejected h (Some outcome)), w'))))"

definition initialize :: "host \<Rightarrow> 'w Ask \<Rightarrow> jsstring \<Rightarrow> jsstring \<Rightarrow> 'w \<Rightarrow> (RunnerError + McpInitializeResult) \<times> 'w" where
  "initialize h ask clientName clientVersion w =
     initLoop h ask clientName clientVersion PROTOCOL_VERSIONS None w"

text \<open>\<open>paginate\<close> with \<open>pages\<close> requests left; the source starts with 50.\<close>

fun pageLoop :: "'w Ask \<Rightarrow> jsstring \<Rightarrow> jsstring \<Rightarrow> nat \<Rightarrow> jsstring option \<Rightarrow> 'w \<Rightarrow> (RunnerError + jsval list) \<times> 'w" where
  "pageLoop ask method field 0 cursor w = (Inr [], w)"
| "pageLoop ask method field (Suc pages) cursor w =
     (case ask w method (JObj (case cursor of Some c \<Rightarrow> [(J ''cursor'', JStr c)] | None \<Rightarrow> [])) of
        (outcome, w') \<Rightarrow>
          if ro_crashed outcome then
            (Inl (TargetCrashError (case ro_transportError outcome of
                Some t \<Rightarrow> t | None \<Rightarrow> J ''target crashed during '' @ method)), w')
          else if \<not> ro_ok outcome then (Inr [], w')
          else (case asRec (ro_result outcome) of
             None \<Rightarrow> (Inr [], w')
           | Some result \<Rightarrow>
               let items = (case asArr (fld result field) of Some vs \<Rightarrow> vs | None \<Rightarrow> []) in
               (case neStr (fld result (J ''nextCursor'')) of
                  Some next \<Rightarrow>
                    if Some next \<noteq> cursor
                    then map_prod (map_sum id (\<lambda>rest. items @ rest)) id (pageLoop ask method field pages (Some next) w')
                    else (Inr items, w')
                | None \<Rightarrow> (Inr items, w'))))"

definition paginate :: "'w Ask \<Rightarrow> jsstring \<Rightarrow> string \<Rightarrow> 'w \<Rightarrow> (RunnerError + jsval list) \<times> 'w" where
  "paginate ask method field w = pageLoop ask method (J field) 50 None w"

definition readTool :: "jsval \<Rightarrow> McpToolDefinition list" where
  "readTool item =
     (case asRec (Some item) of
        Some o' \<Rightarrow> (case asStr (fld o' (J ''name'')) of
            Some name \<Rightarrow> [\<lparr>td_name = name, td_description = asStr (fld o' (J ''description'')),
                           td_inputSchema = asRec (fld o' (J ''inputSchema'')),
                           td_annotations = asRec (fld o' (J ''annotations''))\<rparr>]
          | None \<Rightarrow> [])
      | None \<Rightarrow> [])"

definition readPromptArgument :: "jsval \<Rightarrow> McpPromptArgument list" where
  "readPromptArgument item =
     (case asRec (Some item) of
        Some a \<Rightarrow> (case asStr (fld a (J ''name'')) of
            Some name \<Rightarrow> [\<lparr>pa_name = name, pa_description = asStr (fld a (J ''description'')),
                           pa_required = asBool (fld a (J ''required''))\<rparr>]
          | None \<Rightarrow> [])
      | None \<Rightarrow> [])"

definition readPrompt :: "jsval \<Rightarrow> McpPromptDefinition list" where
  "readPrompt item =
     (case asRec (Some item) of
        Some o' \<Rightarrow> (case asStr (fld o' (J ''name'')) of
            Some name \<Rightarrow> [\<lparr>pd_name = name, pd_description = asStr (fld o' (J ''description'')),
                           pd_arguments = (case asArr (fld o' (J ''arguments'')) of
                              Some as \<Rightarrow> concat (map readPromptArgument as) | None \<Rightarrow> [])\<rparr>]
          | None \<Rightarrow> [])
      | None \<Rightarrow> [])"

definition readResourceDef :: "jsval \<Rightarrow> McpResourceDefinition list" where
  "readResourceDef item =
     (case asRec (Some item) of
        Some o' \<Rightarrow> (case asStr (fld o' (J ''uri'')) of
            Some uri \<Rightarrow> [\<lparr>rd_uri = uri, rd_name = asStr (fld o' (J ''name'')),
                          rd_description = asStr (fld o' (J ''description'')),
                          rd_mimeType = asStr (fld o' (J ''mimeType''))\<rparr>]
          | None \<Rightarrow> [])
      | None \<Rightarrow> [])"

definition listTools :: "'w Ask \<Rightarrow> 'w \<Rightarrow> (RunnerError + McpToolDefinition list) \<times> 'w" where
  "listTools ask w = map_prod (map_sum id (\<lambda>items. concat (map readTool items))) id (paginate ask (J ''tools/list'') ''tools'' w)"

definition listPrompts :: "'w Ask \<Rightarrow> 'w \<Rightarrow> (RunnerError + McpPromptDefinition list) \<times> 'w" where
  "listPrompts ask w = map_prod (map_sum id (\<lambda>items. concat (map readPrompt items))) id (paginate ask (J ''prompts/list'') ''prompts'' w)"

definition listResources :: "'w Ask \<Rightarrow> 'w \<Rightarrow> (RunnerError + McpResourceDefinition list) \<times> 'w" where
  "listResources ask w =
     map_prod (map_sum id (\<lambda>items. concat (map readResourceDef items))) id (paginate ask (J ''resources/list'') ''resources'' w)"

section \<open>Reading tool results\<close>

definition blockText :: "host \<Rightarrow> jsval \<Rightarrow> thrown + jsstring list" where
  "blockText h block =
     (case asRec (Some block) of
        None \<Rightarrow> Inr []
      | Some b \<Rightarrow>
          (case asStr (fld b (J ''text'')) of
             Some t \<Rightarrow> Inr [t]
           | None \<Rightarrow>
               (case asStr (fld b (J ''data'')) of
                  Some d \<Rightarrow>
                    bindR (case fld b (J ''mimeType'') of None \<Rightarrow> Inr (J ''binary'') | Some JNull \<Rightarrow> Inr (J ''binary'')
                             | Some m \<Rightarrow> jsToString h m)
                      (\<lambda>m. Inr [J ''['' @ m @ J '' '' @ showNat (length d) @ J '' bytes base64]''])
                | None \<Rightarrow> Inr [hStringify h block])))"

fun blocksText :: "host \<Rightarrow> jsval list \<Rightarrow> thrown + jsstring list" where
  "blocksText h [] = Inr []"
| "blocksText h (b # bs) = bindR (blockText h b) (\<lambda>t. bindR (blocksText h bs) (\<lambda>ts. Inr (t @ ts)))"

definition extractText :: "host \<Rightarrow> jsval option \<Rightarrow> thrown + jsstring" where
  "extractText h result =
     (case asRec result of
        None \<Rightarrow> Inr (case result of Some (JStr s) \<Rightarrow> s | Some v \<Rightarrow> hStringify h v | None \<Rightarrow> hStringify h JNull)
      | Some o' \<Rightarrow>
          bindR (blocksText h (case asArr (fld o' (J ''content'')) of Some bs \<Rightarrow> bs | None \<Rightarrow> [])) (\<lambda>texts.
          let parts = texts @ (case fld o' (J ''structuredContent'') of Some v \<Rightarrow> [hStringify h v] | None \<Rightarrow> []) in
          Inr (if parts = [] then hStringify h (JObj o') else joinS [10] parts)))"

definition isToolError :: "jsval option \<Rightarrow> bool" where
  "isToolError result = (case asRec result of Some o' \<Rightarrow> fld o' (J ''isError'') = Some (JBool True) | None \<Rightarrow> False)"

section \<open>The invariant\<close>

text \<open>
  Every promise is pending with its own armed timer, or settled once: the timers are those of the
  pending requests, and the tickets of settled and pending requests are all the tickets, each once.
\<close>

definition timerOf :: "jsstring \<times> PendingRequest \<Rightarrow> nat \<times> jsstring \<times> int" where
  "timerOf = (\<lambda>(key, p). (pq_ticket p, key, pq_startedAt p))"

definition wfParts :: "(jsstring \<times> PendingRequest) list \<Rightarrow> (nat \<times> jsstring \<times> int) list \<Rightarrow> (nat \<times> RpcOutcome) list \<Rightarrow> nat \<Rightarrow> bool" where
  "wfParts P T S n \<longleftrightarrow> distinct (map fst P) \<and> T = map timerOf P \<and>
     distinct (map fst S @ map (pq_ticket \<circ> snd) P) \<and> set (map fst S @ map (pq_ticket \<circ> snd) P) = {..<n}"

definition wfClient :: "McpClient \<Rightarrow> bool" where
  "wfClient st \<longleftrightarrow> wfParts (mc_pending st) (mc_timers st) (mc_settled st) (mc_tickets st)"

named_theorems client_defs \<open>how the operations of the client change its state\<close>

lemmas [client_defs] = settle_def clearTimer_def transportSend_def takePending_def recordMalformed_def Let_def

lemma map_of_mem: "map_of P k = Some p \<Longrightarrow> (k, p) \<in> set P"
  by (rule map_of_SomeD)

lemma mapSet_new: "k \<notin> fst ` set m \<Longrightarrow> mapSet k v m = m @ [(k, v)]"
  by (induction m) auto

lemma mapDelete_split:
  assumes "distinct (map fst P)" "map_of P k = Some p"
  shows "\<exists>A B. P = A @ (k, p) # B \<and> mapDelete k P = A @ B"
proof -
  from map_of_mem [OF assms(2)] obtain A B where P: "P = A @ (k, p) # B" by (meson split_list)
  with assms(1) have "k \<notin> fst ` set A" "k \<notin> fst ` set B" by auto
  then have "filter (\<lambda>(k', v). k' \<noteq> k) A = A" "filter (\<lambda>(k', v). k' \<noteq> k) B = B"
    by (force simp: filter_id_conv)+
  then have "mapDelete k P = A @ B" by (simp add: P mapDelete_def)
  with P show ?thesis by blast
qed

lemma wfParts_settle:
  assumes "wfParts P T S n" "map_of P k = Some p"
  shows "wfParts (mapDelete k P) (filter (\<lambda>(t, _). t \<noteq> pq_ticket p) T) (S @ [(pq_ticket p, out)]) n"
    "pq_ticket p \<notin> fst ` set S"
proof -
  from assms(1) have d: "distinct (map fst P)" by (simp add: wfParts_def)
  from mapDelete_split [OF d assms(2)] obtain A B where P: "P = A @ (k, p) # B" "mapDelete k P = A @ B" by blast
  have tick: "pq_ticket q \<noteq> pq_ticket p" if "(k', q) \<in> set (A @ B)" for k' q
    using assms(1) that unfolding wfParts_def P(1) by (force simp: image_iff)
  have "filter (\<lambda>(t, _). t \<noteq> pq_ticket p) (map timerOf A) = map timerOf A"
    "filter (\<lambda>(t, _). t \<noteq> pq_ticket p) (map timerOf B) = map timerOf B"
    using tick by (auto simp: filter_id_conv timerOf_def)
  then have "filter (\<lambda>(t, _). t \<noteq> pq_ticket p) T = map timerOf (A @ B)"
    using assms(1) by (simp add: wfParts_def P(1) timerOf_def)
  moreover have tickets: "distinct (map fst S @ map (pq_ticket \<circ> snd) A @ pq_ticket p # map (pq_ticket \<circ> snd) B)"
    "set (map fst S @ map (pq_ticket \<circ> snd) A @ pq_ticket p # map (pq_ticket \<circ> snd) B) = {..<n}"
    using assms(1) by (simp_all add: wfParts_def P(1))
  moreover have "distinct (map fst (A @ B))" using d by (simp add: P(1))
  ultimately show "wfParts (mapDelete k P) (filter (\<lambda>(t, _). t \<noteq> pq_ticket p) T) (S @ [(pq_ticket p, out)]) n"
    unfolding wfParts_def P(2) by simp
  show "pq_ticket p \<notin> fst ` set S" using tickets(1) by auto
qed

lemma wfParts_dispatch:
  assumes "wfParts P T S n" "k \<notin> fst ` set P"
  shows "wfParts (mapSet k \<lparr>pq_ticket = n, pq_startedAt = now, pq_method = m\<rparr> P) (T @ [(n, k, now)]) S (n + 1)"
  using assms by (auto simp: wfParts_def mapSet_new timerOf_def lessThan_Suc)

lemma wf_new: "wfClient newMcpClient"
  by (simp add: wfClient_def wfParts_def newMcpClient_def)

lemma wf_dispatch: "wfClient st \<Longrightarrow> key \<notin> fst ` set (mc_pending st) \<Longrightarrow> wfClient (dispatch key method frame now st)"
  using wfParts_dispatch by (simp add: wfClient_def dispatch_def client_defs)

lemma wf_sendRaw:
  assumes "wfClient st"
    "(case expectId of Some key \<Rightarrow> key | None \<Rightarrow> J ''raw:'' @ showNat (mc_nextId st)) \<notin> fst ` set (mc_pending st)"
  shows "wfClient (sendRaw raw expectId now st)"
  using assms by (auto simp: sendRaw_def Let_def wfClient_def intro!: wf_dispatch [unfolded wfClient_def] split: option.splits)

lemma wf_request:
  "wfClient st \<Longrightarrow> showNat (mc_nextId st) \<notin> fst ` set (mc_pending st) \<Longrightarrow> wfClient (request h method params now st)"
  by (simp add: request_def Let_def wfClient_def) (intro wf_dispatch [unfolded wfClient_def]; simp)

text \<open>Taking a pending request out and settling it keeps the invariant.\<close>

lemma wf_take:
  assumes "wfClient st" "map_of (mc_pending st) key = Some p"
    "mc_pending st' = mapDelete key (mc_pending st)"
    "mc_timers st' = filter (\<lambda>(t, _). t \<noteq> pq_ticket p) (mc_timers st)"
    "mc_settled st' = mc_settled st" "mc_tickets st' = mc_tickets st"
  shows "wfClient (settle (pq_ticket p) out st')"
  using wfParts_settle(1) [OF assms(1) [unfolded wfClient_def] assms(2), of out]
    wfParts_settle(2) [OF assms(1) [unfolded wfClient_def] assms(2)] assms(3-)
  by (simp add: wfClient_def settle_def)

lemma timer_pending:
  assumes "wfClient st" "map_of (mc_timers st) ticket = Some (key, startedAt)"
  shows "\<exists>p. map_of (mc_pending st) key = Some p \<and> pq_ticket p = ticket \<and> pq_startedAt p = startedAt"
proof -
  from map_of_SomeD [OF assms(2)] assms(1) obtain p where "(key, p) \<in> set (mc_pending st)"
    "pq_ticket p = ticket" "pq_startedAt p = startedAt"
    by (auto simp: wfClient_def wfParts_def timerOf_def)
  with assms(1) show ?thesis by (auto simp: wfClient_def wfParts_def)
qed

lemma wf_timeout:
  assumes "wfClient st"
  shows "wfClient (timeoutFires ticket now st)"
proof (cases "map_of (mc_timers st) ticket")
  case (Some ks)
  obtain key startedAt where ks: "ks = (key, startedAt)" by force
  from timer_pending [OF assms Some [unfolded ks]] obtain p
    where p: "map_of (mc_pending st) key = Some p" "pq_ticket p = ticket" by blast
  show ?thesis
    unfolding timeoutFires_def Some [unfolded p(2) [symmetric]] ks option.case prod.case Let_def p(2) [symmetric]
    by (rule wf_take [OF assms p(1)]) (simp_all add: clearTimer_def)
qed (use assms in \<open>simp add: timeoutFires_def\<close>)

lemma wf_sendFailed:
  assumes "wfClient st" "\<And>p. map_of (mc_pending st) key = Some p \<Longrightarrow> pq_ticket p = ticket"
  shows "wfClient (sendFailed h ticket key startedAt err now st)"
proof (cases "map_of (mc_pending st) key")
  case (Some p)
  show ?thesis
    unfolding sendFailed_def Some option.case Let_def assms(2) [OF Some, symmetric]
    by (rule wf_take [OF assms(1) Some]) (simp_all add: clearTimer_def)
qed (use assms in \<open>simp add: sendFailed_def\<close>)

lemma wf_upd [simp]:
  "wfClient (st\<lparr>mc_rawWaiters := r\<rparr>) = wfClient st"
  "wfClient (st\<lparr>mc_notificationsCount := i\<rparr>) = wfClient st"
  "wfClient (st\<lparr>mc_unsolicited := u\<rparr>) = wfClient st"
  "wfClient (st\<lparr>mc_crashEvents := i\<rparr>) = wfClient st"
  "wfClient (st\<lparr>mc_outbox := ob\<rparr>) = wfClient st"
  "wfClient (recordMalformed raw detail st) = wfClient st"
  by (simp_all add: wfClient_def recordMalformed_def)

lemma wf_takePending:
  assumes "wfClient st" "map_of (mc_pending st) key = Some p"
  shows "wfClient (settle (pq_ticket p) out (takePending key p now st))"
    "wfClient (settle (pq_ticket p) out (recordMalformed raw detail (takePending key p now st)))"
  by (rule wf_take [OF assms]; simp add: takePending_def clearTimer_def recordMalformed_def)+

lemma wf_resolveRawWaiter:
  assumes "wfClient st" "resolveRawWaiter h raw now st = (None, st')"
  shows "wfClient st'"
  using assms wf_takePending [of "st\<lparr>mc_rawWaiters := tl (mc_rawWaiters st)\<rparr>"]
  by (auto simp: resolveRawWaiter_def Let_def split: list.splits option.splits sum.splits)

lemma wf_handleMessage:
  assumes "wfClient st" "handleMessage h v raw now st = (None, st')"
  shows "wfClient st'"
proof (cases "asRec (Some v)")
  case None
  with assms show ?thesis by (auto simp: handleMessage_def intro: wf_resolveRawWaiter [rotated])
next
  case (Some message)
  show ?thesis
  proof (cases "fld message (J ''jsonrpc'') = Some (JStr (J ''2.0''))")
    case False
    with assms Some show ?thesis by (auto simp: handleMessage_def intro: wf_resolveRawWaiter [rotated])
  next
    case True
    with assms Some show ?thesis
      by (auto simp: handleMessage_def Let_def transportSend_def wf_takePending
          intro: wf_resolveRawWaiter [rotated] split: option.splits sum.splits)
  qed
qed

lemma wf_handleItems: "wfClient st \<Longrightarrow> handleItems h vs raw now st = (None, st') \<Longrightarrow> wfClient st'"
  by (induction vs arbitrary: st) (auto split: prod.splits option.splits dest: wf_handleMessage)

lemma wf_handleFrame: "wfClient st \<Longrightarrow> handleFrame h frame now st = (None, st') \<Longrightarrow> wfClient st'"
  by (auto simp: handleFrame_def split: option.splits jsval.splits
      dest: wf_handleMessage wf_handleItems wf_resolveRawWaiter [rotated])

lemma wf_settleAll:
  "wfClient st \<Longrightarrow> mc_pending st = ps \<Longrightarrow>
   wfClient (settleAll out ps st) \<and> mc_pending (settleAll out ps st) = [] \<and>
   mc_tickets (settleAll out ps st) = mc_tickets st"
proof (induction ps arbitrary: st)
  case (Cons kp ps)
  obtain key p where kp: "kp = (key, p)" by force
  let ?st = "settle (pq_ticket p) (out (pq_startedAt p))
      ((clearTimer (pq_ticket p) st)\<lparr>mc_pending := mapDelete key (mc_pending st)\<rparr>)"
  have "key \<notin> fst ` set ps" using Cons.prems by (auto simp: wfClient_def wfParts_def kp)
  then have "filter (\<lambda>(k', v). k' \<noteq> key) ps = ps" by (force simp: filter_id_conv)
  then have del: "mapDelete key (mc_pending st) = ps" using Cons.prems(2) by (simp add: kp mapDelete_def)
  have "wfClient ?st"
    by (rule wf_take [OF Cons.prems(1), of key p]) (simp_all add: Cons.prems(2) kp clearTimer_def)
  moreover have "mc_pending ?st = ps" "mc_tickets ?st = mc_tickets st"
    by (simp_all add: settle_def del) (simp add: clearTimer_def)
  ultimately show ?case using Cons.IH [of ?st] by (simp add: kp)
qed simp

lemma crashEvents_settleAll: "mc_crashEvents (settleAll out ps st) = mc_crashEvents st"
  by (induction out ps st rule: settleAll.induct) (simp_all add: settle_def clearTimer_def)

lemma wf_handleClose:
  assumes "wfClient st"
  shows "wfClient (handleClose reason now st)" "mc_pending (handleClose reason now st) = []"
    "mc_tickets (handleClose reason now st) = mc_tickets st"
  using wf_settleAll [of "st\<lparr>mc_crashEvents := mc_crashEvents st + 1\<rparr>" "mc_pending st"] assms
  by (simp_all add: handleClose_def)

lemma wf_closeClient: "wfClient st \<Longrightarrow> wfClient (closeClient st) \<and> mc_pending (closeClient st) = []"
  using wf_settleAll [of st "mc_pending st"] by (simp add: closeClient_def)

section \<open>Runs\<close>

text \<open>
  The runs of a client: requests whose keys were not used before, and the events of the transport and
  the clock in any order. \<open>used\<close> lists the requests made (ticket, key, start time), to which late send
  failures refer. A frame on which the handler throws ends the run: the exception is not caught.
\<close>

inductive mcpRun :: "host \<Rightarrow> McpClient \<Rightarrow> (nat \<times> jsstring \<times> int) list \<Rightarrow> bool" for h where
  run_start: "mcpRun h newMcpClient []"
| run_request: "mcpRun h st used \<Longrightarrow> showNat (mc_nextId st) \<notin> (fst \<circ> snd) ` set used \<Longrightarrow>
    mcpRun h (request h method params now st) ((mc_tickets st, showNat (mc_nextId st), now) # used)"
| run_raw: "mcpRun h st used \<Longrightarrow>
    key = (case expectId of Some k \<Rightarrow> k | None \<Rightarrow> J ''raw:'' @ showNat (mc_nextId st)) \<Longrightarrow>
    key \<notin> (fst \<circ> snd) ` set used \<Longrightarrow>
    mcpRun h (sendRaw raw expectId now st) ((mc_tickets st, key, now) # used)"
| run_notify: "mcpRun h st used \<Longrightarrow> mcpRun h (notify h method params st) used"
| run_timeout: "mcpRun h st used \<Longrightarrow> mcpRun h (timeoutFires ticket now st) used"
| run_sendFailed: "mcpRun h st used \<Longrightarrow> (ticket, key, startedAt) \<in> set used \<Longrightarrow>
    mcpRun h (sendFailed h ticket key startedAt err now st) used"
| run_frame: "mcpRun h st used \<Longrightarrow> handleFrame h frame now st = (None, st') \<Longrightarrow> mcpRun h st' used"
| run_lost: "mcpRun h st used \<Longrightarrow> mcpRun h (handleClose reason now st) used"
| run_close: "mcpRun h st used \<Longrightarrow> mcpRun h (closeClient st) used"

inductive_cases mcpRun_Nil: "mcpRun h st []"

definition issuedOk :: "McpClient \<Rightarrow> (nat \<times> jsstring \<times> int) list \<Rightarrow> bool" where
  "issuedOk st used \<longleftrightarrow> distinct (map (fst \<circ> snd) used) \<and> timerOf ` set (mc_pending st) \<subseteq> set used"

lemma issuedOk_mono: "issuedOk st used \<Longrightarrow> set (mc_pending st') \<subseteq> set (mc_pending st) \<Longrightarrow> issuedOk st' used"
  by (auto simp: issuedOk_def)

lemma issuedOk_ticket:
  assumes "issuedOk st used" "(ticket, key, startedAt) \<in> set used" "map_of (mc_pending st) key = Some p"
  shows "pq_ticket p = ticket"
proof -
  have "(pq_ticket p, key, pq_startedAt p) \<in> set used"
    using assms(1) map_of_mem [OF assms(3)] by (force simp: issuedOk_def timerOf_def)
  then have "(pq_ticket p, key, pq_startedAt p) = (ticket, key, startedAt)"
    using assms(1,2) unfolding issuedOk_def distinct_map by (elim conjE inj_onD) simp_all
  then show ?thesis by simp
qed

lemma pending_settle [simp]: "mc_pending (settle t out st) = mc_pending st"
  by (simp add: settle_def)

lemma pending_clear [simp]: "mc_pending (clearTimer t st) = mc_pending st"
  by (simp add: clearTimer_def)

lemma pending_malformed [simp]: "mc_pending (recordMalformed raw d st) = mc_pending st"
  by (simp add: recordMalformed_def)

lemma set_mapDelete: "set (mapDelete k m) \<subseteq> set m"
  by (auto simp: mapDelete_def)

lemma pending_resolveRawWaiter: "resolveRawWaiter h raw now st = (x, st') \<Longrightarrow> set (mc_pending st') \<subseteq> set (mc_pending st)"
  using set_mapDelete
  by (fastforce simp: resolveRawWaiter_def takePending_def Let_def split: list.splits option.splits sum.splits)

lemma pending_handleMessage: "handleMessage h v raw now st = (x, st') \<Longrightarrow> set (mc_pending st') \<subseteq> set (mc_pending st)"
  by (auto simp: handleMessage_def takePending_def transportSend_def Let_def split: option.splits sum.splits if_splits
      dest!: pending_resolveRawWaiter dest: subsetD [OF set_mapDelete])

lemma pending_handleItems: "handleItems h vs raw now st = (x, st') \<Longrightarrow> set (mc_pending st') \<subseteq> set (mc_pending st)"
  by (induction vs arbitrary: st) (auto split: prod.splits option.splits dest: pending_handleMessage)

lemma pending_handleFrame: "handleFrame h f now st = (x, st') \<Longrightarrow> set (mc_pending st') \<subseteq> set (mc_pending st)"
  by (auto simp: handleFrame_def split: option.splits jsval.splits
      dest!: pending_handleMessage pending_handleItems pending_resolveRawWaiter)

lemma issuedOk_dispatch:
  assumes "issuedOk st used" "key \<notin> (fst \<circ> snd) ` set used"
  shows "issuedOk (dispatch key m f now st) ((mc_tickets st, key, now) # used)" "key \<notin> fst ` set (mc_pending st)"
proof -
  show new: "key \<notin> fst ` set (mc_pending st)"
  proof
    assume "key \<in> fst ` set (mc_pending st)"
    then obtain p where "(key, p) \<in> set (mc_pending st)" by auto
    then have "timerOf (key, p) \<in> set used" using assms(1) by (auto simp: issuedOk_def)
    with assms(2) show False by (force simp: timerOf_def)
  qed
  show "issuedOk (dispatch key m f now st) ((mc_tickets st, key, now) # used)"
    using assms by (auto simp: issuedOk_def dispatch_def transportSend_def Let_def mapSet_new [OF new] timerOf_def)
qed

lemma mcpRun_wf: "mcpRun h st used \<Longrightarrow> wfClient st \<and> issuedOk st used"
proof (induction rule: mcpRun.induct)
  case run_start
  then show ?case using wf_new by (simp add: issuedOk_def newMcpClient_def)
next
  case (run_request st used meth params now)
  note d = issuedOk_dispatch [of "st\<lparr>mc_nextId := mc_nextId st + 1\<rparr>" used "showNat (mc_nextId st)"]
  from run_request have ok: "issuedOk (st\<lparr>mc_nextId := mc_nextId st + 1\<rparr>) used" by (simp add: issuedOk_def)
  show ?case
    using wf_request run_request d(1) [OF ok run_request(2)] d(2) [OF ok run_request(2)]
    by (simp add: request_def Let_def)
next
  case (run_raw st used key expectId raw now)
  let ?st = "case expectId of Some k \<Rightarrow> st | None \<Rightarrow> st\<lparr>mc_nextId := mc_nextId st + 1, mc_rawWaiters := mc_rawWaiters st @ [key]\<rparr>"
  have ok: "issuedOk ?st used" using run_raw by (auto simp: issuedOk_def split: option.splits)
  note d = issuedOk_dispatch [OF ok run_raw(3)]
  have eq: "sendRaw raw expectId now st = dispatch key (J ''raw'') raw now ?st" "mc_tickets ?st = mc_tickets st"
    "mc_pending ?st = mc_pending st"
    using run_raw(2) by (auto simp: sendRaw_def Let_def split: option.splits)
  have "wfClient (sendRaw raw expectId now st)"
    using wf_sendRaw [of st expectId] run_raw d(2) eq(3) by auto
  with d(1) [of "J ''raw''" raw now] eq show ?case by simp
next
  case (run_sendFailed st used ticket key startedAt err now)
  have "set (mc_pending (sendFailed h ticket key startedAt err now st)) \<subseteq> set (mc_pending st)"
    using set_mapDelete by (fastforce simp: sendFailed_def Let_def split: option.splits)
  moreover have "wfClient (sendFailed h ticket key startedAt err now st)"
    using run_sendFailed issuedOk_ticket by (intro wf_sendFailed) blast+
  ultimately show ?case using run_sendFailed issuedOk_mono by blast
next
  case (run_timeout st used ticket now)
  have "set (mc_pending (timeoutFires ticket now st)) \<subseteq> set (mc_pending st)"
    using set_mapDelete by (fastforce simp: timeoutFires_def Let_def split: option.splits)
  with run_timeout show ?case using wf_timeout issuedOk_mono by blast
next
  case (run_frame st used frame now st')
  then show ?case
    using wf_handleFrame [OF _ run_frame(2)] issuedOk_mono [OF _ pending_handleFrame [OF run_frame(2)]] by simp
next
  case (run_lost st used reason now)
  then show ?case using wf_handleClose issuedOk_mono [of st used "handleClose reason now st"] by simp
next
  case (run_close st used)
  then show ?case using wf_closeClient issuedOk_mono [of st used "closeClient st"] by simp
qed (simp add: notify_def transportSend_def issuedOk_def)

text \<open>The source of outcomes, wrapped to count the requests.\<close>

definition countedAsk :: "'w Ask \<Rightarrow> (nat \<times> 'w) Ask" where
  "countedAsk ask = (\<lambda>(n, w) method params. let (r, w') = ask w method params in (r, (Suc n, w')))"

lemma pageLoop_counted:
  "pageLoop (countedAsk ask) method field pages cursor (n, w) = (r, (k, w')) \<Longrightarrow> k \<le> n + pages"
proof (induction pages arbitrary: cursor n w r)
  case (Suc pages)
  let ?params = "JObj (case cursor of Some c \<Rightarrow> [(J ''cursor'', JStr c)] | None \<Rightarrow> [])"
  obtain out w1 where "ask w method ?params = (out, w1)" by force
  then have c: "countedAsk ask (n, w) method ?params = (out, (Suc n, w1))" by (simp add: countedAsk_def)
  show ?case
    using Suc.prems Suc.IH [of _ "Suc n" w1]
    by (simp add: c split: if_splits option.splits prod.splits) (force simp: map_prod_def split: prod.splits)+
qed simp

lemma initLoop_counted:
  "initLoop h (countedAsk ask) cn cv versions lastOutcome (n, w) = (r, (k, w')) \<Longrightarrow> k \<le> n + length versions"
proof (induction versions arbitrary: lastOutcome n w)
  case (Cons v vs)
  obtain out w1 where "ask w (J ''initialize'') (initParams cn cv v) = (out, w1)" by force
  then have c: "countedAsk ask (n, w) (J ''initialize'') (initParams cn cv v) = (out, (Suc n, w1))"
    by (simp add: countedAsk_def)
  show ?case
    using Cons.prems Cons.IH [of _ "Suc n" w1] by (force simp: c split: if_splits option.splits bool.splits)
qed simp

lemma sendFailed_fields:
  assumes "map_of (mc_pending st) key = Some entry"
  shows "mc_pending (sendFailed h ticket key startedAt err now st) = mapDelete key (mc_pending st)"
    "mc_rawWaiters (sendFailed h ticket key startedAt err now st) = mc_rawWaiters st"
    "mc_nextId (sendFailed h ticket key startedAt err now st) = mc_nextId st"
    "mc_tickets (sendFailed h ticket key startedAt err now st) = mc_tickets st"
  unfolding sendFailed_def assms option.case Let_def settle_def clearTimer_def by simp_all

section \<open>Properties\<close>





text \<open>
  A response reaches the request it names and no other: a well-formed result for a pending id
  settles that request with this result and its latency, and leaves every other pending request, the
  raw waiters and the counters as they are.
\<close>

theorem response_settles_its_request:
  assumes "wfClient st" "hParse h frame = Some (JObj message)"
    "fld message (J ''jsonrpc'') = Some (JStr (J ''2.0''))" "fld message (J ''method'') = None"
    "fld message (J ''id'') = Some i" "jsToString h i = Inr key" "map_of (mc_pending st) key = Some p"
    "fld message (J ''error'') = None" "fld message (J ''result'') = Some r"
  shows "\<exists>st'. handleFrame h frame now st = (None, st') \<and>
    mc_settled st' = mc_settled st @ [(pq_ticket p, success r (now - pq_startedAt p))] \<and>
    mc_pending st' = mapDelete key (mc_pending st) \<and> mc_rawWaiters st' = mc_rawWaiters st \<and>
    mc_malformedCount st' = mc_malformedCount st \<and> mc_crashEvents st' = mc_crashEvents st"
proof -
  have "pq_ticket p \<notin> fst ` set (mc_settled st)"
    using wfParts_settle(2) assms(1,7) unfolding wfClient_def by blast
  with assms(2-) show ?thesis
    by (simp add: handleFrame_def handleMessage_def answerOf_def client_defs)
qed

theorem response_settles_its_request_witness:
  "\<exists>st'. handleFrame (sampleHost [(J ''ok'', JObj [(J ''jsonrpc'', JStr (J ''2.0'')), (J ''id'', JStr (J ''1'')), (J ''result'', JNull)])])
      (J ''ok'') 8 (request (sampleHost []) (J ''tools/list'') (JObj []) 5 newMcpClient) = (None, st') \<and>
     mc_settled st' = [(0, success JNull 3)]"
proof -
  let ?m = "[(J ''jsonrpc'', JStr (J ''2.0'')), (J ''id'', JStr (J ''1'')), (J ''result'', JNull)]"
  let ?h = "sampleHost [(J ''ok'', JObj ?m)]"
  let ?st = "request (sampleHost []) (J ''tools/list'') (JObj []) 5 newMcpClient"
  have key: "showNat (Suc 0) = J ''1''" by (simp add: showNat.simps J_def)
  have "wfClient ?st" by (intro wf_request wf_new) (simp add: newMcpClient_def)
  moreover have "map_of (mc_pending ?st) (J ''1'') = Some \<lparr>pq_ticket = 0, pq_startedAt = 5, pq_method = J ''tools/list''\<rparr>"
    "mc_settled ?st = []"
    by (simp_all add: request_def dispatch_def newMcpClient_def client_defs key)
  ultimately show ?thesis
    using response_settles_its_request [of ?st ?h "J ''ok''" ?m "JStr (J ''1'')" "J ''1''"
        "\<lparr>pq_ticket = 0, pq_startedAt = 5, pq_method = J ''tools/list''\<rparr>" JNull 8]
    by (auto simp: sampleHost_def)
qed

text \<open>
  A target can throw an exception into the runner: for a response whose id is an object with its
  own \<open>toString\<close>, the frame handler throws a \<open>TypeError\<close> out of the stream's \<open>data\<close> callback, where
  nothing catches it.
\<close>

theorem object_id_throws:
  assumes "hParse h frame = Some (JObj message)" "fld message (J ''jsonrpc'') = Some (JStr (J ''2.0''))"
    "fld message (J ''method'') = None" "fld message (J ''id'') = Some (JObj i)" "fld i (J ''toString'') = Some ts"
  shows "handleFrame h frame now st = (Some noPrimitive, st)"
  using assms by (simp add: handleFrame_def handleMessage_def)

theorem object_id_throws_witness:
  "handleFrame (sampleHost [(J ''x'', JObj [(J ''jsonrpc'', JStr (J ''2.0'')),
      (J ''id'', JObj [(J ''toString'', JNull)]), (J ''result'', JNull)])]) (J ''x'') 0 newMcpClient =
   (Some noPrimitive, newMcpClient)"
  by (rule object_id_throws [where i = "[(J ''toString'', JNull)]" and ts = JNull and
      message = "[(J ''jsonrpc'', JStr (J ''2.0'')), (J ''id'', JObj [(J ''toString'', JNull)]), (J ''result'', JNull)]"]) (simp_all add: sampleHost_def)

text \<open>
  After a raw frame could not be sent its waiter stays in the queue: the answer to the next raw
  frame (here one that is not JSON) is handed to the stale waiter and lost, and the request that it
  answers stays pending.
\<close>

theorem stale_raw_waiter_swallows_answer:
  assumes "wfClient st" "mc_rawWaiters st = []"
    "J ''raw:'' @ showNat (mc_nextId st) \<notin> fst ` set (mc_pending st)"
    "J ''raw:'' @ showNat (mc_nextId st + 1) \<notin> fst ` set (mc_pending st)" "hParse h answer = None"
  shows "(let key = J ''raw:'' @ showNat (mc_nextId st);
      st1 = sendFailed h (mc_tickets st) key t0 err t1 (sendRaw raw1 None t0 st);
      st2 = sendRaw raw2 None t2 st1;
      st3 = snd (handleFrame h answer t3 st2) in
    mc_settled st3 = mc_settled st2 \<and> mc_pending st3 = mc_pending st2 \<and>
    (\<exists>p. (J ''raw:'' @ showNat (mc_nextId st + 1), p) \<in> set (mc_pending st3) \<and> pq_ticket p = mc_tickets st + 1))"
proof -
  let ?k1 = "J ''raw:'' @ showNat (mc_nextId st)" and ?k2 = "J ''raw:'' @ showNat (mc_nextId st + 1)"
  define st1 where "st1 = sendFailed h (mc_tickets st) ?k1 t0 err t1 (sendRaw raw1 None t0 st)"
  let ?p = "\<lparr>pq_ticket = mc_tickets st, pq_startedAt = t0, pq_method = J ''raw''\<rparr>"
  have del: "mapDelete ?k1 (mc_pending st @ [(?k1, ?p)]) = mc_pending st"
    using assms(3) by (force simp: mapDelete_def filter_id_conv)
  have sent: "mc_pending (sendRaw raw1 None t0 st) = mc_pending st @ [(?k1, ?p)]"
    "mc_rawWaiters (sendRaw raw1 None t0 st) = [?k1]" "mc_nextId (sendRaw raw1 None t0 st) = mc_nextId st + 1"
    "mc_tickets (sendRaw raw1 None t0 st) = mc_tickets st + 1"
    using assms(2,3) by (simp_all add: sendRaw_def dispatch_def client_defs mapSet_new)
  have "map_of (mc_pending (sendRaw raw1 None t0 st)) ?k1 = Some ?p"
    using assms(3) by (simp add: sent(1) map_add_Some_iff map_of_eq_None_iff)
  have st1: "mc_pending st1 = mc_pending st" "mc_rawWaiters st1 = [?k1]" "mc_nextId st1 = mc_nextId st + 1"
    "mc_tickets st1 = mc_tickets st + 1"
    unfolding st1_def using sendFailed_fields [OF \<open>map_of _ _ = Some ?p\<close>] sent del by simp_all
  define st2 where "st2 = sendRaw raw2 None t2 st1"
  have st2: "mc_pending st2 = mc_pending st @ [(?k2, \<lparr>pq_ticket = mc_tickets st + 1, pq_startedAt = t2, pq_method = J ''raw''\<rparr>)]"
    "mc_rawWaiters st2 = [?k1, ?k2]"
    using assms(4) by (simp_all add: st2_def sendRaw_def dispatch_def client_defs st1 mapSet_new)
  have "map_of (mc_pending st2) ?k1 = None"
    using assms(3) by (simp add: st2 map_of_eq_None_iff)
  then have st3: "mc_settled (snd (handleFrame h answer t3 st2)) = mc_settled st2"
    "mc_pending (snd (handleFrame h answer t3 st2)) = mc_pending st2"
    using assms(5) by (simp_all add: handleFrame_def resolveRawWaiter_def recordMalformed_def Let_def st2(2))
  show ?thesis
    unfolding Let_def st1_def [symmetric] st2_def [symmetric] st3 st2(1) by force
qed

theorem stale_raw_waiter_swallows_answer_witness:
  "mc_settled (snd (handleFrame (sampleHost []) (J ''?'') 9
      (sendRaw (J ''b'') None 2 (sendFailed (sampleHost []) 0 (J ''raw:'' @ showNat 1) 0 (NonError JNull) 1
         (sendRaw (J ''a'') None 0 newMcpClient))))) =
   mc_settled (sendRaw (J ''b'') None 2 (sendFailed (sampleHost []) 0 (J ''raw:'' @ showNat 1) 0 (NonError JNull) 1
         (sendRaw (J ''a'') None 0 newMcpClient)))"
proof -
  have "mc_rawWaiters newMcpClient = []" "mc_pending newMcpClient = []" "mc_nextId newMcpClient = 1"
    "mc_tickets newMcpClient = 0" by (simp_all add: newMcpClient_def)
  then show ?thesis
    using stale_raw_waiter_swallows_answer [OF wf_new, of "sampleHost []" "J ''?''" 0 "NonError JNull" 1 "J ''a''"
        "J ''b''" 2 9] by (simp add: sampleHost_def Let_def)
qed

text \<open>
  A target cannot keep the runner listing or negotiating: \<open>paginate\<close> makes at most 50 requests,
  whatever cursors the target returns, and \<open>initialize\<close> at most one per protocol version, two in all.
\<close>

theorem listing_and_handshake_bounded:
  "(paginate (countedAsk ask) meth field (0, w) = (r, (k, w')) \<longrightarrow> k \<le> 50) \<and>
   (initialize h (countedAsk ask) cn cv (0, w) = (r', (k', w'')) \<longrightarrow> k' \<le> 2)"
proof -
  have two: "length PROTOCOL_VERSIONS = 2" by (simp add: PROTOCOL_VERSIONS_def)
  show ?thesis
    using pageLoop_counted [of ask meth "J field" 50 None 0 w r k w']
      initLoop_counted [of h ask cn cv PROTOCOL_VERSIONS None 0 w r' k' w'']
    unfolding paginate_def initialize_def two add_0 by blast
qed

theorem listing_and_handshake_bounded_witness:
  "\<exists>r k w'. paginate (countedAsk (\<lambda>w m p. (success (JObj [(J ''tools'', JArr [JNull]), (J ''nextCursor'', JStr (showNat w))]) 1, w + 1)))
      (J ''tools/list'') ''tools'' (0, 0) = (r, (k, w')) \<and> k \<le> 50"
proof -
  let ?ask = "\<lambda>w m p. (success (JObj [(J ''tools'', JArr [JNull]), (J ''nextCursor'', JStr (showNat w))]) 1, w + 1)"
  obtain r k w' where r: "paginate (countedAsk ?ask) (J ''tools/list'') ''tools'' (0, 0) = (r, (k, w'))"
    by (rule prod_cases3)
  with listing_and_handshake_bounded [of ?ask "J ''tools/list''" "''tools''" 0 r k w'] show ?thesis by blast
qed

text \<open>
  A tool result can make \<open>extractText\<close> throw: a content block with binary data whose \<open>mimeType\<close> is
  an object with its own \<open>toString\<close>.
\<close>

theorem binary_block_throws:
  assumes "fld b (J ''text'') = None" "fld b (J ''data'') = Some (JStr d)"
    "fld b (J ''mimeType'') = Some (JObj m)" "fld m (J ''toString'') = Some ts"
    "fld result (J ''content'') = Some (JArr (JObj b # rest))"
  shows "extractText h (Some (JObj result)) = Inl noPrimitive"
  using assms by (simp add: extractText_def blockText_def)

theorem binary_block_throws_witness:
  "extractText (sampleHost []) (Some (JObj [(J ''content'', JArr [JObj [(J ''data'', JStr []),
      (J ''mimeType'', JObj [(J ''toString'', JNull)])]])])) = Inl noPrimitive"
  by (rule binary_block_throws [where m = "[(J ''toString'', JNull)]" and ts = JNull and d = "[]" and rest = "[]" and
      b = "[(J ''data'', JStr []), (J ''mimeType'', JObj [(J ''toString'', JNull)])]"]) simp_all

end
