(* ===== verification/Transport.thy ===== *)
theory Transport
  imports McpClient
begin

text \<open>
  The two transports of \<^verbatim>\<open>src/runner/src/mcpclient.ts\<close>, \<open>StdioFifoTransport\<close> and \<open>SseTransport\<close>, as state
  machines: what they deliver to the client (frames, lost connections), when they refuse to send, and
  how they count crashes. The FIFOs, \<open>fetch\<close> and the URL parser are arguments: each operation takes
  what they answered.
\<close>

section \<open>What an operation does\<close>

text \<open>
  The frames it delivers through \<open>frameCb\<close>, the reasons it reports through \<open>closeCb\<close>, and how it ends.
\<close>

record effect =
  ef_frames :: "jsstring list"
  ef_closed :: "jsstring list"
  ef_result :: "thrown + unit"

definition quiet :: effect where
  "quiet = \<lparr>ef_frames = [], ef_closed = [], ef_result = Inr ()\<rparr>"

definition throws :: "RunnerError \<Rightarrow> effect" where
  "throws e = quiet\<lparr>ef_result := Inl (Runner e)\<rparr>"

section \<open>\<open>StdioFifoTransport\<close>\<close>

record StdioFifo =
  sf_ipcDir :: jsstring
  sf_closed :: bool
  sf_connected :: bool
  sf_writeHandle :: bool
  sf_crashes :: nat
  sf_generation :: nat
  sf_buffer :: jsstring

definition newStdioFifo :: "jsstring \<Rightarrow> StdioFifo" where
  "newStdioFifo dir = \<lparr>sf_ipcDir = dir, sf_closed = False, sf_connected = False, sf_writeHandle = False,
     sf_crashes = 0, sf_generation = 0, sf_buffer = []\<rparr>"

text \<open>The result is what \<open>closeCb\<close> receives, if it is called.\<close>

definition stdioHandleCrash :: "jsstring \<Rightarrow> StdioFifo \<Rightarrow> jsstring list \<times> StdioFifo" where
  "stdioHandleCrash reason st =
     (if \<not> sf_connected st then ([], st)
      else ([reason], st\<lparr>sf_connected := False, sf_crashes := sf_crashes st + 1\<rparr>))"

definition stdioTeardown :: "StdioFifo \<Rightarrow> StdioFifo" where
  "stdioTeardown st = st\<lparr>sf_connected := False, sf_generation := sf_generation st + 1, sf_writeHandle := False\<rparr>"

text \<open>\<open>open\<close> up to the point where it waits for the FIFOs; the new generation is that of the state.\<close>

definition stdioOpen :: "StdioFifo \<Rightarrow> StdioFifo" where
  "stdioOpen st = st\<lparr>sf_generation := sf_generation st + 1, sf_buffer := []\<rparr>"

text \<open>The opens of generation \<open>gen\<close> completed, failed or timed out.\<close>

definition stdioOpened :: "host \<Rightarrow> nat \<Rightarrow> thrown + unit \<Rightarrow> StdioFifo \<Rightarrow> effect \<times> StdioFifo" where
  "stdioOpened h gen handles st =
     (case handles of
        Inl err \<Rightarrow> (throws (TargetUnavailableError (J ''could not open IPC FIFOs: '' @ errorMessage h err)), st)
      | Inr _ \<Rightarrow>
          if gen \<noteq> sf_generation st \<or> sf_closed st then (quiet, st)
          else (quiet, st\<lparr>sf_writeHandle := True, sf_connected := True\<rparr>))"

definition stdioOnData :: "nat \<Rightarrow> jsstring \<Rightarrow> StdioFifo \<Rightarrow> effect \<times> StdioFifo" where
  "stdioOnData gen chunk st =
     (if gen \<noteq> sf_generation st then (quiet, st)
      else case stdioData (sf_buffer st) chunk of
        (frames, rest) \<Rightarrow> (quiet\<lparr>ef_frames := frames\<rparr>, st\<lparr>sf_buffer := rest\<rparr>))"

definition stdioOnEnd :: "nat \<Rightarrow> jsstring \<Rightarrow> StdioFifo \<Rightarrow> effect \<times> StdioFifo" where
  "stdioOnEnd gen reason st =
     (if gen \<noteq> sf_generation st then (quiet, st)
      else case stdioHandleCrash reason st of (cls, st') \<Rightarrow> (quiet\<lparr>ef_closed := cls\<rparr>, st'))"

text \<open>\<open>send\<close>; \<open>write\<close> is what writing the payload to the FIFO came to.\<close>

definition stdioSend :: "host \<Rightarrow> jsstring \<Rightarrow> (jsstring \<Rightarrow> thrown + unit) \<Rightarrow> StdioFifo \<Rightarrow> effect \<times> StdioFifo" where
  "stdioSend h frame write st =
     (if sf_closed st then (throws (TargetUnavailableError (J ''transport closed'')), st)
      else if \<not> sf_writeHandle st \<or> \<not> sf_connected st
      then (throws (TargetUnavailableError (J ''stdio transport is not connected'')), st)
      else case write (stdioPayload frame) of
        Inr _ \<Rightarrow> (quiet, st)
      | Inl err \<Rightarrow>
          let message = errorMessage h err in
          if includesS message (J ''EPIPE'') \<or> includesS message (J ''EBADF'')
          then (case stdioHandleCrash (J ''write failed: '' @ message) st of
                  (cls, st') \<Rightarrow> ((throws (TargetCrashError message))\<lparr>ef_closed := cls\<rparr>, st'))
          else (throws (TargetUnavailableError (J ''write failed: '' @ message)), st))"

definition stdioStart :: "bool \<Rightarrow> StdioFifo \<Rightarrow> effect \<times> StdioFifo" where
  "stdioStart present st =
     (if \<not> present then
        (throws (TargetUnavailableError (J ''FIFOs not present in '' @ sf_ipcDir st @ J '' (expected stdin and stdout)'')), st)
      else (quiet, stdioOpen st))"

definition stdioReconnect :: "StdioFifo \<Rightarrow> StdioFifo" where
  "stdioReconnect st = stdioOpen (stdioTeardown st)"

definition stdioClose :: "StdioFifo \<Rightarrow> StdioFifo" where
  "stdioClose st = stdioTeardown (st\<lparr>sf_closed := True\<rparr>)"

text \<open>\<open>readCrashFile\<close>: \<open>None\<close> when the file is missing or cannot be read.\<close>

definition readCrashFile :: "jsstring option \<Rightarrow> nat" where
  "readCrashFile content =
     (case content of None \<Rightarrow> 0 | Some c \<Rightarrow> length (filter (\<lambda>l. \<not> blankS l) (splitS c [10])))"

definition stdioCrashCount :: "jsstring option \<Rightarrow> StdioFifo \<Rightarrow> nat" where
  "stdioCrashCount content st = max (sf_crashes st) (readCrashFile content)"

section \<open>\<open>SseTransport\<close>\<close>

datatype SseMode = LegacySse | Streamable

record SseTransport =
  sx_baseUrl :: jsstring
  sx_ssePath :: jsstring
  sx_streamablePath :: jsstring
  sx_mode :: SseMode
  sx_postUrl :: "jsstring option"
  sx_sessionId :: "jsstring option"
  sx_connected :: bool
  sx_closed :: bool
  sx_crashes :: nat

definition sseHandleCrash :: "jsstring \<Rightarrow> SseTransport \<Rightarrow> jsstring list \<times> SseTransport" where
  "sseHandleCrash reason st =
     (if \<not> sx_connected st then ([], st)
      else ([reason], st\<lparr>sx_connected := False, sx_crashes := sx_crashes st + 1\<rparr>))"

text \<open>A stream: the decoded chunks it delivered, and the error it ended with, if any.\<close>

record StreamBody =
  sb_chunks :: "jsstring list"
  sb_error :: "thrown option"

text \<open>
  The events of a stream: frames for the client, and the endpoint of the first \<open>endpoint\<close> event when
  one is awaited.
\<close>

definition streamFrames :: "StreamBody \<Rightarrow> jsstring list" where
  "streamFrames body = [ev_data e. e \<leftarrow> fst (sseFeed (sb_chunks body) []), ev_event e \<noteq> J ''endpoint'']"

definition streamEndpoint :: "StreamBody \<Rightarrow> jsstring option" where
  "streamEndpoint body =
     (case filter (\<lambda>e. ev_event e = J ''endpoint'') (fst (sseFeed (sb_chunks body) [])) of
        [] \<Rightarrow> None | e # _ \<Rightarrow> Some (trimS (ev_data e)))"

text \<open>The end of the stream opened by the GET.\<close>

definition ssePrimaryEnd :: "host \<Rightarrow> thrown option \<Rightarrow> SseTransport \<Rightarrow> effect \<times> SseTransport" where
  "ssePrimaryEnd h err st =
     (case err of
        None \<Rightarrow> (case sseHandleCrash (J ''SSE stream ended'') st of (cls, st') \<Rightarrow> (quiet\<lparr>ef_closed := cls\<rparr>, st'))
      | Some e \<Rightarrow>
          if sx_closed st then (quiet, st)
          else (case sseHandleCrash (J ''SSE stream error: '' @ errorMessage h e) st of
                  (cls, st') \<Rightarrow> (quiet\<lparr>ef_closed := cls\<rparr>, st')))"

text \<open>
  A reply to a POST. \<open>sr_body\<close> is the stream when the reply has one; \<open>sr_text\<close> what \<open>text()\<close> gives.
\<close>

record SseReply =
  sr_status :: int
  sr_session :: "jsstring option"
  sr_contentType :: "jsstring option"
  sr_body :: "StreamBody option"
  sr_text :: "thrown + jsstring"

definition sseDeliver :: "SseReply \<Rightarrow> effect" where
  "sseDeliver r =
     (if sr_status r = 202 \<or> sr_status r = 204 then quiet
      else case (includesS (case sr_contentType r of Some c \<Rightarrow> c | None \<Rightarrow> []) (J ''text/event-stream''), sr_body r) of
        (True, Some body) \<Rightarrow>
          quiet\<lparr>ef_frames := streamFrames body,
                ef_result := (case sb_error body of Some e \<Rightarrow> Inl e | None \<Rightarrow> Inr ())\<rparr>
      | _ \<Rightarrow>
          (case sr_text r of
             Inl e \<Rightarrow> quiet\<lparr>ef_result := Inl e\<rparr>
           | Inr t \<Rightarrow>
               if sr_status r \<ge> 400 then
                 quiet\<lparr>ef_frames := [if \<not> blankS t then t
                                     else J ''{'' @ quot (J ''http_status'') @ J '':'' @ showInt (sr_status r) @ J ''}'']\<rparr>
               else if \<not> blankS t then quiet\<lparr>ef_frames := [t]\<rparr> else quiet))"

definition sseSend :: "host \<Rightarrow> (jsstring \<Rightarrow> jsstring option \<Rightarrow> thrown + SseReply) \<Rightarrow> SseTransport \<Rightarrow> effect \<times> SseTransport" where
  "sseSend h post st =
     (if sx_closed st then (throws (TargetUnavailableError (J ''transport closed'')), st)
      else case (sx_connected st, sx_postUrl st) of
        (True, Some url) \<Rightarrow>
          if url = [] then (throws (TargetUnavailableError (J ''sse transport is not connected'')), st)
          else (case post url (sx_sessionId st) of
             Inl err \<Rightarrow>
               let message = errorMessage h err in
               if includesS message (J ''ECONNREFUSED'') \<or> includesS message (J ''ECONNRESET'') \<or>
                  includesS message (J ''fetch failed'')
               then (case sseHandleCrash (J ''POST failed: '' @ message) st of
                       (cls, st') \<Rightarrow> ((throws (TargetCrashError message))\<lparr>ef_closed := cls\<rparr>, st'))
               else (throws (TargetUnavailableError (J ''POST failed: '' @ message)), st)
           | Inr reply \<Rightarrow>
               (sseDeliver reply,
                case sr_session reply of
                  Some s \<Rightarrow> if s \<noteq> [] then st\<lparr>sx_sessionId := Some s\<rparr> else st
                | None \<Rightarrow> st))
      | _ \<Rightarrow> (throws (TargetUnavailableError (J ''sse transport is not connected'')), st))"

text \<open>One attempt of \<open>start\<close>: the endpoint was announced, or \<open>connectSse\<close> failed with a message.\<close>

definition sseConnected :: "jsstring \<Rightarrow> SseTransport \<Rightarrow> SseTransport" where
  "sseConnected postUrl st = st\<lparr>sx_postUrl := Some postUrl, sx_mode := LegacySse, sx_connected := True\<rparr>"

definition sseConnectFailed :: "jsstring \<Rightarrow> SseTransport \<Rightarrow> SseTransport option" where
  "sseConnectFailed lastError st =
     (if includesS lastError (J ''HTTP 404'') \<or> includesS lastError (J ''HTTP 405'')
      then Some (st\<lparr>sx_mode := Streamable, sx_postUrl := Some (sx_baseUrl st @ sx_streamablePath st), sx_connected := True\<rparr>)
      else None)"

text \<open>\<open>reconnect\<close> up to its new \<open>start\<close>, and \<open>close\<close>.\<close>

definition sseReconnect :: "SseTransport \<Rightarrow> SseTransport" where
  "sseReconnect st = st\<lparr>sx_connected := False,
     sx_postUrl := (if sx_mode st = Streamable then Some (sx_baseUrl st @ sx_streamablePath st) else None),
     sx_sessionId := None\<rparr>"

definition sseClose :: "SseTransport \<Rightarrow> SseTransport" where
  "sseClose st = st\<lparr>sx_closed := True, sx_connected := False\<rparr>"

section \<open>Crash reports\<close>

text \<open>What the client relies on: a connection is reported lost at most once until it is up again.\<close>

locale crash_reporting =
  fixes crash :: "jsstring \<Rightarrow> 's \<Rightarrow> jsstring list \<times> 's"
    and up :: "'s \<Rightarrow> bool"
    and count :: "'s \<Rightarrow> nat"
  assumes crash_up: "up st \<Longrightarrow> crash reason st = (cl, st') \<Longrightarrow> cl = [reason] \<and> \<not> up st' \<and> count st' = count st + 1"
    and crash_down: "\<not> up st \<Longrightarrow> crash reason st = ([], st)"
begin

fun crashAll :: "jsstring list \<Rightarrow> 's \<Rightarrow> jsstring list \<times> 's" where
  "crashAll [] st = ([], st)"
| "crashAll (r # rs) st = (case crash r st of (cl, st') \<Rightarrow> (case crashAll rs st' of (cl', st'') \<Rightarrow> (cl @ cl', st'')))"

lemma crashAll_down: "\<not> up st \<Longrightarrow> crashAll rs st = ([], st)"
  by (induction rs) (simp_all add: crash_down)

lemma crashAll_once: "up st \<Longrightarrow> rs \<noteq> [] \<Longrightarrow> crashAll rs st = (cl, st') \<Longrightarrow> cl = [hd rs] \<and> count st' = count st + 1 \<and> \<not> up st'"
proof (cases rs)
  case (Cons r rs')
  assume up: "up st" and run: "crashAll rs st = (cl, st')"
  obtain c1 s1 where c: "crash r st = (c1, s1)" by force
  from crash_up [OF up c] run c Cons crashAll_down [of s1 rs'] show ?thesis by simp
qed simp

end

interpretation stdio: crash_reporting stdioHandleCrash sf_connected sf_crashes
  by unfold_locales (auto simp: stdioHandleCrash_def)

interpretation ssetr: crash_reporting sseHandleCrash sx_connected sx_crashes
  by unfold_locales (auto simp: sseHandleCrash_def)

section \<open>Runs of the stdio transport\<close>

datatype StdioEvent =
    EvData nat jsstring
  | EvEnd nat jsstring
  | EvOpened nat "thrown + unit"
  | EvSend jsstring "jsstring \<Rightarrow> thrown + unit"
  | EvReconnect
  | EvClose

definition stdioStep :: "host \<Rightarrow> StdioEvent \<Rightarrow> StdioFifo \<Rightarrow> effect \<times> StdioFifo" where
  "stdioStep h ev st =
     (case ev of
        EvData gen chunk \<Rightarrow> stdioOnData gen chunk st
      | EvEnd gen reason \<Rightarrow> stdioOnEnd gen reason st
      | EvOpened gen handles \<Rightarrow> stdioOpened h gen handles st
      | EvSend frame write \<Rightarrow> stdioSend h frame write st
      | EvReconnect \<Rightarrow> (quiet, stdioReconnect st)
      | EvClose \<Rightarrow> (quiet, stdioClose st))"

fun stdioRun :: "host \<Rightarrow> StdioEvent list \<Rightarrow> StdioFifo \<Rightarrow> effect list \<times> StdioFifo" where
  "stdioRun h [] st = ([], st)"
| "stdioRun h (ev # evs) st =
     (case stdioStep h ev st of (e, st') \<Rightarrow> (case stdioRun h evs st' of (es, st'') \<Rightarrow> (e # es, st'')))"

lemmas stdio_ops = stdioStep_def stdioOnData_def stdioOnEnd_def stdioOpened_def stdioSend_def stdioReconnect_def
  stdioClose_def stdioOpen_def stdioTeardown_def stdioHandleCrash_def quiet_def throws_def Let_def

lemma stdioStep_crashes: "stdioStep h ev st = (e, st') \<Longrightarrow> sf_crashes st' = sf_crashes st + length (ef_closed e)"
  by (cases ev) (auto simp: stdio_ops split: if_splits sum.splits prod.splits)

lemma stdioStep_generation: "stdioStep h ev st = (e, st') \<Longrightarrow> sf_generation st \<le> sf_generation st'"
  by (cases ev) (auto simp: stdio_ops split: if_splits sum.splits prod.splits)

lemma stdioStep_closed:
  "stdioStep h ev st = (e, st') \<Longrightarrow> sf_closed st \<Longrightarrow> \<not> sf_connected st \<Longrightarrow>
   sf_closed st' \<and> \<not> sf_connected st' \<and> ef_closed e = [] \<and>
   (\<forall>f w. ev = EvSend f w \<longrightarrow> e = throws (TargetUnavailableError (J ''transport closed'')))"
  by (cases ev) (auto simp: stdio_ops split: if_splits sum.splits prod.splits)

lemma stdioRun_crashes:
  "stdioRun h evs st = (es, st') \<Longrightarrow> sf_crashes st' = sf_crashes st + length (concat (map ef_closed es))"
  by (induction evs arbitrary: st es) (fastforce split: prod.splits dest: stdioStep_crashes)+

lemma stdioRun_generation: "stdioRun h evs st = (es, st') \<Longrightarrow> sf_generation st \<le> sf_generation st'"
  by (induction evs arbitrary: st es) (fastforce split: prod.splits dest: stdioStep_generation)+

lemma stdioRun_closed:
  "stdioRun h evs st = (es, st') \<Longrightarrow> sf_closed st \<Longrightarrow> \<not> sf_connected st \<Longrightarrow>
   \<not> sf_connected st' \<and> length es = length evs \<and> (\<forall>e \<in> set es. ef_closed e = []) \<and>
   (\<forall>i < length evs. \<forall>f w. evs ! i = EvSend f w \<longrightarrow> es ! i = throws (TargetUnavailableError (J ''transport closed'')))"
proof (induction evs arbitrary: st es)
  case (Cons ev evs)
  obtain e s1 where e: "stdioStep h ev st = (e, s1)" by force
  obtain es1 where es: "stdioRun h evs s1 = (es1, st')" "es = e # es1"
    using Cons.prems(1) e by (auto split: prod.splits)
  note c = stdioStep_closed [OF e Cons.prems(2,3)]
  with Cons.IH [OF es(1)] show ?case by (auto simp: es(2) nth_Cons split: nat.splits)
qed simp

section \<open>Properties\<close>

text \<open>
  Crash accounting: over any sequence of events the stdio transport counts exactly the lost
  connections it reports to the client.
\<close>

theorem stdio_crash_accounting:
  assumes "stdioRun h evs st = (es, st')"
  shows "sf_crashes st' = sf_crashes st + length (concat (map ef_closed es))"
  using assms by (rule stdioRun_crashes)

theorem stdio_crash_accounting_witness:
  "\<exists>es st'. stdioRun (sampleHost []) [EvReconnect, EvOpened 2 (Inr ()), EvEnd 2 (J ''EOF''), EvEnd 2 (J ''EOF'')]
      (newStdioFifo (J ''/ipc'')) = (es, st') \<and> sf_crashes st' = 1 \<and> length (concat (map ef_closed es)) = 1"
proof -
  let ?run = "stdioRun (sampleHost []) [EvReconnect, EvOpened 2 (Inr ()), EvEnd 2 (J ''EOF''), EvEnd 2 (J ''EOF'')]
      (newStdioFifo (J ''/ipc''))"
  obtain es st' where r: "?run = (es, st')" by force
  have "sf_crashes (snd ?run) = 1" by (simp add: stdio_ops newStdioFifo_def)
  with r stdio_crash_accounting [OF r] show ?thesis by (simp add: newStdioFifo_def)
qed

text \<open>
  A closed transport stays closed: whatever events arrive after \<open>close\<close>, it never connects or
  reports a crash again, and every send is refused.
\<close>

theorem stdio_closed_is_final:
  assumes "stdioRun h evs (stdioClose st) = (es, st')"
  shows "\<not> sf_connected st' \<and> (\<forall>e \<in> set es. ef_closed e = []) \<and>
    (\<forall>i < length evs. \<forall>f w. evs ! i = EvSend f w \<longrightarrow> es ! i = throws (TargetUnavailableError (J ''transport closed'')))"
  using stdioRun_closed [OF assms] by (simp add: stdioClose_def stdioTeardown_def)

theorem stdio_closed_is_final_witness:
  "fst (stdioRun (sampleHost []) [EvSend (J ''x'') (\<lambda>_. Inr ())] (stdioClose (newStdioFifo (J ''/ipc'')))) ! 0 =
     throws (TargetUnavailableError (J ''transport closed''))"
proof -
  let ?evs = "[EvSend (J ''x'') (\<lambda>_. Inr ())]"
  obtain es st' where r: "stdioRun (sampleHost []) ?evs (stdioClose (newStdioFifo (J ''/ipc''))) = (es, st')" by force
  from stdio_closed_is_final [OF r] r show ?thesis by simp
qed

text \<open>
  A stream of an earlier connection cannot disturb a later one: after a reconnect, and whatever
  happens then, data, end and errors of the old stream are ignored.
\<close>

theorem stale_stream_ignored:
  assumes "stdioRun h evs (stdioReconnect st) = (es, st')" "gen \<le> sf_generation st"
  shows "stdioOnData gen chunk st' = (quiet, st') \<and> stdioOnEnd gen reason st' = (quiet, st')"
proof -
  have "gen \<noteq> sf_generation st'"
    using stdioRun_generation [OF assms(1)] assms(2) by (simp add: stdioReconnect_def stdioOpen_def stdioTeardown_def)
  then show ?thesis by (simp add: stdioOnData_def stdioOnEnd_def)
qed

theorem stale_stream_ignored_witness:
  "stdioOnEnd 0 (J ''EOF'') (stdioReconnect (newStdioFifo (J ''/ipc''))) = (quiet, stdioReconnect (newStdioFifo (J ''/ipc'')))"
  using stale_stream_ignored [of "sampleHost []" "[]" "newStdioFifo (J ''/ipc'')" "[]" _ 0] by simp

text \<open>
  Both transports report a lost connection once: however many failures are noticed on the same
  connection, the client hears of the first, and the crash counter grows by one.
\<close>

theorem lost_connection_reported_once:
  assumes "reasons \<noteq> []"
  shows "(sf_connected st \<longrightarrow> (\<exists>st'. stdio.crashAll reasons st = ([hd reasons], st') \<and> sf_crashes st' = sf_crashes st + 1)) \<and>
    (sx_connected sx \<longrightarrow> (\<exists>sx'. ssetr.crashAll reasons sx = ([hd reasons], sx') \<and> sx_crashes sx' = sx_crashes sx + 1))"
  using stdio.crashAll_once [OF _ assms, of st] ssetr.crashAll_once [OF _ assms, of sx] by (metis surj_pair)

theorem lost_connection_reported_once_witness:
  "\<exists>st'. stdio.crashAll [J ''EPIPE'', J ''EOF''] ((newStdioFifo (J ''/ipc''))\<lparr>sf_connected := True\<rparr>) = ([J ''EPIPE''], st') \<and>
     sf_crashes st' = 1"
  using lost_connection_reported_once [of "[J ''EPIPE'', J ''EOF'']" "(newStdioFifo (J ''/ipc''))\<lparr>sf_connected := True\<rparr>"]
  by (auto simp: newStdioFifo_def)

end
