(* ===== verification/Connect.thy ===== *)
theory Connect
  imports Transport
begin

text \<open>
  How the evaluator waits for its target (\<^verbatim>\<open>src/runner/src/mcpclient.ts\<close>): \<open>SseTransport.start\<close> with its fallback to
  Streamable HTTP, \<open>initializeWithRetry\<close> and \<open>recover\<close>. All are loops up to a deadline; the clock, the attempts and the
  waiting act on a state that is a parameter. The loops carry fuel, and the theorems say how much is enough.
\<close>

section \<open>A loop up to a deadline\<close>

record 'w Waiting =
  wt_now :: "'w \<Rightarrow> int \<times> 'w"
  wt_sleep :: "int \<Rightarrow> 'w \<Rightarrow> 'w"

text \<open>
  \<open>while (Date.now() < deadline) { ... }\<close>: the body ends the loop with a value or leaves the last error and goes
  on. \<open>None\<close>: the fuel is used up.
\<close>

fun retryUntil :: "'w Waiting \<Rightarrow> (jsstring \<Rightarrow> 'w \<Rightarrow> (jsstring + 'r) \<times> 'w) \<Rightarrow> int \<Rightarrow> nat \<Rightarrow> jsstring \<Rightarrow> 'w \<Rightarrow> ((jsstring + 'r) \<times> 'w) option" where
  "retryUntil wt body deadline 0 lastError w = None"
| "retryUntil wt body deadline (Suc n) lastError w =
     (case wt_now wt w of (now, w) \<Rightarrow>
      if deadline \<le> now then Some (Inl lastError, w)
      else case body lastError w of
        (Inr r, w) \<Rightarrow> Some (Inr r, w)
      | (Inl err, w) \<Rightarrow> retryUntil wt body deadline n err w)"

section \<open>\<open>SseTransport.start\<close> and \<open>reconnect\<close>\<close>

text \<open>
  \<open>connect\<close> is what \<open>connectSse\<close> came to: the endpoint of the stream or the error; \<open>isClosed\<close>: \<open>close\<close> has been called by now.
\<close>

definition sseAttempt ::
  "host \<Rightarrow> 'w Waiting \<Rightarrow> ('w \<Rightarrow> bool) \<Rightarrow> ('w \<Rightarrow> (thrown + jsstring) \<times> 'w) \<Rightarrow> SseTransport \<Rightarrow> jsstring \<Rightarrow> 'w \<Rightarrow> (jsstring + thrown + SseTransport) \<times> 'w" where
  "sseAttempt h wt isClosed connect st lastError w =
     (if isClosed w then (Inr (Inl (Runner (TargetUnavailableError (J ''transport closed'')))), w)
      else case connect w of
        (Inr endpoint, w) \<Rightarrow> (Inr (Inr (sseConnected endpoint st)), w)
      | (Inl err, w) \<Rightarrow>
          (case sseConnectFailed (errorMessage h err) st of
             Some st' \<Rightarrow> (Inr (Inr st'), w)
           | None \<Rightarrow> (Inl (errorMessage h err), wt_sleep wt 1000 w)))"

definition sseStart ::
  "host \<Rightarrow> 'w Waiting \<Rightarrow> ('w \<Rightarrow> bool) \<Rightarrow> ('w \<Rightarrow> (thrown + jsstring) \<times> 'w) \<Rightarrow> int \<Rightarrow> nat \<Rightarrow> SseTransport \<Rightarrow> 'w \<Rightarrow> ((thrown + SseTransport) \<times> 'w) option" where
  "sseStart h wt isClosed connect connectTimeoutMs fuel st w =
     (case wt_now wt w of (now, w) \<Rightarrow>
      map_option (\<lambda>(r, w).
          (case r of
             Inr r \<Rightarrow> r
           | Inl lastError \<Rightarrow>
               Inl (Runner (TargetUnavailableError (J ''could not connect to '' @ sx_baseUrl st @ sx_ssePath st @ J '': '' @ lastError))), w))
        (retryUntil wt (sseAttempt h wt isClosed connect st) (now + connectTimeoutMs) fuel [] w))"

definition sseReconnectStart ::
  "host \<Rightarrow> 'w Waiting \<Rightarrow> ('w \<Rightarrow> bool) \<Rightarrow> ('w \<Rightarrow> (thrown + jsstring) \<times> 'w) \<Rightarrow> int \<Rightarrow> int \<Rightarrow> nat \<Rightarrow> SseTransport \<Rightarrow> 'w \<Rightarrow> ((thrown + SseTransport) \<times> 'w) option" where
  "sseReconnectStart h wt isClosed connect reconnectDelayMs connectTimeoutMs fuel st w =
     sseStart h wt isClosed connect connectTimeoutMs fuel (sseReconnect st) (wt_sleep wt reconnectDelayMs w)"

section \<open>\<open>initializeWithRetry\<close> and \<open>recover\<close>\<close>

definition initAttempt ::
  "host \<Rightarrow> 'w Waiting \<Rightarrow> ('w \<Rightarrow> (thrown + 'r) \<times> 'w) \<Rightarrow> ('w \<Rightarrow> (thrown + unit) \<times> 'w) \<Rightarrow> jsstring \<Rightarrow> 'w \<Rightarrow> (jsstring + 'r) \<times> 'w" where
  "initAttempt h wt handshake reconnect lastError w =
     (case handshake w of
        (Inr r, w) \<Rightarrow> (Inr r, w)
      | (Inl err, w) \<Rightarrow>
          (case err of
             Runner (TargetCrashError _) \<Rightarrow>
               (case reconnect w of (Inr _, w) \<Rightarrow> (Inl (errorMessage h err), w) | (Inl e, w) \<Rightarrow> (Inl (errorMessage h e), w))
           | _ \<Rightarrow> (Inl (errorMessage h err), wt_sleep wt 1000 w)))"

definition initializeWithRetry ::
  "host \<Rightarrow> 'w Waiting \<Rightarrow> ('w \<Rightarrow> (thrown + 'r) \<times> 'w) \<Rightarrow> ('w \<Rightarrow> (thrown + unit) \<times> 'w) \<Rightarrow> int \<Rightarrow> nat \<Rightarrow> 'w \<Rightarrow> ((thrown + 'r) \<times> 'w) option" where
  "initializeWithRetry h wt handshake reconnect maxWaitMs fuel w =
     (case wt_now wt w of (now, w) \<Rightarrow>
      map_option (\<lambda>(r, w).
          (case r of
             Inr v \<Rightarrow> Inr v
           | Inl lastError \<Rightarrow>
               Inl (Runner (TargetUnavailableError (J ''initialize did not succeed within '' @ showInt maxWaitMs @ J ''ms: '' @ lastError))), w))
        (retryUntil wt (initAttempt h wt handshake reconnect) (now + maxWaitMs) fuel [] w))"

definition recover ::
  "host \<Rightarrow> 'w Waiting \<Rightarrow> ('w \<Rightarrow> (thrown + 'r) \<times> 'w) \<Rightarrow> ('w \<Rightarrow> (thrown + unit) \<times> 'w) \<Rightarrow> int \<Rightarrow> nat \<Rightarrow> 'w \<Rightarrow> (bool \<times> 'w) option" where
  "recover h wt handshake reconnect maxWaitMs fuel w =
     (case reconnect w of
        (Inl err, w) \<Rightarrow> Some (False, w)
      | (Inr _, w) \<Rightarrow>
          map_option (\<lambda>(r, w). (case r of Inr _ \<Rightarrow> True | Inl _ \<Rightarrow> False, w)) (initializeWithRetry h wt handshake reconnect maxWaitMs fuel w))"

section \<open>The loops end\<close>

text \<open>A clock that does not run backwards, and sleeps that last as long as they say.\<close>

definition ticking :: "'w Waiting \<Rightarrow> ('w \<Rightarrow> int) \<Rightarrow> bool" where
  "ticking wt clock \<longleftrightarrow>
     (\<forall>w. fst (wt_now wt w) = clock w \<and> clock w \<le> clock (snd (wt_now wt w))) \<and> (\<forall>t w. clock w + t \<le> clock (wt_sleep wt t w))"

lemma retryUntil_ends:
  assumes "ticking wt clock" "0 < d"
    and body: "\<forall>le w err w'. body le w = (Inl err, w') \<longrightarrow> clock w + d \<le> clock w'"
    and "deadline \<le> clock w + int n * d" "n < fuel"
  shows "\<exists>r w'. retryUntil wt body deadline fuel le w = Some (r, w') \<and> (\<forall>e. r = Inl e \<longrightarrow> deadline \<le> clock w')"
  using assms(4,5)
proof (induction fuel arbitrary: n w le)
  case (Suc fuel)
  obtain now w1 where c: "wt_now wt w = (now, w1)" by (rule prod.exhaust)
  have t: "now = clock w" "clock w \<le> clock w1" using assms(1) c unfolding ticking_def by (metis fst_conv, metis snd_conv)
  show ?case
  proof (cases "deadline \<le> now")
    case True
    with c t show ?thesis by auto
  next
    case False
    obtain r w2 where b: "body le w1 = (r, w2)" by (rule prod.exhaust)
    show ?thesis
    proof (cases r)
      case (Inl err)
      from False Suc.prems t obtain m where m: "n = Suc m" by (cases n) auto
      have "clock w1 + d \<le> clock w2" using body b Inl by blast
      with Suc.prems t m have "deadline \<le> clock w2 + int m * d" "m < fuel" by (simp_all add: distrib_right)
      from Suc.IH [OF this] show ?thesis using False c b Inl by simp
    next
      case (Inr v)
      with False c b show ?thesis by auto
    qed
  qed
qed simp

lemma sseAttempt_slow:
  assumes "ticking wt clock" "\<And>w. clock w \<le> clock (snd (connect w))" "sseAttempt h wt isClosed connect st le w = (Inl err, w')"
  shows "clock w + 1000 \<le> clock w'"
proof -
  obtain r w1 where c: "connect w = (r, w1)" by (rule prod.exhaust)
  with assms(3) have "w' = wt_sleep wt 1000 w1" by (auto simp: sseAttempt_def split: if_splits sum.splits option.splits)
  moreover have "clock w \<le> clock w1" using assms(2) [of w] c by simp
  moreover have "clock w1 + 1000 \<le> clock (wt_sleep wt 1000 w1)" using assms(1) by (simp add: ticking_def)
  ultimately show ?thesis by simp
qed

lemma initAttempt_slow:
  assumes "ticking wt clock" "\<And>w. clock w \<le> clock (snd (handshake w))" "\<And>w. clock w + d \<le> clock (snd (reconnect w))" "d \<le> 1000"
    and "initAttempt h wt handshake reconnect le w = (Inl err, w')"
  shows "clock w + d \<le> clock w'"
proof -
  obtain r w1 where c: "handshake w = (r, w1)" by (rule prod.exhaust)
  have 1: "clock w \<le> clock w1" using assms(2) [of w] c by simp
  obtain r2 w2 where d: "reconnect w1 = (r2, w2)" by (rule prod.exhaust)
  have 2: "clock w1 + d \<le> clock w2" using assms(3) [of w1] d by simp
  have 3: "clock w1 + 1000 \<le> clock (wt_sleep wt 1000 w1)" using assms(1) by (simp add: ticking_def)
  from assms(5) c d have "w' = w2 \<or> w' = wt_sleep wt 1000 w1"
    by (auto simp: initAttempt_def split: sum.splits thrown.splits RunnerError.splits)
  with 1 2 3 assms(4) show ?thesis by auto
qed

lemma fuel_enough: "0 < d \<Longrightarrow> 0 \<le> t \<Longrightarrow> t \<le> int (nat (t div d) + 1) * (d :: int)"
proof -
  assume d: "0 < d" "0 \<le> t"
  have "t < d * (t div d) + d" using pos_mod_bound [OF d(1), of t] mult_div_mod_eq [of d t] by linarith
  moreover have "0 \<le> t div d" using d by (simp add: pos_imp_zdiv_nonneg_iff)
  ultimately show ?thesis by (simp add: algebra_simps)
qed

lemma sseStart_ends:
  assumes "ticking wt clock" "\<And>w. clock w \<le> clock (snd (connect w))" "0 \<le> t" "nat (t div 1000) + 2 \<le> fuel"
  shows "\<exists>r w'. sseStart h wt isClosed connect t fuel st w = Some (r, w')"
proof -
  obtain now w1 where c: "wt_now wt w = (now, w1)" by (rule prod.exhaust)
  have n: "now = clock w" "clock w \<le> clock w1" using assms(1) c unfolding ticking_def by (metis fst_conv, metis snd_conv)
  have body: "\<forall>le w err w'. sseAttempt h wt isClosed connect st le w = (Inl err, w') \<longrightarrow> clock w + 1000 \<le> clock w'"
    using sseAttempt_slow [OF assms(1,2)] by blast
  have "now + t \<le> clock w1 + int (nat (t div 1000) + 1) * 1000" using fuel_enough [of 1000 t] assms(3) n by simp
  from retryUntil_ends [where d = 1000 and body = "sseAttempt h wt isClosed connect st" and fuel = fuel and le = "[]", OF assms(1) _ body this]
    assms(4) obtain r w' where "retryUntil wt (sseAttempt h wt isClosed connect st) (now + t) fuel [] w1 = Some (r, w')" by auto
  then show ?thesis by (simp add: sseStart_def c)
qed

lemma initializeWithRetry_ends:
  assumes "ticking wt clock" "\<And>w. clock w \<le> clock (snd (handshake w))" "\<And>w. clock w + d \<le> clock (snd (reconnect w))"
    and "0 < d" "d \<le> 1000" "0 \<le> t" "nat (t div d) + 2 \<le> fuel"
  shows "\<exists>r w'. initializeWithRetry h wt handshake reconnect t fuel w = Some (r, w') \<and> (\<forall>e. r = Inl e \<longrightarrow> clock w + t \<le> clock w')"
proof -
  obtain now w1 where c: "wt_now wt w = (now, w1)" by (rule prod.exhaust)
  have n: "now = clock w" "clock w \<le> clock w1" using assms(1) c unfolding ticking_def by (metis fst_conv, metis snd_conv)
  have body: "\<forall>le w err w'. initAttempt h wt handshake reconnect le w = (Inl err, w') \<longrightarrow> clock w + d \<le> clock w'"
    using initAttempt_slow [OF assms(1,2,3,5)] by blast
  have "now + t \<le> clock w1 + int (nat (t div d) + 1) * d" using fuel_enough [of d t] assms(4,6) n by simp
  from retryUntil_ends [where body = "initAttempt h wt handshake reconnect" and fuel = fuel and le = "[]", OF assms(1,4) body this]
    assms(7) obtain r w' where "retryUntil wt (initAttempt h wt handshake reconnect) (now + t) fuel [] w1 = Some (r, w')"
    "\<forall>e. r = Inl e \<longrightarrow> now + t \<le> clock w'" by auto
  then show ?thesis by (cases r) (auto simp: initializeWithRetry_def c n(1))
qed

text \<open>
  C33. Waiting for the target ends. With a clock that does not run backwards, \<open>start\<close> of the SSE transport and
  \<open>initializeWithRetry\<close> return or throw after at most one attempt per second, or per reconnection delay, up to their
  limit; a handshake that is given up has been tried for the whole limit; and \<open>recover\<close> then always answers, with success
  exactly when the handshake succeeded.
\<close>

theorem target_waits_end:
  assumes "ticking wt clock" "\<And>w. clock w \<le> clock (snd (connect w))" "\<And>w. clock w \<le> clock (snd (handshake w))"
    and "\<And>w. clock w + d \<le> clock (snd (reconnect w))" "0 < d" "d \<le> 1000" "0 \<le> t" "nat (t div d) + nat (t div 1000) + 2 \<le> fuel"
  shows "(\<exists>r w'. sseStart h wt isClosed connect t fuel st w = Some (r, w')) \<and>
    (\<exists>r w'. initializeWithRetry h wt handshake reconnect t fuel w = Some (r, w') \<and> (\<forall>e. r = Inl e \<longrightarrow> clock w + t \<le> clock w')) \<and>
    (\<exists>ok w'. recover h wt handshake reconnect t fuel w = Some (ok, w') \<and>
       (ok \<longleftrightarrow> (\<exists>w1 v. reconnect w = (Inr (), w1) \<and> initializeWithRetry h wt handshake reconnect t fuel w1 = Some (Inr v, w'))))"
proof (intro conjI)
  show "\<exists>r w'. sseStart h wt isClosed connect t fuel st w = Some (r, w')"
    using sseStart_ends [OF assms(1,2,7), of fuel] assms(8) by simp
  have init: "\<exists>r w'. initializeWithRetry h wt handshake reconnect t fuel w = Some (r, w') \<and> (\<forall>e. r = Inl e \<longrightarrow> clock w + t \<le> clock w')" for w
    using initializeWithRetry_ends [OF assms(1,3,4,5,6,7), of fuel] assms(8) by simp
  then show "\<exists>r w'. initializeWithRetry h wt handshake reconnect t fuel w = Some (r, w') \<and> (\<forall>e. r = Inl e \<longrightarrow> clock w + t \<le> clock w')" .
  obtain r w1 where rc: "reconnect w = (r, w1)" by (rule prod.exhaust)
  from init [of w1] obtain v w2 where v: "initializeWithRetry h wt handshake reconnect t fuel w1 = Some (v, w2)" by blast
  show "\<exists>ok w'. recover h wt handshake reconnect t fuel w = Some (ok, w') \<and>
       (ok \<longleftrightarrow> (\<exists>w1 v. reconnect w = (Inr (), w1) \<and> initializeWithRetry h wt handshake reconnect t fuel w1 = Some (Inr v, w')))"
    by (cases r; cases v) (auto simp: recover_def rc v)
qed

text \<open>A clock alone: every attempt fails at once, sleeping and reconnecting take their time.\<close>

definition plainClock :: "int Waiting" where
  "plainClock = \<lparr>wt_now = (\<lambda>w. (w, w)), wt_sleep = (\<lambda>t w. w + t)\<rparr>"

theorem target_waits_end_witness:
  "\<exists>ok w'. recover (sampleHost []) plainClock (\<lambda>w. (Inl (Runner (TargetUnavailableError [])), w) :: (thrown + unit) \<times> int)
      (\<lambda>w. (Inr (), w + 1000)) 60000 122 0 = Some (ok, w')"
proof -
  have "ticking plainClock (\<lambda>w. w)" by (simp add: ticking_def plainClock_def)
  from target_waits_end [where d = 1000 and t = 60000 and fuel = 122 and w = 0 and h = "sampleHost []" and connect = "\<lambda>w. (Inr [], w)"
      and handshake = "\<lambda>w. (Inl (Runner (TargetUnavailableError [])), w) :: (thrown + unit) \<times> int" and reconnect = "\<lambda>w. (Inr (), w + 1000)", OF this]
  show ?thesis by fastforce
qed

end
