(* ===== verification/Utf8.thy ===== *)
theory Utf8
  imports Prelude
begin

text \<open>
  UTF-8 as \<open>Buffer.from(s, "utf8")\<close>, \<open>Buffer.byteLength\<close> and \<open>buf.toString("utf8")\<close> use it: a string
  encodes to bytes (a surrogate without its partner as U+FFFD), and bytes decode with one U+FFFD for
  each maximal ill-formed subsequence. A byte is a \<^typ>\<open>nat\<close> below 256. The runner cuts payloads and
  reports at a byte offset; the lemmas say what such a cut decodes to.
\<close>

section \<open>Code points\<close>

definition REPLACEMENT :: nat where "REPLACEMENT = 0xFFFD"

definition isHighU :: "jschar \<Rightarrow> bool" where "isHighU c \<longleftrightarrow> 0xD800 \<le> unat c \<and> unat c \<le> 0xDBFF"
definition isLowU :: "jschar \<Rightarrow> bool" where "isLowU c \<longleftrightarrow> 0xDC00 \<le> unat c \<and> unat c \<le> 0xDFFF"

fun codePoints :: "jsstring \<Rightarrow> nat list" where
  "codePoints [] = []"
| "codePoints [c] = [if isHighU c \<or> isLowU c then REPLACEMENT else unat c]"
| "codePoints (c # d # s) =
     (if isHighU c \<and> isLowU d then (0x10000 + (unat c - 0xD800) * 0x400 + (unat d - 0xDC00)) # codePoints s
      else (if isHighU c \<or> isLowU c then REPLACEMENT else unat c) # codePoints (d # s))"

definition unitsOfCp :: "nat \<Rightarrow> jsstring" where
  "unitsOfCp n =
     (if n < 0x10000 then [of_nat n]
      else [of_nat (0xD800 + (n - 0x10000) div 0x400), of_nat (0xDC00 + (n - 0x10000) mod 0x400)])"

definition fromCodePoints :: "nat list \<Rightarrow> jsstring" where
  "fromCodePoints ns = concat (map unitsOfCp ns)"

text \<open>Unicode scalar values.\<close>

definition scalar :: "nat \<Rightarrow> bool" where
  "scalar n \<longleftrightarrow> n < 0xD800 \<or> 0xE000 \<le> n \<and> n < 0x110000"

section \<open>Encoding and decoding\<close>

definition encodeCp :: "nat \<Rightarrow> nat list" where
  "encodeCp n =
     (if n < 0x80 then [n]
      else if n < 0x800 then [0xC0 + n div 64, 0x80 + n mod 64]
      else if n < 0x10000 then [0xE0 + n div 4096, 0x80 + n div 64 mod 64, 0x80 + n mod 64]
      else [0xF0 + n div 262144, 0x80 + n div 4096 mod 64, 0x80 + n div 64 mod 64, 0x80 + n mod 64])"

definition toUtf8 :: "jsstring \<Rightarrow> nat list" where
  "toUtf8 s = concat (map encodeCp (codePoints s))"

definition byteLength :: "jsstring \<Rightarrow> nat" where
  "byteLength s = length (toUtf8 s)"

text \<open>
  What a lead byte announces: how many bytes follow, the bounds of the first of them, and the bits it
  carries itself.
\<close>

definition leadByte :: "nat \<Rightarrow> (nat \<times> nat \<times> nat \<times> nat) option" where
  "leadByte b =
     (if b < 0x80 then Some (0, 0x80, 0xBF, b)
      else if 0xC2 \<le> b \<and> b \<le> 0xDF then Some (1, 0x80, 0xBF, b - 0xC0)
      else if 0xE0 \<le> b \<and> b \<le> 0xEF then
        Some (2, if b = 0xE0 then 0xA0 else 0x80, if b = 0xED then 0x9F else 0xBF, b - 0xE0)
      else if 0xF0 \<le> b \<and> b \<le> 0xF4 then
        Some (3, if b = 0xF0 then 0x90 else 0x80, if b = 0xF4 then 0x8F else 0xBF, b - 0xF0)
      else None)"

text \<open>The bytes that follow; a byte out of bounds or the end of the input gives U+FFFD.\<close>

fun moreBytes :: "nat \<Rightarrow> nat \<Rightarrow> nat \<Rightarrow> nat \<Rightarrow> nat list \<Rightarrow> nat \<times> nat list" where
  "moreBytes 0 lo hi acc bs = (acc, bs)"
| "moreBytes (Suc n) lo hi acc [] = (REPLACEMENT, [])"
| "moreBytes (Suc n) lo hi acc (b # bs) =
     (if lo \<le> b \<and> b \<le> hi then moreBytes n 0x80 0xBF (acc * 64 + (b - 0x80)) bs else (REPLACEMENT, b # bs))"

lemma moreBytes_length: "length (snd (moreBytes n lo hi acc bs)) \<le> length bs"
  by (induction n lo hi acc bs rule: moreBytes.induct) auto

function decodeUtf8 :: "nat list \<Rightarrow> nat list" where
  "decodeUtf8 [] = []"
| "decodeUtf8 (b # bs) =
     (case leadByte b of
        None \<Rightarrow> REPLACEMENT # decodeUtf8 bs
      | Some (n, lo, hi, acc) \<Rightarrow>
          let r = moreBytes n lo hi acc bs in fst r # decodeUtf8 (snd r))"
  by pat_completeness auto
termination
  by (relation "measure length") (auto simp: moreBytes_length less_Suc_eq_le)

definition fromUtf8 :: "nat list \<Rightarrow> jsstring" where
  "fromUtf8 bs = fromCodePoints (decodeUtf8 bs)"

section \<open>Lemmas\<close>

lemma encodeCp_length: "1 \<le> length (encodeCp n)" "length (encodeCp n) \<le> 4" "n < 0x10000 \<Longrightarrow> length (encodeCp n) \<le> 3"
  by (auto simp: encodeCp_def)

lemma unat16: "unat (c :: 16 word) < 65536"
  using unsigned_less [of c, where ?'a = nat] by simp

lemma codePoints_scalar: "n \<in> set (codePoints s) \<Longrightarrow> scalar n"
proof (induction s rule: codePoints.induct)
  case (2 c)
  then show ?case using unat16 [of c] by (auto simp: scalar_def REPLACEMENT_def isHighU_def isLowU_def split: if_splits)
next
  case (3 c d s)
  then show ?case using unat16 [of c]
    by (auto simp: scalar_def REPLACEMENT_def isHighU_def isLowU_def split: if_splits)
qed simp

text \<open>At most three bytes per UTF-16 code unit.\<close>

lemma byteLength_le: "byteLength s \<le> 3 * length s"
proof -
  have "length (concat (map encodeCp (codePoints s))) \<le> 3 * length s"
  proof (induction s rule: codePoints.induct)
    case (2 c)
    then show ?case using unat16 [of c] encodeCp_length(3) [of "unat c"]
      by (auto simp: REPLACEMENT_def encodeCp_def)
  next
    case (3 c d s)
    show ?case
    proof (cases "isHighU c \<and> isLowU d")
      case True
      let ?n = "0x10000 + (unat c - 0xD800) * 0x400 + (unat d - 0xDC00)"
      have "length (encodeCp ?n) \<le> 4" by (rule encodeCp_length)
      then have "length (encodeCp ?n) + length (concat (map encodeCp (codePoints s))) \<le> 3 * length (c # d # s)"
        using 3(1) [OF True] by simp
      with True show ?thesis by simp
    next
      case False
      let ?n = "if isHighU c \<or> isLowU c then REPLACEMENT else unat c"
      have "length (encodeCp ?n) \<le> 3"
        using unat16 [of c] by (intro encodeCp_length(3)) (auto simp: REPLACEMENT_def)
      then have "length (encodeCp ?n) + length (concat (map encodeCp (codePoints (d # s)))) \<le> 3 * length (c # d # s)"
        using 3(2) [OF False] by simp
      moreover have "codePoints (c # d # s) = ?n # codePoints (d # s)" using False by (auto simp del: One_nat_def)
      ultimately show ?thesis by simp
    qed
  qed simp
  then show ?thesis by (simp add: byteLength_def toUtf8_def)
qed

text \<open>What each encoded form decodes to, whole and cut short.\<close>

lemma leadByte_forms:
  "a < 0x80 \<Longrightarrow> leadByte a = Some (0, 0x80, 0xBF, a)"
  "2 \<le> a \<Longrightarrow> a < 32 \<Longrightarrow> leadByte (0xC0 + a) = Some (1, 0x80, 0xBF, a)"
  "a < 16 \<Longrightarrow> leadByte (0xE0 + a) =
     Some (2, if a = 0 then 0xA0 else 0x80, if a = 13 then 0x9F else 0xBF, a)"
  "a < 5 \<Longrightarrow> leadByte (0xF0 + a) =
     Some (3, if a = 0 then 0x90 else 0x80, if a = 4 then 0x8F else 0xBF, a)"
  by (auto simp: leadByte_def)

lemma moreBytes_numeral:
  "moreBytes 1 lo hi acc bs = moreBytes (Suc 0) lo hi acc bs"
  "moreBytes 2 lo hi acc bs = moreBytes (Suc 1) lo hi acc bs"
  "moreBytes 3 lo hi acc bs = moreBytes (Suc 2) lo hi acc bs"
  by (simp_all add: numeral_2_eq_2 numeral_3_eq_3)

lemma decode_two:
  assumes "2 \<le> a" "a < 32" "b < 64"
  shows "decodeUtf8 ((0xC0 + a) # (0x80 + b) # bs) = (a * 64 + b) # decodeUtf8 bs"
    "decodeUtf8 [0xC0 + a] = [REPLACEMENT]"
  using assms by (simp_all only: decodeUtf8.simps leadByte_forms option.case prod.case Let_def moreBytes_numeral
      moreBytes.simps) simp_all

lemma decode_three:
  assumes "a < 16" "b < 64" "c < 64" "a = 0 \<longrightarrow> 32 \<le> b" "a = 13 \<longrightarrow> b \<le> 31"
  shows "decodeUtf8 ((0xE0 + a) # (0x80 + b) # (0x80 + c) # bs) = ((a * 64 + b) * 64 + c) # decodeUtf8 bs"
    "decodeUtf8 [0xE0 + a] = [REPLACEMENT]" "decodeUtf8 [0xE0 + a, 0x80 + b] = [REPLACEMENT]"
  using assms by (simp_all only: decodeUtf8.simps leadByte_forms option.case prod.case Let_def moreBytes_numeral
      moreBytes.simps) (auto simp: moreBytes_numeral simp del: One_nat_def)

lemma decode_four:
  assumes "a < 5" "b < 64" "c < 64" "d < 64" "a = 0 \<longrightarrow> 16 \<le> b" "a = 4 \<longrightarrow> b \<le> 15"
  shows "decodeUtf8 ((0xF0 + a) # (0x80 + b) # (0x80 + c) # (0x80 + d) # bs) =
      (((a * 64 + b) * 64 + c) * 64 + d) # decodeUtf8 bs"
    "decodeUtf8 [0xF0 + a] = [REPLACEMENT]" "decodeUtf8 [0xF0 + a, 0x80 + b] = [REPLACEMENT]"
    "decodeUtf8 [0xF0 + a, 0x80 + b, 0x80 + c] = [REPLACEMENT]"
  using assms by (simp_all only: decodeUtf8.simps leadByte_forms option.case prod.case Let_def moreBytes_numeral
      moreBytes.simps) (auto simp: moreBytes_numeral simp del: One_nat_def)

text \<open>A scalar value survives its encoding; a proper prefix of the encoding decodes to one U+FFFD.\<close>

lemma decode_encodeCp:
  assumes "scalar n"
  shows "decodeUtf8 (encodeCp n @ bs) = n # decodeUtf8 bs \<and>
    (\<forall>k. 0 < k \<and> k < length (encodeCp n) \<longrightarrow> decodeUtf8 (take k (encodeCp n)) = [REPLACEMENT])"
proof -
  define a b c d where "a = n div 262144" and "b = n div 4096 mod 64" and "c = n div 64 mod 64" and "d = n mod 64"
  note abcd = this
  have lt: "b < 64" "c < 64" "d < 64" by (simp_all add: abcd)
  have dv: "n div 4096 = n div 64 div 64" "n div 262144 = n div 64 div 64 div 64"
    by (simp_all add: div_mult2_eq [symmetric])
  have n: "n = ((a * 64 + b) * 64 + c) * 64 + d"
    unfolding abcd dv by (simp only: div_mult_mod_eq)
  consider (1) "n < 0x80" | (2) "0x80 \<le> n" "n < 0x800" | (3) "0x800 \<le> n" "n < 0x10000" | (4) "0x10000 \<le> n" by linarith
  then show ?thesis
  proof cases
    case 1
    then show ?thesis by (auto simp: encodeCp_def leadByte_forms(1))
  next
    case 2
    have ab: "a = 0" "b = 0" using n lt 2 by auto
    then have q: "n div 64 = b * 64 + c" "a = 0" "b = 0" using n lt(3) by simp_all
    then have "2 \<le> c" "c < 32" using n lt 2 by linarith+
    from decode_two [OF this lt(3)] have dec: "decodeUtf8 ([0xC0 + c, 0x80 + d] @ bs) = n # decodeUtf8 bs"
      "decodeUtf8 [0xC0 + c] = [REPLACEMENT]" using n q by simp_all
    have enc: "encodeCp n = [0xC0 + c, 0x80 + d]" using 2 q by (simp add: encodeCp_def d_def)
    show ?thesis unfolding enc using dec by (auto simp: less_Suc_eq simp del: decodeUtf8.simps)
  next
    case 3
    have "a = 0" using n lt 3 by auto
    then have q: "n div 4096 = b" "a = 0" using n lt(2,3) by (simp_all add: dv(1))
    then have "b < 16" "b = 0 \<longrightarrow> 32 \<le> c" "b = 13 \<longrightarrow> c \<le> 31"
      using n lt 3 assms by (auto simp: scalar_def)
    from decode_three [OF this(1) lt(2,3) this(2,3)]
    have dec: "decodeUtf8 ([0xE0 + b, 0x80 + c, 0x80 + d] @ bs) = n # decodeUtf8 bs"
      "decodeUtf8 [0xE0 + b] = [REPLACEMENT]" "decodeUtf8 [0xE0 + b, 0x80 + c] = [REPLACEMENT]"
      using n q by simp_all
    have enc: "encodeCp n = [0xE0 + b, 0x80 + c, 0x80 + d]" using 3 q by (simp add: encodeCp_def c_def d_def)
    show ?thesis unfolding enc using dec by (auto simp: less_Suc_eq simp del: decodeUtf8.simps)
  next
    case 4
    then have "a < 5" "a = 0 \<longrightarrow> 16 \<le> b" "a = 4 \<longrightarrow> b \<le> 15"
      using n lt assms by (auto simp: scalar_def)
    from decode_four [OF this(1) lt this(2,3)]
    have dec: "decodeUtf8 ([0xF0 + a, 0x80 + b, 0x80 + c, 0x80 + d] @ bs) = n # decodeUtf8 bs"
      "decodeUtf8 [0xF0 + a] = [REPLACEMENT]" "decodeUtf8 [0xF0 + a, 0x80 + b] = [REPLACEMENT]"
      "decodeUtf8 [0xF0 + a, 0x80 + b, 0x80 + c] = [REPLACEMENT]" using n by simp_all
    have enc: "encodeCp n = [0xF0 + a, 0x80 + b, 0x80 + c, 0x80 + d]"
      using 4 by (simp add: encodeCp_def a_def b_def c_def d_def)
    show ?thesis unfolding enc using dec by (auto simp: less_Suc_eq simp del: decodeUtf8.simps)
  qed
qed

definition encodeAll :: "nat list \<Rightarrow> nat list" where
  "encodeAll ns = concat (map encodeCp ns)"

lemma encodeAll_simps [simp]: "encodeAll [] = []" "encodeAll (n # ns) = encodeCp n @ encodeAll ns"
  by (simp_all add: encodeAll_def)

lemma encodeAll_append: "encodeAll (ms @ ns) = encodeAll ms @ encodeAll ns"
  by (simp add: encodeAll_def)

lemma toUtf8_encodeAll: "toUtf8 s = encodeAll (codePoints s)"
  by (simp add: toUtf8_def encodeAll_def)

lemma decode_encodeAll: "\<forall>n \<in> set ns. scalar n \<Longrightarrow> decodeUtf8 (encodeAll ns) = ns"
  by (induction ns) (simp_all add: decode_encodeCp)

lemma scalar_REPLACEMENT [simp]: "scalar REPLACEMENT"
  by (simp add: scalar_def REPLACEMENT_def)

text \<open>A byte cut keeps whole code points, and at most one U+FFFD for the one it splits.\<close>

lemma decode_cut:
  assumes "\<forall>n \<in> set ns. scalar n"
  shows "\<exists>j \<le> length ns.
    decodeUtf8 (take m (encodeAll ns)) = take j ns \<and> length (encodeAll (take j ns)) \<le> m \<or>
    decodeUtf8 (take m (encodeAll ns)) = take j ns @ [REPLACEMENT] \<and> length (encodeAll (take j ns)) < m"
  using assms
proof (induction ns arbitrary: m)
  case (Cons n ns)
  then have n: "scalar n" by simp
  show ?case
  proof (cases "length (encodeCp n) \<le> m")
    case True
    let ?m = "m - length (encodeCp n)"
    have cut: "take m (encodeAll (n # ns)) = encodeCp n @ take ?m (encodeAll ns)" using True by simp
    from Cons.IH [of ?m] Cons.prems obtain j where j: "j \<le> length ns"
      "decodeUtf8 (take ?m (encodeAll ns)) = take j ns \<and> length (encodeAll (take j ns)) \<le> ?m \<or>
       decodeUtf8 (take ?m (encodeAll ns)) = take j ns @ [REPLACEMENT] \<and> length (encodeAll (take j ns)) < ?m" by auto
    then show ?thesis
      unfolding cut conjunct1 [OF decode_encodeCp [OF n]] using True by (intro exI [of _ "Suc j"]) auto
  next
    case False
    then have cut: "take m (encodeAll (n # ns)) = take m (encodeCp n)" by simp
    show ?thesis
      unfolding cut using decode_encodeCp [OF n, of "[]"] False
      by (intro exI [of _ 0]) (cases "m = 0"; auto)
  qed
qed auto

lemma codePoints_unitsOfCp: "scalar n \<Longrightarrow> codePoints (unitsOfCp n @ s) = n # codePoints s"
proof -
  assume n: "scalar n"
  show ?thesis
  proof (cases "n < 0x10000")
    case True
    then have "unat (of_nat n :: 16 word) = n" by (simp add: unat_of_nat)
    with True n show ?thesis
      by (cases s) (auto simp: unitsOfCp_def isHighU_def isLowU_def scalar_def)
  next
    case False
    define k where "k = n - 0x10000"
    with False n have k: "n = 0x10000 + k" "k < 0x100000" by (auto simp: scalar_def)
    have hi: "unat (of_nat (0xD800 + k div 0x400) :: 16 word) = 0xD800 + k div 0x400"
      and lo: "unat (of_nat (0xDC00 + k mod 0x400) :: 16 word) = 0xDC00 + k mod 0x400"
      using k(2) by (simp_all add: unat_of_nat del: of_nat_add)
    have "k div 0x400 < 0x400" "k mod 0x400 \<le> 0x3FF" using k(2) by simp_all
    moreover have "unitsOfCp n = [of_nat (0xD800 + k div 0x400), of_nat (0xDC00 + k mod 0x400)]"
      using False by (simp add: unitsOfCp_def k_def)
    ultimately show ?thesis using hi lo k(1) by (simp add: isHighU_def isLowU_def del: of_nat_add)
  qed
qed

lemma codePoints_fromCodePoints: "\<forall>n \<in> set ns. scalar n \<Longrightarrow> codePoints (fromCodePoints ns) = ns"
  by (induction ns) (simp_all add: fromCodePoints_def codePoints_unitsOfCp)

text \<open>
  Decoding the first \<open>m\<close> bytes of a string: its first code points, and possibly one U+FFFD; the result
  is at most two bytes longer than the cut.
\<close>

lemma fromUtf8_cut:
  "\<exists>j \<le> length (codePoints s).
     codePoints (fromUtf8 (take m (toUtf8 s))) = take j (codePoints s) \<and>
       byteLength (fromUtf8 (take m (toUtf8 s))) \<le> m \<or>
     codePoints (fromUtf8 (take m (toUtf8 s))) = take j (codePoints s) @ [REPLACEMENT] \<and>
       byteLength (fromUtf8 (take m (toUtf8 s))) \<le> m + 2"
proof -
  have sc: "\<forall>n \<in> set (codePoints s). scalar n" using codePoints_scalar by blast
  obtain j where j: "j \<le> length (codePoints s)"
    "decodeUtf8 (take m (toUtf8 s)) = take j (codePoints s) \<and> length (encodeAll (take j (codePoints s))) \<le> m \<or>
     decodeUtf8 (take m (toUtf8 s)) = take j (codePoints s) @ [REPLACEMENT] \<and>
       length (encodeAll (take j (codePoints s))) < m"
    using decode_cut [OF sc, of m] unfolding toUtf8_encodeAll by blast
  have sc': "\<forall>n \<in> set (decodeUtf8 (take m (toUtf8 s))). scalar n"
    using j(2) sc set_take_subset [of j "codePoints s"] by (metis Un_iff empty_iff insert_iff list.set(1,2) scalar_REPLACEMENT set_append subsetD)
  have cp: "codePoints (fromUtf8 (take m (toUtf8 s))) = decodeUtf8 (take m (toUtf8 s))"
    unfolding fromUtf8_def by (rule codePoints_fromCodePoints [OF sc'])
  have rep: "length (encodeCp REPLACEMENT) = 3" by (simp add: encodeCp_def REPLACEMENT_def)
  have bl: "byteLength (fromUtf8 (take m (toUtf8 s))) = length (encodeAll (decodeUtf8 (take m (toUtf8 s))))"
    unfolding byteLength_def toUtf8_encodeAll [of "fromUtf8 _"] cp ..
  show ?thesis
    unfolding cp bl using j rep by (intro exI [of _ j]) (auto simp: encodeAll_append)
qed

lemma fromUtf8_toUtf8: "codePoints (fromUtf8 (toUtf8 s)) = codePoints s"
  unfolding fromUtf8_def toUtf8_encodeAll
  using codePoints_scalar by (simp add: decode_encodeAll codePoints_fromCodePoints)

text \<open>Code points of a concatenation, when no pair forms at the seam.\<close>

lemma codePoints_append: "t = [] \<or> \<not> isLowU (hd t) \<Longrightarrow> codePoints (s @ t) = codePoints s @ codePoints t"
proof (induction s rule: codePoints.induct)
  case (2 c)
  then show ?case by (cases t) auto
qed auto

lemma byteLength_append: "t = [] \<or> \<not> isLowU (hd t) \<Longrightarrow> byteLength (s @ t) = byteLength s + byteLength t"
  by (simp add: byteLength_def toUtf8_def codePoints_append)

end
