(* ===== verification/StatusWriter.thy ===== *)
theory StatusWriter
  imports Resources Utf8
begin

text \<open>
  \<^verbatim>\<open>src/runner/src/k8s.ts\<close>: how the runner reads its resources and writes the status of the run. The
  Kubernetes API and the file system are arguments: records of functions on a state \<open>'w\<close> that answer
  or fail as they like. Log lines and sleeps are not modelled.
\<close>

section \<open>The API server\<close>

text \<open>What an API call throws: the value, and its \<open>statusCode\<close> when it has a numeric one.\<close>

record ApiError =
  ae_statusCode :: "int option"
  ae_value :: thrown

definition httpStatusCode :: "ApiError \<Rightarrow> int option" where
  "httpStatusCode err = ae_statusCode err"

record OwnerReference =
  ow_apiVersion :: jsstring
  ow_kind :: jsstring
  ow_name :: jsstring
  ow_uid :: jsstring
  ow_controller :: bool
  ow_blockOwnerDeletion :: bool

record ConfigMap =
  cm_name :: jsstring
  cm_namespace :: jsstring
  cm_ownerReferences :: "OwnerReference list"
  cm_data :: "(jsstring \<times> jsstring) list"

text \<open>
  The calls the runner makes, each with the group, version, namespace, plural and name it names.
\<close>

record 'w KubeApi =
  getNamespacedCustomObject :: "jsstring \<Rightarrow> jsstring \<Rightarrow> jsstring \<Rightarrow> 'w \<Rightarrow> (ApiError + jsval) \<times> 'w"
  patchNamespacedCustomObjectStatus :: "jsstring \<Rightarrow> jsstring \<Rightarrow> jsstring \<Rightarrow> StatusPatch \<Rightarrow> 'w \<Rightarrow> (ApiError + unit) \<times> 'w"
  createNamespacedConfigMap :: "jsstring \<Rightarrow> ConfigMap \<Rightarrow> 'w \<Rightarrow> (ApiError + unit) \<times> 'w"
  replaceNamespacedConfigMap :: "jsstring \<Rightarrow> jsstring \<Rightarrow> ConfigMap \<Rightarrow> 'w \<Rightarrow> (ApiError + unit) \<times> 'w"

section \<open>Retries\<close>

definition RETRY_DELAYS :: "nat list" where "RETRY_DELAYS = [500, 1500, 4000]"
definition TERMINAL_RETRY_DELAYS :: "nat list" where "TERMINAL_RETRY_DELAYS = [500, 1500, 4000, 8000, 8000]"
definition FETCH_RETRY_DELAYS :: "nat list" where "FETCH_RETRY_DELAYS = [500, 1500, 3000]"

datatype 'a Retried = Done 'a | NotFound | Exhausted ApiError

text \<open>
  The loop the three retrying methods share: an attempt, then one more for each delay that is left;
  a 404 ends it at once.
\<close>

fun retryLoop :: "('w \<Rightarrow> (ApiError + 'a) \<times> 'w) \<Rightarrow> nat list \<Rightarrow> 'w \<Rightarrow> 'a Retried \<times> 'w" where
  "retryLoop call delays w =
     (case call w of
        (Inr v, w') \<Rightarrow> (Done v, w')
      | (Inl err, w') \<Rightarrow>
          if httpStatusCode err = Some 404 then (NotFound, w')
          else (case delays of [] \<Rightarrow> (Exhausted err, w') | delay # rest \<Rightarrow> retryLoop call rest w'))"

declare retryLoop.simps [simp del]

section \<open>Report size policy\<close>

definition REPORT_CONFIGMAP_MAX_BYTES :: nat where "REPORT_CONFIGMAP_MAX_BYTES = 900 * 1024"
definition TRUNCATED_REPORT_BYTES :: nat where "TRUNCATED_REPORT_BYTES = 800 * 1024"
definition SUMMARY_MAX_FINDINGS :: nat where "SUMMARY_MAX_FINDINGS = 20"
definition SUMMARY_TEXT_CAP :: nat where "SUMMARY_TEXT_CAP = 2048"

text \<open>\<open>s.lastIndexOf(c)\<close> of one code unit, \<open>None\<close> for \<open>-1\<close>.\<close>

fun lastIndexOf :: "jsstring \<Rightarrow> jschar \<Rightarrow> nat option" where
  "lastIndexOf [] c = None"
| "lastIndexOf (d # s) c = (case lastIndexOf s c of Some i \<Rightarrow> Some (Suc i) | None \<Rightarrow> if d = c then Some 0 else None)"

definition truncateUtf8 :: "jsstring \<Rightarrow> nat \<Rightarrow> jsstring" where
  "truncateUtf8 txt maxBytes =
     (let buf = toUtf8 txt in
      if length buf \<le> maxBytes then txt
      else let cut = fromUtf8 (take maxBytes buf) in
           case lastIndexOf cut 10 of
             Some lastNewline \<Rightarrow> if lastNewline > 0 then sliceS cut 0 lastNewline else cut
           | None \<Rightarrow> cut)"

definition clip :: "jsstring \<Rightarrow> nat \<Rightarrow> jsstring" where
  "clip txt mx = (if length txt \<le> mx then txt else sliceS txt 0 mx @ [8230])"

fun phaseStr :: "RunPhase \<Rightarrow> jsstring" where
  "phaseStr Pending = J ''Pending''"
| "phaseStr Cloning = J ''Cloning''"
| "phaseStr Running = J ''Running''"
| "phaseStr Evaluating = J ''Evaluating''"
| "phaseStr Completed = J ''Completed''"
| "phaseStr Failed = J ''Failed''"

definition jint :: "int \<Rightarrow> jsval" where "jint i = JNum (Fin (of_int i))"

definition findingSummary :: "Finding \<Rightarrow> jsval" where
  "findingSummary f = JObj ([(J ''agent'', JStr (fi_agent f)), (J ''severity'', JStr (severityStr (fi_severity f))),
     (J ''title'', JStr (clip (fi_title f) 512)), (J ''description'', JStr (clip (fi_description f) SUMMARY_TEXT_CAP))] @
     optField ''remediation'' (\<lambda>r. JStr (clip r SUMMARY_TEXT_CAP)) (fi_remediation f))"

definition scoringSummary :: "ScoringBlock \<Rightarrow> jsval" where
  "scoringSummary s = JObj [(J ''safetyScore'', jint (sc_safetyScore s)),
     (J ''reliabilityScore'', jint (sc_reliabilityScore s)),
     (J ''riskCategory'', JStr (riskStr (sc_riskCategory s))), (J ''summary'', JStr (clip (sc_summary s) SUMMARY_TEXT_CAP))]"

definition reportSummary :: "EvaluationReport \<Rightarrow> jsval" where
  "reportSummary report = JObj
     [(J ''note'', JStr (J ''report.json exceeded the ConfigMap size limit; see report.truncated.json for the first ~800KiB of the full JSON'')),
      (J ''runName'', JStr (er_runName report)),
      (J ''serverName'', JStr (er_serverName report)),
      (J ''startedAt'', JStr (er_startedAt report)),
      (J ''finishedAt'', JStr (er_finishedAt report)),
      (J ''phase'', JStr (phaseStr (er_phase report))),
      (J ''degraded'', JBool (er_degraded report)),
      (J ''message'', JStr (clip (er_message report) SUMMARY_TEXT_CAP)),
      (J ''finalScore'', jint (er_finalScore report)),
      (J ''scoring'', scoringSummary (er_scoring report)),
      (J ''agents'', JObj (map (\<lambda>(name, r). (name, JObj
         ((J ''status'', JStr (if ar_statusOk r then J ''ok'' else J ''failed'')) #
          optField ''error'' (\<lambda>e. JStr (clip e SUMMARY_TEXT_CAP)) (ar_error r)))) (er_agents report))),
      (J ''findingsCount'', jint (int (length (er_findings report)))),
      (J ''findings'', JArr (map findingSummary (take SUMMARY_MAX_FINDINGS (er_findings report)))),
      (J ''findingsTruncated'', JBool (length (er_findings report) > SUMMARY_MAX_FINDINGS))]"

definition reportConfigMapData :: "host \<Rightarrow> EvaluationReport \<Rightarrow> jsstring \<Rightarrow> (jsstring \<times> jsstring) list" where
  "reportConfigMapData h report reportJson =
     (if byteLength reportJson \<le> REPORT_CONFIGMAP_MAX_BYTES then [(J ''report.json'', reportJson)]
      else [(J ''summary.json'', hPretty h (reportSummary report)),
            (J ''report.truncated.json'', truncateUtf8 reportJson TRUNCATED_REPORT_BYTES)])"

section \<open>\<open>K8sStatusWriter\<close>\<close>

record K8sStatusWriter =
  kw_namespace :: jsstring
  kw_runName :: jsstring
  kw_pendingTerminalPatch :: "StatusPatch option"

definition getWithRetry :: "host \<Rightarrow> ('w \<Rightarrow> (ApiError + jsval) \<times> 'w) \<Rightarrow> jsstring \<Rightarrow> 'w \<Rightarrow> (RunnerError + jsval) \<times> 'w" where
  "getWithRetry h get label w =
     (case retryLoop get FETCH_RETRY_DELAYS w of
        (Done v, w') \<Rightarrow> (Inr v, w')
      | (NotFound, w') \<Rightarrow> (Inl (ConfigurationError (J ''failed to fetch '' @ label @ J '': not found'')), w')
      | (Exhausted err, w') \<Rightarrow>
          (Inl (ConfigurationError (J ''failed to fetch '' @ label @ J '': '' @ errorMessage h (ae_value err))), w'))"

definition fetchAgent :: "host \<Rightarrow> 'w KubeApi \<Rightarrow> K8sStatusWriter \<Rightarrow> jsstring \<Rightarrow> 'w \<Rightarrow> (RunnerError + OpenCodeAgent) \<times> 'w" where
  "fetchAgent h api kw name w =
     (case getWithRetry h (getNamespacedCustomObject api (kw_namespace kw) PLURAL_AGENTS name)
             (J ''OpenCodeAgent '' @ kw_namespace kw @ J ''/'' @ name) w of
        (r, w') \<Rightarrow> (bindR r assertOpenCodeAgent, w'))"

definition fetchServer :: "host \<Rightarrow> 'w KubeApi \<Rightarrow> K8sStatusWriter \<Rightarrow> jsstring \<Rightarrow> 'w \<Rightarrow> (RunnerError + MCPServer) \<times> 'w" where
  "fetchServer h api kw name w =
     (case getWithRetry h (getNamespacedCustomObject api (kw_namespace kw) PLURAL_SERVERS name)
             (J ''MCPServer '' @ kw_namespace kw @ J ''/'' @ name) w of
        (r, w') \<Rightarrow> (bindR r assertMCPServer, w'))"

definition isTerminal :: "StatusPatch \<Rightarrow> bool" where
  "isTerminal p \<longleftrightarrow> sp_phase p = Some Completed \<or> sp_phase p = Some Failed"

definition patchCall :: "'w KubeApi \<Rightarrow> K8sStatusWriter \<Rightarrow> StatusPatch \<Rightarrow> 'w \<Rightarrow> (ApiError + unit) \<times> 'w" where
  "patchCall api kw p = patchNamespacedCustomObjectStatus api (kw_namespace kw) PLURAL_RUNS (kw_runName kw) p"

definition patchStatus :: "'w KubeApi \<Rightarrow> StatusPatch \<Rightarrow> K8sStatusWriter \<times> 'w \<Rightarrow> K8sStatusWriter \<times> 'w" where
  "patchStatus api p st =
     (case st of (kw, w) \<Rightarrow>
        (case retryLoop (patchCall api kw p) (if isTerminal p then TERMINAL_RETRY_DELAYS else RETRY_DELAYS) w of
           (Done _, w') \<Rightarrow> (if isTerminal p then kw\<lparr>kw_pendingTerminalPatch := None\<rparr> else kw, w')
         | (NotFound, w') \<Rightarrow> (kw, w')
         | (Exhausted err, w') \<Rightarrow> (if isTerminal p then kw\<lparr>kw_pendingTerminalPatch := Some p\<rparr> else kw, w')))"

definition flushTerminalPatch :: "'w KubeApi \<Rightarrow> K8sStatusWriter \<times> 'w \<Rightarrow> K8sStatusWriter \<times> 'w" where
  "flushTerminalPatch api st =
     (case st of (kw, w) \<Rightarrow>
        (case kw_pendingTerminalPatch kw of
           None \<Rightarrow> (kw, w)
         | Some p \<Rightarrow>
             (case retryLoop (patchCall api kw p) RETRY_DELAYS w of
                (Done _, w') \<Rightarrow> (kw\<lparr>kw_pendingTerminalPatch := None\<rparr>, w')
              | (NotFound, w') \<Rightarrow> (kw, w')
              | (Exhausted err, w') \<Rightarrow> (kw, w'))))"

definition runOwnerReference :: "'w KubeApi \<Rightarrow> K8sStatusWriter \<Rightarrow> 'w \<Rightarrow> OwnerReference option \<times> 'w" where
  "runOwnerReference api kw w =
     (case getNamespacedCustomObject api (kw_namespace kw) PLURAL_RUNS (kw_runName kw) w of
        (Inl err, w') \<Rightarrow> (None, w')
      | (Inr raw, w') \<Rightarrow>
          (case Option.bind (asRec (Some raw)) (\<lambda>r. Option.bind (asRec (fld r (J ''metadata'')))
                  (\<lambda>m. neStr (fld m (J ''uid'')))) of
             None \<Rightarrow> (None, w')
           | Some uid \<Rightarrow>
               (Some \<lparr>ow_apiVersion = API_GROUP @ J ''/'' @ API_VERSION, ow_kind = J ''MCPEvaluationRun'',
                      ow_name = kw_runName kw, ow_uid = uid, ow_controller = False,
                      ow_blockOwnerDeletion = False\<rparr>, w')))"

text \<open>\<open>pretty\<close> is \<open>JSON.stringify(report, null, 2)\<close>. Every failure ends in a log line.\<close>

definition persistReport :: "host \<Rightarrow> 'w KubeApi \<Rightarrow> (EvaluationReport \<Rightarrow> jsstring) \<Rightarrow> EvaluationReport \<Rightarrow> K8sStatusWriter \<Rightarrow>
    'w \<Rightarrow> 'w" where
  "persistReport h api pretty report kw w =
     (let name = kw_runName kw @ J ''-report'';
          (ownerRef, w1) = runOwnerReference api kw w;
          body = \<lparr>cm_name = name, cm_namespace = kw_namespace kw,
                  cm_ownerReferences = (case ownerRef of None \<Rightarrow> [] | Some r \<Rightarrow> [r]),
                  cm_data = reportConfigMapData h report (pretty report)\<rparr> in
      case createNamespacedConfigMap api (kw_namespace kw) body w1 of
        (Inr _, w2) \<Rightarrow> w2
      | (Inl err, w2) \<Rightarrow>
          if httpStatusCode err \<noteq> Some 409 then w2
          else snd (replaceNamespacedConfigMap api name (kw_namespace kw) body w2))"

section \<open>\<open>DryRunStatusWriter\<close>\<close>

text \<open>The file system: \<open>existsSync\<close>, \<open>readFileSync\<close>, \<open>readdirSync\<close> and \<open>path.join\<close>.\<close>

record FileSystem =
  fsExists :: "jsstring \<Rightarrow> bool"
  fsRead :: "jsstring \<Rightarrow> thrown + jsstring"
  fsReaddir :: "jsstring \<Rightarrow> thrown + jsstring list"
  fsJoin :: "jsstring list \<Rightarrow> jsstring"

definition readJson :: "host \<Rightarrow> FileSystem \<Rightarrow> jsstring \<Rightarrow> thrown + jsval" where
  "readJson h fs file = bindR (fsRead fs file) (\<lambda>txt.
     needR (BuiltinError (J ''SyntaxError'') (hParseErr h txt)) (hParse h txt))"

fun scanEntries :: "host \<Rightarrow> FileSystem \<Rightarrow> jsstring \<Rightarrow> jsstring \<Rightarrow> jsstring list \<Rightarrow> thrown + jsval option" where
  "scanEntries h fs dir name [] = Inr None"
| "scanEntries h fs dir name (entry # es) =
     (if \<not> endsWith entry (J ''.json'') then scanEntries h fs dir name es
      else bindR (readJson h fs (fsJoin fs [dir, entry])) (\<lambda>parsed.
        if Option.bind (asRec (Some parsed)) (\<lambda>p. Option.bind (asRec (fld p (J ''metadata''))) (\<lambda>m. fld m (J ''name''))) =
           Some (JStr name)
        then Inr (Some parsed) else scanEntries h fs dir name es))"

definition scanAgents :: "host \<Rightarrow> FileSystem \<Rightarrow> jsstring \<Rightarrow> jsstring \<Rightarrow> thrown + jsval option" where
  "scanAgents h fs outputDir name =
     (let dir = fsJoin fs [outputDir, J ''agents''] in
      if \<not> fsExists fs dir then Inr None
      else bindR (fsReaddir fs dir) (scanEntries h fs dir name))"

definition dryFetchAgent :: "host \<Rightarrow> FileSystem \<Rightarrow> jsstring \<Rightarrow> jsstring \<Rightarrow> RunnerError + OpenCodeAgent" where
  "dryFetchAgent h fs outputDir name =
     (let direct = fsJoin fs [outputDir, J ''agents'', name @ J ''.json''] in
      case (if fsExists fs direct then map_sum id Some (readJson h fs direct) else scanAgents h fs outputDir name) of
        Inl err \<Rightarrow> Inl (ConfigurationError (J ''dry-run: failed to read agent '' @ name @ J '': '' @ errorMessage h err))
      | Inr None \<Rightarrow> Inl (ConfigurationError (J ''dry-run: agent '' @ name @ J '' not found under '' @
                      fsJoin fs [outputDir, J ''agents'']))
      | Inr (Some raw) \<Rightarrow> assertOpenCodeAgent raw)"

definition dryDefaultServer :: "jsstring option \<Rightarrow> jsstring \<Rightarrow> jsval" where
  "dryDefaultServer transportEnv name = JObj
     [(J ''apiVersion'', JStr (API_GROUP @ J ''/'' @ API_VERSION)),
      (J ''kind'', JStr (J ''MCPServer'')),
      (J ''metadata'', JObj [(J ''name'', JStr name)]),
      (J ''spec'', JObj
        [(J ''repositoryUrl'', JStr (J ''https://example.invalid/dry-run.git'')),
         (J ''ref'', JStr (J ''main'')),
         (J ''transport'', JStr (case transportEnv of Some t \<Rightarrow> t | None \<Rightarrow> J ''stdio'')),
         (J ''schedule'', JStr (J ''0 0 * * *'')),
         (J ''active'', JBool True),
         (J ''agentSuite'', JArr [])])]"

definition dryFetchServer :: "host \<Rightarrow> FileSystem \<Rightarrow> jsstring option \<Rightarrow> jsstring \<Rightarrow> jsstring \<Rightarrow> RunnerError + MCPServer" where
  "dryFetchServer h fs transportEnv outputDir name =
     (let file = fsJoin fs [outputDir, J ''server.json''] in
      if fsExists fs file then
        (case readJson h fs file of
           Inl err \<Rightarrow> Inl (ConfigurationError (J ''dry-run: failed to read '' @ file @ J '': '' @ errorMessage h err))
         | Inr raw \<Rightarrow> assertMCPServer raw)
      else assertMCPServer (dryDefaultServer transportEnv name))"

text \<open>
  The three methods of the dry-run writer that only log. The state of the writer is the file system
  it reads, which they leave alone.
\<close>

definition dryPatchStatus :: "StatusPatch \<Rightarrow> 's \<Rightarrow> 's" where "dryPatchStatus p st = st"
definition dryFlushTerminalPatch :: "'s \<Rightarrow> 's" where "dryFlushTerminalPatch st = st"
definition dryPersistReport :: "host \<Rightarrow> (EvaluationReport \<Rightarrow> jsstring) \<Rightarrow> EvaluationReport \<Rightarrow> jsstring list" where
  "dryPersistReport h pretty report = map fst (reportConfigMapData h report (pretty report))"

datatype AnyStatusWriter = Kube K8sStatusWriter | DryRun jsstring

definition createStatusWriter :: "bool \<Rightarrow> jsstring \<Rightarrow> jsstring \<Rightarrow> jsstring \<Rightarrow> AnyStatusWriter" where
  "createStatusWriter dryRun namespace runName outputDir =
     (if dryRun then DryRun outputDir
      else Kube \<lparr>kw_namespace = namespace, kw_runName = runName, kw_pendingTerminalPatch = None\<rparr>)"

section \<open>Retries: lemmas\<close>

text \<open>\<open>k\<close> calls in a row that failed without a 404 lead from \<open>w\<close> to \<open>w'\<close>.\<close>

fun failing :: "('w \<Rightarrow> (ApiError + 'a) \<times> 'w) \<Rightarrow> nat \<Rightarrow> 'w \<Rightarrow> 'w \<Rightarrow> bool" where
  "failing call 0 w w' \<longleftrightarrow> w' = w"
| "failing call (Suc k) w w' \<longleftrightarrow>
     (\<exists>err w1. call w = (Inl err, w1) \<and> httpStatusCode err \<noteq> Some 404 \<and> failing call k w1 w')"

lemma retryLoop_spec:
  assumes "retryLoop call delays w = (r, w')"
  shows "\<exists>k w1. k \<le> length delays \<and> failing call k w w1 \<and>
    (case r of
       Done v \<Rightarrow> call w1 = (Inr v, w')
     | NotFound \<Rightarrow> \<exists>err. call w1 = (Inl err, w') \<and> httpStatusCode err = Some 404
     | Exhausted err \<Rightarrow> k = length delays \<and> call w1 = (Inl err, w') \<and> httpStatusCode err \<noteq> Some 404)"
  using assms
proof (induction delays arbitrary: w)
  case Nil
  obtain x w1 where "call w = (x, w1)" by force
  with Nil show ?case
    by (intro exI [of _ 0] exI [of _ w]) (auto simp: retryLoop.simps split: sum.splits if_splits)
next
  case (Cons d ds)
  obtain x w1 where c: "call w = (x, w1)" by force
  show ?case
  proof (cases "\<exists>err. x = Inl err \<and> httpStatusCode err \<noteq> Some 404")
    case True
    then obtain err where x: "x = Inl err" "httpStatusCode err \<noteq> Some 404" by blast
    with Cons.prems c have "retryLoop call ds w1 = (r, w')" by (simp add: retryLoop.simps [of call "d # ds"])
    from Cons.IH [OF this] obtain k w2 where k: "k \<le> length ds" "failing call k w1 w2"
      "case r of Done v \<Rightarrow> call w2 = (Inr v, w') | NotFound \<Rightarrow> \<exists>err. call w2 = (Inl err, w') \<and> httpStatusCode err = Some 404
       | Exhausted err \<Rightarrow> k = length ds \<and> call w2 = (Inl err, w') \<and> httpStatusCode err \<noteq> Some 404" by blast
    have "failing call (Suc k) w w2" using x c k(2) by auto
    with k(1,3) show ?thesis by (intro exI [of _ "Suc k"] exI [of _ w2]) (auto split: Retried.splits)
  next
    case False
    with Cons.prems c show ?thesis
      by (intro exI [of _ 0] exI [of _ w]) (auto simp: retryLoop.simps [of call "d # ds"] split: sum.splits if_splits)
  qed
qed

text \<open>One call that is answered ends the loop at once.\<close>

lemma retryLoop_done: "call w = (Inr v, w') \<Longrightarrow> retryLoop call delays w = (Done v, w')"
  by (simp add: retryLoop.simps)

lemma retryLoop_failing:
  "failing call k w w1 \<Longrightarrow> k \<le> length delays \<Longrightarrow> retryLoop call delays w = retryLoop call (drop k delays) w1"
proof (induction k arbitrary: w delays)
  case (Suc k)
  then obtain d ds where "delays = d # ds" by (cases delays) auto
  with Suc show ?case by (auto simp: retryLoop.simps [of call "d # ds" w])
qed simp

lemma delays_length:
  "length RETRY_DELAYS = 3" "length TERMINAL_RETRY_DELAYS = 5" "length FETCH_RETRY_DELAYS = 3"
  by (simp_all add: RETRY_DELAYS_def TERMINAL_RETRY_DELAYS_def FETCH_RETRY_DELAYS_def)

lemma failing_Suc_end:
  "failing call k w w1 \<Longrightarrow> call w1 = (Inl err, w2) \<Longrightarrow> httpStatusCode err \<noteq> Some 404 \<Longrightarrow> failing call (Suc k) w w2"
  by (induction k arbitrary: w) auto

lemma retryLoop_exhausted:
  "failing call (Suc (length delays)) w w' \<Longrightarrow> \<exists>err. retryLoop call delays w = (Exhausted err, w')"
proof (induction delays arbitrary: w)
  case Nil
  then show ?case by (auto simp: retryLoop.simps)
next
  case (Cons d ds)
  then obtain err w1 where "call w = (Inl err, w1)" "httpStatusCode err \<noteq> Some 404"
    "failing call (Suc (length ds)) w1 w'" by auto
  with Cons.IH show ?case by (simp add: retryLoop.simps [of call "d # ds" w])
qed

section \<open>The interface\<close>

text \<open>
  What the evaluation relies on of a status writer, whichever implementation it got: fetching fails
  only with a configuration error and returns validated resources, and only a terminal patch can be
  left pending. Patching and flushing cannot fail, which their types say.
\<close>

locale status_writer =
  fixes fetchA :: "jsstring \<Rightarrow> 's \<Rightarrow> (RunnerError + OpenCodeAgent) \<times> 's"
    and fetchS :: "jsstring \<Rightarrow> 's \<Rightarrow> (RunnerError + MCPServer) \<times> 's"
    and patch :: "StatusPatch \<Rightarrow> 's \<Rightarrow> 's"
    and flush :: "'s \<Rightarrow> 's"
    and pending :: "'s \<Rightarrow> StatusPatch option"
  assumes fetchA_error: "fetchA name st = (Inl e, st') \<Longrightarrow> \<exists>d. e = ConfigurationError d"
    and fetchA_wf: "fetchA name st = (Inr a, st') \<Longrightarrow> wfAgent a"
    and fetchS_error: "fetchS name st = (Inl e, st') \<Longrightarrow> \<exists>d. e = ConfigurationError d"
    and fetchA_pending: "pending (snd (fetchA name st)) = pending st"
    and fetchS_pending: "pending (snd (fetchS name st)) = pending st"
    and patch_pending: "pending (patch p st) \<in> {pending st} \<union> (if isTerminal p then {None, Some p} else {})"
    and flush_pending: "pending (flush st) \<in> {None, pending st}"
begin

definition pendingOk :: "'s \<Rightarrow> bool" where
  "pendingOk st \<longleftrightarrow> (\<forall>p. pending st = Some p \<longrightarrow> isTerminal p)"

lemma pendingOk_preserved:
  assumes "pendingOk st"
  shows "pendingOk (patch p st)" "pendingOk (flush st)" "pendingOk (snd (fetchA name st))"
    "pendingOk (snd (fetchS name st))"
  using assms patch_pending [of p st] flush_pending [of st]
  by (auto simp: pendingOk_def fetchA_pending fetchS_pending split: if_splits)

text \<open>Any run of patches leaves a terminal patch pending, or none.\<close>

lemma pendingOk_run: "pendingOk st \<Longrightarrow> pendingOk (fold patch ps st)"
  by (induction ps arbitrary: st) (simp_all add: pendingOk_preserved)

lemma patch_not_terminal: "\<not> isTerminal p \<Longrightarrow> pending (patch p st) = pending st"
  using patch_pending [of p st] by simp

end

text \<open>Both implementations keep the contract.\<close>

lemma getWithRetry_error: "getWithRetry h get label w = (Inl e, w') \<Longrightarrow> \<exists>d. e = ConfigurationError d"
  by (auto simp: getWithRetry_def split: Retried.splits prod.splits)

definition kubePending :: "K8sStatusWriter \<times> 'w \<Rightarrow> StatusPatch option" where
  "kubePending st = kw_pendingTerminalPatch (fst st)"

definition kubeFetchAgent :: "host \<Rightarrow> 'w KubeApi \<Rightarrow> jsstring \<Rightarrow> K8sStatusWriter \<times> 'w \<Rightarrow>
    (RunnerError + OpenCodeAgent) \<times> K8sStatusWriter \<times> 'w" where
  "kubeFetchAgent h api name st = (case st of (kw, w) \<Rightarrow> map_prod id (Pair kw) (fetchAgent h api kw name w))"

definition kubeFetchServer :: "host \<Rightarrow> 'w KubeApi \<Rightarrow> jsstring \<Rightarrow> K8sStatusWriter \<times> 'w \<Rightarrow>
    (RunnerError + MCPServer) \<times> K8sStatusWriter \<times> 'w" where
  "kubeFetchServer h api name st = (case st of (kw, w) \<Rightarrow> map_prod id (Pair kw) (fetchServer h api kw name w))"

interpretation kube: status_writer "kubeFetchAgent h api" "kubeFetchServer h api" "patchStatus api"
  "flushTerminalPatch api" kubePending
  for h :: host and api :: "'w KubeApi"
proof
  fix name st e st' a p
  show "kubeFetchAgent h api name st = (Inl e, st') \<Longrightarrow> \<exists>d. e = ConfigurationError d"
    by (auto simp: kubeFetchAgent_def fetchAgent_def bindR_eq_Inl split: prod.splits
        dest: getWithRetry_error assertOpenCodeAgent_error)
  show "kubeFetchAgent h api name st = (Inr a, st') \<Longrightarrow> wfAgent a"
    by (auto simp: kubeFetchAgent_def fetchAgent_def split: prod.splits dest: assertOpenCodeAgent_wf)
  show "kubeFetchServer h api name st = (Inl e, st') \<Longrightarrow> \<exists>d. e = ConfigurationError d"
    by (auto simp: kubeFetchServer_def fetchServer_def bindR_eq_Inl split: prod.splits
        dest: getWithRetry_error assertMCPServer_error)
  show "kubePending (snd (kubeFetchAgent h api name st)) = kubePending st"
    by (cases st) (simp add: kubeFetchAgent_def kubePending_def)
  show "kubePending (snd (kubeFetchServer h api name st)) = kubePending st"
    by (cases st) (simp add: kubeFetchServer_def kubePending_def)
  show "kubePending (patchStatus api p st) \<in> {kubePending st} \<union> (if isTerminal p then {None, Some p} else {})"
    by (cases st) (auto simp: patchStatus_def kubePending_def split: prod.splits Retried.splits)
  show "kubePending (flushTerminalPatch api st) \<in> {None, kubePending st}"
    by (cases st) (auto simp: flushTerminalPatch_def kubePending_def split: prod.splits Retried.splits option.splits)
qed

interpretation dry: status_writer "\<lambda>name st. (dryFetchAgent h fs outputDir name, st)"
  "\<lambda>name st. (dryFetchServer h fs transportEnv outputDir name, st)" dryPatchStatus dryFlushTerminalPatch "\<lambda>_. None"
  for h :: host and fs :: FileSystem and transportEnv :: "jsstring option" and outputDir :: jsstring
  by unfold_locales
    (auto simp: dryFetchAgent_def dryFetchServer_def Let_def split: sum.splits option.splits if_splits
      dest: assertOpenCodeAgent_error assertMCPServer_error assertOpenCodeAgent_wf)

section \<open>Truncation: lemmas\<close>

lemma lastIndexOf_SomeD: "lastIndexOf s c = Some i \<Longrightarrow> \<exists>b. s = take i s @ c # b"
proof (induction s arbitrary: i)
  case (Cons d s)
  show ?case
  proof (cases "lastIndexOf s c")
    case None
    with Cons.prems show ?thesis by (auto split: if_splits)
  next
    case (Some j)
    with Cons.prems Cons.IH [OF Some] show ?thesis by auto
  qed
qed simp

lemma truncateUtf8_cut:
  assumes "m < byteLength tx" "ct = fromUtf8 (take m (toUtf8 tx))"
  shows "truncateUtf8 tx m = (case lastIndexOf ct 10 of
      Some i \<Rightarrow> if i > 0 then take i ct else ct | None \<Rightarrow> ct)"
  using assms by (auto simp: truncateUtf8_def byteLength_def Let_def sliceS_def split: option.splits)

text \<open>A cut at a line end keeps only whole code points of the text, in fewer than \<open>m\<close> bytes.\<close>

lemma line_cut:
  assumes "ct = fromUtf8 (take m (toUtf8 tx))" "lastIndexOf ct 10 = Some i"
  shows "prefix (codePoints (take i ct)) (codePoints tx)" "byteLength (take i ct) < m"
proof -
  obtain b where b: "ct = take i ct @ 10 # b" using lastIndexOf_SomeD [OF assms(2)] by blast
  have low: "\<not> isLowU (hd (10 # b))" by (simp add: isLowU_def)
  have nl: "codePoints (10 # b) = 10 # codePoints b"
    by (cases b) (simp_all add: isHighU_def isLowU_def)
  have cp: "codePoints ct = codePoints (take i ct) @ 10 # codePoints b"
    by (subst b) (use low nl codePoints_append [of "10 # b"] in simp)
  have bl: "byteLength ct = byteLength (take i ct) + 1 + byteLength b"
  proof -
    have "byteLength (10 # b) = 1 + byteLength b"
      by (simp add: byteLength_def toUtf8_def nl encodeCp_def)
    then show ?thesis by (subst b) (use low byteLength_append [of "10 # b"] in simp)
  qed
  obtain j where j: "j \<le> length (codePoints tx)"
    "codePoints ct = take j (codePoints tx) \<and> byteLength ct \<le> m \<or>
     codePoints ct = take j (codePoints tx) @ [REPLACEMENT] \<and> byteLength ct \<le> m + 2"
    using fromUtf8_cut [of tx m] unfolding assms(1) by blast
  show "prefix (codePoints (take i ct)) (codePoints tx)"
    using j(2)
  proof
    assume "codePoints ct = take j (codePoints tx) \<and> byteLength ct \<le> m"
    with cp have "prefix (codePoints (take i ct)) (take j (codePoints tx))" by (metis prefixI)
    then show ?thesis using take_is_prefix prefix_order.trans by blast
  next
    assume "codePoints ct = take j (codePoints tx) @ [REPLACEMENT] \<and> byteLength ct \<le> m + 2"
    with cp have "codePoints (take i ct) @ (10 # codePoints b) = take j (codePoints tx) @ [REPLACEMENT]" by simp
    then have "prefix (codePoints (take i ct)) (take j (codePoints tx))"
      by (metis append_butlast_last_id append_is_Nil_conv butlast_append butlast_snoc list.distinct(1) prefixI)
    then show ?thesis using take_is_prefix prefix_order.trans by blast
  qed
  show "byteLength (take i ct) < m"
    using j(2)
  proof
    assume "codePoints ct = take j (codePoints tx) \<and> byteLength ct \<le> m"
    with bl show ?thesis by simp
  next
    assume r: "codePoints ct = take j (codePoints tx) @ [REPLACEMENT] \<and> byteLength ct \<le> m + 2"
    then have "last (10 # codePoints b) = REPLACEMENT" using cp by (metis last_appendR last_snoc list.distinct(1))
    then have "REPLACEMENT \<in> set (codePoints b)"
      by (auto simp: REPLACEMENT_def split: if_splits) (metis last_in_set)
    then have "length (encodeCp REPLACEMENT) \<le> byteLength b"
      unfolding byteLength_def toUtf8_def by (metis (no_types) in_set_conv_decomp length_append list.simps(9) map_append
          concat_append concat.simps(2) le_add1 le_add2 le_trans)
    with r bl show ?thesis by (simp add: REPLACEMENT_def encodeCp_def)
  qed
qed

lemma truncateUtf8_bytes: "byteLength (truncateUtf8 tx m) \<le> m + 2"
proof (cases "byteLength tx \<le> m")
  case True
  then show ?thesis by (simp add: truncateUtf8_def byteLength_def Let_def)
next
  case False
  let ?cut = "fromUtf8 (take m (toUtf8 tx))"
  have cb: "byteLength ?cut \<le> m + 2" using fromUtf8_cut [of tx m] by auto
  have "byteLength (take i ?cut) \<le> m + 2" if "lastIndexOf ?cut 10 = Some i" for i
    using line_cut(2) [OF refl that] by simp
  with cb truncateUtf8_cut [OF _ refl, of m tx] False show ?thesis by (auto split: option.splits if_splits)
qed

section \<open>Status patches: lemmas\<close>

lemma patchStatus_terminal:
  assumes "isTerminal p" "patchStatus api p (kw, w) = (kw', w')"
  shows "\<exists>k w1. k \<le> 5 \<and> failing (patchCall api kw p) k w w1 \<and>
    (patchCall api kw p w1 = (Inr (), w') \<and> kw' = kw\<lparr>kw_pendingTerminalPatch := None\<rparr> \<or>
     (\<exists>err. patchCall api kw p w1 = (Inl err, w') \<and> httpStatusCode err = Some 404 \<and> kw' = kw) \<or>
     k = 5 \<and> failing (patchCall api kw p) 6 w w' \<and> kw' = kw\<lparr>kw_pendingTerminalPatch := Some p\<rparr>)"
proof -
  obtain r w2 where r: "retryLoop (patchCall api kw p) TERMINAL_RETRY_DELAYS w = (r, w2)" by force
  from retryLoop_spec [OF r] obtain k w1 where k: "k \<le> 5" "failing (patchCall api kw p) k w w1"
    "case r of Done v \<Rightarrow> patchCall api kw p w1 = (Inr v, w2)
       | NotFound \<Rightarrow> \<exists>err. patchCall api kw p w1 = (Inl err, w2) \<and> httpStatusCode err = Some 404
       | Exhausted err \<Rightarrow> k = 5 \<and> patchCall api kw p w1 = (Inl err, w2) \<and> httpStatusCode err \<noteq> Some 404"
    unfolding delays_length by blast
  show ?thesis
  proof (cases r)
    case (Exhausted err)
    with k have "failing (patchCall api kw p) 6 w w2"
      using failing_Suc_end [of "patchCall api kw p" 5 w w1] by auto
    with Exhausted k r assms show ?thesis
      by (intro exI [of _ 5] exI [of _ w1]) (auto simp: patchStatus_def)
  qed (use k r assms in \<open>intro exI [of _ k] exI [of _ w1]; auto simp: patchStatus_def\<close>)+
qed

text \<open>
  An API server for concrete runs: it refuses the first \<open>n\<close> status patches with 503 and then accepts;
  its state counts the requests and keeps the accepted patches. It has one agent.
\<close>

definition flakyApi :: "nat \<Rightarrow> (nat \<times> StatusPatch list) KubeApi" where
  "flakyApi n =
     \<lparr>getNamespacedCustomObject = (\<lambda>ns plural name w. (Inr sampleAgentJson, w)),
      patchNamespacedCustomObjectStatus = (\<lambda>ns plural name p w.
        case w of (i, acc) \<Rightarrow>
          if i < n then (Inl \<lparr>ae_statusCode = Some 503, ae_value = BuiltinError (J ''Error'') (J ''busy'')\<rparr>, (i + 1, acc))
          else (Inr (), (i + 1, acc @ [p]))),
      createNamespacedConfigMap = (\<lambda>ns cm w. (Inr (), w)),
      replaceNamespacedConfigMap = (\<lambda>name ns cm w. (Inr (), w))\<rparr>"

definition sampleWriter :: K8sStatusWriter where
  "sampleWriter = \<lparr>kw_namespace = J ''ns'', kw_runName = J ''run'', kw_pendingTerminalPatch = None\<rparr>"

definition maliciousPatch :: StatusPatch where
  "maliciousPatch = emptyPatch\<lparr>sp_phase := Some Failed, sp_finalScore := Some 0,
     sp_scoring := Some \<lparr>sc_safetyScore = 0, sc_reliabilityScore = 0, sc_riskCategory = Malicious, sc_summary = J ''injection''\<rparr>\<rparr>"

definition failedPatch :: StatusPatch where
  "failedPatch = emptyPatch\<lparr>sp_phase := Some Failed, sp_message := Some (J ''VigilInjectionError'')\<rparr>"

lemma flaky_call:
  "patchCall (flakyApi n) kw p (i, acc) =
     (if i < n then (Inl \<lparr>ae_statusCode = Some 503, ae_value = BuiltinError (J ''Error'') (J ''busy'')\<rparr>, (i + 1, acc))
      else (Inr (), (i + 1, acc @ [p])))"
  by (simp add: patchCall_def flakyApi_def)

lemma flaky_failing: "i + k \<le> n \<Longrightarrow> failing (patchCall (flakyApi n) kw p) k (i, acc) (i + k, acc)"
proof (induction k arbitrary: i)
  case (Suc k)
  from Suc.IH [of "Suc i"] Suc.prems show ?case by (simp add: flaky_call httpStatusCode_def)
qed simp

lemma sample_terminal [simp]: "isTerminal maliciousPatch" "isTerminal failedPatch"
  by (simp_all add: isTerminal_def maliciousPatch_def failedPatch_def)

lemma flaky_abandons:
  "patchStatus (flakyApi 6) maliciousPatch (sampleWriter, (0, [])) =
     (sampleWriter\<lparr>kw_pendingTerminalPatch := Some maliciousPatch\<rparr>, (6, []))"
proof -
  have "failing (patchCall (flakyApi 6) sampleWriter maliciousPatch) (Suc (length TERMINAL_RETRY_DELAYS)) (0, []) (6, [])"
    using flaky_failing [of 0 6 6] by (simp add: delays_length del: failing.simps)
  from retryLoop_exhausted [OF this] show ?thesis by (auto simp: patchStatus_def)
qed

section \<open>Properties\<close>

text \<open>
  A patch that ends the run is written, dropped because the run is gone, or kept: \<open>patchStatus\<close>
  makes at most six attempts, stops at the first that the API server accepts or answers with 404, and
  after six failures remembers exactly this patch.
\<close>

theorem terminal_patch_outcome:
  assumes "isTerminal p" "patchStatus api p (kw, w) = (kw', w')"
  shows "\<exists>k w1. k \<le> 5 \<and> failing (patchCall api kw p) k w w1 \<and>
    (patchCall api kw p w1 = (Inr (), w') \<and> kw' = kw\<lparr>kw_pendingTerminalPatch := None\<rparr> \<or>
     (\<exists>err. patchCall api kw p w1 = (Inl err, w') \<and> httpStatusCode err = Some 404 \<and> kw' = kw) \<or>
     k = 5 \<and> failing (patchCall api kw p) 6 w w' \<and> kw' = kw\<lparr>kw_pendingTerminalPatch := Some p\<rparr>)"
  using assms by (rule patchStatus_terminal)

theorem terminal_patch_outcome_witness:
  "\<exists>k w1. k \<le> 5 \<and> failing (patchCall (flakyApi 6) sampleWriter maliciousPatch) k (0, []) w1 \<and>
     (patchCall (flakyApi 6) sampleWriter maliciousPatch w1 = (Inr (), (6, [])) \<or>
      (\<exists>err. patchCall (flakyApi 6) sampleWriter maliciousPatch w1 = (Inl err, (6, [])) \<and> httpStatusCode err = Some 404) \<or>
      k = 5 \<and> failing (patchCall (flakyApi 6) sampleWriter maliciousPatch) 6 (0, []) (6, []))"
  using terminal_patch_outcome [OF sample_terminal(1) flaky_abandons] by blast

text \<open>
  C15. The flush at shutdown re-sends an abandoned terminal patch: after six failed attempts, if the API
  server accepts the patch within four more, flushing writes it and nothing stays pending; if it does
  not, the patch stays pending. Without a pending patch no request is made.
\<close>

theorem flush_recovers_terminal_patch:
  assumes "isTerminal p" "failing (patchCall api kw p) 6 w w1"
  shows "(\<forall>k w2 w3. k \<le> 3 \<and> failing (patchCall api kw p) k w1 w2 \<and> patchCall api kw p w2 = (Inr (), w3) \<longrightarrow>
      flushTerminalPatch api (patchStatus api p (kw, w)) = (kw\<lparr>kw_pendingTerminalPatch := None\<rparr>, w3)) \<and>
    (\<forall>w2. failing (patchCall api kw p) 4 w1 w2 \<longrightarrow>
      flushTerminalPatch api (patchStatus api p (kw, w)) = (kw\<lparr>kw_pendingTerminalPatch := Some p\<rparr>, w2)) \<and>
    (kw_pendingTerminalPatch kw = None \<longrightarrow> flushTerminalPatch api (kw, w) = (kw, w))"
proof -
  let ?kw = "kw\<lparr>kw_pendingTerminalPatch := Some p\<rparr>"
  have call: "patchCall api ?kw p = patchCall api kw p" by (simp add: patchCall_def fun_eq_iff)
  obtain err where "retryLoop (patchCall api kw p) TERMINAL_RETRY_DELAYS w = (Exhausted err, w1)"
    using retryLoop_exhausted [of "patchCall api kw p" TERMINAL_RETRY_DELAYS w w1] assms(2)
    by (auto simp: delays_length simp del: failing.simps)
  then have patched: "patchStatus api p (kw, w) = (?kw, w1)" using assms(1) by (simp add: patchStatus_def)
  show ?thesis
    unfolding patched
  proof (intro conjI allI impI)
    fix k w2 w3
    assume k: "k \<le> 3 \<and> failing (patchCall api kw p) k w1 w2 \<and> patchCall api kw p w2 = (Inr (), w3)"
    then have "retryLoop (patchCall api kw p) RETRY_DELAYS w1 = (Done (), w3)"
      by (auto simp: delays_length retryLoop_failing [of _ k w1 w2] retryLoop_done simp del: failing.simps)
    then show "flushTerminalPatch api (?kw, w1) = (kw\<lparr>kw_pendingTerminalPatch := None\<rparr>, w3)"
      by (simp add: flushTerminalPatch_def call)
  next
    fix w2
    assume "failing (patchCall api kw p) 4 w1 w2"
    then obtain err where "retryLoop (patchCall api kw p) RETRY_DELAYS w1 = (Exhausted err, w2)"
      using retryLoop_exhausted [of "patchCall api kw p" RETRY_DELAYS w1 w2]
      by (auto simp: delays_length simp del: failing.simps)
    then show "flushTerminalPatch api (?kw, w1) = (?kw, w2)" by (simp add: flushTerminalPatch_def call)
  next
    assume "kw_pendingTerminalPatch kw = None"
    then show "flushTerminalPatch api (kw, w) = (kw, w)" by (simp add: flushTerminalPatch_def)
  qed
qed

theorem flush_recovers_terminal_patch_witness:
  "flushTerminalPatch (flakyApi 6) (patchStatus (flakyApi 6) maliciousPatch (sampleWriter, (0, []))) =
     (sampleWriter\<lparr>kw_pendingTerminalPatch := None\<rparr>, (7, [maliciousPatch]))"
proof -
  have "failing (patchCall (flakyApi 6) sampleWriter maliciousPatch) 6 (0, []) (6, [])"
    using flaky_failing [of 0 6 6] by (simp del: failing.simps)
  from flush_recovers_terminal_patch [OF sample_terminal(1) this, THEN conjunct1, rule_format, of 0 "(6, [])"]
  show ?thesis by (simp add: flaky_call)
qed

text \<open>
  The memory holds one patch: when a second terminal patch is written, an abandoned first one is
  forgotten, and the flush sends nothing. The fields only the first carried (scoring, findings) are
  lost.
\<close>

theorem second_terminal_patch_drops_first:
  assumes "kw_pendingTerminalPatch kw = Some p1" "isTerminal p2" "patchCall api kw p2 w = (Inr (), w')"
  shows "flushTerminalPatch api (patchStatus api p2 (kw, w)) = (kw\<lparr>kw_pendingTerminalPatch := None\<rparr>, w')"
  using assms retryLoop_done [of "patchCall api kw p2", OF assms(3)] by (simp add: patchStatus_def flushTerminalPatch_def)

theorem second_terminal_patch_drops_first_witness:
  "flushTerminalPatch (flakyApi 6) (patchStatus (flakyApi 6) failedPatch
     (patchStatus (flakyApi 6) maliciousPatch (sampleWriter, (0, [])))) =
     (sampleWriter\<lparr>kw_pendingTerminalPatch := None\<rparr>, (7, [failedPatch]))"
  unfolding flaky_abandons
  using second_terminal_patch_drops_first [of "sampleWriter\<lparr>kw_pendingTerminalPatch := Some maliciousPatch\<rparr>"
      maliciousPatch failedPatch "flakyApi 6" "(6, [])"] by (simp add: flaky_call)

text \<open>
  Whatever patches are sent and whatever the API server answers, what waits for the flush is a
  patch that ends the run.
\<close>

theorem only_terminal_patches_wait:
  assumes "kw_pendingTerminalPatch kw = None" "fold (patchStatus api) ps (kw, w) = (kw', w')"
    "kw_pendingTerminalPatch kw' = Some p"
  shows "isTerminal p"
proof -
  have "kube.pendingOk (fold (patchStatus api) ps (kw, w))"
    by (rule kube.pendingOk_run) (simp add: kube.pendingOk_def kubePending_def assms(1))
  with assms(2,3) show ?thesis by (simp add: kube.pendingOk_def kubePending_def)
qed

theorem only_terminal_patches_wait_witness:
  "\<exists>kw' w' p. fold (patchStatus (flakyApi 6)) [maliciousPatch] (sampleWriter, (0, [])) = (kw', w') \<and>
     kw_pendingTerminalPatch kw' = Some p \<and> isTerminal p"
proof -
  let ?kw = "sampleWriter\<lparr>kw_pendingTerminalPatch := Some maliciousPatch\<rparr>"
  have run: "fold (patchStatus (flakyApi 6)) [maliciousPatch] (sampleWriter, (0, [])) = (?kw, (6, []))"
    by (simp add: flaky_abandons)
  with only_terminal_patches_wait [OF _ run, of maliciousPatch] show ?thesis by (simp add: sampleWriter_def)
qed

text \<open>
  Resources are fetched with at most four requests: the first that succeeds is validated, a 404
  fails at once, and every failure is a configuration error.
\<close>

theorem fetch_agent_outcome:
  assumes "fetchAgent h api kw name w = (r, w')"
  shows "\<exists>k w1. k \<le> 3 \<and> failing (getNamespacedCustomObject api (kw_namespace kw) PLURAL_AGENTS name) k w w1 \<and>
    (case getNamespacedCustomObject api (kw_namespace kw) PLURAL_AGENTS name w1 of
       (Inr raw, w2) \<Rightarrow> w' = w2 \<and> r = assertOpenCodeAgent raw
     | (Inl err, w2) \<Rightarrow> w' = w2 \<and> (httpStatusCode err = Some 404 \<or> k = 3) \<and> (\<exists>d. r = Inl (ConfigurationError d)))"
proof -
  let ?get = "getNamespacedCustomObject api (kw_namespace kw) PLURAL_AGENTS name"
  obtain x w2 where x: "retryLoop ?get FETCH_RETRY_DELAYS w = (x, w2)" by force
  from retryLoop_spec [OF x] obtain k w1 where k: "k \<le> 3" "failing ?get k w w1"
    "case x of Done v \<Rightarrow> ?get w1 = (Inr v, w2)
       | NotFound \<Rightarrow> \<exists>err. ?get w1 = (Inl err, w2) \<and> httpStatusCode err = Some 404
       | Exhausted err \<Rightarrow> k = 3 \<and> ?get w1 = (Inl err, w2) \<and> httpStatusCode err \<noteq> Some 404"
    unfolding delays_length by blast
  with assms x show ?thesis
    by (intro exI [of _ k] exI [of _ w1]) (auto simp: fetchAgent_def getWithRetry_def split: Retried.splits)
qed

theorem fetch_agent_outcome_witness:
  "\<exists>k w1. k \<le> 3 \<and>
     failing (getNamespacedCustomObject (flakyApi 0) (J ''ns'') PLURAL_AGENTS (J ''sast'')) k (0, []) w1 \<and>
     fetchAgent (sampleHost []) (flakyApi 0) sampleWriter (J ''sast'') (0, []) =
       (assertOpenCodeAgent sampleAgentJson, w1)"
proof -
  have run: "fetchAgent (sampleHost []) (flakyApi 0) sampleWriter (J ''sast'') (0, []) =
      (assertOpenCodeAgent sampleAgentJson, (0, []))"
    by (simp add: fetchAgent_def getWithRetry_def retryLoop.simps flakyApi_def)
  from fetch_agent_outcome [OF this] run show ?thesis by (auto simp: flakyApi_def sampleWriter_def)
qed

text \<open>
  The report's ConfigMap respects the size policy: a report of at most 900 KiB is stored verbatim
  under one key; a larger one as a summary and a truncated text of at most 800 KiB and two bytes. A
  text cut at a line end keeps only whole characters of the report and stays below 800 KiB.
\<close>

theorem report_size_policy:
  "(byteLength json \<le> 921600 \<longrightarrow> reportConfigMapData h report json = [(J ''report.json'', json)]) \<and>
   (921600 < byteLength json \<longrightarrow>
      map fst (reportConfigMapData h report json) = [J ''summary.json'', J ''report.truncated.json''] \<and>
      byteLength (snd (reportConfigMapData h report json ! 1)) \<le> 819202 \<and>
      (\<forall>i. lastIndexOf (fromUtf8 (take 819200 (toUtf8 json))) 10 = Some i \<and> 0 < i \<longrightarrow>
         prefix (codePoints (snd (reportConfigMapData h report json ! 1))) (codePoints json) \<and>
         byteLength (snd (reportConfigMapData h report json ! 1)) < 819200))"
proof (intro conjI impI)
  assume "byteLength json \<le> 921600"
  then show "reportConfigMapData h report json = [(J ''report.json'', json)]"
    by (simp add: reportConfigMapData_def REPORT_CONFIGMAP_MAX_BYTES_def)
next
  assume big: "921600 < byteLength json"
  then have data: "reportConfigMapData h report json =
      [(J ''summary.json'', hPretty h (reportSummary report)), (J ''report.truncated.json'', truncateUtf8 json 819200)]"
    by (simp add: reportConfigMapData_def REPORT_CONFIGMAP_MAX_BYTES_def TRUNCATED_REPORT_BYTES_def)
  show "map fst (reportConfigMapData h report json) = [J ''summary.json'', J ''report.truncated.json'']"
    by (simp add: data)
  show "byteLength (snd (reportConfigMapData h report json ! 1)) \<le> 819202"
    using truncateUtf8_bytes [of json 819200] by (simp add: data)
  let ?ct = "fromUtf8 (take 819200 (toUtf8 json))"
  show "\<forall>i. lastIndexOf ?ct 10 = Some i \<and> 0 < i \<longrightarrow>
         prefix (codePoints (snd (reportConfigMapData h report json ! 1))) (codePoints json) \<and>
         byteLength (snd (reportConfigMapData h report json ! 1)) < 819200"
  proof (intro allI impI)
    fix i
    assume i: "lastIndexOf ?ct 10 = Some i \<and> 0 < i"
    have "truncateUtf8 json 819200 = take i ?ct" using truncateUtf8_cut [OF _ refl, of 819200 json] big i by simp
    with line_cut [OF refl, of 819200 json i] i
    show "prefix (codePoints (snd (reportConfigMapData h report json ! 1))) (codePoints json) \<and>
         byteLength (snd (reportConfigMapData h report json ! 1)) < 819200" by (simp add: data)
  qed
qed

theorem report_size_policy_witness:
  "\<forall>h report. reportConfigMapData h report (J ''{}'') = [(J ''report.json'', J ''{}'')]"
  using report_size_policy [of "J ''{}''"] byteLength_le [of "J ''{}''"] by simp

end
