(* ===== verification/RunMonad.thy ===== *)
theory RunMonad
  imports Resources
begin

text \<open>
  The evaluator is one long asynchronous function over a mutable state that may throw. A computation
  takes a state and returns what it returned or threw, with the state it left behind: an exception
  does not undo the updates made before it. The proof rules are those of a Hoare logic with one
  postcondition for returning and one for throwing, and of a relation every step keeps.
\<close>

section \<open>Computations\<close>

type_synonym ('st, 'a) comp = "'st \<Rightarrow> (thrown + 'a) \<times> 'st"

definition retM :: "'a \<Rightarrow> ('st, 'a) comp" where
  "retM v s = (Inr v, s)"

definition throwM :: "thrown \<Rightarrow> ('st, 'a) comp" where
  "throwM e s = (Inl e, s)"

definition bindM :: "('st, 'a) comp \<Rightarrow> ('a \<Rightarrow> ('st, 'b) comp) \<Rightarrow> ('st, 'b) comp" where
  "bindM m f s = (case m s of (Inl e, s') \<Rightarrow> (Inl e, s') | (Inr v, s') \<Rightarrow> f v s')"

text \<open>\<open>try { ... } catch (err) { ... }\<close>, and one computation after another.\<close>

definition catchM :: "('st, 'a) comp \<Rightarrow> (thrown \<Rightarrow> ('st, 'a) comp) \<Rightarrow> ('st, 'a) comp" where
  "catchM m f s = (case m s of (Inl e, s') \<Rightarrow> f e s' | (Inr v, s') \<Rightarrow> (Inr v, s'))"

definition thenM :: "('st, 'a) comp \<Rightarrow> ('st, 'b) comp \<Rightarrow> ('st, 'b) comp" where
  "thenM m k = bindM m (\<lambda>_. k)"

fun eachM :: "('a \<Rightarrow> ('st, unit) comp) \<Rightarrow> 'a list \<Rightarrow> ('st, unit) comp" where
  "eachM f [] = retM ()"
| "eachM f (x # xs) = thenM (f x) (eachM f xs)"

fun mapM :: "('a \<Rightarrow> ('st, 'b) comp) \<Rightarrow> 'a list \<Rightarrow> ('st, 'b list) comp" where
  "mapM f [] = retM []"
| "mapM f (x # xs) = bindM (f x) (\<lambda>y. bindM (mapM f xs) (\<lambda>ys. retM (y # ys)))"

text \<open>Reading and writing the first part of a state, and calling a function of the second.\<close>

definition getM :: "('r \<Rightarrow> 'a) \<Rightarrow> ('r \<times> 's, 'a) comp" where
  "getM f st = (Inr (f (fst st)), st)"

definition modM :: "('r \<Rightarrow> 'r) \<Rightarrow> ('r \<times> 's, unit) comp" where
  "modM f st = (Inr (), (f (fst st), snd st))"

definition callM :: "('s \<Rightarrow> 'a \<times> 's) \<Rightarrow> ('r \<times> 's, 'a) comp" where
  "callM f st = (case f (snd st) of (v, w) \<Rightarrow> (Inr v, (fst st, w)))"

definition tryM :: "('s \<Rightarrow> (thrown + 'a) \<times> 's) \<Rightarrow> ('r \<times> 's, 'a) comp" where
  "tryM f st = (case f (snd st) of (r, w) \<Rightarrow> (r, (fst st, w)))"

definition doM :: "('s \<Rightarrow> 's) \<Rightarrow> ('r \<times> 's, unit) comp" where
  "doM f st = (Inr (), (fst st, f (snd st)))"

lemmas comp_defs = retM_def throwM_def bindM_def catchM_def thenM_def getM_def modM_def callM_def tryM_def doM_def

section \<open>Hoare triples\<close>

definition valid :: "('st \<Rightarrow> bool) \<Rightarrow> ('st, 'a) comp \<Rightarrow> ('a \<Rightarrow> 'st \<Rightarrow> bool) \<Rightarrow> (thrown \<Rightarrow> 'st \<Rightarrow> bool) \<Rightarrow> bool" where
  "valid P m Q E \<longleftrightarrow> (\<forall>s. P s \<longrightarrow> (case m s of (Inr v, s') \<Rightarrow> Q v s' | (Inl e, s') \<Rightarrow> E e s'))"

named_theorems wp \<open>rules that compute a precondition\<close>

lemma valid_return: "valid P m Q E \<Longrightarrow> P s \<Longrightarrow> m s = (Inr v, s') \<Longrightarrow> Q v s'"
  by (fastforce simp: valid_def)

lemma valid_throw: "valid P m Q E \<Longrightarrow> P s \<Longrightarrow> m s = (Inl e, s') \<Longrightarrow> E e s'"
  by (fastforce simp: valid_def)

lemma valid_weaken:
  "valid P m Q E \<Longrightarrow> (\<And>s. P' s \<Longrightarrow> P s) \<Longrightarrow> (\<And>v s. Q v s \<Longrightarrow> Q' v s) \<Longrightarrow> (\<And>e s. E e s \<Longrightarrow> E' e s) \<Longrightarrow>
   valid P' m Q' E'"
  by (fastforce simp: valid_def split: prod.splits sum.splits)

lemma valid_pre: "valid P m Q E \<Longrightarrow> (\<And>s. P' s \<Longrightarrow> P s) \<Longrightarrow> valid P' m Q E"
  by (rule valid_weaken)

lemma valid_ret [wp]: "valid (Q v) (retM v) Q E"
  by (simp add: valid_def retM_def)

lemma valid_throwM [wp]: "valid (E e) (throwM e) Q E"
  by (simp add: valid_def throwM_def)

lemma valid_bind [wp]: "(\<And>v. valid (R v) (f v) Q E) \<Longrightarrow> valid P m R E \<Longrightarrow> valid P (bindM m f) Q E"
  by (fastforce simp: valid_def bindM_def split: prod.splits sum.splits)

lemma valid_then [wp]: "valid R k Q E \<Longrightarrow> valid P m (\<lambda>_. R) E \<Longrightarrow> valid P (thenM m k) Q E"
  unfolding thenM_def by (rule valid_bind)

lemma valid_catch [wp]: "(\<And>e. valid (R e) (f e) Q E) \<Longrightarrow> valid P m Q R \<Longrightarrow> valid P (catchM m f) Q E"
  by (fastforce simp: valid_def catchM_def split: prod.splits sum.splits)

lemma valid_get [wp]: "valid (\<lambda>st. Q (f (fst st)) st) (getM f) Q E"
  by (simp add: valid_def getM_def)

lemma valid_mod [wp]: "valid (\<lambda>st. Q () (f (fst st), snd st)) (modM f) Q E"
  by (simp add: valid_def modM_def)

lemma valid_do [wp]: "valid (\<lambda>st. Q () (fst st, f (snd st))) (doM f) Q E"
  by (simp add: valid_def doM_def)

lemma valid_call [wp]: "valid (\<lambda>st. \<forall>v w. f (snd st) = (v, w) \<longrightarrow> Q v (fst st, w)) (callM f) Q E"
  by (simp add: valid_def callM_def split: prod.splits)

lemma valid_try [wp]:
  "valid (\<lambda>st. \<forall>r w. f (snd st) = (r, w) \<longrightarrow> (case r of Inr v \<Rightarrow> Q v (fst st, w) | Inl e \<Rightarrow> E e (fst st, w))) (tryM f) Q E"
  by (auto simp: valid_def tryM_def split: prod.splits sum.splits)

lemma valid_if [wp]:
  "valid P m Q E \<Longrightarrow> valid P' k Q E \<Longrightarrow> valid (\<lambda>s. (b \<longrightarrow> P s) \<and> (\<not> b \<longrightarrow> P' s)) (if b then m else k) Q E"
  by (simp add: valid_def)

lemma valid_each:
  "(\<And>x. x \<in> set xs \<Longrightarrow> valid I (f x) (\<lambda>_. I) E) \<Longrightarrow> valid I (eachM f xs) (\<lambda>_. I) E"
proof (induction xs)
  case (Cons x xs)
  then have "valid I (thenM (f x) (eachM f xs)) (\<lambda>_. I) E" by (intro valid_then [where R = I]) auto
  then show ?case by simp
qed (simp add: valid_def retM_def)

lemma valid_conj:
  "valid P m Q E \<Longrightarrow> valid P' m Q' E' \<Longrightarrow>
   valid (\<lambda>s. P s \<and> P' s) m (\<lambda>v s. Q v s \<and> Q' v s) (\<lambda>e s. E e s \<and> E' e s)"
  by (fastforce simp: valid_def split: prod.splits sum.splits)

section \<open>Relations every step keeps\<close>

text \<open>
  \<open>steps R m\<close>: the state before and after \<open>m\<close> are related, whether it returns or throws. For a
  preorder the relation composes; such relations say what a computation may change.
\<close>

definition steps :: "('st \<Rightarrow> 'st \<Rightarrow> bool) \<Rightarrow> ('st, 'a) comp \<Rightarrow> bool" where
  "steps R m \<longleftrightarrow> (\<forall>s. R s (snd (m s)))"

lemma stepsD: "steps R m \<Longrightarrow> m s = (r, s') \<Longrightarrow> R s s'"
  by (metis steps_def snd_conv)

locale preorder_steps =
  fixes R :: "'st \<Rightarrow> 'st \<Rightarrow> bool"
  assumes stays: "R s s"
    and goes: "R s t \<Longrightarrow> R t u \<Longrightarrow> R s u"
begin

lemma ret [intro, simp]: "steps R (retM v)"
  by (simp add: steps_def retM_def stays)

lemma throw [intro, simp]: "steps R (throwM e)"
  by (simp add: steps_def throwM_def stays)

lemma bind [intro]:
  assumes "steps R m" "\<And>v. steps R (f v)"
  shows "steps R (bindM m f)"
  unfolding steps_def
proof
  fix s
  obtain r s' where m: "m s = (r, s')" by force
  then have "R s s'" using stepsD [OF assms(1)] by blast
  then show "R s (snd (bindM m f s))"
    using m assms(2) goes by (cases r) (auto simp: bindM_def steps_def)
qed

lemma sequence [intro]: "steps R m \<Longrightarrow> steps R k \<Longrightarrow> steps R (thenM m k)"
  unfolding thenM_def by (rule bind)

lemma handle [intro]:
  assumes "steps R m" "\<And>e. steps R (f e)"
  shows "steps R (catchM m f)"
  unfolding steps_def
proof
  fix s
  obtain r s' where m: "m s = (r, s')" by force
  then have "R s s'" using stepsD [OF assms(1)] by blast
  then show "R s (snd (catchM m f s))"
    using m assms(2) goes by (cases r) (auto simp: catchM_def steps_def)
qed

lemma branch [intro]: "steps R m \<Longrightarrow> steps R k \<Longrightarrow> steps R (if b then m else k)"
  by simp

lemma each: "(\<And>x. steps R (f x)) \<Longrightarrow> steps R (eachM f xs)"
  by (induction xs) auto

lemma collect: "(\<And>x. steps R (f x)) \<Longrightarrow> steps R (mapM f xs)"
  by (induction xs) auto

end

lemma steps_get: "(\<And>s. R s s) \<Longrightarrow> steps R (getM f)"
  by (simp add: steps_def getM_def)

end
