(* ===== verification/Vigil.thy ===== *)
theory Vigil
  imports Segments Utf8
begin

text \<open>
  \<^verbatim>\<open>src/runner/src/vigil.ts\<close>: the client of the Vigil-LLM scanner. The HTTP transport \<open>meshFetch\<close> is
  an argument, a function on a state \<open>'w\<close> of the outside world that answers or throws; nothing is
  assumed about it. Log lines and the sleeps between attempts are not modelled.
\<close>

section \<open>Requests and responses\<close>

record MeshRequestInit =
  rq_method :: jsstring
  rq_headers :: "(jsstring \<times> jsstring) list"
  rq_body :: jsstring
  rq_timeoutMs :: rat

text \<open>A response: its status and its body; \<open>res.json()\<close> parses the body.\<close>

record MeshResponse =
  rs_status :: int
  rs_text :: jsstring

type_synonym 'w MeshFetch = "'w \<Rightarrow> jsstring \<Rightarrow> MeshRequestInit \<Rightarrow> (thrown + MeshResponse) \<times> 'w"

definition resJson :: "host \<Rightarrow> MeshResponse \<Rightarrow> thrown + jsval" where
  "resJson h res = (case hParse h (rs_text res) of
     Some v \<Rightarrow> Inr v | None \<Rightarrow> Inl (BuiltinError (J ''SyntaxError'') (hParseErr h (rs_text res))))"

section \<open>Verdicts\<close>

record VigilVerdict =
  vv_level :: VigilLevel
  vv_injectionDetected :: bool
  vv_hits :: "VigilScannerHit list"
  vv_confidence :: "rat option"
  vv_triggeredScanners :: "jsstring list"
  vv_raw :: jsval
  vv_endpoint :: "jsstring option"

definition DEFAULT_TRANSFORMER_THRESHOLD :: rat where
  "DEFAULT_TRANSFORMER_THRESHOLD = 98 / 100"

definition TRUNCATION_MARKER :: jsstring where
  "TRUNCATION_MARKER = [10, 8230] @ J ''[truncated by mcp-eval-runner for vigil scan]''"

section \<open>Combining the scanners\<close>

definition transformerScore :: "rat \<Rightarrow> jsobj \<Rightarrow> jsnum option" where
  "transformerScore defaultThreshold m =
     (let threshold = (case asNum (fld m (J ''threshold'')) of Some t \<Rightarrow> t | None \<Rightarrow> Fin defaultThreshold);
          injection = (fld m (J ''label'') = None \<or> fld m (J ''label'') = Some (JStr (J ''INJECTION''))) in
      case asNum (fld m (J ''score'')) of
        Some score \<Rightarrow> if injection \<and> leN threshold score then Some score else None
      | None \<Rightarrow> None)"

fun bestScore :: "rat \<Rightarrow> jsobj list \<Rightarrow> jsnum option \<Rightarrow> jsnum option" where
  "bestScore thr [] best = best"
| "bestScore thr (m # ms) best =
     bestScore thr ms
       (case transformerScore thr m of
          Some score \<Rightarrow> Some (case best of None \<Rightarrow> score | Some b \<Rightarrow> maxN b score)
        | None \<Rightarrow> best)"

text \<open>\<open>r["matches"].filter(isRecord)\<close>; \<open>None\<close> when the entry is skipped.\<close>

definition matchesOf :: "jsval \<Rightarrow> jsobj list option" where
  "matchesOf r =
     (case asRec (Some r) of
        None \<Rightarrow> None
      | Some o' \<Rightarrow> map_option (\<lambda>vs. [m. JObj m \<leftarrow> vs]) (asArr (fld o' (J ''matches''))))"

definition plainHit :: "jsstring \<Rightarrow> VigilScannerHit" where
  "plainHit name = \<lparr>vh_scanner = name, vh_score = None, vh_detail = None\<rparr>"

text \<open>\<open>Math.min(...ds)\<close>.\<close>

definition minOf :: "jsnum list \<Rightarrow> jsnum" where
  "minOf ds = foldl minN PosInf ds"

text \<open>One turn of the loop, over \<open>hits\<close>, \<open>transformer\<close> and \<open>corroborating\<close>.\<close>

definition combineStep :: "rat \<Rightarrow> jsstring \<times> jsval \<Rightarrow> VigilScannerHit list \<times> bool \<times> bool \<Rightarrow>
    VigilScannerHit list \<times> bool \<times> bool" where
  "combineStep thr entry st =
     (case (entry, st) of ((name, r), (hits, transformer, corroborating)) \<Rightarrow>
        if name = J ''scanner:sentiment'' then st
        else case matchesOf r of
          None \<Rightarrow> st
        | Some matches \<Rightarrow>
            if name = J ''scanner:transformer'' then
              (case bestScore thr matches None of
                 Some best \<Rightarrow> (hits @ [(plainHit name)\<lparr>vh_score := Some best\<rparr>], True, corroborating)
               | None \<Rightarrow> st)
            else if matches = [] then st
            else if name = J ''scanner:yara'' then
              (hits @ [(plainHit name)\<lparr>vh_detail := Some (joinS (J '', '')
                 [s. Some (JStr s) \<leftarrow> map (\<lambda>m. fld m (J ''rule_name'')) matches])\<rparr>], transformer, True)
            else if name = J ''scanner:vectordb'' then
              (let distances = [d. Some (JNum d) \<leftarrow> map (\<lambda>m. fld m (J ''distance'')) matches] in
               (hits @ [(plainHit name)\<lparr>vh_score := (if distances \<noteq> [] then Some (minOf distances) else None)\<rparr>],
                transformer, True))
            else (hits @ [plainHit name], transformer, corroborating))"

fun combineLoop :: "rat \<Rightarrow> jsobj \<Rightarrow> VigilScannerHit list \<times> bool \<times> bool \<Rightarrow> VigilScannerHit list \<times> bool \<times> bool" where
  "combineLoop thr [] st = st"
| "combineLoop thr (entry # rest) st = combineLoop thr rest (combineStep thr entry st)"

definition combineScannerResults :: "jsobj \<Rightarrow> rat \<Rightarrow> VigilLevel \<times> VigilScannerHit list" where
  "combineScannerResults results defaultThreshold =
     (case combineLoop defaultThreshold results ([], False, False) of
        (hits, transformer, corroborating) \<Rightarrow>
          (if transformer \<and> corroborating then Abort else if hits \<noteq> [] then Warn else Clean, hits))"

section \<open>Reading a verdict\<close>

definition legacy :: "bool \<Rightarrow> rat option \<Rightarrow> jsstring list \<Rightarrow> jsval \<Rightarrow> VigilVerdict" where
  "legacy injectionDetected confidence triggeredScanners raw =
     \<lparr>vv_level = (if injectionDetected then Abort else Clean), vv_injectionDetected = injectionDetected,
      vv_hits = [], vv_confidence = confidence, vv_triggeredScanners = triggeredScanners, vv_raw = raw,
      vv_endpoint = None\<rparr>"

fun firstFinite :: "jsobj \<Rightarrow> string list \<Rightarrow> rat option" where
  "firstFinite obj [] = None"
| "firstFinite obj (key # keys) =
     (case finNum (fld obj (J key)) of
        Some v \<Rightarrow> Some (if v > 1 then v / 100 else v)
      | None \<Rightarrow> firstFinite obj keys)"

fun maxRunScore :: "jsobj \<Rightarrow> rat option \<Rightarrow> rat option" where
  "maxRunScore [] mx = mx"
| "maxRunScore ((name, value) # rest) mx =
     maxRunScore rest
       (case asRec (Some value) of
          Some o' \<Rightarrow> (case finNum (fld o' (J ''score'')) of
                        Some s \<Rightarrow> Some (case mx of None \<Rightarrow> s | Some m \<Rightarrow> max m s)
                      | None \<Rightarrow> mx)
        | None \<Rightarrow> mx)"

definition readConfidence :: "jsobj \<Rightarrow> rat option" where
  "readConfidence obj =
     (case firstFinite obj [''confidence'', ''score'', ''max_score''] of
        Some v \<Rightarrow> Some v
      | None \<Rightarrow> (case asRec (fld obj (J ''runs'')) of Some runs \<Rightarrow> maxRunScore runs None | None \<Rightarrow> None))"

definition runFlagged :: "jsobj \<Rightarrow> bool" where
  "runFlagged value \<longleftrightarrow>
     fld value (J ''is_injection'') = Some (JBool True) \<or> fld value (J ''positive'') = Some (JBool True) \<or>
     fld value (J ''blocked'') = Some (JBool True) \<or>
     (case finNum (fld value (J ''score'')) of Some s \<Rightarrow> s \<ge> 8 / 10 | None \<Rightarrow> False)"

definition readTriggeredScanners :: "jsobj \<Rightarrow> jsstring list" where
  "readTriggeredScanners obj =
     (let fired = (case asRec (fld obj (J ''runs'')) of
                     Some runs \<Rightarrow> [name. (name, JObj value) \<leftarrow> runs, runFlagged value]
                   | None \<Rightarrow> []) in
      if fired = [] then (case asArr (fld obj (J ''scanners'')) of Some items \<Rightarrow> [s. JStr s \<leftarrow> items] | None \<Rightarrow> [])
      else fired)"

text \<open>\<open>this.interpret(parsed, source)\<close>: the five verdict shapes in the order the code tries them.\<close>

definition interpretVerdict :: "host \<Rightarrow> rat \<Rightarrow> jsval \<Rightarrow> jsstring \<Rightarrow> RunnerError + VigilVerdict" where
  "interpretVerdict h threshold raw source =
     (case asRec (Some raw) of
        None \<Rightarrow> Inl (VigilUnavailableError source (J ''response JSON is not an object''))
      | Some parsed \<Rightarrow>
          let old = (\<lambda>detected. Inr (legacy detected (readConfidence parsed) (readTriggeredScanners parsed) raw)) in
          (case asBool (fld parsed (J ''injection_detected'')) of
             Some b \<Rightarrow> old b
           | None \<Rightarrow>
          (case asRec (fld parsed (J ''results'')) of
             Some scanResults \<Rightarrow>
               (let (level, hits) = combineScannerResults scanResults threshold in
                Inr \<lparr>vv_level = level, vv_injectionDetected = (level = Abort), vv_hits = hits,
                     vv_confidence = readConfidence parsed, vv_triggeredScanners = map vh_scanner hits,
                     vv_raw = raw, vv_endpoint = None\<rparr>)
           | None \<Rightarrow>
          (case asStr (fld parsed (J ''status'')) of
             Some s \<Rightarrow> old (lowerS s \<in> {J ''blocked'', J ''malicious'', J ''detected''})
           | None \<Rightarrow>
          (case Option.bind (asRec (fld parsed (J ''decision''))) (\<lambda>d. asBool (fld d (J ''block''))) of
             Some b \<Rightarrow> old b
           | None \<Rightarrow>
          (case asStr (fld parsed (J ''decision'')) of
             Some d \<Rightarrow> old (lowerS d \<in> {J ''block'', J ''blocked'', J ''malicious'', J ''injection''})
           | None \<Rightarrow>
          (case asStr (fld parsed (J ''verdict'')) of
             Some v \<Rightarrow> old (includesS (lowerS v) (J ''inject'') \<or> includesS (lowerS v) (J ''jailbreak'') \<or>
                            includesS (lowerS v) (J ''malicious''))
           | None \<Rightarrow> Inl (VigilUnavailableError source
                        (J ''unrecognized verdict shape: '' @ sliceS (hStringify h raw) 0 300)))))))))"

section \<open>The client\<close>

record VigilClientOptions =
  vo_timeoutMs :: rat
  vo_maxPayloadBytes :: nat
  vo_retries :: "int option"
  vo_preferredUrl :: "jsstring option"
  vo_transformerThreshold :: "rat option"

record VigilClient =
  vc_url :: jsstring
  vc_timeoutMs :: rat
  vc_maxPayloadBytes :: nat
  vc_retries :: int
  vc_preferredUrl :: "jsstring option"
  vc_transformerThreshold :: rat

definition isHttpUrl :: "jsstring \<Rightarrow> bool" where
  "isHttpUrl url \<longleftrightarrow> startsWith url (J ''http://'') \<or> startsWith url (J ''https://'')"

definition newVigilClient :: "jsstring \<Rightarrow> VigilClientOptions \<Rightarrow> thrown + VigilClient" where
  "newVigilClient url options =
     (let preferred = map_option trimS (vo_preferredUrl options) in
      bindR (guardR (isHttpUrl url)
        (BuiltinError (J ''Error'') (J ''VIGIL_URL must be an absolute http(s) URL, got '' @ quot url))) (\<lambda>_.
      bindR (guardR (case preferred of Some p \<Rightarrow> p = [] \<or> isHttpUrl p | None \<Rightarrow> True)
        (BuiltinError (J ''Error'') (J ''VIGIL_GPU_URL must be an absolute http(s) URL, got '' @ quot (the preferred)))) (\<lambda>_.
      Inr \<lparr>vc_url = url, vc_timeoutMs = vo_timeoutMs options, vc_maxPayloadBytes = vo_maxPayloadBytes options,
           vc_retries = (case vo_retries options of Some r \<Rightarrow> r | None \<Rightarrow> 3),
           vc_preferredUrl = (if preferred = Some [] then None else preferred),
           vc_transformerThreshold =
             (case vo_transformerThreshold options of Some t \<Rightarrow> t | None \<Rightarrow> DEFAULT_TRANSFORMER_THRESHOLD)\<rparr>)))"

definition truncatePayload :: "VigilClient \<Rightarrow> jsstring \<Rightarrow> jsstring" where
  "truncatePayload vc payload =
     (if byteLength payload \<le> vc_maxPayloadBytes vc then payload
      else fromUtf8 (take (vc_maxPayloadBytes vc) (toUtf8 payload)) @ TRUNCATION_MARKER)"

definition vigilRequest :: "host \<Rightarrow> VigilClient \<Rightarrow> jsstring \<Rightarrow> MeshRequestInit" where
  "vigilRequest h vc body =
     \<lparr>rq_method = J ''POST'',
      rq_headers = [(J ''content-type'', J ''application/json''), (J ''accept'', J ''application/json''),
                    (J ''user-agent'', J ''mcp-eval-runner'')],
      rq_body = hStringify h (JObj [(J ''prompt'', JStr body)]),
      rq_timeoutMs = vc_timeoutMs vc\<rparr>"

text \<open>
  What one attempt comes to: a verdict, an error thrown at once, or a message for \<open>lastError\<close> and
  another attempt.
\<close>

datatype attempt = Verdict VigilVerdict | Stop RunnerError | Again jsstring

definition judge :: "host \<Rightarrow> VigilClient \<Rightarrow> jsstring \<Rightarrow> jsstring \<Rightarrow> MeshResponse \<Rightarrow> attempt" where
  "judge h vc url source res =
     (let status = rs_status res in
      if status = 0 \<or> status \<ge> 500 then Again (J ''HTTP '' @ showInt status @ J '' from vigil'')
      else if status = 404 \<or> status = 405 then
        Stop (VigilUnavailableError source (J ''HTTP '' @ showInt status @ J '' '' @ [8212] @
                J '' /analyze not available at '' @ url))
      else if status \<ge> 400 then
        Stop (VigilUnavailableError source (J ''HTTP '' @ showInt status @ J '': '' @ sliceS (rs_text res) 0 300))
      else case resJson h res of
        Inl err \<Rightarrow> Stop (VigilUnavailableError source (J ''response is not JSON: '' @ errorMessage h err @ J '' '' @
                      [8212] @ J '' body: '' @ sliceS (rs_text res) 0 200))
      | Inr parsed \<Rightarrow>
          (case interpretVerdict h (vc_transformerThreshold vc) parsed source of
             Inl e \<Rightarrow> Stop e
           | Inr v \<Rightarrow> Verdict (v\<lparr>vv_endpoint := Some url\<rparr>)))"

text \<open>
  The \<open>for\<close> loop with \<open>n\<close> attempts left. A \<open>VigilUnavailableError\<close> leaves the loop, whoever threw it;
  anything else is remembered.
\<close>

fun attemptLoop :: "host \<Rightarrow> 'w MeshFetch \<Rightarrow> VigilClient \<Rightarrow> jsstring \<Rightarrow> MeshRequestInit \<Rightarrow> jsstring \<Rightarrow> nat \<Rightarrow>
    jsstring \<Rightarrow> 'w \<Rightarrow> (RunnerError + VigilVerdict) \<times> 'w" where
  "attemptLoop h meshFetch vc url request source 0 lastError w =
     (Inl (VigilUnavailableError source (if lastError = [] then J ''no response'' else lastError)), w)"
| "attemptLoop h meshFetch vc url request source (Suc n) lastError w =
     (case meshFetch w url request of
        (Inl err, w') \<Rightarrow>
          (case err of
             Runner (VigilUnavailableError s d) \<Rightarrow> (Inl (VigilUnavailableError s d), w')
           | _ \<Rightarrow> attemptLoop h meshFetch vc url request source n (errorMessage h err) w')
      | (Inr res, w') \<Rightarrow>
          (case judge h vc url source res of
             Verdict v \<Rightarrow> (Inr v, w')
           | Stop e \<Rightarrow> (Inl e, w')
           | Again msg \<Rightarrow> attemptLoop h meshFetch vc url request source n msg w'))"

definition analyzeAt :: "host \<Rightarrow> 'w MeshFetch \<Rightarrow> VigilClient \<Rightarrow> jsstring \<Rightarrow> jsstring \<Rightarrow> jsstring \<Rightarrow> int \<Rightarrow> 'w \<Rightarrow>
    (RunnerError + VigilVerdict) \<times> 'w" where
  "analyzeAt h meshFetch vc url body source retries w =
     attemptLoop h meshFetch vc url (vigilRequest h vc body) source (nat (retries + 1)) [] w"

definition analyze :: "host \<Rightarrow> 'w MeshFetch \<Rightarrow> VigilClient \<Rightarrow> jsstring \<Rightarrow> jsstring \<Rightarrow> 'w \<Rightarrow>
    (RunnerError + VigilVerdict) \<times> 'w" where
  "analyze h meshFetch vc payload source w =
     (let body = truncatePayload vc payload in
      case vc_preferredUrl vc of
        None \<Rightarrow> analyzeAt h meshFetch vc (vc_url vc) body source (vc_retries vc) w
      | Some gpu \<Rightarrow>
          (case analyzeAt h meshFetch vc gpu body source 1 w of
             (Inr v, w') \<Rightarrow> (Inr v, w')
           | (Inl (VigilUnavailableError _ _), w') \<Rightarrow>
               analyzeAt h meshFetch vc (vc_url vc) body source (vc_retries vc) w'
           | (Inl e, w') \<Rightarrow> (Inl e, w')))"

definition excerptOf :: "jsstring \<Rightarrow> nat \<Rightarrow> jsstring" where
  "excerptOf payload mx =
     (let flat = trimS (collapseRuns isWs False payload) in
      if length flat \<le> mx then flat else sliceS flat 0 mx @ [8230])"

section \<open>Combining the scanners: lemmas\<close>

text \<open>What the rule means, without the loop: which entries of the results count.\<close>

definition transformerFires :: "rat \<Rightarrow> jsobj \<Rightarrow> bool" where
  "transformerFires thr results \<longleftrightarrow>
     (\<exists>r ms m. (J ''scanner:transformer'', r) \<in> set results \<and> matchesOf r = Some ms \<and> m \<in> set ms \<and>
        transformerScore thr m \<noteq> None)"

definition corroborated :: "jsobj \<Rightarrow> bool" where
  "corroborated results \<longleftrightarrow>
     (\<exists>name r ms. (name, r) \<in> set results \<and> name \<in> {J ''scanner:yara'', J ''scanner:vectordb''} \<and>
        matchesOf r = Some ms \<and> ms \<noteq> [])"

definition otherMatch :: "jsobj \<Rightarrow> bool" where
  "otherMatch results \<longleftrightarrow>
     (\<exists>name r ms. (name, r) \<in> set results \<and>
        name \<notin> {J ''scanner:sentiment'', J ''scanner:transformer'', J ''scanner:yara'', J ''scanner:vectordb''} \<and>
        matchesOf r = Some ms \<and> ms \<noteq> [])"

lemma bestScore_None: "bestScore thr ms best = None \<longleftrightarrow> best = None \<and> (\<forall>m \<in> set ms. transformerScore thr m = None)"
  by (induction ms arbitrary: best) (auto split: option.splits)

lemma combineStep_spec:
  assumes "combineStep thr (name, r) (hits, t, c) = (hits', t', c')"
  shows "(t' \<longleftrightarrow> t \<or> transformerFires thr [(name, r)]) \<and> (c' \<longleftrightarrow> c \<or> corroborated [(name, r)]) \<and>
     (hits' = [] \<longleftrightarrow> hits = [] \<and> \<not> transformerFires thr [(name, r)] \<and> \<not> corroborated [(name, r)] \<and>
        \<not> otherMatch [(name, r)])"
proof (cases "matchesOf r")
  case None
  with assms show ?thesis
    by (auto simp: combineStep_def transformerFires_def corroborated_def otherMatch_def split: if_splits)
next
  case (Some ms)
  consider (s) "name = J ''scanner:sentiment''" | (t) "name = J ''scanner:transformer''" | (y) "name = J ''scanner:yara''"
    | (v) "name = J ''scanner:vectordb''"
    | (o) "name \<notin> {J ''scanner:sentiment'', J ''scanner:transformer'', J ''scanner:yara'', J ''scanner:vectordb''}" by blast
  then show ?thesis
  proof cases
    case t
    with assms Some bestScore_None [of thr ms None] show ?thesis
      by (cases "bestScore thr ms None")
        (auto simp: combineStep_def transformerFires_def corroborated_def otherMatch_def)
  next
    case v
    with assms Some show ?thesis
      by (cases "ms = []") (auto simp: combineStep_def Let_def transformerFires_def corroborated_def otherMatch_def)
  next
    case o
    with assms Some show ?thesis
      by (cases "ms = []") (auto simp: combineStep_def transformerFires_def corroborated_def otherMatch_def)
  qed (use assms Some in \<open>cases "ms = []"; auto simp: combineStep_def transformerFires_def corroborated_def otherMatch_def\<close>)+
qed

lemma counts_Cons:
  "transformerFires thr (e # rest) \<longleftrightarrow> transformerFires thr [e] \<or> transformerFires thr rest"
  "corroborated (e # rest) \<longleftrightarrow> corroborated [e] \<or> corroborated rest"
  "otherMatch (e # rest) \<longleftrightarrow> otherMatch [e] \<or> otherMatch rest"
  unfolding transformerFires_def corroborated_def otherMatch_def list.set insert_iff empty_iff by blast+

lemma combineLoop_spec:
  "combineLoop thr results (hits, t, c) = (hits', t', c') \<Longrightarrow>
     (t' \<longleftrightarrow> t \<or> transformerFires thr results) \<and> (c' \<longleftrightarrow> c \<or> corroborated results) \<and>
     (hits' = [] \<longleftrightarrow> hits = [] \<and> \<not> transformerFires thr results \<and> \<not> corroborated results \<and> \<not> otherMatch results)"
proof (induction results arbitrary: hits t c)
  case Nil
  then show ?case by (auto simp: transformerFires_def corroborated_def otherMatch_def)
next
  case (Cons e rest)
  obtain name r where e: "e = (name, r)" by force
  obtain h1 t1 c1 where st: "combineStep thr e (hits, t, c) = (h1, t1, c1)" by (metis prod_cases3)
  with Cons.prems have "combineLoop thr rest (h1, t1, c1) = (hits', t', c')" by simp
  from Cons.IH [OF this] combineStep_spec [OF st [unfolded e]] show ?case
    unfolding e counts_Cons(1) [of thr "(name, r)" rest] counts_Cons(2,3) [of "(name, r)" rest] by blast
qed

lemma combine_level:
  "fst (combineScannerResults results thr) =
     (if transformerFires thr results \<and> corroborated results then Abort
      else if transformerFires thr results \<or> corroborated results \<or> otherMatch results then Warn else Clean)"
proof -
  obtain hits t c where r: "combineLoop thr results ([], False, False) = (hits, t, c)" by (metis prod_cases3)
  from combineLoop_spec [OF r] r show ?thesis by (auto simp: combineScannerResults_def)
qed

section \<open>The client: lemmas\<close>

text \<open>A verdict detects exactly when its level is abort.\<close>

definition consistent :: "VigilVerdict \<Rightarrow> bool" where
  "consistent v \<longleftrightarrow> vv_injectionDetected v = (vv_level v = Abort)"

lemma interpretVerdict_cases:
  shows "case interpretVerdict h thr raw source of
     Inl e \<Rightarrow> \<exists>d. e = VigilUnavailableError source d
   | Inr v \<Rightarrow> consistent v \<and> vv_raw v = raw"
proof (cases "asRec (Some raw)")
  case None
  then show ?thesis by (simp add: interpretVerdict_def)
next
  case (Some parsed)
  note defs = interpretVerdict_def legacy_def consistent_def Let_def Some
  show ?thesis
  proof (cases "asBool (fld parsed (J ''injection_detected''))")
    case 1: None
    show ?thesis
    proof (cases "asRec (fld parsed (J ''results''))")
      case 2: None
      show ?thesis
      proof (cases "asStr (fld parsed (J ''status''))")
        case 3: None
        show ?thesis
        proof (cases "Option.bind (asRec (fld parsed (J ''decision''))) (\<lambda>d. asBool (fld d (J ''block'')))")
          case 4: None
          then show ?thesis using 1 2 3 by (simp add: defs split: option.split)
        next
          case (Some b)
          with 1 2 3 show ?thesis by (simp only: defs option.case sum.case) simp
        qed
      next
        case (Some a)
        with 1 2 show ?thesis by (simp add: defs)
      qed
    next
      case (Some results)
      with 1 show ?thesis by (simp add: defs split: prod.split)
    qed
  next
    case (Some b)
    then show ?thesis by (simp add: defs)
  qed
qed

lemma judge_cases:
  "case judge h vc url source res of
     Verdict v \<Rightarrow> consistent v \<and> vv_endpoint v = Some url \<and> hParse h (rs_text res) = Some (vv_raw v) \<and>
       rs_status res \<noteq> 0 \<and> rs_status res < 400
   | Stop e \<Rightarrow> \<exists>d. e = VigilUnavailableError source d
   | Again msg \<Rightarrow> msg \<noteq> []"
proof (cases "rs_status res = 0 \<or> 400 \<le> rs_status res")
  case True
  then show ?thesis by (auto simp: judge_def Let_def)
next
  case False
  show ?thesis
  proof (cases "hParse h (rs_text res)")
    case None
    with False show ?thesis by (simp add: judge_def resJson_def Let_def)
  next
    case (Some parsed)
    with False interpretVerdict_cases [where h = h and thr = "vc_transformerThreshold vc" and raw = parsed and source = source] show ?thesis
      by (cases "interpretVerdict h (vc_transformerThreshold vc) parsed source")
        (auto simp: judge_def resJson_def Let_def consistent_def)
  qed
qed

text \<open>The transport, wrapped to count the requests it is sent.\<close>

definition counted :: "'w MeshFetch \<Rightarrow> (nat \<times> 'w) MeshFetch" where
  "counted f = (\<lambda>(n, w) url req. let (r, w') = f w url req in (r, (Suc n, w')))"

definition notUnavailable :: "thrown \<Rightarrow> bool" where
  "notUnavailable t \<longleftrightarrow> (case t of Runner (VigilUnavailableError _ _) \<Rightarrow> False | _ \<Rightarrow> True)"

text \<open>A transport that throws a \<open>VigilUnavailableError\<close> for some other source would be passed on as it is.\<close>

lemma attemptLoop_result:
  assumes "attemptLoop h f vc url req source n lastError w = (r, w')"
  shows "case r of
      Inl e \<Rightarrow> \<exists>s d. e = VigilUnavailableError s d \<and>
        ((\<forall>w u q t w'. f w u q = (Inl t, w') \<longrightarrow> notUnavailable t) \<longrightarrow> s = source)
    | Inr v \<Rightarrow> consistent v \<and> vv_endpoint v = Some url \<and>
        (\<exists>w1 w2 res. f w1 url req = (Inr res, w2) \<and> hParse h (rs_text res) = Some (vv_raw v) \<and>
           rs_status res \<noteq> 0 \<and> rs_status res < 400)"
  using assms
proof (induction n arbitrary: lastError w)
  case 0
  then show ?case by auto
next
  case (Suc n)
  obtain x w1 where f: "f w url req = (x, w1)" by force
  show ?case
  proof (cases x)
    case (Inl t)
    note fl = f [unfolded Inl]
    show ?thesis
    proof (cases "notUnavailable t")
      case True
      then have "attemptLoop h f vc url req source (Suc n) lastError w =
          attemptLoop h f vc url req source n (errorMessage h t) w1"
        using fl by (auto simp: notUnavailable_def split: thrown.splits RunnerError.splits)
      with Suc show ?thesis by metis
    next
      case False
      then obtain s d where t: "t = Runner (VigilUnavailableError s d)"
        by (auto simp: notUnavailable_def split: thrown.splits RunnerError.splits)
      with Suc.prems fl have "r = Inl (VigilUnavailableError s d)" by simp
      with fl False show ?thesis by (auto; blast)
    qed
  next
    case (Inr res)
    note fr = f [unfolded Inr]
    show ?thesis
    proof (cases "judge h vc url source res")
      case (Again msg)
      with Suc fr show ?thesis by simp
    next
      case (Verdict v)
      with Suc.prems fr judge_cases [where h = h and vc = vc and url = url and source = source and res = res]
      show ?thesis by (auto; blast)
    next
      case (Stop e)
      with Suc.prems fr judge_cases [where h = h and vc = vc and url = url and source = source and res = res] show ?thesis by auto
    qed
  qed
qed

lemma attemptLoop_counted:
  "attemptLoop h (counted f) vc url req source n lastError (k, w) = (r, (k', w')) \<Longrightarrow> k' \<le> k + n"
proof (induction n arbitrary: lastError k w)
  case (Suc n)
  obtain x w1 where f: "f w url req = (x, w1)" by force
  then have c: "counted f (k, w) url req = (x, (Suc k, w1))" by (simp add: counted_def)
  show ?case
    using Suc.prems Suc.IH [of _ "Suc k" w1] c
    by (auto split: sum.splits thrown.splits RunnerError.splits attempt.splits)
qed simp

text \<open>The verdict shapes the client knows.\<close>

definition recognised :: "jsobj \<Rightarrow> bool" where
  "recognised parsed \<longleftrightarrow>
     asBool (fld parsed (J ''injection_detected'')) \<noteq> None \<or> asRec (fld parsed (J ''results'')) \<noteq> None \<or>
     asStr (fld parsed (J ''status'')) \<noteq> None \<or>
     Option.bind (asRec (fld parsed (J ''decision''))) (\<lambda>d. asBool (fld d (J ''block''))) \<noteq> None \<or>
     asStr (fld parsed (J ''decision'')) \<noteq> None \<or> asStr (fld parsed (J ''verdict'')) \<noteq> None"

lemma interpretVerdict_returns:
  "(\<exists>v. interpretVerdict h thr raw source = Inr v) \<longleftrightarrow> (\<exists>parsed. raw = JObj parsed \<and> recognised parsed)"
proof (cases raw)
  case (JObj parsed)
  show ?thesis
    unfolding JObj interpretVerdict_def recognised_def Let_def asRec.simps option.case
    by (cases "asBool (fld parsed (J ''injection_detected''))"; (simp only: option.case; fail)?;
        cases "asRec (fld parsed (J ''results''))"; cases "asStr (fld parsed (J ''status''))";
        cases "Option.bind (asRec (fld parsed (J ''decision''))) (\<lambda>d. asBool (fld d (J ''block'')))";
        cases "asStr (fld parsed (J ''decision''))"; cases "asStr (fld parsed (J ''verdict''))";
        simp only: option.case jsval.inject option.distinct option.inject) (auto split: prod.splits)
qed (simp_all add: interpretVerdict_def)

lemma analyze_result:
  assumes "analyze h f vc payload source w = (r, w')"
  shows "case r of
      Inl e \<Rightarrow> \<exists>s d. e = VigilUnavailableError s d \<and>
        ((\<forall>w u q t w'. f w u q = (Inl t, w') \<longrightarrow> notUnavailable t) \<longrightarrow> s = source)
    | Inr v \<Rightarrow> consistent v \<and>
        (\<exists>url. vv_endpoint v = Some url \<and> (url = vc_url vc \<or> vc_preferredUrl vc = Some url) \<and>
         (\<exists>w1 w2 res. f w1 url (vigilRequest h vc (truncatePayload vc payload)) = (Inr res, w2) \<and>
           hParse h (rs_text res) = Some (vv_raw v) \<and> rs_status res \<noteq> 0 \<and> rs_status res < 400))"
proof -
  let ?req = "vigilRequest h vc (truncatePayload vc payload)"
  let ?run = "\<lambda>url n w. attemptLoop h f vc url ?req source n [] w"
  note res = attemptLoop_result [where h = h and f = f and vc = vc and req = ?req and source = source and lastError = "[]"]
  show ?thesis
  proof (cases "vc_preferredUrl vc")
    case None
    with assms have "?run (vc_url vc) (nat (vc_retries vc + 1)) w = (r, w')"
      by (simp add: analyze_def analyzeAt_def Let_def)
    from res [OF this] show ?thesis by (auto split: sum.splits)
  next
    case (Some gpu)
    obtain r1 w1 where g: "?run gpu 2 w = (r1, w1)" by force
    note g1 = res [OF g]
    show ?thesis
    proof (cases r1)
      case (Inr v)
      with assms Some g have "r = Inr v" by (simp add: analyze_def analyzeAt_def Let_def)
      with g1 Inr Some show ?thesis by auto
    next
      case (Inl e)
      with g1 obtain s d where "e = VigilUnavailableError s d" by auto
      with assms Some g Inl have "?run (vc_url vc) (nat (vc_retries vc + 1)) w1 = (r, w')"
        by (simp add: analyze_def analyzeAt_def Let_def)
      from res [OF this] show ?thesis by (auto split: sum.splits)
    qed
  qed
qed

lemma analyze_counted:
  assumes "analyze h (counted f) vc payload source (0, w) = (r, (k, w'))"
  shows "k \<le> (if vc_preferredUrl vc = None then 0 else 2) + nat (vc_retries vc + 1)"
proof -
  let ?run = "\<lambda>url n w. attemptLoop h (counted f) vc url (vigilRequest h vc (truncatePayload vc payload)) source n [] w"
  show ?thesis
  proof (cases "vc_preferredUrl vc")
    case None
    with assms have "?run (vc_url vc) (nat (vc_retries vc + 1)) (0, w) = (r, (k, w'))"
      by (simp add: analyze_def analyzeAt_def Let_def)
    from attemptLoop_counted [OF this] None show ?thesis by simp
  next
    case (Some gpu)
    obtain r1 k1 w1 where g: "?run gpu 2 (0, w) = (r1, (k1, w1))" by (metis prod_cases3)
    from attemptLoop_counted [OF g] have k1: "k1 \<le> 2" by simp
    from assms Some g have "(r, (k, w')) = (r1, (k1, w1)) \<or>
        ?run (vc_url vc) (nat (vc_retries vc + 1)) (k1, w1) = (r, (k, w'))"
      by (auto simp: analyze_def analyzeAt_def Let_def split: sum.splits RunnerError.splits)
    with attemptLoop_counted k1 Some show ?thesis by fastforce
  qed
qed

text \<open>A client and a transport for concrete runs: the scanner answers 503 once, then finds nothing.\<close>

definition sampleClient :: VigilClient where
  "sampleClient = \<lparr>vc_url = J ''http://vigil'', vc_timeoutMs = 10000, vc_maxPayloadBytes = 65536, vc_retries = 3,
     vc_preferredUrl = None, vc_transformerThreshold = DEFAULT_TRANSFORMER_THRESHOLD\<rparr>"

definition sampleAnswer :: jsval where
  "sampleAnswer = JObj [(J ''injection_detected'', JBool False)]"

definition sampleFetch :: "nat MeshFetch" where
  "sampleFetch n url req =
     (Inr (if n = 0 then \<lparr>rs_status = 503, rs_text = []\<rparr> else \<lparr>rs_status = 200, rs_text = J ''ok''\<rparr>), n + 1)"

definition sampleScanHost :: host where
  "sampleScanHost = sampleHost [(J ''ok'', sampleAnswer)]"

lemma sample_verdict:
  "interpretVerdict h thr sampleAnswer source = Inr (legacy False None [] sampleAnswer)"
  by (simp add: interpretVerdict_def sampleAnswer_def Let_def readConfidence_def readTriggeredScanners_def
      finNum_def)

lemma sample_attempts:
  "attemptLoop sampleScanHost (counted sampleFetch) sampleClient url req source 4 [] (0, 0) =
     (Inr ((legacy False None [] sampleAnswer)\<lparr>vv_endpoint := Some url\<rparr>), (2, 2))"
  "attemptLoop sampleScanHost sampleFetch sampleClient url req source 4 [] 0 =
     (Inr ((legacy False None [] sampleAnswer)\<lparr>vv_endpoint := Some url\<rparr>), 2)"
  by (simp_all add: eval_nat_numeral(2,3) counted_def sampleFetch_def judge_def Let_def resJson_def sampleScanHost_def
      sampleHost_def sample_verdict)

section \<open>Properties\<close>


text \<open>
  The verdict level does not depend on the order in which Vigil lists its scanners.
\<close>

theorem scanner_order_irrelevant:
  assumes "set results = set results'"
  shows "fst (combineScannerResults results thr) = fst (combineScannerResults results' thr)"
  unfolding combine_level transformerFires_def corroborated_def otherMatch_def assms by (rule refl)

theorem scanner_order_irrelevant_witness:
  "fst (combineScannerResults [(J ''scanner:yara'', JNull), (J ''scanner:transformer'', JNull)] 1) =
   fst (combineScannerResults [(J ''scanner:transformer'', JNull), (J ''scanner:yara'', JNull)] 1)"
  by (rule scanner_order_irrelevant) auto

text \<open>
  An answer the client does not understand is never clean: a verdict is returned exactly for an
  object of one of the known shapes; everything else is a \<open>VigilUnavailableError\<close> for that source. A
  verdict detects an injection exactly when its level is abort, and keeps the answer.
\<close>

theorem unknown_answer_is_outage:
  "((\<exists>v. interpretVerdict h thr raw source = Inr v) \<longleftrightarrow> (\<exists>parsed. raw = JObj parsed \<and> recognised parsed)) \<and>
   (case interpretVerdict h thr raw source of
      Inl e \<Rightarrow> \<exists>d. e = VigilUnavailableError source d
    | Inr v \<Rightarrow> vv_injectionDetected v = (vv_level v = Abort) \<and> vv_raw v = raw)"
  using interpretVerdict_returns interpretVerdict_cases [where h = h and thr = thr and raw = raw and source = source]
  unfolding consistent_def by blast

text \<open>
  C12. Whatever the transport does, a scan ends in a verdict or in a \<open>VigilUnavailableError\<close>; a verdict
  was read from an answer with a status below 400 that the endpoint it names gave to exactly this
  request, and the error is about this source unless the transport itself throws such errors.
\<close>

theorem scan_outcome:
  assumes "analyze h meshFetch vc payload source w = (r, w')"
  shows "case r of
      Inl e \<Rightarrow> \<exists>s d. e = VigilUnavailableError s d \<and>
        ((\<forall>w u q t w'. meshFetch w u q = (Inl t, w') \<longrightarrow> notUnavailable t) \<longrightarrow> s = source)
    | Inr v \<Rightarrow> consistent v \<and>
        (\<exists>url. vv_endpoint v = Some url \<and> (url = vc_url vc \<or> vc_preferredUrl vc = Some url) \<and>
         (\<exists>w1 w2 res. meshFetch w1 url (vigilRequest h vc (truncatePayload vc payload)) = (Inr res, w2) \<and>
           hParse h (rs_text res) = Some (vv_raw v) \<and> rs_status res \<noteq> 0 \<and> rs_status res < 400))"
  using assms by (rule analyze_result)

theorem scan_outcome_witness:
  "\<exists>v w'. analyze sampleScanHost sampleFetch sampleClient (J ''hi'') (J ''src'') 0 = (Inr v, w') \<and> consistent v \<and>
     (\<exists>w1 w2 res. sampleFetch w1 (J ''http://vigil'')
        (vigilRequest sampleScanHost sampleClient (truncatePayload sampleClient (J ''hi''))) = (Inr res, w2) \<and>
        hParse sampleScanHost (rs_text res) = Some (vv_raw v) \<and> rs_status res \<noteq> 0 \<and> rs_status res < 400)"
proof -
  let ?v = "(legacy False None [] sampleAnswer)\<lparr>vv_endpoint := Some (J ''http://vigil'')\<rparr>"
  have "analyze sampleScanHost sampleFetch sampleClient (J ''hi'') (J ''src'') 0 = (Inr ?v, 2)"
    using sample_attempts(2) by (simp add: analyze_def analyzeAt_def sampleClient_def Let_def)
  with scan_outcome [OF this] show ?thesis by (auto simp: sampleClient_def; blast)
qed

text \<open>
  A scan sends a bounded number of requests: the configured retries and one, and two more when a
  GPU scanner is configured, whatever the transport answers.
\<close>

theorem scan_requests_bounded:
  assumes "analyze h (counted meshFetch) vc payload source (0, w) = (r, (k, w'))"
  shows "k \<le> (if vc_preferredUrl vc = None then 0 else 2) + nat (vc_retries vc + 1)"
  using assms by (rule analyze_counted)

theorem scan_requests_bounded_witness:
  "\<exists>r k w'. analyze sampleScanHost (counted sampleFetch) sampleClient (J ''hi'') (J ''src'') (0, 0) = (r, (k, w')) \<and>
     k = 2 \<and> k \<le> 4"
proof -
  have run: "analyze sampleScanHost (counted sampleFetch) sampleClient (J ''hi'') (J ''src'') (0, 0) =
      (Inr ((legacy False None [] sampleAnswer)\<lparr>vv_endpoint := Some (J ''http://vigil'')\<rparr>), (2, 2))"
    using sample_attempts(1) by (simp add: analyze_def analyzeAt_def sampleClient_def Let_def)
  from scan_requests_bounded [OF this] run show ?thesis by (simp add: sampleClient_def)
qed

text \<open>
  A unit of a gate reaches the scanner unaltered: when the payload limit is at least 1500 bytes
  (the default is 65536) no scan unit is truncated. A truncated payload exceeds the limit by at most
  the marker and two bytes.
\<close>

theorem scan_units_not_truncated:
  assumes "1500 \<le> vc_maxPayloadBytes vc" "u \<in> set (scanUnitsD segs)"
  shows "truncatePayload vc (seg_text u) = seg_text u \<and>
    byteLength (truncatePayload vc payload) \<le> vc_maxPayloadBytes vc + 2 + byteLength TRUNCATION_MARKER"
proof -
  have "byteLength (seg_text u) \<le> 1500"
    using byteLength_le [of "seg_text u"] scanUnitsD_spec(3) [OF assms(2)] by linarith
  then have "truncatePayload vc (seg_text u) = seg_text u" using assms(1) by (simp add: truncatePayload_def)
  moreover have "byteLength (fromUtf8 (take m (toUtf8 payload))) \<le> m + 2" for m
    using fromUtf8_cut [of payload m] by auto
  then have "byteLength (truncatePayload vc payload) \<le> vc_maxPayloadBytes vc + 2 + byteLength TRUNCATION_MARKER"
    by (simp add: truncatePayload_def byteLength_append TRUNCATION_MARKER_def isLowU_def)
  ultimately show ?thesis by blast
qed

theorem scan_units_not_truncated_witness:
  "\<exists>u \<in> set (scanUnitsD [\<lparr>seg_label = [], seg_text = J ''obey''\<rparr>]).
     truncatePayload sampleClient (seg_text u) = seg_text u"
proof -
  have "\<exists>u \<in> set (scanUnitsD [\<lparr>seg_label = [], seg_text = J ''obey''\<rparr>]). sublist (J ''obey'') (seg_text u)"
    by (rule scanUnitsD_covers) (auto simp: blankS_iff J_def isWs_def word_le_nat_alt)
  then show ?thesis
    using scan_units_not_truncated [of sampleClient] by (auto simp: sampleClient_def)
qed

end
