(* ===== verification/Config.thy ===== *)
theory Config
  imports Vigil
begin

text \<open>
  The first part of \<^verbatim>\<open>src/runner/src/evaluator.ts\<close> and \<^verbatim>\<open>src/runner/src/providers.ts\<close>: how the evaluator
  reads its environment, what kind of persona an agent is, and the configuration each OpenCode
  server is booted with.
\<close>

section \<open>Numbers in text\<close>

text \<open>The double nearest to a rational: from halfway beyond the largest finite one it is an infinity.\<close>

definition OVERFLOW :: rat where "OVERFLOW = 2 ^ 1024 - 2 ^ 970"

definition toDouble :: "rat \<Rightarrow> jsnum" where
  "toDouble q = (if OVERFLOW \<le> q then PosInf else if q \<le> - OVERFLOW then NegInf else Fin q)"

definition isDig :: "jschar \<Rightarrow> bool" where "isDig c \<longleftrightarrow> 48 \<le> c \<and> c \<le> 57"

text \<open>A sign, if there is one: whether it is a minus, and the rest.\<close>

definition signOf :: "jsstring \<Rightarrow> bool \<times> jsstring" where
  "signOf s = (case s of c # t \<Rightarrow> if c = 45 then (True, t) else if c = 43 then (False, t) else (False, s) | [] \<Rightarrow> (False, []))"

definition signed :: "bool \<Rightarrow> rat \<Rightarrow> rat" where
  "signed neg q = (if neg then - q else q)"

text \<open>\<open>Number.parseInt(s, 10)\<close>: white space, a sign, and the longest run of digits.\<close>

definition parseInt10 :: "jsstring \<Rightarrow> jsnum" where
  "parseInt10 s =
     (case signOf (dropWhile isWs s) of (neg, t) \<Rightarrow>
        let ds = takeWhile isDig t in
        if ds = [] then NaN else toDouble (signed neg (of_nat (digitsVal ds 0))))"

text \<open>An unsigned decimal literal with an optional fraction and exponent.\<close>

definition scaled :: "rat \<Rightarrow> bool \<Rightarrow> nat \<Rightarrow> rat" where
  "scaled m neg e = (if neg then m / 10 ^ e else m * 10 ^ e)"

definition unsignedDecimal :: "jsstring \<Rightarrow> rat option" where
  "unsignedDecimal s =
     (let ip = takeWhile isDig s; r = dropWhile isDig s;
          (fp, r') = (case r of c # t \<Rightarrow> if c = 46 then (takeWhile isDig t, dropWhile isDig t) else ([], r) | [] \<Rightarrow> ([], []));
          m = of_nat (digitsVal (ip @ fp) 0) / 10 ^ length fp in
      if ip = [] \<and> fp = [] then None
      else case r' of
        [] \<Rightarrow> Some m
      | c # t \<Rightarrow>
          if c = 101 \<or> c = 69 then
            (case signOf t of (neg, ds) \<Rightarrow> if ds \<noteq> [] \<and> list_all isDig ds then Some (scaled m neg (digitsVal ds 0)) else None)
          else None)"

definition digitIn :: "nat \<Rightarrow> jschar \<Rightarrow> nat option" where
  "digitIn base c =
     (let v = (if isDig c then unat c - 48 else if 97 \<le> c \<and> c \<le> 102 then unat c - 87
               else if 65 \<le> c \<and> c \<le> 70 then unat c - 55 else base) in
      if v < base then Some v else None)"

fun radixVal :: "nat \<Rightarrow> jsstring \<Rightarrow> nat \<Rightarrow> nat option" where
  "radixVal base [] acc = Some acc"
| "radixVal base (c # s) acc = Option.bind (digitIn base c) (\<lambda>d. radixVal base s (base * acc + d))"

definition radixPrefix :: "jsstring \<Rightarrow> nat option" where
  "radixPrefix s =
     (case take 2 (lowerS s) of
        [a, b] \<Rightarrow> if a = 48 \<and> b = 120 then Some 16 else if a = 48 \<and> b = 111 then Some 8
                  else if a = 48 \<and> b = 98 then Some 2 else None
      | _ \<Rightarrow> None)"

text \<open>\<open>Number(s)\<close> of a trimmed string.\<close>

definition jsNumber :: "jsstring \<Rightarrow> jsnum" where
  "jsNumber s =
     (if s = [] then Fin 0
      else case radixPrefix s of
        Some base \<Rightarrow>
          (case (drop 2 s, radixVal base (drop 2 s) 0) of
             (_ # _, Some n) \<Rightarrow> toDouble (of_nat n)
           | _ \<Rightarrow> NaN)
      | None \<Rightarrow>
          (case signOf s of (neg, t) \<Rightarrow>
             if t = J ''Infinity'' then (if neg then NegInf else PosInf)
             else case unsignedDecimal t of Some q \<Rightarrow> toDouble (signed neg q) | None \<Rightarrow> NaN))"

section \<open>The environment\<close>

type_synonym environ = "(jsstring \<times> jsstring) list"

definition envStr :: "environ \<Rightarrow> string \<Rightarrow> jsstring option" where
  "envStr env key = (case fld env (J key) of Some s \<Rightarrow> if s = [] then None else Some s | None \<Rightarrow> None)"

definition envOr :: "environ \<Rightarrow> string \<Rightarrow> string \<Rightarrow> jsstring" where
  "envOr env key fallback = (case fld env (J key) of Some s \<Rightarrow> s | None \<Rightarrow> J fallback)"

definition isDryRun :: "environ \<Rightarrow> bool" where
  "isDryRun env \<longleftrightarrow> fld env (J ''DRY_RUN'') = Some (J ''1'') \<or> fld env (J ''DRY_RUN'') = Some (J ''true'')"

definition required :: "environ \<Rightarrow> string \<Rightarrow> RunnerError + jsstring" where
  "required env key =
     (case envStr env key of
        Some v \<Rightarrow> Inr v
      | None \<Rightarrow>
          if isDryRun env then Inr (J ''dry-run-'' @ lowerS (J key))
          else Inl (ConfigurationError (J ''required environment variable '' @ J key @ J '' is not set'')))"

definition optionalInt :: "environ \<Rightarrow> string \<Rightarrow> int \<Rightarrow> RunnerError + int" where
  "optionalInt env key fallback =
     (case envStr env key of
        None \<Rightarrow> Inr fallback
      | Some raw \<Rightarrow>
          (case parseInt10 raw of
             Fin q \<Rightarrow>
               if q \<le> 0 then Inl (ConfigurationError (J ''environment variable '' @ J key @
                                    J '' must be a positive integer, got '' @ quot raw))
               else Inr \<lfloor>q\<rfloor>
           | _ \<Rightarrow> Inl (ConfigurationError (J ''environment variable '' @ J key @
                         J '' must be a positive integer, got '' @ quot raw))))"

definition optionalFraction :: "environ \<Rightarrow> string \<Rightarrow> rat \<Rightarrow> RunnerError + rat" where
  "optionalFraction env key fallback =
     (case envStr env key of
        None \<Rightarrow> Inr fallback
      | Some raw \<Rightarrow>
          (case jsNumber (trimS raw) of
             Fin q \<Rightarrow>
               if q \<le> 0 \<or> 1 < q then Inl (ConfigurationError (J ''environment variable '' @ J key @
                                             J '' must be a number in (0, 1], got '' @ quot raw))
               else Inr q
           | _ \<Rightarrow> Inl (ConfigurationError (J ''environment variable '' @ J key @
                         J '' must be a number in (0, 1], got '' @ quot raw))))"

definition flag :: "environ \<Rightarrow> string \<Rightarrow> bool \<Rightarrow> bool" where
  "flag env key fallback =
     (case envStr env key of
        None \<Rightarrow> fallback
      | Some raw \<Rightarrow>
          let normalized = lowerS (trimS raw) in
          normalized \<noteq> J ''0'' \<and> normalized \<noteq> J ''false'' \<and> normalized \<noteq> J ''no'')"

definition transportOf :: "environ \<Rightarrow> RunnerError + Transport" where
  "transportOf env =
     (let rawTransport = envOr env ''TRANSPORT'' ''stdio'' in
      if rawTransport = J ''stdio'' then Inr Stdio
      else if rawTransport = J ''sse'' then Inr Sse
      else Inl (ConfigurationError (J ''TRANSPORT must be '' @ quot (J ''stdio'') @ J '' or '' @ quot (J ''sse'') @
                  J '', got '' @ quot rawTransport)))"

definition agentNamesOf :: "jsstring \<Rightarrow> RunnerError + jsstring list" where
  "agentNamesOf raw =
     (let agentNames = filter (\<lambda>s. length s > 0) (map trimS (splitS raw (J '',''))) in
      if agentNames = [] then Inl (ConfigurationError (J ''AGENT_NAMES must list at least one OpenCodeAgent''))
      else Inr agentNames)"

definition enforceOf :: "environ \<Rightarrow> RunnerError + bool" where
  "enforceOf env =
     (let rawEnforce = lowerS (trimS (envOr env ''VIGIL_ENFORCE'' ''strict'')) in
      if rawEnforce = J ''strict'' then Inr True
      else if rawEnforce = J ''monitor'' then Inr False
      else Inl (ConfigurationError (J ''VIGIL_ENFORCE must be '' @ quot (J ''strict'') @ J '' or '' @
                  quot (J ''monitor'') @ J '', got '' @ quot rawEnforce)))"

definition meshProxyOf :: "environ \<Rightarrow> jsstring option" where
  "meshProxyOf env =
     (case fld env (J ''MESH_PROXY'') of
        None \<Rightarrow> Some (J ''socks5://127.0.0.1:1080'')
      | Some raw \<Rightarrow> if trimS raw = [] then None else Some (trimS raw))"

definition gpuUrlOf :: "environ \<Rightarrow> jsstring option" where
  "gpuUrlOf env =
     (case map_option trimS (fld env (J ''VIGIL_GPU_URL'')) of
        Some u \<Rightarrow> if u = [] then None else Some u
      | None \<Rightarrow> None)"

definition hasApiKey :: "environ \<Rightarrow> bool" where
  "hasApiKey env \<longleftrightarrow> envStr env ''OPENCODE_API_KEY'' \<noteq> None \<or> envStr env ''ANTHROPIC_API_KEY'' \<noteq> None"

definition readEnv :: "environ \<Rightarrow> RunnerError + RunnerEnv" where
  "readEnv env =
     bindR (guardR (isDryRun env \<or> hasApiKey env) (ConfigurationError
       (J ''either OPENCODE_API_KEY (OpenCode Zen) or ANTHROPIC_API_KEY must be set''))) (\<lambda>_.
     bindR (transportOf env) (\<lambda>transport.
     bindR (required env ''AGENT_NAMES'') (\<lambda>rawNames.
     bindR (agentNamesOf rawNames) (\<lambda>agentNames.
     bindR (enforceOf env) (\<lambda>enforce.
     bindR (required env ''RUN_NAME'') (\<lambda>runName.
     bindR (required env ''RUN_NAMESPACE'') (\<lambda>runNamespace.
     bindR (required env ''SERVER_NAME'') (\<lambda>serverName.
     bindR (optionalInt env ''TARGET_PORT'' 8080) (\<lambda>targetPort.
     bindR (optionalInt env ''OPENCODE_PORT'' 4096) (\<lambda>opencodePort.
     bindR (optionalInt env ''VIGIL_TIMEOUT_MS'' 10000) (\<lambda>vigilTimeoutMs.
     bindR (optionalInt env ''VIGIL_MAX_PAYLOAD_BYTES'' 65536) (\<lambda>vigilMaxPayloadBytes.
     bindR (optionalFraction env ''VIGIL_TRANSFORMER_THRESHOLD'' DEFAULT_TRANSFORMER_THRESHOLD) (\<lambda>threshold.
     bindR (optionalInt env ''MESH_BRIDGE_PORT'' 18080) (\<lambda>meshBridgePort.
     bindR (optionalInt env ''MESH_READY_TIMEOUT_MS'' 60000) (\<lambda>meshReadyTimeoutMs.
     Inr \<lparr>re_runName = runName, re_runNamespace = runNamespace, re_serverName = serverName, re_agentNames = agentNames,
          re_transport = transport, re_targetPort = targetPort,
          re_workspaceDir = envOr env ''WORKSPACE_DIR'' ''/workspace'', re_ipcDir = envOr env ''IPC_DIR'' ''/ipc'',
          re_outputDir = envOr env ''OUTPUT_DIR'' ''/output'', re_opencodePort = opencodePort, re_dryRun = isDryRun env,
          re_vigilUrl = envOr env ''VIGIL_URL'' ''http://vigil-service.security-gateways.svc.cluster.local:5000/analyze/prompt'',
          re_vigilGpuUrl = gpuUrlOf env,
          re_vigilEnabled = flag env ''VIGIL_ENABLED'' (\<not> isDryRun env), re_vigilEnforce = enforce,
          re_vigilTimeoutMs = vigilTimeoutMs, re_vigilMaxPayloadBytes = vigilMaxPayloadBytes,
          re_vigilTransformerThreshold = threshold,
          re_occludraBaseUrl = envOr env ''OCCLUDRA_BASE_URL'' ''http://occludra-service.security-gateways.svc.cluster.local:8080/v1'',
          re_occludraEnabled = flag env ''OCCLUDRA_ENABLED'' True,
          re_meshProxyUrl = meshProxyOf env, re_meshBridgePort = meshBridgePort,
          re_meshReadyTimeoutMs = meshReadyTimeoutMs\<rparr>)))))))))))))))"

section \<open>Personas\<close>

definition classifyAgent :: "OpenCodeAgent \<Rightarrow> AgentKind" where
  "classifyAgent agent =
     (let role = lowerS (as_role (oa_spec agent)); name = lowerS (om_name (oa_metadata agent));
          haystack = role @ J '' '' @ name; has = (\<lambda>w. includesS haystack (J w)) in
      if role = J ''staticsecurityauditor'' then KStatic
      else if role = J ''dynamicprotocolfuzzer'' then KDynamic
      else if role = J ''roguebehaviorprobe'' then KAdversarial
      else if role = J ''synthesisscorer'' then KSynthesis
      else if has ''sast'' \<or> has ''static'' then KStatic
      else if has ''fuzz'' \<or> has ''dynamic'' \<or> has ''dast'' then KDynamic
      else if has ''rogue'' \<or> has ''adversar'' \<or> has ''inject'' then KAdversarial
      else if has ''synth'' \<or> has ''scor'' then KSynthesis
      else KGeneric)"

definition CATALOG_PROVIDERS :: "jsstring list" where
  "CATALOG_PROVIDERS = [J ''opencode'', J ''anthropic'']"

definition isCustomProvider :: "jsstring \<Rightarrow> bool" where
  "isCustomProvider providerID \<longleftrightarrow> providerID \<notin> set CATALOG_PROVIDERS"

definition toolsForKind :: "bool \<Rightarrow> (jsstring \<times> bool) list" where
  "toolsForKind freeTierGate =
     [(J ''bash'', freeTierGate), (J ''read'', freeTierGate), (J ''edit'', False), (J ''write'', False),
      (J ''patch'', False), (J ''glob'', False), (J ''grep'', False), (J ''list'', False), (J ''webfetch'', False),
      (J ''websearch'', False), (J ''task'', False), (J ''todowrite'', False), (J ''skill'', False)]"

definition CUSTOM_MODEL_CONTEXT :: int where "CUSTOM_MODEL_CONTEXT = 128000"
definition CUSTOM_MODEL_OUTPUT :: int where "CUSTOM_MODEL_OUTPUT = 8192"

definition customModelLimit :: "int option \<Rightarrow> int \<times> int" where
  "customModelLimit contextTokens =
     (let context = (case contextTokens of Some t \<Rightarrow> t | None \<Rightarrow> CUSTOM_MODEL_CONTEXT) in
      (context, min CUSTOM_MODEL_OUTPUT \<lfloor>of_int context / (4 :: rat)\<rfloor>))"

section \<open>The OpenCode server\<close>

text \<open>
  The configuration object of \<open>bootOpencode\<close>. \<open>headers\<close> is what \<open>requestTraceHeaders\<close> returns: the
  tracing library fills it.
\<close>

definition providerConfig :: "(jsstring \<times> jsstring) list \<Rightarrow> OpenCodeAgentModel \<Rightarrow> RunnerEnv \<Rightarrow> jsval" where
  "providerConfig headers model env =
     (let providerID = am_providerID model; modelID = am_modelID model; base = (J ''baseURL'', JStr (re_occludraBaseUrl env));
          hs = (J ''headers'', JObj (map (\<lambda>(k, v). (k, JStr v)) headers)) in
      if isCustomProvider providerID then
        JObj [(J ''npm'', JStr (J ''@ai-sdk/openai-compatible'')),
              (J ''name'', JStr providerID),
              (J ''options'', JObj [base, (J ''apiKey'', JStr (J ''egress-via-occludra'')), hs]),
              (J ''models'', JObj [(modelID, JObj
                 [(J ''name'', JStr modelID), (J ''tool_call'', JBool False),
                  (J ''limit'', case customModelLimit (am_contextTokens model) of (context, output) \<Rightarrow>
                     JObj [(J ''context'', JNum (Fin (of_int context))), (J ''output'', JNum (Fin (of_int output)))])])])]
      else JObj [(J ''options'', JObj [base, hs])])"

definition modelRef :: "OpenCodeAgent \<Rightarrow> jsstring" where
  "modelRef agent = am_providerID (as_model (oa_spec agent)) @ J ''/'' @ am_modelID (as_model (oa_spec agent))"

definition opencodeConfig :: "(jsstring \<times> jsstring) list \<Rightarrow> OpenCodeAgent \<Rightarrow> RunnerEnv \<Rightarrow> jsval" where
  "opencodeConfig headers agent env =
     JObj ([(J ''model'', JStr (modelRef agent)), (J ''permission'', JStr (J ''deny'')), (J ''autoupdate'', JBool False),
            (J ''share'', JStr (J ''disabled'')), (J ''snapshot'', JBool False)] @
       (if re_occludraEnabled env
        then [(J ''provider'', JObj [(am_providerID (as_model (oa_spec agent)),
                 providerConfig headers (as_model (oa_spec agent)) env)])]
        else []))"

section \<open>Lemmas\<close>

text \<open>What the rest of the evaluator may take for granted of its configuration.\<close>

definition wfEnv :: "RunnerEnv \<Rightarrow> bool" where
  "wfEnv env \<longleftrightarrow>
     re_runName env \<noteq> [] \<and> re_runNamespace env \<noteq> [] \<and> re_serverName env \<noteq> [] \<and>
     re_agentNames env \<noteq> [] \<and> (\<forall>n \<in> set (re_agentNames env). n \<noteq> [] \<and> trimS n = n) \<and>
     0 < re_targetPort env \<and> 0 < re_opencodePort env \<and> 0 < re_vigilTimeoutMs env \<and> 0 < re_vigilMaxPayloadBytes env \<and>
     0 < re_vigilTransformerThreshold env \<and> re_vigilTransformerThreshold env \<le> 1 \<and>
     0 < re_meshBridgePort env \<and> 0 < re_meshReadyTimeoutMs env \<and>
     re_meshProxyUrl env \<noteq> Some [] \<and> re_vigilGpuUrl env \<noteq> Some []"

lemma trimS_idem [simp]: "trimS (trimS s) = trimS s"
proof -
  let ?a = "dropWhile isWs s"
  have "suffix (dropWhile isWs (rev ?a)) (rev ?a)" by (rule suffix_dropWhile)
  then obtain t where t: "?a = trimS s @ t" by (auto simp: suffix_def trimS_def rev_swap)
  have "dropWhile isWs (trimS s) = trimS s"
  proof (cases "trimS s")
    case (Cons c r)
    with t have "hd ?a = c" "?a \<noteq> []" by simp_all
    then have "\<not> isWs c" using hd_dropWhile [of isWs s] by metis
    with Cons show ?thesis by simp
  qed simp
  then show ?thesis by (simp add: trimS_def [of "trimS s"]) (simp add: trimS_def)
qed

lemma parseInt10_integer: "parseInt10 s = Fin q \<Longrightarrow> \<exists>i :: int. q = of_int i"
proof -
  assume "parseInt10 s = Fin q"
  then obtain neg n where "q = signed neg (of_nat n)"
    by (auto simp: parseInt10_def toDouble_def Let_def split: prod.splits if_splits)
  then have "q = of_int (if neg then - int n else int n)" by (simp add: signed_def)
  then show ?thesis by blast
qed

lemma optionalInt_pos:
  assumes "optionalInt env key fallback = Inr i" "0 < fallback"
  shows "0 < i"
proof (cases "envStr env key")
  case None
  with assms show ?thesis by (simp add: optionalInt_def)
next
  case (Some raw)
  with assms obtain q where "parseInt10 raw = Fin q" "0 < q" "i = \<lfloor>q\<rfloor>"
    by (auto simp: optionalInt_def split: jsnum.splits if_splits)
  moreover from this obtain j :: int where "q = of_int j" using parseInt10_integer by blast
  ultimately show ?thesis by simp
qed

lemma optionalInt_error: "optionalInt env key fallback = Inl e \<Longrightarrow> \<exists>d. e = ConfigurationError d"
  by (auto simp: optionalInt_def split: option.splits jsnum.splits if_splits)

lemma optionalFraction_range:
  assumes "optionalFraction env key fallback = Inr q" "0 < fallback" "fallback \<le> 1"
  shows "0 < q" "q \<le> 1"
  using assms by (auto simp: optionalFraction_def split: option.splits jsnum.splits if_splits)

lemma optionalFraction_error: "optionalFraction env key fallback = Inl e \<Longrightarrow> \<exists>d. e = ConfigurationError d"
  by (auto simp: optionalFraction_def split: option.splits jsnum.splits if_splits)

lemma required_nonempty: "required env key = Inr v \<Longrightarrow> v \<noteq> []"
  by (auto simp: required_def envStr_def split: option.splits if_splits)

lemma required_error: "required env key = Inl e \<Longrightarrow> \<exists>d. e = ConfigurationError d"
  by (auto simp: required_def split: option.splits if_splits)

lemma agentNamesOf_wf:
  "agentNamesOf raw = Inr ns \<Longrightarrow> ns \<noteq> [] \<and> (\<forall>n \<in> set ns. n \<noteq> [] \<and> trimS n = n)"
  by (auto simp: agentNamesOf_def Let_def split: if_splits)

lemma env_errors:
  "transportOf env = Inl e \<Longrightarrow> \<exists>d. e = ConfigurationError d"
  "agentNamesOf raw = Inl e \<Longrightarrow> \<exists>d. e = ConfigurationError d"
  "enforceOf env = Inl e \<Longrightarrow> \<exists>d. e = ConfigurationError d"
  by (auto simp: transportOf_def agentNamesOf_def enforceOf_def Let_def split: if_splits)

lemma env_urls: "meshProxyOf env \<noteq> Some []" "gpuUrlOf env \<noteq> Some []"
  by (auto simp: meshProxyOf_def gpuUrlOf_def split: option.splits)

lemma readEnv_error: "readEnv env = Inl e \<Longrightarrow> \<exists>d. e = ConfigurationError d"
  unfolding readEnv_def bindR_eq_Inl
  by (elim disjE exE conjE)
    (auto dest: required_error optionalInt_error optionalFraction_error env_errors)

lemma readEnv_fields:
  assumes "readEnv env = Inr r"
  shows "required env ''RUN_NAME'' = Inr (re_runName r)" "required env ''RUN_NAMESPACE'' = Inr (re_runNamespace r)"
    "required env ''SERVER_NAME'' = Inr (re_serverName r)"
    "\<exists>raw. required env ''AGENT_NAMES'' = Inr raw \<and> agentNamesOf raw = Inr (re_agentNames r)"
    "optionalInt env ''TARGET_PORT'' 8080 = Inr (re_targetPort r)"
    "optionalInt env ''OPENCODE_PORT'' 4096 = Inr (re_opencodePort r)"
    "optionalInt env ''VIGIL_TIMEOUT_MS'' 10000 = Inr (re_vigilTimeoutMs r)"
    "optionalInt env ''VIGIL_MAX_PAYLOAD_BYTES'' 65536 = Inr (re_vigilMaxPayloadBytes r)"
    "optionalInt env ''MESH_BRIDGE_PORT'' 18080 = Inr (re_meshBridgePort r)"
    "optionalInt env ''MESH_READY_TIMEOUT_MS'' 60000 = Inr (re_meshReadyTimeoutMs r)"
    "optionalFraction env ''VIGIL_TRANSFORMER_THRESHOLD'' DEFAULT_TRANSFORMER_THRESHOLD = Inr (re_vigilTransformerThreshold r)"
    "enforceOf env = Inr (re_vigilEnforce r)" "re_vigilEnabled r = flag env ''VIGIL_ENABLED'' (\<not> isDryRun env)"
    "re_meshProxyUrl r = meshProxyOf env" "re_vigilGpuUrl r = gpuUrlOf env" "isDryRun env \<or> hasApiKey env"
  using assms unfolding readEnv_def bindR_eq_Inr by (elim exE conjE, force)+

lemma readEnv_wf:
  assumes "readEnv env = Inr r"
  shows "wfEnv r"
  unfolding wfEnv_def
  using required_nonempty agentNamesOf_wf env_urls [of env] readEnv_fields [OF assms]
    optionalInt_pos [OF readEnv_fields(5) [OF assms]] optionalInt_pos [OF readEnv_fields(6) [OF assms]]
    optionalInt_pos [OF readEnv_fields(7) [OF assms]] optionalInt_pos [OF readEnv_fields(8) [OF assms]]
    optionalInt_pos [OF readEnv_fields(9) [OF assms]] optionalInt_pos [OF readEnv_fields(10) [OF assms]]
    optionalFraction_range [OF readEnv_fields(11) [OF assms]]
  by (intro conjI) (simp_all add: DEFAULT_TRANSFORMER_THRESHOLD_def, blast+)

lemma enforceOf_monitor:
  assumes "enforceOf env = Inr False"
  shows "\<exists>v. fld env (J ''VIGIL_ENFORCE'') = Some v \<and> lowerS (trimS v) = J ''monitor''"
proof (cases "fld env (J ''VIGIL_ENFORCE'')")
  case None
  moreover have "lowerS (trimS (J ''strict'')) = J ''strict''" by code_simp
  ultimately show ?thesis using assms by (simp add: enforceOf_def envOr_def)
qed (use assms in \<open>auto simp: enforceOf_def envOr_def Let_def split: if_splits\<close>)

section \<open>Properties\<close>

text \<open>
  A configuration is checked before anything runs: reading the environment fails only with a
  configuration error; what it returns has a name for the run, the namespace and the server, at least
  one trimmed agent name, positive ports and timeouts and a scanner threshold in (0, 1]; without a
  dry run an API key is there; and the injection gate is strict and enabled unless a variable says
  otherwise in so many words.
\<close>

theorem configuration_checked:
  "(\<forall>e. readEnv env = Inl e \<longrightarrow> (\<exists>d. e = ConfigurationError d)) \<and>
   (\<forall>r. readEnv env = Inr r \<longrightarrow>
      wfEnv r \<and> (isDryRun env \<or> hasApiKey env) \<and>
      (\<not> re_vigilEnforce r \<longrightarrow> (\<exists>v. fld env (J ''VIGIL_ENFORCE'') = Some v \<and> lowerS (trimS v) = J ''monitor'')) \<and>
      (\<not> re_vigilEnabled r \<longrightarrow> isDryRun env \<or>
         (\<exists>v. fld env (J ''VIGIL_ENABLED'') = Some v \<and> lowerS (trimS v) \<in> {J ''0'', J ''false'', J ''no''})))"
proof (intro conjI allI impI)
  fix e
  assume "readEnv env = Inl e"
  then show "\<exists>d. e = ConfigurationError d" by (rule readEnv_error)
next
  fix r
  assume r: "readEnv env = Inr r"
  note f = readEnv_fields [OF r]
  show "wfEnv r" by (rule readEnv_wf [OF r])
  show "isDryRun env \<or> hasApiKey env" by (rule f)
  show "\<exists>v. fld env (J ''VIGIL_ENFORCE'') = Some v \<and> lowerS (trimS v) = J ''monitor''" if "\<not> re_vigilEnforce r"
    using f(12) that enforceOf_monitor [of env] by simp
  show "isDryRun env \<or> (\<exists>v. fld env (J ''VIGIL_ENABLED'') = Some v \<and> lowerS (trimS v) \<in> {J ''0'', J ''false'', J ''no''})"
    if "\<not> re_vigilEnabled r"
    using that unfolding f(13) flag_def envStr_def by (auto simp: Let_def split: option.splits if_splits)
qed

definition sampleEnviron :: environ where
  "sampleEnviron = map (map_prod J J)
     [(''OPENCODE_API_KEY'', ''k''), (''AGENT_NAMES'', ''dyn, scorer''), (''RUN_NAME'', ''run''), (''RUN_NAMESPACE'', ''ns''),
      (''SERVER_NAME'', ''srv''), (''VIGIL_ENFORCE'', ''monitor'')]"

theorem configuration_checked_witness:
  "\<exists>r. readEnv sampleEnviron = Inr r \<and> wfEnv r \<and> \<not> re_vigilEnforce r \<and>
     fld sampleEnviron (J ''VIGIL_ENFORCE'') = Some (J ''monitor'')"
proof -
  have "(case readEnv sampleEnviron of Inl _ \<Rightarrow> False | Inr r \<Rightarrow> \<not> re_vigilEnforce r)" by code_simp
  then obtain r where r: "readEnv sampleEnviron = Inr r" "\<not> re_vigilEnforce r" by (auto split: sum.splits)
  with configuration_checked [of sampleEnviron] have "wfEnv r" by blast
  with r show ?thesis by (intro exI [of _ r]) (simp add: sampleEnviron_def)
qed

end
