(* ===== verification/Regex.thy ===== *)
theory Regex
  imports Prelude
begin

text \<open>
  The regular expressions the runner uses, with the backtracking semantics of ECMAScript. A pattern
  is kept in the shape of its source text, so that \<open>regex.source\<close>, which the reports quote, is a
  function of it. The matcher lists the ends of all matches at a position in the order in which
  backtracking tries them; the head of the list is the match that \<open>exec\<close> returns.
\<close>

section \<open>Patterns\<close>

datatype citem =
    One char
  | Esc char
  | Rng char char
  | Unit jschar
  | ClsS
  | ClsNotS

text \<open>
  \<open>Items neg items\<close> is a bracketed class; \<open>Esc c\<close> is \<open>c\<close> written with a backslash; \<open>Rep r lo hi greedy\<close>
  covers all quantifiers.
\<close>

datatype regex =
    Lits string
  | Dot | Digit | Space | WordC | NotSpace
  | Items bool "citem list"
  | Cat "regex list"
  | Alts "regex list"
  | Grp regex
  | Rep regex nat "nat option" bool
  | WordB | Bol | Eol

record pattern =
  rx_body :: regex
  rx_icase :: bool
  rx_multiline :: bool

definition rx :: "regex \<Rightarrow> pattern" where
  "rx r = \<lparr>rx_body = r, rx_icase = False, rx_multiline = False\<rparr>"

definition rxI :: "regex \<Rightarrow> pattern" where
  "rxI r = \<lparr>rx_body = r, rx_icase = True, rx_multiline = False\<rparr>"

definition rxM :: "regex \<Rightarrow> pattern" where
  "rxM r = \<lparr>rx_body = r, rx_icase = False, rx_multiline = True\<rparr>"

text \<open>\<open>*\<close>, \<open>+\<close>, \<open>?\<close>, \<open>{n}\<close>, \<open>{n,}\<close>, \<open>{n,m}\<close> and the lazy \<open>*?\<close>.\<close>

definition manyR :: "regex \<Rightarrow> regex" where "manyR r = Rep r 0 None True"
definition someR :: "regex \<Rightarrow> regex" where "someR r = Rep r 1 None True"
definition optR :: "regex \<Rightarrow> regex" where "optR r = Rep r 0 (Some 1) True"
definition timesR :: "nat \<Rightarrow> regex \<Rightarrow> regex" where "timesR n r = Rep r n (Some n) True"
definition atLeastR :: "nat \<Rightarrow> regex \<Rightarrow> regex" where "atLeastR n r = Rep r n None True"
definition betweenR :: "nat \<Rightarrow> nat \<Rightarrow> regex \<Rightarrow> regex" where "betweenR n m r = Rep r n (Some m) True"
definition lazyR :: "regex \<Rightarrow> regex" where "lazyR r = Rep r 0 None False"

lemmas quantifier_defs = manyR_def someR_def optR_def timesR_def atLeastR_def betweenR_def lazyR_def

definition anyOf :: "string list \<Rightarrow> regex" where
  "anyOf ws = Grp (Alts (map Lits ws))"

section \<open>Source text\<close>

text \<open>Decimal 92 is the backslash. The characters that the sources escape outside a class.\<close>

definition special :: "char \<Rightarrow> bool" where
  "special c \<longleftrightarrow> c \<in> set ''.()[]$/|?*+{}^'' \<or> of_char c = (92 :: jschar)"

definition litText :: "string \<Rightarrow> jsstring" where
  "litText cs = concat (map (\<lambda>c. if special c then [92, of_char c] else [of_char c]) cs)"

definition hexDigit :: "nat \<Rightarrow> jschar" where
  "hexDigit d = (if d < 10 then of_nat (48 + d) else of_nat (55 + d))"

definition hex4 :: "nat \<Rightarrow> jsstring" where
  "hex4 n = map (\<lambda>k. hexDigit (n div 16 ^ k mod 16)) [3, 2, 1, 0]"

fun citemText :: "citem \<Rightarrow> jsstring" where
  "citemText (One c) = [of_char c]"
| "citemText (Esc c) = [92, of_char c]"
| "citemText (Rng a b) = [of_char a, 45, of_char b]"
| "citemText (Unit u) = [92, 117] @ hex4 (unat u)"
| "citemText ClsS = [92, 115]"
| "citemText ClsNotS = [92, 83]"

definition quantText :: "nat \<Rightarrow> nat option \<Rightarrow> jsstring" where
  "quantText lo hi =
     (if lo = 0 \<and> hi = None then J ''*'' else if lo = 1 \<and> hi = None then J ''+''
      else if lo = 0 \<and> hi = Some 1 then J ''?''
      else J ''{'' @ showNat lo @
        (case hi of None \<Rightarrow> J '','' | Some h \<Rightarrow> if h = lo then [] else J '','' @ showNat h) @ J ''}'')"

fun reText :: "regex \<Rightarrow> jsstring" where
  "reText (Lits cs) = litText cs"
| "reText Dot = J ''.''"
| "reText Digit = 92 # J ''d''"
| "reText Space = 92 # J ''s''"
| "reText WordC = 92 # J ''w''"
| "reText NotSpace = 92 # J ''S''"
| "reText (Items neg items) = J ''['' @ (if neg then J ''^'' else []) @ concat (map citemText items) @ J '']''"
| "reText (Cat rs) = concat (map reText rs)"
| "reText (Alts rs) = joinS (J ''|'') (map reText rs)"
| "reText (Grp r) = J ''('' @ reText r @ J '')''"
| "reText (Rep r lo hi greedy) = reText r @ quantText lo hi @ (if greedy then [] else J ''?'')"
| "reText WordB = 92 # J ''b''"
| "reText Bol = J ''^''"
| "reText Eol = J ''$''"

definition sourceText :: "pattern \<Rightarrow> jsstring" where
  "sourceText p = reText (rx_body p)"

section \<open>Characters\<close>

text \<open>
  With the \<open>i\<close> flag and without \<open>u\<close> a unit and a pattern character match when their upper-case forms
  are equal; a unit beyond ASCII never folds to an ASCII character.
\<close>

definition foldU :: "jschar \<Rightarrow> jschar" where
  "foldU c = (if 97 \<le> c \<and> c \<le> 122 then c - 32 else c)"

definition sameU :: "bool \<Rightarrow> jschar \<Rightarrow> jschar \<Rightarrow> bool" where
  "sameU ic a b \<longleftrightarrow> a = b \<or> ic \<and> foldU a = foldU b"

definition inRange :: "bool \<Rightarrow> jschar \<Rightarrow> jschar \<Rightarrow> jschar \<Rightarrow> bool" where
  "inRange ic a b c \<longleftrightarrow> a \<le> c \<and> c \<le> b \<or>
     ic \<and> (let u = foldU c in a \<le> u \<and> u \<le> b \<or> 65 \<le> u \<and> u \<le> 90 \<and> a \<le> u + 32 \<and> u + 32 \<le> b)"

fun inItem :: "bool \<Rightarrow> jschar \<Rightarrow> citem \<Rightarrow> bool" where
  "inItem ic c (One x) = sameU ic (of_char x) c"
| "inItem ic c (Esc x) = sameU ic (of_char x) c"
| "inItem ic c (Rng a b) = inRange ic (of_char a) (of_char b) c"
| "inItem ic c (Unit u) = (c = u)"
| "inItem ic c ClsS = isWs c"
| "inItem ic c ClsNotS = (\<not> isWs c)"

definition isDigitU :: "jschar \<Rightarrow> bool" where "isDigitU c \<longleftrightarrow> 48 \<le> c \<and> c \<le> 57"

definition isWordU :: "jschar \<Rightarrow> bool" where
  "isWordU c \<longleftrightarrow> isDigitU c \<or> 65 \<le> c \<and> c \<le> 90 \<or> 97 \<le> c \<and> c \<le> 122 \<or> c = 95"

definition isLineEnd :: "jschar \<Rightarrow> bool" where
  "isLineEnd c \<longleftrightarrow> c = 10 \<or> c = 13 \<or> c = 8232 \<or> c = 8233"

definition unitIs :: "(jschar \<Rightarrow> bool) \<Rightarrow> jsstring \<Rightarrow> nat \<Rightarrow> nat list" where
  "unitIs P s i = (if i < length s \<and> P (s ! i) then [Suc i] else [])"

definition litAt :: "bool \<Rightarrow> jsstring \<Rightarrow> jsstring \<Rightarrow> nat \<Rightarrow> bool" where
  "litAt ic s cs i \<longleftrightarrow> list_all2 (sameU ic) cs (take (length cs) (drop i s))"

definition wordAt :: "jsstring \<Rightarrow> nat \<Rightarrow> bool" where
  "wordAt s i \<longleftrightarrow> i < length s \<and> isWordU (s ! i)"

definition isBoundary :: "jsstring \<Rightarrow> nat \<Rightarrow> bool" where
  "isBoundary s i \<longleftrightarrow> (0 < i \<and> wordAt s (i - 1)) \<noteq> wordAt s i"

section \<open>Matching\<close>

text \<open>
  \<open>repMin\<close> makes the iterations a quantifier demands. \<open>repMax\<close> makes up to \<open>n\<close> more; an iteration that
  consumes nothing is rejected, so that the rest of the text bounds their number.
\<close>

fun repMin :: "(nat \<Rightarrow> nat list) \<Rightarrow> nat \<Rightarrow> nat \<Rightarrow> nat list" where
  "repMin f 0 i = [i]"
| "repMin f (Suc n) i = concat (map (repMin f n) (f i))"

fun repMax :: "(nat \<Rightarrow> nat list) \<Rightarrow> bool \<Rightarrow> nat \<Rightarrow> nat \<Rightarrow> nat list" where
  "repMax f greedy 0 i = [i]"
| "repMax f greedy (Suc n) i =
     (let more = concat (map (repMax f greedy n) (filter (\<lambda>j. j \<noteq> i) (f i))) in
      if greedy then more @ [i] else i # more)"

fun ends :: "bool \<Rightarrow> bool \<Rightarrow> jsstring \<Rightarrow> regex \<Rightarrow> nat \<Rightarrow> nat list"
  and endsCat :: "bool \<Rightarrow> bool \<Rightarrow> jsstring \<Rightarrow> regex list \<Rightarrow> nat \<Rightarrow> nat list"
  and endsAlt :: "bool \<Rightarrow> bool \<Rightarrow> jsstring \<Rightarrow> regex list \<Rightarrow> nat \<Rightarrow> nat list" where
  "ends ic ml s (Lits cs) i = (if litAt ic s (J cs) i then [i + length cs] else [])"
| "ends ic ml s Dot i = unitIs (\<lambda>c. \<not> isLineEnd c) s i"
| "ends ic ml s Digit i = unitIs isDigitU s i"
| "ends ic ml s Space i = unitIs isWs s i"
| "ends ic ml s WordC i = unitIs isWordU s i"
| "ends ic ml s NotSpace i = unitIs (\<lambda>c. \<not> isWs c) s i"
| "ends ic ml s (Items neg items) i = unitIs (\<lambda>c. list_ex (inItem ic c) items \<noteq> neg) s i"
| "ends ic ml s (Cat rs) i = endsCat ic ml s rs i"
| "ends ic ml s (Alts rs) i = endsAlt ic ml s rs i"
| "ends ic ml s (Grp r) i = ends ic ml s r i"
| "ends ic ml s (Rep r lo hi greedy) i =
     concat (map (\<lambda>j. repMax (ends ic ml s r) greedy (case hi of None \<Rightarrow> length s - j | Some h \<Rightarrow> h - lo) j)
       (repMin (ends ic ml s r) lo i))"
| "ends ic ml s WordB i = (if isBoundary s i then [i] else [])"
| "ends ic ml s Bol i = (if i = 0 \<or> ml \<and> isLineEnd (s ! (i - 1)) then [i] else [])"
| "ends ic ml s Eol i = (if i = length s \<or> ml \<and> isLineEnd (s ! i) then [i] else [])"
| "endsCat ic ml s [] i = [i]"
| "endsCat ic ml s (r # rs) i = concat (map (endsCat ic ml s rs) (ends ic ml s r i))"
| "endsAlt ic ml s [] i = []"
| "endsAlt ic ml s (r # rs) i = ends ic ml s r i @ endsAlt ic ml s rs i"

definition matchAt :: "pattern \<Rightarrow> jsstring \<Rightarrow> nat \<Rightarrow> nat option" where
  "matchAt p s i =
     (case ends (rx_icase p) (rx_multiline p) s (rx_body p) i of [] \<Rightarrow> None | j # _ \<Rightarrow> Some j)"

text \<open>\<open>regex.exec(s)\<close>: the index of the match and its end; the search starts at \<open>i\<close>.\<close>

fun execFrom :: "pattern \<Rightarrow> jsstring \<Rightarrow> nat \<Rightarrow> nat \<Rightarrow> (nat \<times> nat) option" where
  "execFrom p s i 0 = map_option (\<lambda>j. (i, j)) (matchAt p s i)"
| "execFrom p s i (Suc n) =
     (case matchAt p s i of Some j \<Rightarrow> Some (i, j) | None \<Rightarrow> execFrom p s (Suc i) n)"

definition exec :: "pattern \<Rightarrow> jsstring \<Rightarrow> (nat \<times> nat) option" where
  "exec p s = execFrom p s 0 (length s)"

definition test :: "pattern \<Rightarrow> jsstring \<Rightarrow> bool" where
  "test p s \<longleftrightarrow> exec p s \<noteq> None"

text \<open>\<open>s.match(regex)\<close> with the \<open>g\<close> flag: the texts of successive matches. An empty match moves on by one unit.\<close>

fun matchAllFrom :: "pattern \<Rightarrow> jsstring \<Rightarrow> nat \<Rightarrow> nat \<Rightarrow> jsstring list" where
  "matchAllFrom p s i 0 = []"
| "matchAllFrom p s i (Suc n) =
     (if length s < i then []
      else case execFrom p s i (length s - i) of
        None \<Rightarrow> []
      | Some (a, b) \<Rightarrow> sliceS s a b # matchAllFrom p s (if b = a then Suc b else b) n)"

definition matchAll :: "pattern \<Rightarrow> jsstring \<Rightarrow> jsstring list" where
  "matchAll p s = matchAllFrom p s 0 (Suc (length s))"

section \<open>What a match is\<close>

lemma repMin_bounds:
  assumes "\<And>i j. i \<le> N \<Longrightarrow> j \<in> set (f i) \<Longrightarrow> i \<le> j \<and> j \<le> N"
  shows "i \<le> N \<Longrightarrow> j \<in> set (repMin f n i) \<Longrightarrow> i \<le> j \<and> j \<le> N"
proof (induction n arbitrary: i)
  case (Suc n)
  then obtain k where k: "k \<in> set (f i)" and j: "j \<in> set (repMin f n k)" by auto
  from assms [OF Suc.prems(1) k] Suc.IH [OF _ j] show ?case by simp
qed simp

lemma repMax_bounds:
  assumes "\<And>i j. i \<le> N \<Longrightarrow> j \<in> set (f i) \<Longrightarrow> i \<le> j \<and> j \<le> N"
  shows "i \<le> N \<Longrightarrow> j \<in> set (repMax f g n i) \<Longrightarrow> i \<le> j \<and> j \<le> N"
proof (induction n arbitrary: i)
  case (Suc n)
  from Suc.prems(2) consider "j = i" | k where "k \<in> set (f i)" "j \<in> set (repMax f g n k)"
    by (auto simp: Let_def split: if_splits)
  then show ?case
  proof cases
    case (2 k)
    from assms [OF Suc.prems(1) 2(1)] Suc.IH [OF _ 2(2)] show ?thesis by simp
  qed (use Suc.prems in simp)
qed simp

lemma litAt_length: "litAt ic s cs i \<Longrightarrow> i \<le> length s \<Longrightarrow> i + length cs \<le> length s"
  by (auto simp: litAt_def dest!: list_all2_lengthD)

text \<open>Every match starts where it was tried and stays in the text.\<close>

lemma ends_bounds:
  "i \<le> length s \<Longrightarrow> j \<in> set (ends ic ml s r i) \<Longrightarrow> i \<le> j \<and> j \<le> length s"
  "i \<le> length s \<Longrightarrow> j \<in> set (endsCat ic ml s rs i) \<Longrightarrow> i \<le> j \<and> j \<le> length s"
  "i \<le> length s \<Longrightarrow> j \<in> set (endsAlt ic ml s rs i) \<Longrightarrow> i \<le> j \<and> j \<le> length s"
proof (induction ic ml s r i and ic ml s rs i and ic ml s rs i arbitrary: j and j and j rule: ends_endsCat_endsAlt.induct)
  case (1 ic ml s cs i)
  then show ?case using litAt_length [of ic s "J cs" i] by (auto split: if_splits)
next
  case (11 ic ml s r lo hi greedy i)
  note step = "11.IH"
  from "11.prems"(2) obtain k where k: "k \<in> set (repMin (ends ic ml s r) lo i)"
    and j: "j \<in> set (repMax (ends ic ml s r) greedy (case hi of None \<Rightarrow> length s - k | Some h \<Rightarrow> h - lo) k)"
    by auto
  have "i \<le> k \<and> k \<le> length s" by (rule repMin_bounds [OF _ "11.prems"(1) k]) (use step in blast)
  moreover from this have "k \<le> j \<and> j \<le> length s" by (intro repMax_bounds [OF _ _ j]) (use step in blast)+
  ultimately show ?case by auto
next
  case (16 ic ml s r rs i)
  from "16.prems"(2) obtain k where k: "k \<in> set (ends ic ml s r i)" and j: "j \<in> set (endsCat ic ml s rs k)"
    by auto
  have "i \<le> k \<and> k \<le> length s" using "16.IH"(1) [OF "16.prems"(1) k] .
  moreover from this have "k \<le> j \<and> j \<le> length s" using "16.IH"(2) [OF k _ j] by blast
  ultimately show ?case by auto
qed (auto simp: unitIs_def split: if_splits)

text \<open>
  Patterns without anchors see only the text they match: what surrounds it can neither prevent nor
  enable a match there.
\<close>

fun anchorFree :: "regex \<Rightarrow> bool" where
  "anchorFree (Cat rs) = list_all anchorFree rs"
| "anchorFree (Alts rs) = list_all anchorFree rs"
| "anchorFree (Grp r) = anchorFree r"
| "anchorFree (Rep r lo hi greedy) = anchorFree r"
| "anchorFree WordB = False"
| "anchorFree Bol = False"
| "anchorFree Eol = False"
| "anchorFree _ = True"

lemma repMin_embed:
  assumes f: "\<And>i j. i \<le> N \<Longrightarrow> j \<in> set (f i) \<Longrightarrow> i \<le> j \<and> j \<le> N"
    and fg: "\<And>i j. i \<le> N \<Longrightarrow> j \<in> set (f i) \<Longrightarrow> j + d \<in> set (g (i + d))"
  shows "i \<le> N \<Longrightarrow> j \<in> set (repMin f n i) \<Longrightarrow> j + d \<in> set (repMin g n (i + d))"
proof (induction n arbitrary: i)
  case (Suc n)
  then obtain k where k: "k \<in> set (f i)" and j: "j \<in> set (repMin f n k)" by auto
  from fg [OF Suc.prems(1) k] Suc.IH [OF _ j] f [OF Suc.prems(1) k] show ?case by auto
qed simp

lemma repMax_embed:
  assumes f: "\<And>i j. i \<le> N \<Longrightarrow> j \<in> set (f i) \<Longrightarrow> i \<le> j \<and> j \<le> N"
    and fg: "\<And>i j. i \<le> N \<Longrightarrow> j \<in> set (f i) \<Longrightarrow> j + d \<in> set (g (i + d))"
  shows "i \<le> N \<Longrightarrow> n \<le> m \<Longrightarrow> j \<in> set (repMax f gr n i) \<Longrightarrow> j + d \<in> set (repMax g gr m (i + d))"
proof (induction n arbitrary: i m)
  case 0
  then show ?case by (cases m) (simp_all add: Let_def)
next
  case (Suc n)
  from Suc.prems(2) obtain m' where m: "m = Suc m'" "n \<le> m'" by (cases m) auto
  from Suc.prems(3) consider "j = i" | k where "k \<in> set (f i)" "k \<noteq> i" "j \<in> set (repMax f gr n k)"
    by (auto simp: Let_def split: if_splits)
  then show ?case
  proof cases
    case 1
    then show ?thesis by (simp add: m Let_def)
  next
    case (2 k)
    from fg [OF Suc.prems(1) 2(1)] f [OF Suc.prems(1) 2(1)] Suc.IH [OF _ m(2) 2(3)] 2(2)
    have "k + d \<in> set (g (i + d))" "k + d \<noteq> i + d" "j + d \<in> set (repMax g gr m' (k + d))" by simp_all
    then show ?thesis by (auto simp: m Let_def)
  qed
qed

lemma litAt_embed:
  "litAt ic s cs i \<Longrightarrow> i \<le> length s \<Longrightarrow> litAt ic (a @ s @ b) cs (i + length a)"
proof -
  assume l: "litAt ic s cs i" and i: "i \<le> length s"
  have "i + length cs \<le> length s" using litAt_length [OF l i] .
  then have "take (length cs) (drop (i + length a) (a @ s @ b)) = take (length cs) (drop i s)" by simp
  with l show ?thesis unfolding litAt_def by (simp only:)
qed

lemma unitIs_embed: "j \<in> set (unitIs P s i) \<Longrightarrow> j + length a \<in> set (unitIs P (a @ s @ b) (i + length a))"
  by (auto simp: unitIs_def nth_append split: if_splits)

lemma ends_embed:
  "anchorFree r \<Longrightarrow> i \<le> length s \<Longrightarrow> j \<in> set (ends ic ml s r i) \<Longrightarrow>
     j + length a \<in> set (ends ic ml (a @ s @ b) r (i + length a))"
  "list_all anchorFree rs \<Longrightarrow> i \<le> length s \<Longrightarrow> j \<in> set (endsCat ic ml s rs i) \<Longrightarrow>
     j + length a \<in> set (endsCat ic ml (a @ s @ b) rs (i + length a))"
  "list_all anchorFree rs \<Longrightarrow> i \<le> length s \<Longrightarrow> j \<in> set (endsAlt ic ml s rs i) \<Longrightarrow>
     j + length a \<in> set (endsAlt ic ml (a @ s @ b) rs (i + length a))"
proof (induction ic ml s r i and ic ml s rs i and ic ml s rs i arbitrary: j and j and j rule: ends_endsCat_endsAlt.induct)
  case (1 ic ml s cs i)
  then show ?case using litAt_embed [of ic s "J cs" i a b] by (auto split: if_splits)
next
  case (11 ic ml s r lo hi greedy i)
  let ?f = "ends ic ml s r" and ?g = "ends ic ml (a @ s @ b) r"
  let ?n = "\<lambda>t k. case hi of None \<Rightarrow> length t - k | Some h \<Rightarrow> h - lo"
  have fg: "\<And>x y. x \<le> length s \<Longrightarrow> y \<in> set (?f x) \<Longrightarrow> y + length a \<in> set (?g (x + length a))"
    using "11.IH" "11.prems"(1) by auto
  from "11.prems"(3) obtain k where k: "k \<in> set (repMin ?f lo i)" and j: "j \<in> set (repMax ?f greedy (?n s k) k)"
    by auto
  have bd: "\<And>x y. x \<le> length s \<Longrightarrow> y \<in> set (?f x) \<Longrightarrow> x \<le> y \<and> y \<le> length s"
    using ends_bounds(1) by blast
  have kN: "k \<le> length s" using repMin_bounds [OF bd "11.prems"(2) k] by blast
  have "k + length a \<in> set (repMin ?g lo (i + length a))"
    using repMin_embed [of "length s" ?f "length a" ?g i k lo] bd fg "11.prems"(2) k by blast
  moreover have "?n s k \<le> ?n (a @ s @ b) (k + length a)" by (auto split: option.split)
  then have "j + length a \<in> set (repMax ?g greedy (?n (a @ s @ b) (k + length a)) (k + length a))"
    using repMax_embed [of "length s" ?f "length a" ?g k "?n s k" _ j greedy] bd fg kN j by blast
  ultimately show ?case by auto
next
  case (16 ic ml s r rs i)
  from "16.prems"(3) obtain k where k: "k \<in> set (ends ic ml s r i)" and j: "j \<in> set (endsCat ic ml s rs k)"
    by auto
  from "16.IH"(1) [OF _ "16.prems"(2) k] "16.IH"(2) [OF k _ _ j] ends_bounds(1) [OF "16.prems"(2) k] "16.prems"(1)
  show ?case by auto
qed (auto intro: unitIs_embed)

lemma matchAt_iff: "matchAt p s i \<noteq> None \<longleftrightarrow> ends (rx_icase p) (rx_multiline p) s (rx_body p) i \<noteq> []"
  by (auto simp: matchAt_def split: list.split)

lemma execFrom_iff: "execFrom p s i n \<noteq> None \<longleftrightarrow> (\<exists>k. i \<le> k \<and> k \<le> i + n \<and> matchAt p s k \<noteq> None)"
proof (induction n arbitrary: i)
  case 0
  then show ?case by (auto simp: le_antisym)
next
  case (Suc n)
  have "(\<exists>k. i \<le> k \<and> k \<le> i + Suc n \<and> matchAt p s k \<noteq> None) \<longleftrightarrow>
    matchAt p s i \<noteq> None \<or> (\<exists>k. Suc i \<le> k \<and> k \<le> Suc i + n \<and> matchAt p s k \<noteq> None)"
    by (metis Suc_leD add_Suc_right add_Suc le_add1 not_less_eq_eq order_antisym)
  with Suc.IH [of "Suc i"] show ?case by (auto split: option.split)
qed

lemma execFrom_SomeD: "execFrom p s i n = Some (a, b) \<Longrightarrow> i \<le> a \<and> a \<le> i + n \<and> matchAt p s a = Some b"
  by (induction n arbitrary: i) (fastforce split: option.splits)+

lemma exec_SomeD: "exec p s = Some (a, b) \<Longrightarrow> a \<le> b \<and> b \<le> length s"
  using execFrom_SomeD [of p s 0 "length s" a b] ends_bounds(1) [of a s b "rx_icase p" "rx_multiline p" "rx_body p"]
  by (auto simp: exec_def matchAt_def split: list.splits)

text \<open>\<open>test\<close> finds a match wherever there is one.\<close>

lemma test_iff:
  "test p s \<longleftrightarrow> (\<exists>i \<le> length s. ends (rx_icase p) (rx_multiline p) s (rx_body p) i \<noteq> [])"
  unfolding test_def exec_def execFrom_iff matchAt_iff by auto

text \<open>Text around a match of an anchor-free pattern cannot hide it.\<close>

lemma test_embed:
  assumes "anchorFree (rx_body p)" "test p s"
  shows "test p (a @ s @ b)"
proof -
  from assms(2) obtain i j where i: "i \<le> length s" and j: "j \<in> set (ends (rx_icase p) (rx_multiline p) s (rx_body p) i)"
    unfolding test_iff by (meson hd_in_set)
  from ends_embed(1) [OF assms(1) i j, of a b] i show ?thesis
    unfolding test_iff by (intro exI [of _ "i + length a"]) auto
qed

lemma litAt_J_exact: "litAt False s cs i \<longleftrightarrow> prefix cs (drop i s)"
proof -
  have "sameU False = (=)" by (auto simp: sameU_def fun_eq_iff)
  then show ?thesis by (auto simp: litAt_def list.rel_eq prefix_def take_is_prefix) (metis append_take_drop_id)
qed

text \<open>A literal pattern is a substring search.\<close>

lemma test_Lits: "test (rx (Lits cs)) s \<longleftrightarrow> sublist (J cs) s"
proof -
  have "test (rx (Lits cs)) s \<longleftrightarrow> (\<exists>i \<le> length s. prefix (J cs) (drop i s))"
    by (auto simp: test_iff rx_def litAt_J_exact)
  also have "\<dots> \<longleftrightarrow> sublist (J cs) s"
  proof
    assume "\<exists>i \<le> length s. prefix (J cs) (drop i s)"
    then show "sublist (J cs) s" by (meson prefix_imp_sublist sublist_drop sublist_order.order_trans)
  next
    assume "sublist (J cs) s"
    then obtain u v where "s = u @ J cs @ v" by (auto simp: sublist_def)
    then show "\<exists>i \<le> length s. prefix (J cs) (drop i s)" by (intro exI [of _ "length u"]) simp
  qed
  finally show ?thesis .
qed

end
