(* ===== verification/AgentPrompt.thy ===== *)
theory AgentPrompt
  imports Config Regex
begin

text \<open>
  One prompt to a persona (\<open>runAgentPrompt\<close> of \<^verbatim>\<open>src/runner/src/evaluator.ts\<close>): booting OpenCode, asking,
  reading the structured answer or recovering JSON from prose, asking again, and the timeout. The
  OpenCode SDK is an argument. An awaited call answers, throws, or is still pending when the timer of
  the agent fires, which is \<open>None\<close>. The half second after closing the server is not modelled.
\<close>

section \<open>The SDK\<close>

text \<open>
  \<open>me_retries\<close> and \<open>me_message\<close> are the members of \<open>data\<close> that a \<open>StructuredOutputError\<close> has. A member
  that is absent is \<open>None\<close>.
\<close>

record MessageError =
  me_name :: jsstring
  me_data :: "jsval option"
  me_retries :: int
  me_message :: jsstring

record AssistantMessage =
  mg_structured :: "jsval option"
  mg_structured_output :: "jsval option"
  mg_error :: "MessageError option"

record Part =
  pt_type :: jsstring
  pt_text :: "jsstring option"

record SessionReply =
  sy_error :: "jsval option"
  sy_id :: "jsstring option"

record PromptReply =
  py_error :: "jsval option"
  py_data :: "(AssistantMessage \<times> Part list) option"

record PromptRequest =
  pm_sessionID :: jsstring
  pm_directory :: jsstring
  pm_providerID :: jsstring
  pm_modelID :: jsstring
  pm_system :: jsstring
  pm_tools :: "(jsstring \<times> bool) list"
  pm_format :: "(JsonSchema \<times> int) option"
  pm_text :: jsstring

record 's OpenCode =
  oc_boot :: "jsval \<Rightarrow> int \<Rightarrow> 's \<Rightarrow> (thrown + unit) \<times> 's"
  oc_session :: "jsstring \<Rightarrow> jsstring \<Rightarrow> 's \<Rightarrow> (thrown + SessionReply) option \<times> 's"
  oc_prompt :: "PromptRequest \<Rightarrow> 's \<Rightarrow> (thrown + PromptReply) option \<times> 's"
  oc_close :: "'s \<Rightarrow> 's"
  oc_headers :: "'s \<Rightarrow> (jsstring \<times> jsstring) list"
  oc_now :: "'s \<Rightarrow> int \<times> 's"

section \<open>Reading the answer\<close>

definition notNull :: "jsval option \<Rightarrow> jsval option" where
  "notNull v = (if v = Some JNull then None else v)"

definition extractStructuredOutput :: "AssistantMessage \<Rightarrow> jsval option" where
  "extractStructuredOutput info =
     (case notNull (mg_structured info) of
        Some v \<Rightarrow> Some v
      | None \<Rightarrow> notNull (mg_structured_output info))"

definition partText :: "Part \<Rightarrow> jsstring" where
  "partText p = (if pt_type p = J ''text'' then (case pt_text p of Some t \<Rightarrow> t | None \<Rightarrow> []) else [])"

text \<open>\<open>text.replace(/```(?:json)?/gi, "")\<close>; decimal 96 is the backtick.\<close>

definition FENCE :: jsstring where "FENCE = [96, 96, 96]"

definition dropJsonWord :: "jsstring \<Rightarrow> jsstring" where
  "dropJsonWord s = (if litAt True s (J ''json'') 0 then drop 4 s else s)"

function stripFences :: "jsstring \<Rightarrow> jsstring" where
  "stripFences [] = []"
| "stripFences (c # s) =
     (if startsWith (c # s) FENCE then stripFences (dropJsonWord (drop 2 s)) else c # stripFences s)"
  by pat_completeness auto
termination
  by (relation "measure length") (auto simp: dropJsonWord_def)

declare stripFences.simps(2) [simp del]

text \<open>The first opening bracket.\<close>

definition firstOpen :: "jsstring \<Rightarrow> nat option" where
  "firstOpen s =
     (case (indexOf s [123], indexOf s [91]) of
        (Some i, Some j) \<Rightarrow> Some (min i j)
      | (Some i, None) \<Rightarrow> Some i
      | (None, r) \<Rightarrow> r)"

text \<open>
  The scan from the opening bracket: the index at which its depth returns to zero. Brackets inside
  string literals do not count.
\<close>

fun findClose :: "jschar \<Rightarrow> jschar \<Rightarrow> jsstring \<Rightarrow> nat \<Rightarrow> int \<Rightarrow> bool \<Rightarrow> bool \<Rightarrow> nat option" where
  "findClose openCh closeCh [] i depth inString escaped = None"
| "findClose openCh closeCh (ch # s) i depth inString escaped =
     (if inString then
        (if escaped then findClose openCh closeCh s (i + 1) depth True False
         else if ch = 92 then findClose openCh closeCh s (i + 1) depth True True
         else if ch = 34 then findClose openCh closeCh s (i + 1) depth False False
         else findClose openCh closeCh s (i + 1) depth True False)
      else if ch = 34 then findClose openCh closeCh s (i + 1) depth True escaped
      else if ch = openCh then findClose openCh closeCh s (i + 1) (depth + 1) False escaped
      else if ch = closeCh then
        (if depth - 1 = 0 then Some i else findClose openCh closeCh s (i + 1) (depth - 1) False escaped)
      else findClose openCh closeCh s (i + 1) depth False escaped)"

definition extractJsonFromTextParts :: "host \<Rightarrow> Part list \<Rightarrow> jsval option" where
  "extractJsonFromTextParts h parts =
     (let unfenced = stripFences (joinS [10] (map partText parts)) in
      case firstOpen unfenced of
        None \<Rightarrow> None
      | Some start \<Rightarrow>
          let openCh = unfenced ! start; closeCh = (if openCh = 123 then 125 else 93) in
          (case findClose openCh closeCh (drop start unfenced) start 0 False False of
             None \<Rightarrow> None
           | Some i \<Rightarrow>
               (case hParse h (sliceS unfenced start (i + 1)) of
                  Some parsed \<Rightarrow>
                    if isRecord (Some parsed) \<or> asArr (Some parsed) \<noteq> None then Some parsed else None
                | None \<Rightarrow> None)))"

section \<open>Asking\<close>

definition MIN_LLM_TIMEOUT_MS :: rat where "MIN_LLM_TIMEOUT_MS = 60000"

definition agentTimeout :: "OpenCodeAgent \<Rightarrow> rat" where
  "agentTimeout agent =
     max (case ac_timeoutMs (as_config (oa_spec agent)) of Some t \<Rightarrow> t | None \<Rightarrow> 30000) MIN_LLM_TIMEOUT_MS"

definition agentRetryCount :: "OpenCodeAgent \<Rightarrow> int" where
  "agentRetryCount agent = (case ac_retryCount (as_config (oa_spec agent)) of Some r \<Rightarrow> r | None \<Rightarrow> 2)"

definition agentName :: "OpenCodeAgent \<Rightarrow> jsstring" where
  "agentName agent = om_name (oa_metadata agent)"

definition contractedMessage :: "host \<Rightarrow> OpenCodeAgent \<Rightarrow> jsstring \<Rightarrow> jsstring" where
  "contractedMessage h agent userMessage =
     joinS [10]
       [userMessage, [],
        J ''Output contract: your FINAL answer must be a single JSON value exactly'',
        J ''matching this JSON Schema '' @ [8212] @ J '' no prose, no code fences, no extra keys. After'',
        J ''any tool use you need, end with the JSON and nothing else.'',
        FENCE @ J ''json'',
        hPretty h (JObj (of_schema (as_outputFormat (oa_spec agent)))),
        FENCE]"

definition AGAIN_TEXT :: jsstring where
  "AGAIN_TEXT =
     J ''Your previous answer contained no JSON object. You have NO tools in this session: do not call any tool or write a tool call. Everything you can use is in the first message. Reply now with ONLY the JSON object that follows the required schema '' @
     [8212] @ J '' no prose, no code fence.''"

definition promptRequest :: "OpenCodeAgent \<Rightarrow> jsstring \<Rightarrow> jsstring \<Rightarrow> bool \<Rightarrow> (JsonSchema \<times> int) option \<Rightarrow> jsstring \<Rightarrow> PromptRequest" where
  "promptRequest agent session directory gate format txt =
     \<lparr>pm_sessionID = session, pm_directory = directory,
      pm_providerID = am_providerID (as_model (oa_spec agent)), pm_modelID = am_modelID (as_model (oa_spec agent)),
      pm_system = as_systemPrompt (oa_spec agent), pm_tools = toolsForKind gate, pm_format = format, pm_text = txt\<rparr>"

text \<open>\<open>JSON.stringify(err ?? "no data")\<close>\<close>

definition sdkDetail :: "host \<Rightarrow> jsval option \<Rightarrow> jsstring" where
  "sdkDetail h err = hStringify h (case notNull err of Some v \<Rightarrow> v | None \<Rightarrow> JStr (J ''no data''))"

definition promptError :: "OpenCodeAgent \<Rightarrow> jsstring \<Rightarrow> thrown" where
  "promptError agent detail = Runner (AgentPromptError (agentName agent) detail)"

definition isSOE :: "MessageError \<Rightarrow> bool" where
  "isSOE e \<longleftrightarrow> me_name e = J ''StructuredOutputError''"

text \<open>The check of \<open>info.error\<close>.\<close>

definition messageFailure :: "host \<Rightarrow> AssistantMessage \<Rightarrow> jsstring option" where
  "messageFailure h info =
     (case mg_error info of
        Some e \<Rightarrow>
          if isSOE e then None
          else Some (me_name e @ J '': '' @
            (case asRec (me_data e) of Some o' \<Rightarrow> hStringify h (JObj o') | None \<Rightarrow> me_name e))
      | None \<Rightarrow> None)"

text \<open>The loop that asks again, with \<open>n\<close> attempts left.\<close>

fun askAgain :: "host \<Rightarrow> 's OpenCode \<Rightarrow> PromptRequest \<Rightarrow> thrown \<Rightarrow> nat \<Rightarrow> jsval option \<Rightarrow> Part list \<Rightarrow> 's \<Rightarrow>
    (thrown + jsval option \<times> Part list) \<times> 's" where
  "askAgain h oc request timeout 0 structured parts w = (Inr (structured, parts), w)"
| "askAgain h oc request timeout (Suc n) structured parts w =
     (if structured \<noteq> None then (Inr (structured, parts), w)
      else case oc_prompt oc request w of
        (None, w) \<Rightarrow> (Inl timeout, w)
      | (Some (Inl e), w) \<Rightarrow> (Inl e, w)
      | (Some (Inr again), w) \<Rightarrow>
          (case (py_error again, py_data again) of
             (None, Some (info, parts')) \<Rightarrow>
               askAgain h oc request timeout n (extractJsonFromTextParts h parts') parts' w
           | _ \<Rightarrow> (Inr (structured, parts), w)))"

definition noOutput :: "host \<Rightarrow> OpenCodeAgent \<Rightarrow> AssistantMessage \<Rightarrow> Part list \<Rightarrow> thrown" where
  "noOutput h agent info parts =
     (let txt = take 300 (concat (map partText parts));
          said = J '' (text: '' @ hStringify h (JStr txt) @ J '')'' in
      Runner (case mg_error info of
         Some e \<Rightarrow>
           if isSOE e then StructuredOutputExhaustedError (agentName agent) (me_retries e) (me_message e @ said)
           else StructuredOutputExhaustedError (agentName agent) (agentRetryCount agent)
                  (J ''no structured output on assistant message'' @ said)
       | None \<Rightarrow> StructuredOutputExhaustedError (agentName agent) (agentRetryCount agent)
                  (J ''no structured output on assistant message'' @ said)))"

text \<open>How many times a custom provider is asked again.\<close>

definition againAttempts :: "OpenCodeAgent \<Rightarrow> nat" where
  "againAttempts agent =
     (if isCustomProvider (am_providerID (as_model (oa_spec agent))) then nat (min (agentRetryCount agent) 2) else 0)"

definition answerOfReply :: "host \<Rightarrow> 's OpenCode \<Rightarrow> OpenCodeAgent \<Rightarrow> PromptRequest \<Rightarrow> thrown \<Rightarrow> AssistantMessage \<Rightarrow> Part list \<Rightarrow> 's \<Rightarrow>
    (thrown + jsval) \<times> 's" where
  "answerOfReply h oc agent again timeout info parts w =
     (case messageFailure h info of
        Some detail \<Rightarrow> (Inl (promptError agent detail), w)
      | None \<Rightarrow>
          let structured = (case extractStructuredOutput info of Some v \<Rightarrow> Some v | None \<Rightarrow> extractJsonFromTextParts h parts) in
          (case askAgain h oc again timeout (againAttempts agent) structured parts w of
             (Inl e, w) \<Rightarrow> (Inl e, w)
           | (Inr (Some v, _), w) \<Rightarrow> (Inr v, w)
           | (Inr (None, parts'), w) \<Rightarrow> (Inl (noOutput h agent info parts'), w)))"

text \<open>\<open>work\<close>, raced with the timer.\<close>

definition promptWork :: "host \<Rightarrow> 's OpenCode \<Rightarrow> OpenCodeAgent \<Rightarrow> AgentKind \<Rightarrow> jsstring \<Rightarrow> RunnerEnv \<Rightarrow> 's \<Rightarrow>
    (thrown + jsval) \<times> 's" where
  "promptWork h oc agent kind userMessage env w =
     (let directory = (if kind = KStatic then re_workspaceDir env else re_outputDir env);
          timeout = Runner (AgentTimeoutError (agentName agent) (agentTimeout agent));
          schema = of_schema (as_outputFormat (oa_spec agent)) in
      case oc_session oc (re_runName env @ J ''/'' @ agentName agent) directory w of
        (None, w) \<Rightarrow> (Inl timeout, w)
      | (Some (Inl e), w) \<Rightarrow> (Inl e, w)
      | (Some (Inr session), w) \<Rightarrow>
          (case (sy_error session, sy_id session) of
             (None, Some sid) \<Rightarrow>
               (case oc_prompt oc (promptRequest agent sid directory
                        (\<not> isCustomProvider (am_providerID (as_model (oa_spec agent))))
                        (Some (schema, agentRetryCount agent)) (contractedMessage h agent userMessage)) w of
                  (None, w) \<Rightarrow> (Inl timeout, w)
                | (Some (Inl e), w) \<Rightarrow> (Inl e, w)
                | (Some (Inr result), w) \<Rightarrow>
                    (case (py_error result, py_data result) of
                       (None, Some (info, parts)) \<Rightarrow>
                         answerOfReply h oc agent (promptRequest agent sid directory False None AGAIN_TEXT)
                           timeout info parts w
                     | _ \<Rightarrow> (Inl (promptError agent (J ''session.prompt failed: '' @ sdkDetail h (py_error result))), w)))
           | _ \<Rightarrow> (Inl (promptError agent (J ''session.create failed: '' @ sdkDetail h (sy_error session))), w)))"

text \<open>The structured answer and \<open>durationMs\<close>.\<close>

definition runAgentPrompt :: "host \<Rightarrow> 's OpenCode \<Rightarrow> OpenCodeAgent \<Rightarrow> AgentKind \<Rightarrow> jsstring \<Rightarrow> RunnerEnv \<Rightarrow> 's \<Rightarrow>
    (thrown + jsval \<times> int) \<times> 's" where
  "runAgentPrompt h oc agent kind userMessage env w =
     (case oc_now oc w of (started, w) \<Rightarrow>
      case oc_boot oc (opencodeConfig (oc_headers oc w) agent env) (re_opencodePort env) w of
        (Inl e, w) \<Rightarrow> (Inl (promptError agent (J ''failed to boot OpenCode server: '' @ errorMessage h e)), w)
      | (Inr _, w) \<Rightarrow>
          (case promptWork h oc agent kind userMessage env w of
             (Inl e, w) \<Rightarrow> (Inl e, oc_close oc w)
           | (Inr v, w) \<Rightarrow> (case oc_now oc w of (finished, w) \<Rightarrow> (Inr (v, finished - started), oc_close oc w))))"

section \<open>The bracket scan: lemmas\<close>

text \<open>
  Well-formed text between two brackets: plain characters, string literals and bracketed texts of
  the same kind.
\<close>

fun literalBody :: "jsstring \<Rightarrow> bool" where
  "literalBody [] = True"
| "literalBody [c] = (c \<noteq> 34 \<and> c \<noteq> 92)"
| "literalBody (c # d # s) = (if c = 92 then literalBody s else c \<noteq> 34 \<and> literalBody (d # s))"

inductive balanced :: "jschar \<Rightarrow> jschar \<Rightarrow> jsstring \<Rightarrow> bool" for a b where
  empty: "balanced a b []"
| plain: "c \<noteq> 34 \<Longrightarrow> c \<noteq> a \<Longrightarrow> c \<noteq> b \<Longrightarrow> balanced a b s \<Longrightarrow> balanced a b (c # s)"
| literal: "literalBody t \<Longrightarrow> balanced a b s \<Longrightarrow> balanced a b (34 # t @ 34 # s)"
| nested: "balanced a b t \<Longrightarrow> balanced a b s \<Longrightarrow> balanced a b (a # t @ b # s)"

lemma findClose_literal:
  "literalBody t \<Longrightarrow> findClose a b (t @ 34 # s) i d True False = findClose a b s (i + length t + 1) d False False"
  by (induction t arbitrary: i rule: literalBody.induct) (auto split: if_splits)

lemma findClose_balanced:
  assumes "a \<noteq> 34" "b \<noteq> 34" "a \<noteq> b"
  shows "balanced a b t \<Longrightarrow> 0 < d \<Longrightarrow> findClose a b (t @ s) i d False False = findClose a b s (i + length t) d False False"
proof (induction arbitrary: i d s rule: balanced.induct)
  case (nested t u)
  have "findClose a b ((a # t @ b # u) @ s) i d False False = findClose a b (t @ b # u @ s) (i + 1) (d + 1) False False"
    using assms by simp
  also have "\<dots> = findClose a b (b # u @ s) (i + 1 + length t) (d + 1) False False" using nested by simp
  also have "\<dots> = findClose a b (u @ s) (i + 1 + length t + 1) d False False" using assms nested.prems by simp
  finally show ?case using nested by (simp add: ac_simps)
next
  case (literal t u)
  then show ?case using assms by (simp add: findClose_literal ac_simps)
qed (use assms in \<open>simp_all add: ac_simps\<close>)

lemma findClose_whole:
  assumes "a \<noteq> 34" "b \<noteq> 34" "a \<noteq> b" "balanced a b t"
  shows "findClose a b (a # t @ b # s) i 0 False False = Some (i + length t + 1)"
  using assms by (simp add: findClose_balanced)

lemma indexOf_single_append:
  "c \<notin> set pre \<Longrightarrow> indexOf (pre @ s) [c] = map_option (\<lambda>i. length pre + i) (indexOf s [c])"
  by (induction pre) (cases "indexOf s [c]"; auto)+

lemma firstOpen_at:
  assumes "123 \<notin> set pre" "91 \<notin> set pre" "a = 123 \<or> a = 91"
  shows "firstOpen (pre @ a # s) = Some (length pre)"
  using assms(3)
proof
  assume "a = 123"
  then show ?thesis
    using assms by (auto simp: firstOpen_def indexOf_single_append split: option.splits)
next
  assume "a = 91"
  then show ?thesis
    using assms by (auto simp: firstOpen_def indexOf_single_append split: option.splits)
qed

lemma stripFences_id: "96 \<notin> set s \<Longrightarrow> stripFences s = s"
  by (induction s) (auto simp: stripFences.simps FENCE_def)

section \<open>The requests: lemmas\<close>

text \<open>The SDK with a log of the prompts it is sent, and no other change.\<close>

definition keepFst :: "('s \<Rightarrow> 'a \<times> 's) \<Rightarrow> 'l \<times> 's \<Rightarrow> 'a \<times> 'l \<times> 's" where
  "keepFst f lw = (case lw of (l, w) \<Rightarrow> case f w of (r, w') \<Rightarrow> (r, l, w'))"

definition loggedOC :: "(PromptRequest \<Rightarrow> 'l \<Rightarrow> 'l) \<Rightarrow> 's OpenCode \<Rightarrow> ('l \<times> 's) OpenCode" where
  "loggedOC note oc =
     \<lparr>oc_boot = (\<lambda>c p. keepFst (oc_boot oc c p)), oc_session = (\<lambda>t d. keepFst (oc_session oc t d)),
      oc_prompt = (\<lambda>q lw. case keepFst (oc_prompt oc q) lw of (r, l, w) \<Rightarrow> (r, note q l, w)),
      oc_close = map_prod id (oc_close oc), oc_headers = (\<lambda>lw. oc_headers oc (snd lw)),
      oc_now = keepFst (oc_now oc)\<rparr>"

definition promptLog :: "PromptRequest \<Rightarrow> PromptRequest list \<Rightarrow> PromptRequest list" where
  "promptLog q l = l @ [q]"

lemma loggedOC_simps:
  "oc_boot (loggedOC note oc) c p (l, w) = (case oc_boot oc c p w of (r, w') \<Rightarrow> (r, l, w'))"
  "oc_session (loggedOC note oc) t d (l, w) = (case oc_session oc t d w of (r, w') \<Rightarrow> (r, l, w'))"
  "oc_prompt (loggedOC note oc) q (l, w) = (case oc_prompt oc q w of (r, w') \<Rightarrow> (r, note q l, w'))"
  "oc_close (loggedOC note oc) (l, w) = (l, oc_close oc w)"
  "oc_now (loggedOC note oc) (l, w) = (case oc_now oc w of (r, w') \<Rightarrow> (r, l, w'))"
  by (simp_all add: loggedOC_def keepFst_def split: prod.split)

lemma promptLog_prompt:
  "oc_prompt (loggedOC promptLog oc) q (l, w) = (case oc_prompt oc q w of (r, w') \<Rightarrow> (r, l @ [q], w'))"
  by (simp add: loggedOC_simps promptLog_def)

lemmas promptLog_simps = loggedOC_simps(1,2,4,5) promptLog_prompt

lemma againAttempts_le: "againAttempts agent \<le> 2"
  by (simp add: againAttempts_def nat_le_iff)

lemma askAgain_log:
  "askAgain h (loggedOC promptLog oc) q timeout n structured parts (l, w) = (r, l', w') \<Longrightarrow>
   \<exists>k \<le> n. l' = l @ replicate k q"
proof (induction n arbitrary: structured parts l w)
  case (Suc n)
  show ?case
  proof (cases "structured = None")
    case False
    with Suc.prems show ?thesis by auto
  next
    case True
    obtain a w1 where a: "oc_prompt oc q w = (a, w1)" by force
    show ?thesis
    proof (cases "\<exists>again info parts'. a = Some (Inr again) \<and> py_error again = None \<and> py_data again = Some (info, parts')")
      case True
      then obtain again info parts' where "a = Some (Inr again)" "py_error again = None" "py_data again = Some (info, parts')"
        by blast
      with Suc.prems \<open>structured = None\<close> a
      have "askAgain h (loggedOC promptLog oc) q timeout n (extractJsonFromTextParts h parts') parts' (l @ [q], w1) = (r, l', w')"
        by (simp add: promptLog_simps)
      from Suc.IH [OF this] obtain k where "k \<le> n" "l' = (l @ [q]) @ replicate k q" by blast
      then show ?thesis by (intro exI [of _ "Suc k"]) simp
    next
      case False
      with Suc.prems \<open>structured = None\<close> a have "l' = l @ [q]"
        by (auto simp: promptLog_simps split: option.splits sum.splits)
      then show ?thesis by (intro exI [of _ 1]) simp
    qed
  qed
qed auto

lemma answerOfReply_log:
  assumes "answerOfReply h (loggedOC promptLog oc) agent q timeout info parts (l, w) = (r, l', w')"
  shows "\<exists>k \<le> againAttempts agent. l' = l @ replicate k q"
proof (cases "messageFailure h info")
  case None
  let ?s = "case extractStructuredOutput info of Some v \<Rightarrow> Some v | None \<Rightarrow> extractJsonFromTextParts h parts"
  obtain a l1 w1 where a: "askAgain h (loggedOC promptLog oc) q timeout (againAttempts agent) ?s parts (l, w) = (a, l1, w1)"
    by (metis prod_cases3)
  with assms None have "l' = l1"
    by (auto simp: answerOfReply_def split: sum.splits option.splits)
  with askAgain_log [OF a] show ?thesis by simp
qed (use assms in \<open>auto simp: answerOfReply_def\<close>)

text \<open>The session id is the one the SDK returned; the two requests of a session.\<close>

definition firstRequest :: "host \<Rightarrow> OpenCodeAgent \<Rightarrow> AgentKind \<Rightarrow> jsstring \<Rightarrow> RunnerEnv \<Rightarrow> jsstring \<Rightarrow> PromptRequest" where
  "firstRequest h agent kind userMessage env sid =
     promptRequest agent sid (if kind = KStatic then re_workspaceDir env else re_outputDir env)
       (\<not> isCustomProvider (am_providerID (as_model (oa_spec agent))))
       (Some (of_schema (as_outputFormat (oa_spec agent)), agentRetryCount agent)) (contractedMessage h agent userMessage)"

definition secondRequest :: "OpenCodeAgent \<Rightarrow> AgentKind \<Rightarrow> RunnerEnv \<Rightarrow> jsstring \<Rightarrow> PromptRequest" where
  "secondRequest agent kind env sid =
     promptRequest agent sid (if kind = KStatic then re_workspaceDir env else re_outputDir env) False None AGAIN_TEXT"

lemma promptWork_log:
  assumes "promptWork h (loggedOC promptLog oc) agent kind msg env (l, w) = (r, l', w')"
  shows "l' = l \<or> (\<exists>sid. \<exists>k \<le> againAttempts agent.
    l' = l @ firstRequest h agent kind msg env sid # replicate k (secondRequest agent kind env sid))"
proof -
  let ?dir = "if kind = KStatic then re_workspaceDir env else re_outputDir env"
  let ?timeout = "Runner (AgentTimeoutError (agentName agent) (agentTimeout agent))"
  obtain s w1 where s: "oc_session oc (re_runName env @ J ''/'' @ agentName agent) ?dir w = (s, w1)" by force
  show ?thesis
  proof (cases "\<exists>session sid. s = Some (Inr session) \<and> sy_error session = None \<and> sy_id session = Some sid")
    case False
    with assms s show ?thesis
      by (auto simp: promptWork_def promptLog_simps Let_def split: option.splits sum.splits)
  next
    case True
    then obtain session sid where session: "s = Some (Inr session)" "sy_error session = None" "sy_id session = Some sid" by blast
    let ?q = "firstRequest h agent kind msg env sid"
    obtain p w2 where p: "oc_prompt oc ?q w1 = (p, w2)" by force
    show ?thesis
    proof (cases "\<exists>result info parts. p = Some (Inr result) \<and> py_error result = None \<and> py_data result = Some (info, parts)")
      case False
      with assms s session p have "l' = l @ [?q]"
        by (auto simp: promptWork_def promptLog_simps Let_def firstRequest_def split: option.splits sum.splits)
      then show ?thesis by (intro disjI2 exI [of _ sid] exI [of _ 0]) simp
    next
      case True
      then obtain result info parts where "p = Some (Inr result)" "py_error result = None" "py_data result = Some (info, parts)"
        by blast
      with assms s session p
      have "answerOfReply h (loggedOC promptLog oc) agent (secondRequest agent kind env sid) ?timeout info parts (l @ [?q], w2) = (r, l', w')"
        by (simp add: promptWork_def promptLog_simps Let_def firstRequest_def secondRequest_def)
      from answerOfReply_log [OF this] obtain k where "k \<le> againAttempts agent"
        "l' = l @ ?q # replicate k (secondRequest agent kind env sid)" by auto
      then show ?thesis by blast
    qed
  qed
qed

lemma runAgentPrompt_log:
  assumes "runAgentPrompt h (loggedOC promptLog oc) agent kind msg env (l, w) = (r, l', w')"
  shows "l' = l \<or> (\<exists>sid. \<exists>k \<le> againAttempts agent.
    l' = l @ firstRequest h agent kind msg env sid # replicate k (secondRequest agent kind env sid))"
proof -
  obtain t w1 where t: "oc_now oc w = (t, w1)" by force
  let ?c = "opencodeConfig (oc_headers (loggedOC promptLog oc) (l, w1)) agent env"
  obtain b w2 where b: "oc_boot oc ?c (re_opencodePort env) w1 = (b, w2)" by force
  show ?thesis
  proof (cases b)
    case (Inl e)
    with assms t b show ?thesis by (auto simp: runAgentPrompt_def promptLog_simps)
  next
    case (Inr u)
    obtain a l1 w3 where a: "promptWork h (loggedOC promptLog oc) agent kind msg env (l, w2) = (a, l1, w3)" by (metis prod_cases3)
    with assms t b Inr have "l' = l1"
      by (auto simp: runAgentPrompt_def promptLog_simps split: sum.splits prod.splits)
    with promptWork_log [OF a] show ?thesis by simp
  qed
qed

section \<open>What an answer can be: lemmas\<close>

lemma extractJson_shape: "extractJsonFromTextParts h parts = Some v \<Longrightarrow> v \<noteq> JNull"
  by (auto simp: extractJsonFromTextParts_def Let_def split: option.splits if_splits)

lemma extractStructured_shape: "extractStructuredOutput info = Some v \<Longrightarrow> v \<noteq> JNull"
  by (auto simp: extractStructuredOutput_def notNull_def split: option.splits if_splits)

section \<open>Properties\<close>

text \<open>
  C24. A model that answers in prose is still understood: when its text, code fences removed, is some
  prose without brackets followed by a well-bracketed JSON object or array, then exactly that object
  or array is parsed, whatever follows it and whatever brackets and quotes its string literals
  contain; it is returned if it parses to an object or array.
\<close>

theorem answer_json_recovered:
  assumes "stripFences (joinS [10] (map partText parts)) = prose @ a # body @ b # rest"
    and "123 \<notin> set prose" "91 \<notin> set prose"
    and "a = 123 \<and> b = 125 \<or> a = 91 \<and> b = 93" "balanced a b body"
  shows "extractJsonFromTextParts h parts =
    (case hParse h (a # body @ [b]) of
       Some (JObj o') \<Rightarrow> Some (JObj o') | Some (JArr vs) \<Rightarrow> Some (JArr vs) | _ \<Rightarrow> None)"
proof -
  let ?u = "prose @ a # body @ b # rest"
  have ab: "a \<noteq> 34" "b \<noteq> 34" "a \<noteq> b" "a = 123 \<or> a = 91" "(if a = 123 then 125 else 93) = b" using assms(4) by auto
  have close: "findClose a b (drop (length prose) ?u) (length prose) 0 False False = Some (length prose + length body + 1)"
    using findClose_whole [OF ab(1-3) assms(5)] by simp
  have slice: "sliceS ?u (length prose) (length prose + length body + 1 + 1) = a # body @ [b]"
    by (simp add: sliceS_def)
  show ?thesis
    unfolding extractJsonFromTextParts_def assms(1) Let_def firstOpen_at [OF assms(2,3) ab(4)]
    using close slice ab(5) by (simp add: nth_append split: option.split jsval.split)
qed

theorem answer_json_recovered_witness:
  "extractJsonFromTextParts (sampleHost [(J ''{}'', JObj [])])
     [\<lparr>pt_type = J ''text'', pt_text = Some (J ''Sure: {} bye'')\<rparr>] = Some (JObj [])"
proof -
  have "stripFences (joinS [10] (map partText [\<lparr>pt_type = J ''text'', pt_text = Some (J ''Sure: {} bye'')\<rparr>])) =
      J ''Sure: '' @ 123 # [] @ 125 # J '' bye''" by code_simp
  moreover have "123 \<notin> set (J ''Sure: '')" "91 \<notin> set (J ''Sure: '')" by code_simp+
  moreover have "hParse (sampleHost [(J ''{}'', JObj [])]) (123 # [] @ [125]) = Some (JObj [])" by code_simp
  ultimately show ?thesis
    using answer_json_recovered [where body = "[]" and a = 123 and b = 125] balanced.empty by force
qed

text \<open>
  A persona costs a bounded number of model calls and never gets a usable tool: whatever the
  OpenCode server answers, one run sends at most one prompt with the evidence and at most two short
  repeats, all in the session it created; a provider outside the catalog is offered no tool at all,
  and a catalog provider only the pair its free tier demands, which the boot configuration denies.
\<close>

theorem prompts_bounded_and_toolless:
  assumes "runAgentPrompt h (loggedOC promptLog oc) agent kind msg env (sent, w) = (r, sent', w')"
  shows "\<exists>requests. sent' = sent @ requests \<and> length requests \<le> 3 \<and>
    (\<exists>sid. \<forall>q \<in> set requests. pm_sessionID q = sid) \<and>
    (\<forall>q \<in> set (tl requests). pm_text q = AGAIN_TEXT) \<and>
    (requests \<noteq> [] \<longrightarrow> pm_text (hd requests) = contractedMessage h agent msg) \<and>
    (\<forall>q \<in> set requests. \<forall>(tool, on) \<in> set (pm_tools q). on \<longrightarrow>
       tool \<in> {J ''bash'', J ''read''} \<and> am_providerID (as_model (oa_spec agent)) \<in> {J ''opencode'', J ''anthropic''}) \<and>
    (\<exists>c. opencodeConfig (oc_headers oc w) agent env = JObj c \<and> fld c (J ''permission'') = Some (JStr (J ''deny'')))"
proof -
  have deny: "\<exists>c. opencodeConfig (oc_headers oc w) agent env = JObj c \<and> fld c (J ''permission'') = Some (JStr (J ''deny''))"
    by (simp add: opencodeConfig_def)
  from runAgentPrompt_log [OF assms] show ?thesis
  proof (elim disjE exE conjE)
    assume "sent' = sent"
    with deny show ?thesis by (intro exI [of _ "[]"]) simp
  next
    fix sid k
    assume k: "k \<le> againAttempts agent"
      and l: "sent' = sent @ firstRequest h agent kind msg env sid # replicate k (secondRequest agent kind env sid)"
    have tools: "\<forall>(tool, on) \<in> set (toolsForKind g). on \<longrightarrow> tool \<in> {J ''bash'', J ''read''} \<and> g" for g
      by (auto simp: toolsForKind_def)
    let ?rs = "firstRequest h agent kind msg env sid # replicate k (secondRequest agent kind env sid)"
    have "length ?rs \<le> 3" using k againAttempts_le [of agent] by simp
    moreover have "\<forall>q \<in> set ?rs. pm_sessionID q = sid"
      by (auto simp: firstRequest_def secondRequest_def promptRequest_def)
    moreover have "\<forall>q \<in> set ?rs. \<forall>(tool, on) \<in> set (pm_tools q). on \<longrightarrow>
       tool \<in> {J ''bash'', J ''read''} \<and> am_providerID (as_model (oa_spec agent)) \<in> {J ''opencode'', J ''anthropic''}"
      using tools [of True] tools [of False] tools [of "\<not> isCustomProvider (am_providerID (as_model (oa_spec agent)))"]
      by (auto simp: firstRequest_def secondRequest_def promptRequest_def isCustomProvider_def CATALOG_PROVIDERS_def)
    moreover have "\<forall>q \<in> set (tl ?rs). pm_text q = AGAIN_TEXT" "pm_text (hd ?rs) = contractedMessage h agent msg"
      by (auto simp: firstRequest_def secondRequest_def promptRequest_def)
    ultimately show ?thesis using l deny by (intro exI [of _ ?rs]) blast
  qed
qed

text \<open>A server that boots, opens a session and answers every prompt with the same parts.\<close>

definition scriptedOC :: "Part list \<Rightarrow> nat OpenCode" where
  "scriptedOC parts =
     \<lparr>oc_boot = (\<lambda>c p w. (Inr (), w)),
      oc_session = (\<lambda>t d w. (Some (Inr \<lparr>sy_error = None, sy_id = Some (J ''s1'')\<rparr>), w)),
      oc_prompt = (\<lambda>q w. (Some (Inr \<lparr>py_error = None, py_data = Some
         (\<lparr>mg_structured = None, mg_structured_output = None, mg_error = None\<rparr>, parts)\<rparr>), Suc w)),
      oc_close = (\<lambda>w. w), oc_headers = (\<lambda>w. []), oc_now = (\<lambda>w. (0, w))\<rparr>"

definition sampleAgent :: "string \<Rightarrow> string \<Rightarrow> string \<Rightarrow> OpenCodeAgent" where
  "sampleAgent name role provider =
     \<lparr>oa_apiVersion = apiVersionDefault,
      oa_metadata = \<lparr>om_name = J name, om_namespace = None, om_uid = None, om_labels = None, om_annotations = None\<rparr>,
      oa_spec = \<lparr>as_role = J role,
        as_model = \<lparr>am_providerID = J provider, am_modelID = J ''m'', am_contextTokens = None\<rparr>,
        as_config = \<lparr>ac_timeoutMs = None, ac_retryCount = None\<rparr>, as_systemPrompt = J ''judge'',
        as_outputFormat = \<lparr>of_schema = []\<rparr>\<rparr>\<rparr>"

definition sampleEnv :: RunnerEnv where
  "sampleEnv =
     \<lparr>re_runName = J ''run'', re_runNamespace = J ''ns'', re_serverName = J ''srv'', re_agentNames = [J ''dyn''],
      re_transport = Stdio, re_targetPort = 8080, re_workspaceDir = J ''/workspace'', re_ipcDir = J ''/ipc'',
      re_outputDir = J ''/output'', re_opencodePort = 4096, re_dryRun = False, re_vigilUrl = J ''http://vigil'',
      re_vigilGpuUrl = None, re_vigilEnabled = True, re_vigilEnforce = True, re_vigilTimeoutMs = 1000,
      re_vigilMaxPayloadBytes = 65536, re_vigilTransformerThreshold = 1 / 2, re_occludraBaseUrl = J ''http://occludra'',
      re_occludraEnabled = True, re_meshProxyUrl = None, re_meshBridgePort = 18080, re_meshReadyTimeoutMs = 60000\<rparr>"

text \<open>A custom provider that never answers with JSON is asked three times.\<close>

theorem prompts_bounded_and_toolless_witness:
  "\<exists>requests. fst (snd (runAgentPrompt (sampleHost []) (loggedOC promptLog (scriptedOC [])) (sampleAgent ''a'' ''r'' ''nim'')
      KGeneric [] sampleEnv ([], 0))) = requests \<and>
     length requests = 3 \<and> (\<forall>q \<in> set (tl requests). pm_text q = AGAIN_TEXT)"
proof -
  let ?run = "runAgentPrompt (sampleHost []) (loggedOC promptLog (scriptedOC [])) (sampleAgent ''a'' ''r'' ''nim'') KGeneric [] sampleEnv ([], 0)"
  have "length (fst (snd ?run)) = 3" by code_simp
  moreover obtain r sent' w' where run: "?run = (r, sent', w')" by (metis prod_cases3)
  ultimately show ?thesis using prompts_bounded_and_toolless [OF run] by (intro exI [of _ sent']) auto
qed

end
