(* ===== verification/Fuzz.thy ===== *)
theory Fuzz
  imports Regex Transport
begin

text \<open>
  Schema-driven fuzzing: \<^verbatim>\<open>src/runner/src/fuzz.ts\<close>. Benign arguments and fuzz cases are functions of the
  tool's schema, which the target chooses. The run drives the client through an interface of a few
  operations over a world \<open>'w\<close> that stands for the client, its target and the clock.
\<close>

section \<open>Payload corpora\<close>

text \<open>The numbers are the exact values of the doubles that the literals denote.\<close>

definition BOUNDARY_NUMBERS :: "jsnum list" where
  "BOUNDARY_NUMBERS = map Fin [0, - 1, 1, 9007199254740991, - 9007199254740991,
     5010420900022432 * 2 ^ 971, 4722366482869645 / 2 ^ 72]"

text \<open>A backslash cannot be written in a string literal here; \<open>bs\<close> puts it in.\<close>

definition bs :: jsstring where "bs = [92]"

definition PATH_TRAVERSAL :: "jsstring list" where
  "PATH_TRAVERSAL =
     [J ''../../etc/passwd'', J ''../../../../../../etc/passwd'', J ''/etc/passwd'',
      J ''..'' @ bs @ J ''..'' @ bs @ J ''windows'' @ bs @ J ''win.ini'',
      J ''/proc/self/environ'', J ''file:///etc/passwd'', J ''%2e%2e%2f%2e%2e%2fetc%2fpasswd'']"

definition COMMAND_INJECTION :: "jsstring list" where
  "COMMAND_INJECTION =
     [J ''; id'', J ''$(id)'', [96] @ J ''id'' @ [96], J ''| id'', J ''&& id'', [39] @ J ''; id; '' @ [39],
      [10] @ J '' id '' @ [10], J ''$(sleep 3)'']"

definition UNICODE_STRINGS :: "jsstring list" where
  "UNICODE_STRINGS =
     [[8238] @ J ''evil'' @ [8236], J ''caf'' @ [233, 769], [0] @ J ''null-byte'',
      J ''a'' @ [8203] @ J ''b'' @ [8204] @ J ''c'' @ [8205] @ J ''d'', [65533, 65534],
      repeatS 16 [55357, 56832, 55357, 56613, 55357, 56485],
      [1605, 1585, 1581, 1576, 1575]]"

definition PROTOTYPE_KEYS :: "jsstring list" where
  "PROTOTYPE_KEYS = [J ''__proto__'', J ''constructor'', J ''prototype'']"

definition bigString :: "nat \<Rightarrow> jsstring" where
  "bigString n = repeatS n (J ''A'')"

fun deepObject :: "nat \<Rightarrow> jsval" where
  "deepObject 0 = JObj [(J ''leaf'', JBool True)]"
| "deepObject (Suc d) = JObj [(J ''nested'', deepObject d)]"

definition hugeArray :: "nat \<Rightarrow> jsval" where
  "hugeArray n = JArr (map jnat [0..<n])"

section \<open>Schema helpers\<close>

record PropertyInfo =
  pi_name :: jsstring
  pi_schema :: JsonSchema
  pi_type :: jsstring
  pi_required :: bool

definition schemaType :: "JsonSchema \<Rightarrow> jsstring" where
  "schemaType schema =
     (case fld schema (J ''type'') of
        Some (JStr t) \<Rightarrow> t
      | Some (JArr (JStr t # _)) \<Rightarrow> t
      | _ \<Rightarrow>
          if asArr (fld schema (J ''enum'')) \<noteq> None then J ''string''
          else if isRecord (fld schema (J ''properties'')) then J ''object''
          else if fld schema (J ''items'') \<noteq> None then J ''array''
          else J ''string'')"

definition propertyInfo :: "jsval list \<Rightarrow> jsstring \<Rightarrow> jsval \<Rightarrow> PropertyInfo" where
  "propertyInfo required name value =
     (let propSchema = (case asRec (Some value) of Some o' \<Rightarrow> o' | None \<Rightarrow> []) in
      \<lparr>pi_name = name, pi_schema = propSchema, pi_type = schemaType propSchema,
       pi_required = JStr name \<in> set required\<rparr>)"

definition listProperties :: "JsonSchema option \<Rightarrow> PropertyInfo list" where
  "listProperties schema =
     (case schema of
        None \<Rightarrow> []
      | Some s \<Rightarrow>
          let props = (case asRec (fld s (J ''properties'')) of Some o' \<Rightarrow> o' | None \<Rightarrow> []);
              required = (case asArr (fld s (J ''required'')) of Some xs \<Rightarrow> xs | None \<Rightarrow> [])
          in map (\<lambda>(name, value). propertyInfo required name value) props)"

lemma listProperties_type: "p \<in> set (listProperties s) \<Longrightarrow> pi_type p = schemaType (pi_schema p)"
  by (auto simp: listProperties_def propertyInfo_def Let_def split: option.splits)

text \<open>
  \<open>s.repeat(n)\<close>. The count is truncated to an integer; a negative or infinite count, and a result
  longer than a string can be (V8: $2^{29} - 24$ units), throw a \<open>RangeError\<close>.
\<close>

definition MAX_STRING_LENGTH :: nat where
  "MAX_STRING_LENGTH = 2 ^ 29 - 24"

definition invalidCount :: "host \<Rightarrow> jsnum \<Rightarrow> thrown" where
  "invalidCount h n = BuiltinError (J ''RangeError'') (J ''Invalid count value: '' @ hNumStr h n)"

definition invalidLength :: thrown where
  "invalidLength = BuiltinError (J ''RangeError'') (J ''Invalid string length'')"

definition jsRepeat :: "host \<Rightarrow> jsstring \<Rightarrow> jsnum \<Rightarrow> thrown + jsstring" where
  "jsRepeat h s n =
     (case n of
        Fin q \<Rightarrow>
          if q \<le> - 1 then Inl (invalidCount h n)
          else let k = nat \<lfloor>q\<rfloor> in
            if MAX_STRING_LENGTH < k * length s then Inl invalidLength else Inr (repeatS k s)
      | NaN \<Rightarrow> Inr []
      | _ \<Rightarrow> Inl (invalidCount h n))"

text \<open>\<open>a - k\<close> for a whole number \<open>k\<close>; on doubles the difference is exact in the range where it matters.\<close>

fun minusN :: "jsnum \<Rightarrow> rat \<Rightarrow> jsnum" where
  "minusN (Fin q) k = Fin (q - k)"
| "minusN n k = n"

text \<open>The number of rounds of \<open>for (let i = 0; i < n; i++)\<close>.\<close>

fun rounds :: "jsnum \<Rightarrow> nat" where
  "rounds (Fin q) = nat \<lceil>q\<rceil>"
| "rounds _ = 0"

definition benignString :: "host \<Rightarrow> JsonSchema \<Rightarrow> thrown + jsval" where
  "benignString h schema =
     (let format = (case asStr (fld schema (J ''format'')) of Some f \<Rightarrow> f | None \<Rightarrow> []);
          minLength = (case asNum (fld schema (J ''minLength'')) of Some n \<Rightarrow> n | None \<Rightarrow> Fin 0);
          base = J ''example''
      in if format = J ''uri'' \<or> format = J ''url'' then Inr (JStr (J ''http://127.0.0.1/''))
         else if format = J ''email'' then Inr (JStr (J ''user@example.com''))
         else if format = J ''date-time'' then Inr (JStr (J ''2024-01-01T00:00:00Z''))
         else if format = J ''date'' then Inr (JStr (J ''2024-01-01''))
         else if leN minLength (Fin 7) then Inr (JStr base)
         else bindR (jsRepeat h (J ''x'') (minusN minLength 7)) 
                (\<lambda>pad. if MAX_STRING_LENGTH < length base + length pad then Inl invalidLength else Inr (JStr (base @ pad))))"

definition belowOne :: "jsnum option \<Rightarrow> jsval" where
  "belowOne hi = (case hi of Some n \<Rightarrow> if ltN n (Fin 1) then JNum n else JNum (Fin 1) | None \<Rightarrow> JNum (Fin 1))"

definition benignNumber :: "JsonSchema \<Rightarrow> jsval" where
  "benignNumber schema =
     (let lo = asNum (fld schema (J ''minimum'')); hi = asNum (fld schema (J ''maximum'')) in
      case lo of
        Some n \<Rightarrow> if ltN (Fin 1) n then JNum n else belowOne hi
      | None \<Rightarrow> belowOne hi)"

text \<open>The value a schema names itself: \<open>example\<close>, \<open>examples\<close>, \<open>default\<close>, \<open>enum\<close> or \<open>const\<close>, in this order.\<close>

definition firstOf :: "jsval option \<Rightarrow> jsval option" where
  "firstOf v = (case asArr v of Some (x # _) \<Rightarrow> Some x | _ \<Rightarrow> None)"

fun firstSome :: "'a option list \<Rightarrow> 'a option" where
  "firstSome [] = None"
| "firstSome (Some x # _) = Some x"
| "firstSome (None # xs) = firstSome xs"

definition givenValue :: "JsonSchema \<Rightarrow> jsval option" where
  "givenValue schema = firstSome
     [fld schema (J ''example''), firstOf (fld schema (J ''examples'')), fld schema (J ''default''),
      firstOf (fld schema (J ''enum'')), fld schema (J ''const'')]"

text \<open>\<open>schema["anyOf"] ?? schema["oneOf"]\<close>, and the object at its head.\<close>

definition alternative :: "JsonSchema \<Rightarrow> JsonSchema option" where
  "alternative schema =
     asRec (firstOf (case fld schema (J ''anyOf'') of
       None \<Rightarrow> fld schema (J ''oneOf'') | Some JNull \<Rightarrow> fld schema (J ''oneOf'') | v \<Rightarrow> v))"

text \<open>Effects over a list: the first error ends the traversal.\<close>

fun mapR :: "('a \<Rightarrow> 'e + 'b) \<Rightarrow> 'a list \<Rightarrow> 'e + 'b list" where
  "mapR f [] = Inr []"
| "mapR f (x # xs) = bindR (f x) (\<lambda>y. bindR (mapR f xs) (\<lambda>ys. Inr (y # ys)))"

lemma mapR_cong [fundef_cong]:
  assumes "xs = ys" "\<And>x. x \<in> set ys \<Longrightarrow> f x = g x"
  shows "mapR f xs = mapR g ys"
  using assms(2) unfolding assms(1) by (induction ys) simp_all

definition assignAll :: "(jsstring \<times> jsval) list \<Rightarrow> jsobj" where
  "assignAll kvs = foldl (\<lambda>o' (k, v). assignProp o' k v) [] kvs"

function benignValue :: "host \<Rightarrow> JsonSchema \<Rightarrow> nat \<Rightarrow> thrown + jsval" where
  "benignValue h schema depth =
     (if depth > 6 then Inr JNull
      else case givenValue schema of
        Some v \<Rightarrow> Inr v
      | None \<Rightarrow>
          case alternative schema of
            Some alt \<Rightarrow> benignValue h alt (depth + 1)
          | None \<Rightarrow>
              let t = schemaType schema in
              if t = J ''string'' then benignString h schema
              else if t = J ''integer'' \<or> t = J ''number'' then Inr (benignNumber schema)
              else if t = J ''boolean'' then Inr (JBool False)
              else if t = J ''null'' then Inr JNull
              else if t = J ''array'' then
                let items = (case asRec (fld schema (J ''items'')) of Some o' \<Rightarrow> o' | None \<Rightarrow> []);
                    minItems = (case asNum (fld schema (J ''minItems'')) of Some n \<Rightarrow> n | None \<Rightarrow> Fin 0)
                in bindR (mapR (\<lambda>_. benignValue h items (depth + 1))
                            [0..<rounds (maxN (Fin 1) (minN minItems (Fin 3)))])
                     (\<lambda>arr. Inr (JArr arr))
              else if t = J ''object'' then
                bindR (mapR (\<lambda>prop. bindR (benignValue h (pi_schema prop) (depth + 1)) (\<lambda>v. Inr (pi_name prop, v)))
                         (filter (\<lambda>prop. pi_required prop \<or> depth = 0) (listProperties (Some schema))))
                  (\<lambda>kvs. Inr (JObj (assignAll kvs)))
              else Inr (JStr (J ''example'')))"
  by pat_completeness auto
termination by (relation "measure (\<lambda>(h, schema, depth). 7 - depth)") auto

declare benignValue.simps [simp del]

definition EMPTY_SCHEMA :: JsonSchema where
  "EMPTY_SCHEMA = [(J ''type'', JStr (J ''object'')), (J ''properties'', JObj [])]"

definition toolSchema :: "McpToolDefinition \<Rightarrow> JsonSchema" where
  "toolSchema tool = (case td_inputSchema tool of Some s \<Rightarrow> s | None \<Rightarrow> EMPTY_SCHEMA)"

definition benignArgs :: "host \<Rightarrow> McpToolDefinition \<Rightarrow> thrown + jsobj" where
  "benignArgs h tool =
     bindR (benignValue h (toolSchema tool) 0) (\<lambda>value. Inr (case asRec (Some value) of Some o' \<Rightarrow> o' | None \<Rightarrow> []))"

definition mismatchedValue :: "jsstring \<Rightarrow> jsval" where
  "mismatchedValue t =
     (if t = J ''string'' then JNum (Fin 12345)
      else if t = J ''integer'' \<or> t = J ''number'' then JStr (J ''not-a-number'')
      else if t = J ''boolean'' then JStr (J ''true'')
      else if t = J ''array'' then JObj [(J ''not'', JStr (J ''an array''))]
      else if t = J ''object'' then JStr (J ''not-an-object'')
      else JArr [JNum (Fin 1), JNum (Fin 2), JNum (Fin 3)])"

section \<open>Case generation\<close>

fun typeofV :: "jsval \<Rightarrow> jsstring" where
  "typeofV (JBool _) = J ''boolean''"
| "typeofV (JNum _) = J ''number''"
| "typeofV (JStr _) = J ''string''"
| "typeofV _ = J ''object''"

type_synonym plan = "(FuzzCategory \<times> jsstring \<times> jsval) list"

text \<open>\<open>withProp\<close>: \<open>{ ...base, [name]: value }\<close>.\<close>

definition withProp :: "jsobj \<Rightarrow> jsstring \<Rightarrow> jsval \<Rightarrow> jsval" where
  "withProp base name value = JObj (defineProp base name value)"

definition requiredCases :: "jsobj \<Rightarrow> PropertyInfo \<Rightarrow> plan" where
  "requiredCases base p =
     [(FNullRequired, J ''required '' @ quot (pi_name p) @ J '' = null'', withProp base (pi_name p) JNull),
      (FMissingRequired, J ''required '' @ quot (pi_name p) @ J '' omitted'', JObj (deleteProp base (pi_name p)))]"

definition mismatchCase :: "jsobj \<Rightarrow> PropertyInfo \<Rightarrow> plan" where
  "mismatchCase base p =
     [(FTypeMismatch,
       quot (pi_name p) @ J '' ('' @ pi_type p @ J '') given '' @ typeofV (mismatchedValue (pi_type p)),
       withProp base (pi_name p) (mismatchedValue (pi_type p)))]"

definition boundaryCases :: "host \<Rightarrow> jsobj \<Rightarrow> PropertyInfo \<Rightarrow> plan" where
  "boundaryCases h base p =
     (let eq = quot (pi_name p) @ J '' = ''; t = pi_type p; put = withProp base (pi_name p);
          strs = (\<lambda>cat ss. map (\<lambda>s. (cat, eq @ hStringify h (JStr s), put (JStr s))) ss)
      in if t = J ''integer'' \<or> t = J ''number'' then
           map (\<lambda>n. (FBoundary, eq @ hNumStr h n, put (JNum n))) BOUNDARY_NUMBERS @
           [(FBoundary, eq @ J ''NaN-as-string'', put (JStr (J ''NaN'')))]
         else if t = J ''string'' then
           [(FBoundary, eq @ quot [], put (JStr [])),
            (FOversize, eq @ J ''64KB string'', put (JStr (bigString (64 * 1024))))] @
           strs FPathTraversal PATH_TRAVERSAL @ strs FCommandInjection COMMAND_INJECTION @
           strs FUnicode UNICODE_STRINGS
         else if t = J ''array'' then
           [(FBoundary, eq @ J ''[]'', put (JArr [])),
            (FOversize, eq @ J ''100k-element array'', put (hugeArray 100000))]
         else if t = J ''object'' then
           [(FBoundary, eq @ J ''{}'', put (JObj [])),
            (FDeepNesting, eq @ J ''500-deep nested object'', put (deepObject 500))]
         else if t = J ''boolean'' then [(FTypeMismatch, eq @ J ''1'', put (JNum (Fin 1)))]
         else [])"

definition everyToolCases :: "jsobj \<Rightarrow> PropertyInfo list \<Rightarrow> plan" where
  "everyToolCases base props =
     [(FExtraProps, J ''unexpected extra property'',
       JObj (defineProp (defineProp base (J ''__unexpected_extra__'') (JStr (J ''x''))) (J ''zzz'') (JNum (Fin 1))))] @
     map (\<lambda>key. (FPrototypePollution, J ''key '' @ quot key @ J '' injected'',
                 withProp base key (JObj [(J ''polluted'', JBool True)]))) PROTOTYPE_KEYS @
     [(FDeepNesting, J ''arguments = 500-deep nested object'', deepObject 500),
      (FOversize, J ''arguments with 64KB string in every string prop'',
       JObj (foldl (\<lambda>o' p. if pi_type p = J ''string'' then assignProp o' (pi_name p) (JStr (bigString (64 * 1024))) else o')
               base props))]"

text \<open>The calls of \<open>add\<close> in the order in which \<open>generateFuzzCases\<close> makes them.\<close>

definition plannedCases :: "host \<Rightarrow> PropertyInfo list \<Rightarrow> jsobj \<Rightarrow> plan" where
  "plannedCases h props base =
     concat (map (requiredCases base) (filter pi_required props)) @
     [(FNullRequired, J ''arguments = null'', JNull), (FMissingRequired, J ''arguments = {}'', JObj [])] @
     concat (map (mismatchCase base) props) @
     concat (map (boundaryCases h base) props) @
     everyToolCases base props"

text \<open>\<open>add\<close>, with the counter it increments.\<close>

definition addCase :: "McpToolDefinition \<Rightarrow> nat \<Rightarrow> nat \<times> FuzzCase list \<Rightarrow> FuzzCategory \<times> jsstring \<times> jsval \<Rightarrow> nat \<times> FuzzCase list" where
  "addCase tool maxCases st c =
     (case (st, c) of
        ((counter, cases), (category, description, args)) \<Rightarrow>
          if length cases \<ge> maxCases then st
          else (counter + 1,
                cases @ [\<lparr>fc_id = td_name tool @ J ''#'' @ showNat (counter + 1), fc_tool = td_name tool,
                          fc_category = category, fc_description = description, fc_args = Some args,
                          fc_rawFrame = None\<rparr>]))"

definition generateFuzzCases :: "host \<Rightarrow> McpToolDefinition \<Rightarrow> nat \<Rightarrow> thrown + FuzzCase list" where
  "generateFuzzCases h tool maxCases =
     bindR (benignArgs h tool) (\<lambda>base.
       let props = listProperties (Some (toolSchema tool));
           cases = snd (foldl (addCase tool maxCases) (0, []) (plannedCases h props base))
       in Inr (take maxCases cases))"

record ProtocolCase =
  pc_id :: jsstring
  pc_description :: jsstring
  pc_rawFrame :: jsstring
  pc_expectId :: "nat option"

definition rpcObj :: "(string \<times> jsval) list \<Rightarrow> jsval" where
  "rpcObj kvs = JObj (map (\<lambda>(k, v). (J k, v)) kvs)"

definition proto :: "nat \<Rightarrow> string \<Rightarrow> jsstring \<Rightarrow> nat option \<Rightarrow> ProtocolCase" where
  "proto n description rawFrame expectId =
     \<lparr>pc_id = J ''proto#'' @ showNat n, pc_description = J description, pc_rawFrame = rawFrame, pc_expectId = expectId\<rparr>"

definition generateProtocolCases :: "host \<Rightarrow> ProtocolCase list" where
  "generateProtocolCases h =
     (let v2 = (''jsonrpc'', JStr (J ''2.0'')); list = (''method'', JStr (J ''tools/list''));
          call = (''method'', JStr (J ''tools/call'')); none = (''params'', JObj []);
          str = (\<lambda>kvs. hStringify h (rpcObj kvs))
      in [proto 1 ''malformed JSON (truncated)''
            (J ''{'' @ quot (J ''jsonrpc'') @ J '':'' @ quot (J ''2.0'') @ J '','' @ quot (J ''id'') @ J '':9001,'' @
             quot (J ''method'') @ J '':'' @ quot (J ''tools/list'')) None,
          proto 2 ''not JSON at all'' (J ''this is not json'') None,
          proto 3 ''missing jsonrpc field'' (str [(''id'', jnat 9003), list, none]) (Some 9003),
          proto 4 ''wrong jsonrpc version''
            (str [(''jsonrpc'', JStr (J ''1.0'')), (''id'', jnat 9004), list, none]) (Some 9004),
          proto 5 ''unknown method''
            (str [v2, (''id'', jnat 9005), (''method'', JStr (J ''evaluator/does_not_exist'')), none]) (Some 9005),
          proto 6 ''id as object (invalid type)''
            (str [v2, (''id'', rpcObj [(''bad'', JBool True)]), list, none]) None,
          proto 7 ''id as float'' (str [v2, (''id'', JNum (Fin (18015 / 2))), list, none]) None,
          proto 8 ''batch request''
            (hStringify h (JArr [rpcObj [v2, (''id'', jnat 9008), list, none],
               rpcObj [v2, (''id'', jnat 9009), (''method'', JStr (J ''prompts/list'')), none]])) (Some 9008),
          proto 9 ''params as array instead of object''
            (str [v2, (''id'', jnat 9010), call, (''params'', JArr [JStr (J ''a''), JStr (J ''b'')])]) (Some 9010),
          proto 10 ''method as number'' (str [v2, (''id'', jnat 9011), (''method'', jnat 42), none]) (Some 9011),
          proto 11 ''oversized frame (1MB)''
            (str [v2, (''id'', jnat 9012), call,
               (''params'', rpcObj [(''name'', JStr (J ''x'')),
                  (''arguments'', rpcObj [(''pad'', JStr (bigString (1024 * 1024)))])])]) (Some 9012),
          proto 12 ''empty object'' (J ''{}'') None,
          proto 13 ''notification with id null'' (str [v2, (''id'', JNull), list, none]) None,
          proto 14 ''tools/call missing name''
            (str [v2, (''id'', jnat 9014), call, (''params'', rpcObj [(''arguments'', JObj [])])]) (Some 9014),
          proto 15 ''tools/call unknown tool''
            (str [v2, (''id'', jnat 9015), call,
               (''params'', rpcObj [(''name'', JStr (J ''__evaluator_nonexistent_tool__'')), (''arguments'', JObj [])])]) (Some 9015),
          proto 16 ''resources/read invalid uri''
            (str [v2, (''id'', jnat 9016), (''method'', JStr (J ''resources/read'')),
               (''params'', rpcObj [(''uri'', JStr (J ''file:///etc/passwd''))])]) (Some 9016)])"

section \<open>What the generator produces\<close>

definition mkCase :: "McpToolDefinition \<Rightarrow> nat \<times> FuzzCategory \<times> jsstring \<times> jsval \<Rightarrow> FuzzCase" where
  "mkCase tool nc = (case nc of (n, category, description, args) \<Rightarrow>
     \<lparr>fc_id = td_name tool @ J ''#'' @ showNat n, fc_tool = td_name tool, fc_category = category,
      fc_description = description, fc_args = Some args, fc_rawFrame = None\<rparr>)"

lemma foldl_addCase:
  "length cs \<le> m \<Longrightarrow>
   snd (foldl (addCase tool m) (length cs, cs) plan) =
     cs @ map (mkCase tool) (enumerate (Suc (length cs)) (take (m - length cs) plan))"
proof (induction plan arbitrary: cs)
  case (Cons c plan)
  obtain category description args where c: "c = (category, description, args)" by (cases c)
  show ?case
  proof (cases "length cs = m")
    case True
    then have stay: "addCase tool m (length cs, cs) c = (length cs, cs)" by (simp add: addCase_def c)
    from Cons.IH [OF Cons.prems] True show ?thesis using stay by simp
  next
    case False
    with Cons.prems have lt: "length cs < m" by simp
    let ?cs = "cs @ [mkCase tool (Suc (length cs), c)]"
    have step: "addCase tool m (length cs, cs) c = (length ?cs, ?cs)"
      using lt by (simp add: addCase_def c mkCase_def)
    from lt obtain k where "m - length cs = Suc k" "m - length ?cs = k"
      by (metis Suc_diff_Suc length_append_singleton)
    with Cons.IH [of ?cs] lt show ?thesis by (simp only: foldl_Cons step) simp
  qed
qed simp

text \<open>The cases are the first \<open>maxCases\<close> of the plan, numbered from one.\<close>

lemma generateFuzzCases_plan:
  assumes "generateFuzzCases h tool m = Inr cs"
  obtains base where "benignArgs h tool = Inr base"
    "cs = map (mkCase tool) (enumerate 1 (take m (plannedCases h (listProperties (Some (toolSchema tool))) base)))"
proof -
  from assms obtain base where base: "benignArgs h tool = Inr base"
    and cs: "cs = take m (snd (foldl (addCase tool m) (0, []) (plannedCases h (listProperties (Some (toolSchema tool))) base)))"
    by (auto simp: generateFuzzCases_def bindR_eq_Inr Let_def)
  from foldl_addCase [of "[]" m tool] cs show ?thesis by (intro that [OF base]) simp
qed

lemma generateFuzzCases_length: "generateFuzzCases h tool m = Inr cs \<Longrightarrow> length cs \<le> m"
  by (auto simp: generateFuzzCases_def bindR_eq_Inr Let_def)

lemma hash_not_digit: "(35 :: jschar) \<notin> set (showNat n)"
  using set_showNat [of n] by (auto simp: subset_iff)

lemma case_id_inj: "a @ J ''#'' @ showNat n = b @ J ''#'' @ showNat m \<longleftrightarrow> a = b \<and> n = m"
proof
  assume eq: "a @ J ''#'' @ showNat n = b @ J ''#'' @ showNat m"
  have hash: "J ''#'' = [35]" by (simp add: J_def)
  have split: "takeWhile ((\<noteq>) 35) (rev (x @ J ''#'' @ showNat k)) = rev (showNat k)" for x :: jsstring and k
    using hash_not_digit [of k] by (simp add: hash takeWhile_append takeWhile_eq_all_conv)
  from eq have "rev (showNat n) = rev (showNat m)" using split [of a n] split [of b m] by simp
  then have n: "n = m" by simp
  with eq show "a = b \<and> n = m" by simp
qed simp

lemma mkCase_id: "fc_id (mkCase tool nc) = td_name tool @ J ''#'' @ showNat (fst nc)"
  by (simp add: mkCase_def split: prod.split)

lemma mkCase_category: "fc_category (mkCase tool (n, c)) = fst c" "fc_args (mkCase tool (n, c)) = Some (snd (snd c))"
  by (simp_all add: mkCase_def split: prod.split)

lemma set_enumerate_snd: "x \<in> set (enumerate n xs) \<Longrightarrow> snd x \<in> set xs"
proof -
  assume "x \<in> set (enumerate n xs)"
  then have "fst x - n < length xs" "xs ! (fst x - n) = snd x" by (auto simp: in_set_enumerate_eq)
  then show ?thesis by (metis nth_mem)
qed

lemma in_enumerate_fst: "c \<in> set xs \<Longrightarrow> \<exists>n. (n, c) \<in> set (enumerate k xs)"
proof -
  assume "c \<in> set xs"
  then obtain i where "i < length xs" "xs ! i = c" by (auto simp: in_set_conv_nth)
  then have "(k + i, c) \<in> set (enumerate k xs)" by (simp add: in_set_enumerate_eq)
  then show ?thesis by blast
qed

text \<open>A planned case whose place is below the cap is generated.\<close>

lemma planned_generated:
  assumes "generateFuzzCases h tool m = Inr cs" "benignArgs h tool = Inr base"
    "plannedCases h (listProperties (Some (toolSchema tool))) base = front @ rest" "length front \<le> m" "c \<in> set front"
  shows "\<exists>k \<in> set cs. fc_tool k = td_name tool \<and> fc_category k = fst c \<and> fc_args k = Some (snd (snd c))"
proof -
  from assms(4,5) have "c \<in> set (take m (front @ rest))" by (simp)
  then obtain n where "(n, c) \<in> set (enumerate 1 (take m (front @ rest)))" using in_enumerate_fst by metis
  moreover have "cs = map (mkCase tool) (enumerate 1 (take m (front @ rest)))"
    by (rule generateFuzzCases_plan [OF assms(1)]) (use assms(2,3) in simp)
  ultimately have "mkCase tool (n, c) \<in> set cs" by simp
  moreover have "fc_tool (mkCase tool (n, c)) = td_name tool" by (simp add: mkCase_def split: prod.split)
  ultimately show ?thesis using mkCase_category by metis
qed

definition schemaCases :: "PropertyInfo list \<Rightarrow> jsobj \<Rightarrow> plan" where
  "schemaCases props base =
     concat (map (requiredCases base) (filter pi_required props)) @
     [(FNullRequired, J ''arguments = null'', JNull), (FMissingRequired, J ''arguments = {}'', JObj [])] @
     concat (map (mismatchCase base) props)"

lemma length_schemaCases: "length (schemaCases props base) = 2 * length (filter pi_required props) + 2 + length props"
proof -
  have "length (concat (map (requiredCases base) ps)) = 2 * length ps" for ps
    by (induction ps) (simp_all add: requiredCases_def)
  moreover have "length (concat (map (mismatchCase base) ps)) = length ps" for ps
    by (induction ps) (simp_all add: mismatchCase_def)
  ultimately show ?thesis by (simp add: schemaCases_def)
qed

lemma plannedCases_schema:
  "plannedCases h props base =
     schemaCases props base @ concat (map (boundaryCases h base) props) @ everyToolCases base props"
  by (simp add: plannedCases_def schemaCases_def)

text \<open>The JSON types a schema names.\<close>

definition hasType :: "jsstring \<Rightarrow> jsval \<Rightarrow> bool" where
  "hasType t v \<longleftrightarrow>
     (t = J ''string'' \<and> (\<exists>s. v = JStr s)) \<or> ((t = J ''integer'' \<or> t = J ''number'') \<and> (\<exists>n. v = JNum n)) \<or>
     (t = J ''boolean'' \<and> (\<exists>b. v = JBool b)) \<or> (t = J ''array'' \<and> (\<exists>xs. v = JArr xs)) \<or>
     (t = J ''object'' \<and> (\<exists>o'. v = JObj o')) \<or> (t = J ''null'' \<and> v = JNull)"

lemma mismatch_ill_typed: "\<not> hasType t (mismatchedValue t)"
  by (auto simp: hasType_def mismatchedValue_def split: if_splits)

lemma string_boundary_count: "pi_type p = J ''string'' \<Longrightarrow> length (boundaryCases h base p) = 24"
  by (simp add: boundaryCases_def Let_def PATH_TRAVERSAL_def COMMAND_INJECTION_def UNICODE_STRINGS_def)

lemma boundary_categories:
  "c \<in> set (boundaryCases h base p) \<Longrightarrow> fst c \<noteq> FPrototypePollution \<and> fst c \<noteq> FExtraProps"
  by (auto simp: boundaryCases_def Let_def split: if_splits)

lemma schema_categories:
  "c \<in> set (schemaCases props base) \<Longrightarrow> fst c \<in> {FNullRequired, FMissingRequired, FTypeMismatch}"
  by (auto simp: schemaCases_def requiredCases_def mismatchCase_def)

section \<open>Benign values\<close>

lemma mapR_Inl_iff: "(\<exists>e. mapR f xs = Inl e) \<longleftrightarrow> (\<exists>x \<in> set xs. \<exists>e. f x = Inl e)"
proof (induction xs)
  case (Cons x xs)
  show ?case
  proof (cases "f x")
    case (Inr y)
    then have "(\<exists>e. mapR f (x # xs) = Inl e) \<longleftrightarrow> (\<exists>e. mapR f xs = Inl e)"
      by (cases "mapR f xs") simp_all
    with Cons Inr show ?thesis by simp
  qed simp
qed simp

lemma mapR_Inr_keys:
  "mapR (\<lambda>p. bindR (f p) (\<lambda>v. Inr (g p, v))) ps = Inr kvs \<Longrightarrow> map fst kvs = map g ps"
  by (induction ps arbitrary: kvs) (auto simp: bindR_eq_Inr)

lemma length_mapR: "mapR f xs = Inr ys \<Longrightarrow> length ys = length xs"
  by (induction xs arbitrary: ys) (auto simp: bindR_eq_Inr)

lemma assignAll_keeps:
  "fld o' k \<noteq> None \<Longrightarrow> fld (foldl (\<lambda>o' (k, v). assignProp o' k v) o' kvs) k \<noteq> None"
  by (induction kvs arbitrary: o') (auto simp: fld_assignProp split: if_splits)

lemma assignAll_has:
  assumes "k \<in> fst ` set kvs" "k \<noteq> J ''__proto__''"
  shows "fld (assignAll kvs) k \<noteq> None"
proof -
  have "fld (foldl (\<lambda>o' (k, v). assignProp o' k v) o' kvs) k \<noteq> None" if "k \<in> fst ` set kvs" for o' :: jsobj
    using that
  proof (induction kvs arbitrary: o')
    case (Cons kv kvs)
    obtain k' v where kv: "kv = (k', v)" by (cases kv)
    show ?case
    proof (cases "k' = k")
      case True
      then have "fld (assignProp o' k' v) k \<noteq> None" using assms(2) by (simp add: fld_assignProp)
      then show ?thesis using assignAll_keeps [of "assignProp o' k' v" k kvs] by (simp add: kv)
    next
      case False
      with Cons show ?thesis by (simp add: kv)
    qed
  qed simp
  with assms(1) show ?thesis by (simp add: assignAll_def)
qed

text \<open>The shape of the recursion where the schema names no value and no alternative.\<close>

lemma benignValue_plain:
  assumes "depth \<le> 6" "givenValue schema = None" "alternative schema = None"
  shows "schemaType schema = J ''string'' \<Longrightarrow> benignValue h schema depth = benignString h schema"
    "schemaType schema \<in> {J ''integer'', J ''number''} \<Longrightarrow> benignValue h schema depth = Inr (benignNumber schema)"
    "schemaType schema = J ''object'' \<Longrightarrow> benignValue h schema depth =
       bindR (mapR (\<lambda>prop. bindR (benignValue h (pi_schema prop) (depth + 1)) (\<lambda>v. Inr (pi_name prop, v)))
                (filter (\<lambda>prop. pi_required prop \<or> depth = 0) (listProperties (Some schema))))
         (\<lambda>kvs. Inr (JObj (assignAll kvs)))"
  using assms by (auto simp: benignValue.simps [of h schema depth])

lemma rounds_pos: "n \<noteq> NaN \<Longrightarrow> 1 \<le> rounds (maxN (Fin 1) (minN n (Fin 3)))"
  by (cases n) (auto simp: maxN_def minN_def le_nat_iff one_le_ceiling)

lemma benignString_length:
  assumes "benignString h schema = Inr v" "asStr (fld schema (J ''format'')) = None"
    "fld schema (J ''minLength'') = Some (JNum (Fin q))"
  shows "\<exists>s. v = JStr s \<and> \<lfloor>q\<rfloor> \<le> int (length s)"
proof (cases "q \<le> 7")
  case True
  with assms have "v = JStr (J ''example'')" by (simp add: benignString_def Let_def)
  moreover have "\<lfloor>q\<rfloor> \<le> 7" using True by linarith
  ultimately show ?thesis by simp
next
  case False
  with assms obtain pad where pad: "jsRepeat h (J ''x'') (Fin (q - 7)) = Inr pad"
    and v: "v = JStr (J ''example'' @ pad)"
    by (auto simp: benignString_def Let_def bindR_eq_Inr split: if_splits)
  from pad have "length pad = nat \<lfloor>q - 7\<rfloor>"
    by (auto simp: jsRepeat_def Let_def repeatS_def length_concat sum_list_replicate split: if_splits)
  moreover have "\<lfloor>q - 7\<rfloor> = \<lfloor>q\<rfloor> - 7" by linarith
  ultimately show ?thesis using v by simp
qed

lemma benignNumber_range:
  "\<exists>n. benignNumber schema = JNum n \<and>
     (\<forall>a b. fld schema (J ''minimum'') = Some (JNum (Fin a)) \<and> fld schema (J ''maximum'') = Some (JNum (Fin b)) \<and> a \<le> b \<longrightarrow>
        (\<exists>q. n = Fin q \<and> a \<le> q \<and> q \<le> b))"
  by (auto simp: benignNumber_def belowOne_def Let_def split: option.split)

lemma jsRepeat_too_long:
  "of_nat MAX_STRING_LENGTH + 1 \<le> q \<Longrightarrow> jsRepeat h (J ''x'') (Fin q) = Inl invalidLength"
proof -
  assume q: "of_nat MAX_STRING_LENGTH + 1 \<le> q"
  then have "int MAX_STRING_LENGTH + 1 \<le> \<lfloor>q\<rfloor>" by (simp add: le_floor_iff)
  moreover have "\<not> q \<le> - 1" using q of_nat_0_le_iff [of MAX_STRING_LENGTH, where ?'a = rat] by linarith
  ultimately show ?thesis by (simp add: jsRepeat_def Let_def)
qed

section \<open>A tool for concrete runs\<close>

definition objectSchema :: "(string \<times> jsobj) list \<Rightarrow> string list \<Rightarrow> JsonSchema" where
  "objectSchema props required =
     [(J ''type'', JStr (J ''object'')), (J ''properties'', JObj (map (\<lambda>(k, s). (J k, JObj s)) props)),
      (J ''required'', JArr (map (\<lambda>k. JStr (J k)) required))]"

definition sampleTool :: "string \<Rightarrow> JsonSchema \<Rightarrow> McpToolDefinition" where
  "sampleTool name schema =
     \<lparr>td_name = J name, td_description = None, td_inputSchema = Some schema, td_annotations = None\<rparr>"

definition searchSchema :: JsonSchema where
  "searchSchema = objectSchema [(''q'', [(J ''type'', JStr (J ''string'')), (J ''minLength'', JNum (Fin 9))])] [''q'']"

definition searchTool :: McpToolDefinition where
  "searchTool = sampleTool ''search'' searchSchema"

lemma J_neq_Cons: "J (c # cs) \<noteq> J []" by simp

lemma searchTool_props:
  "listProperties (Some (toolSchema searchTool)) =
     [\<lparr>pi_name = J ''q'', pi_schema = [(J ''type'', JStr (J ''string'')), (J ''minLength'', JNum (Fin 9))],
       pi_type = J ''string'', pi_required = True\<rparr>]"
  by (simp add: listProperties_def toolSchema_def searchTool_def sampleTool_def searchSchema_def objectSchema_def
      propertyInfo_def schemaType_def)

lemma searchSchema_plain:
  "toolSchema searchTool = searchSchema" "givenValue searchSchema = None" "alternative searchSchema = None"
  "schemaType searchSchema = J ''object''"
  by (simp_all add: toolSchema_def searchTool_def sampleTool_def searchSchema_def objectSchema_def givenValue_def
      alternative_def firstOf_def schemaType_def)

lemma searchTool_args: "benignArgs h searchTool = Inr [(J ''q'', JStr (J ''examplexx''))]"
proof -
  let ?q = "[(J ''type'', JStr (J ''string'')), (J ''minLength'', JNum (Fin 9))]"
  have two: "repeatS 2 (J ''x'') = J ''xx''" by (simp add: repeatS_def J_def numeral_2_eq_2)
  have "benignString h ?q = Inr (JStr (J ''examplexx''))"
    by (simp add: benignString_def jsRepeat_def MAX_STRING_LENGTH_def Let_def two) (simp add: J_def)
  moreover have "givenValue ?q = None" "alternative ?q = None" "schemaType ?q = J ''string''"
    by (simp_all add: givenValue_def alternative_def firstOf_def schemaType_def)
  ultimately have "benignValue h ?q (0 + 1) = Inr (JStr (J ''examplexx''))"
    using benignValue_plain(1) [of 1 ?q h] by simp
  then show ?thesis
    using benignValue_plain(3) [of 0 searchSchema h] searchSchema_plain searchTool_props
    by (simp add: benignArgs_def assignAll_def assignProp_def defineProp_def)
qed

lemma searchTool_cases: "\<exists>cs. generateFuzzCases h searchTool m = Inr cs"
  by (simp add: generateFuzzCases_def searchTool_args Let_def)

definition hugeTool :: McpToolDefinition where
  "hugeTool = sampleTool ''t'' (objectSchema
     [(''q'', [(J ''type'', JStr (J ''string'')), (J ''minLength'', JNum (Fin 1000000000))])] [])"

definition hugeProp :: PropertyInfo where
  "hugeProp = \<lparr>pi_name = J ''q'', pi_schema = [(J ''type'', JStr (J ''string'')), (J ''minLength'', JNum (Fin 1000000000))],
     pi_type = J ''string'', pi_required = False\<rparr>"

lemma hugeTool_facts:
  "givenValue (toolSchema hugeTool) = None" "alternative (toolSchema hugeTool) = None"
  "schemaType (toolSchema hugeTool) = J ''object''" "hugeProp \<in> set (listProperties (Some (toolSchema hugeTool)))"
  "pi_type hugeProp = J ''string''" "givenValue (pi_schema hugeProp) = None" "alternative (pi_schema hugeProp) = None"
  "asStr (fld (pi_schema hugeProp) (J ''format'')) = None"
  "fld (pi_schema hugeProp) (J ''minLength'') = Some (JNum (Fin 1000000000))"
  "of_nat MAX_STRING_LENGTH + 8 \<le> (1000000000 :: rat)"
  by (simp_all add: hugeTool_def hugeProp_def toolSchema_def sampleTool_def objectSchema_def givenValue_def alternative_def
      firstOf_def schemaType_def listProperties_def propertyInfo_def MAX_STRING_LENGTH_def)

section \<open>Properties\<close>

text \<open>
  Fuzz cases are bounded in number and can be told apart: at most \<open>maxCases\<close> are generated, all for
  the given tool, their identifiers are distinct, and tools of different names share none.
\<close>

theorem fuzz_case_ids_unique:
  assumes "generateFuzzCases h tool m = Inr cs" "generateFuzzCases h tool' m' = Inr cs'"
  shows "length cs \<le> m \<and> distinct (map fc_id cs) \<and> (\<forall>c \<in> set cs. fc_tool c = td_name tool) \<and>
     (td_name tool \<noteq> td_name tool' \<longrightarrow> set (map fc_id cs) \<inter> set (map fc_id cs') = {})"
proof -
  obtain plan plan' where cs: "cs = map (mkCase tool) (enumerate 1 (take m plan))"
    and cs': "cs' = map (mkCase tool') (enumerate 1 (take m' plan'))"
    using generateFuzzCases_plan [OF assms(1)] generateFuzzCases_plan [OF assms(2)] by metis
  have "map fc_id cs = map (\<lambda>n. td_name tool @ J ''#'' @ showNat n) (map fst (enumerate 1 (take m plan)))"
    unfolding cs map_map by (rule map_cong) (simp_all add: mkCase_id)
  moreover have "distinct (map fst (enumerate 1 (take m plan)))" by (simp only: map_fst_enumerate distinct_upt)
  ultimately have "distinct (map fc_id cs)" by (simp only: distinct_map) (auto simp: inj_on_def case_id_inj)
  moreover have "set (map fc_id cs) \<inter> set (map fc_id cs') = {}" if "td_name tool \<noteq> td_name tool'"
    using that by (auto simp: cs cs' mkCase_id case_id_inj)
  moreover have "\<forall>c \<in> set cs. fc_tool c = td_name tool" by (auto simp: cs mkCase_def split: prod.splits)
  ultimately show ?thesis by (simp add: cs)
qed

theorem fuzz_case_ids_unique_witness:
  "\<exists>cs. generateFuzzCases (sampleHost []) searchTool 25 = Inr cs \<and> length cs \<le> 25 \<and> distinct (map fc_id cs)"
proof -
  obtain cs where "generateFuzzCases (sampleHost []) searchTool 25 = Inr cs" using searchTool_cases by blast
  with fuzz_case_ids_unique [OF this this] show ?thesis by blast
qed

text \<open>
  The schema's own constraints are attacked first: as long as the cap leaves room for two cases
  per required property, one per property and two more, every required property is sent as null and
  left out, and every property is sent with a value of a type it does not have, the other arguments
  being the benign ones.
\<close>

theorem fuzz_cases_attack_schema:
  assumes "generateFuzzCases h tool m = Inr cs" "benignArgs h tool = Inr base"
    "props = listProperties (Some (toolSchema tool))" "p \<in> set props"
    "2 * length (filter pi_required props) + 2 + length props \<le> m"
  shows "(pi_required p \<longrightarrow>
       (\<exists>c \<in> set cs. \<exists>o'. fc_category c = FNullRequired \<and> fc_args c = Some (JObj o') \<and>
          fld o' = (fld base)(pi_name p \<mapsto> JNull)) \<and>
       (\<exists>c \<in> set cs. \<exists>o'. fc_category c = FMissingRequired \<and> fc_args c = Some (JObj o') \<and>
          fld o' = (fld base)(pi_name p := None))) \<and>
     (\<exists>c \<in> set cs. \<exists>o' v. fc_category c = FTypeMismatch \<and> fc_args c = Some (JObj o') \<and>
        fld o' = (fld base)(pi_name p \<mapsto> v) \<and> \<not> hasType (pi_type p) v)"
proof -
  have gen: "\<exists>k \<in> set cs. fc_tool k = td_name tool \<and> fc_category k = fst c \<and> fc_args k = Some (snd (snd c))"
    if "c \<in> set (schemaCases props base)" for c
    using planned_generated [OF assms(1,2) _ _ that] assms(3,5) plannedCases_schema
    by (metis length_schemaCases)
  have req: "set (requiredCases base p) \<subseteq> set (schemaCases props base)" if "pi_required p"
    using that assms(4) by (auto simp: schemaCases_def)
  have mis: "set (mismatchCase base p) \<subseteq> set (schemaCases props base)"
    using assms(4) by (auto simp: schemaCases_def)
  have null: "\<exists>c \<in> set cs. \<exists>o'. fc_category c = FNullRequired \<and> fc_args c = Some (JObj o') \<and>
      fld o' = (fld base)(pi_name p \<mapsto> JNull)" if "pi_required p"
    using gen [of "hd (requiredCases base p)"] req [OF that]
    by (fastforce simp: requiredCases_def withProp_def fld_defineProp)
  have missing: "\<exists>c \<in> set cs. \<exists>o'. fc_category c = FMissingRequired \<and> fc_args c = Some (JObj o') \<and>
      fld o' = (fld base)(pi_name p := None)" if "pi_required p"
    using gen [of "last (requiredCases base p)"] req [OF that]
    by (fastforce simp: requiredCases_def fld_deleteProp)
  have "\<exists>c \<in> set cs. \<exists>o' v. fc_category c = FTypeMismatch \<and> fc_args c = Some (JObj o') \<and>
      fld o' = (fld base)(pi_name p \<mapsto> v) \<and> \<not> hasType (pi_type p) v"
    using gen [of "hd (mismatchCase base p)"] mis mismatch_ill_typed [of "pi_type p"]
    by (fastforce simp: mismatchCase_def withProp_def fld_defineProp)
  with null missing show ?thesis by blast
qed

theorem fuzz_cases_attack_schema_witness:
  "\<exists>cs. generateFuzzCases (sampleHost []) searchTool 25 = Inr cs \<and>
     (\<exists>c \<in> set cs. \<exists>o'. fc_category c = FMissingRequired \<and> fc_args c = Some (JObj o') \<and> fld o' (J ''q'') = None)"
proof -
  obtain cs where cs: "generateFuzzCases (sampleHost []) searchTool 25 = Inr cs" using searchTool_cases by blast
  from fuzz_cases_attack_schema [OF cs searchTool_args refl, of "hd (listProperties (Some (toolSchema searchTool)))"]
  obtain c o' where c: "c \<in> set cs" "fc_category c = FMissingRequired" "fc_args c = Some (JObj o')"
    and o': "fld o' = (fld [(J ''q'', JStr (J ''examplexx''))])(J ''q'' := None)"
    by (auto simp: searchTool_props)
  from o' have "fld o' (J ''q'') = None" by (simp add: fun_upd_def)
  with c cs show ?thesis by blast
qed

text \<open>
  The cases meant for every tool are lost for most: with the cap of 25 that the evaluator uses, a
  tool with a string property is never sent an unexpected property or a prototype key.
\<close>

theorem string_tools_skip_prototype_cases:
  assumes "generateFuzzCases h tool 25 = Inr cs" "p \<in> set (listProperties (Some (toolSchema tool)))"
    "pi_type p = J ''string''" "c \<in> set cs"
  shows "fc_category c \<noteq> FPrototypePollution \<and> fc_category c \<noteq> FExtraProps"
proof -
  let ?props = "listProperties (Some (toolSchema tool))"
  obtain base where cs: "cs = map (mkCase tool) (enumerate 1 (take 25 (plannedCases h ?props base)))"
    using generateFuzzCases_plan [OF assms(1)] by metis
  let ?b = "concat (map (boundaryCases h base) ?props)"
  have "length (boundaryCases h base p) \<le> length ?b"
    using assms(2) by (auto simp: length_concat intro!: member_le_sum_list)
  then have "25 \<le> length (schemaCases ?props base @ ?b)"
    using string_boundary_count [OF assms(3), of h base] length_schemaCases [of ?props base] by simp
  then have "take 25 (plannedCases h ?props base) = take 25 (schemaCases ?props base @ ?b)"
    unfolding plannedCases_schema append_assoc [symmetric] by (subst take_append) simp
  with assms(4) obtain n k where "c = mkCase tool (n, k)" "k \<in> set (schemaCases ?props base @ ?b)"
    unfolding cs by (auto dest!: set_enumerate_snd in_set_takeD)
  then show ?thesis
    using schema_categories [of k ?props base] boundary_categories [of k h base] mkCase_category(1) [of tool n k] by auto
qed

theorem string_tools_skip_prototype_cases_witness:
  "\<exists>cs. generateFuzzCases (sampleHost []) searchTool 25 = Inr cs \<and> cs \<noteq> [] \<and>
     (\<forall>c \<in> set cs. fc_category c \<noteq> FPrototypePollution)"
proof -
  obtain cs where cs: "generateFuzzCases (sampleHost []) searchTool 25 = Inr cs" using searchTool_cases by blast
  have "cs \<noteq> []"
  proof -
    obtain base where "cs = map (mkCase searchTool) (enumerate 1 (take 25 (plannedCases (sampleHost [])
        (listProperties (Some (toolSchema searchTool))) base)))"
      using generateFuzzCases_plan [OF cs] by metis
    moreover have "0 < length (plannedCases hh ps base)" for hh ps by (simp add: plannedCases_schema length_schemaCases)
    ultimately have "0 < length cs" by (simp only: length_map length_enumerate length_take) simp
    then show ?thesis by simp
  qed
  with string_tools_skip_prototype_cases [OF cs] cs show ?thesis by (fastforce simp: searchTool_props)
qed



text \<open>
  A tool's schema can stop the fuzzer: when a string property asks for more units than a string can
  have, building the benign arguments throws, and so does generating the cases.
\<close>

lemma huge_min_length_throws:
  assumes "givenValue (toolSchema tool) = None" "alternative (toolSchema tool) = None"
    "schemaType (toolSchema tool) = J ''object''" "p \<in> set (listProperties (Some (toolSchema tool)))"
    "pi_type p = J ''string''" "givenValue (pi_schema p) = None" "alternative (pi_schema p) = None"
    "asStr (fld (pi_schema p) (J ''format'')) = None"
    "fld (pi_schema p) (J ''minLength'') = Some (JNum (Fin q))" "of_nat MAX_STRING_LENGTH + 8 \<le> q"
  shows "\<exists>e. benignArgs h tool = Inl e \<and> generateFuzzCases h tool m = Inl e"
proof -
  have "benignString h (pi_schema p) = Inl invalidLength"
    using assms(8-10) jsRepeat_too_long [of "q - 7" h] of_nat_0_le_iff [of MAX_STRING_LENGTH, where ?'a = rat]
    by (simp add: benignString_def Let_def)
  then have "benignValue h (pi_schema p) (0 + 1) = Inl invalidLength"
    using benignValue_plain(1) [of 1 "pi_schema p" h] assms(5-7) listProperties_type [OF assms(4)] by simp
  then have "\<exists>e. mapR (\<lambda>prop. bindR (benignValue h (pi_schema prop) (0 + 1)) (\<lambda>v. Inr (pi_name prop, v)))
      (filter (\<lambda>prop. pi_required prop \<or> (0 :: nat) = 0) (listProperties (Some (toolSchema tool)))) = Inl e"
    unfolding mapR_Inl_iff using assms(4) by (intro bexI [of _ p]) auto
  then have "\<exists>e. benignValue h (toolSchema tool) 0 = Inl e"
    using benignValue_plain(3) [of 0 "toolSchema tool" h] assms(1-3) by fastforce
  then show ?thesis by (auto simp: benignArgs_def generateFuzzCases_def)
qed

end
