(* ===== verification/Outcomes.thy ===== *)
theory Outcomes
  imports McpClient
begin

text \<open>
  What the client promises about the outcomes it settles its promises with: each is a result, an error
  of the target, or a failure of the transport, and never two of these. The fuzzer and the probes read
  outcomes through this contract.
\<close>

definition okOutcome :: "RpcOutcome \<Rightarrow> bool" where
  "okOutcome out \<longleftrightarrow> (\<exists>v l. out = success v l) \<or> (\<exists>e l. out = rpcError e l) \<or>
     (\<exists>hang crashed l t. out = failure hang crashed l t \<and> \<not> (hang \<and> crashed))"

definition settledOk :: "McpClient \<Rightarrow> bool" where
  "settledOk st \<longleftrightarrow> (\<forall>out \<in> snd ` set (mc_settled st). okOutcome out)"

lemma okOutcome_intros [intro, simp]:
  "okOutcome (success v l)" "okOutcome (rpcError e l)" "\<not> (hang \<and> crashed) \<Longrightarrow> okOutcome (failure hang crashed l t)"
  unfolding okOutcome_def by blast+

lemma settledOk_settle: "settledOk st \<Longrightarrow> okOutcome out \<Longrightarrow> settledOk (settle t out st)"
  by (auto simp: settledOk_def settle_def)

text \<open>Operations that settle nothing.\<close>

lemma settled_same [simp]:
  "mc_settled (clearTimer t st) = mc_settled st" "mc_settled (transportSend f st) = mc_settled st"
  "mc_settled (dispatch key m f now st) = mc_settled st" "mc_settled (request h m p now st) = mc_settled st"
  "mc_settled (sendRaw raw e now st) = mc_settled st" "mc_settled (notify h m p st) = mc_settled st"
  "mc_settled (recordMalformed raw d st) = mc_settled st" "mc_settled (takePending key pq now st) = mc_settled st"
  by (simp_all add: clearTimer_def transportSend_def dispatch_def request_def sendRaw_def notify_def
      recordMalformed_def takePending_def Let_def split: option.split)

lemma settledOk_cong: "settledOk st \<Longrightarrow> mc_settled st' = mc_settled st \<Longrightarrow> settledOk st'"
  by (simp add: settledOk_def)

lemma settledOk_timeout: "settledOk st \<Longrightarrow> settledOk (timeoutFires ticket now st)"
  unfolding timeoutFires_def Let_def
  by (auto split: option.split intro!: settledOk_settle elim: settledOk_cong)

lemma settledOk_sendFailed: "settledOk st \<Longrightarrow> settledOk (sendFailed h ticket key startedAt err now st)"
  unfolding sendFailed_def Let_def
  by (auto split: option.split intro!: settledOk_settle elim: settledOk_cong)

lemma rawOutcome_ok: "rawOutcome h raw l = Inr out \<Longrightarrow> okOutcome out"
  by (auto simp: rawOutcome_def Let_def bindR_eq_Inr split: option.splits)

lemma answerOf_ok: "answerOf m l = Some out \<Longrightarrow> okOutcome out"
  by (auto simp: answerOf_def split: option.splits)

lemma settledOk_resolveRawWaiter:
  assumes "settledOk st" "resolveRawWaiter h raw now st = (e, st')"
  shows "settledOk st'"
proof (cases "mc_rawWaiters st")
  case Nil
  with assms show ?thesis by (simp add: resolveRawWaiter_def)
next
  case (Cons key rest)
  let ?st1 = "st\<lparr>mc_rawWaiters := rest\<rparr>"
  have 1: "settledOk ?st1" using assms(1) by (auto elim: settledOk_cong)
  show ?thesis
  proof (cases "map_of (mc_pending ?st1) key")
    case None
    with assms(2) Cons 1 show ?thesis by (simp add: resolveRawWaiter_def)
  next
    case (Some p)
    have 2: "settledOk (takePending key p now ?st1)" using 1 by (auto elim: settledOk_cong)
    from assms(2) Cons Some 2 show ?thesis
      by (auto simp: resolveRawWaiter_def Let_def split: sum.splits intro: settledOk_settle dest: rawOutcome_ok)
  qed
qed

lemma settledOk_malformed:
  "settledOk st \<Longrightarrow> resolveRawWaiter h raw now (recordMalformed r d st) = (e, st') \<Longrightarrow> settledOk st'"
  by (rule settledOk_resolveRawWaiter [of "recordMalformed r d st"]) (auto elim: settledOk_cong)

lemma settledOk_answer:
  assumes "settledOk st"
  shows "settledOk (case answerOf m l of
      Some outcome \<Rightarrow> settle t outcome (takePending key p now st)
    | None \<Rightarrow> settle t (failure False False l' x) (recordMalformed raw d (takePending key p now st)))"
  using assms by (auto split: option.split intro!: settledOk_settle dest: answerOf_ok elim: settledOk_cong)

lemma settledOk_handleMessage:
  assumes "settledOk st" "handleMessage h v raw now st = (e, st')"
  shows "settledOk st'"
proof (cases "asRec (Some v)")
  case None
  with assms show ?thesis by (auto simp: handleMessage_def intro: settledOk_malformed)
next
  case (Some message)
  show ?thesis
  proof (cases "fld message (J ''jsonrpc'') = Some (JStr (J ''2.0''))")
    case False
    with assms Some show ?thesis by (auto simp: handleMessage_def intro: settledOk_malformed)
  next
    case True
    note ok = assms(1) settledOk_cong [OF assms(1)] settledOk_malformed [OF assms(1)]
      settledOk_resolveRawWaiter [OF assms(1)] settledOk_answer [OF assms(1)]
    show ?thesis
    proof (cases "asStr (fld message (J ''method''))"; cases "fld message (J ''id'')")
      fix i
      assume m: "asStr (fld message (J ''method'')) = None" and i: "fld message (J ''id'') = Some i"
      show ?thesis
      proof (cases "jsToString h i")
        case (Inl x)
        with assms Some True m i show ?thesis by (simp add: handleMessage_def)
      next
        case (Inr key)
        show ?thesis
        proof (cases "map_of (mc_pending st) key")
          case None
          with assms Some True m i Inr show ?thesis by (auto simp: handleMessage_def intro: ok(4))
        next
          case (Some p)
          from assms(2) \<open>asRec (Some v) = Some message\<close> True m i Inr Some
          have "st' = (case answerOf message (now - pq_startedAt p) of
              Some outcome \<Rightarrow> settle (pq_ticket p) outcome (takePending key p now st)
            | None \<Rightarrow> settle (pq_ticket p) (failure False False (now - pq_startedAt p) (J ''malformed response''))
                (recordMalformed raw (J ''response has neither result nor error'') (takePending key p now st)))"
            by (auto simp: handleMessage_def Let_def split: option.splits)
          then show ?thesis using ok(5) by simp
        qed
      qed
    qed (use assms(2) Some True in \<open>auto simp: handleMessage_def intro: ok(2) ok(3)\<close>)
  qed
qed

lemma settledOk_handleItems:
  "settledOk st \<Longrightarrow> handleItems h vs raw now st = (e, st') \<Longrightarrow> settledOk st'"
  by (induction vs arbitrary: st)
    (auto split: prod.splits option.splits dest: settledOk_handleMessage)

lemma settledOk_handleFrame:
  assumes "settledOk st" "handleFrame h frame now st = (e, st')"
  shows "settledOk st'"
  using assms by (auto simp: handleFrame_def split: option.splits jsval.splits
      dest: settledOk_malformed settledOk_handleItems settledOk_handleMessage)

lemma settledOk_settleAll:
  "settledOk st \<Longrightarrow> (\<And>t. okOutcome (outcome t)) \<Longrightarrow> settledOk (settleAll outcome ps st)"
proof (induction ps arbitrary: st)
  case (Cons kp ps)
  obtain key p where kp: "kp = (key, p)" by (cases kp)
  have "settledOk ((clearTimer (pq_ticket p) st)\<lparr>mc_pending := mapDelete key (mc_pending st)\<rparr>)"
    by (rule settledOk_cong [OF Cons.prems(1)]) simp
  from Cons.IH [OF settledOk_settle [OF this Cons.prems(2)] Cons.prems(2)] show ?case by (simp add: kp)
qed simp

lemma mcpRun_settledOk: "mcpRun h st used \<Longrightarrow> settledOk st"
proof (induction rule: mcpRun.induct)
  case run_start
  then show ?case by (simp add: settledOk_def newMcpClient_def)
next
  case (run_lost st used reason now)
  let ?out = "\<lambda>startedAt. failure False True (now - startedAt) (J ''target connection lost: '' @ reason)"
  have "settledOk (st\<lparr>mc_crashEvents := mc_crashEvents st + 1\<rparr>)"
    by (rule settledOk_cong [OF run_lost.IH]) simp
  from settledOk_settleAll [OF this, of ?out "mc_pending st"] show ?case
    unfolding handleClose_def by (rule settledOk_cong) simp_all
next
  case (run_close st used)
  then show ?case unfolding closeClient_def by (auto intro: settledOk_settleAll)
next
  case (run_frame st used frame now st')
  then show ?case using settledOk_handleFrame by blast
qed (auto intro: settledOk_timeout settledOk_sendFailed elim: settledOk_cong)

section \<open>The contract\<close>

text \<open>A source of outcomes, as the runners that await them see it.\<close>

locale outcome_source =
  fixes produced :: "RpcOutcome \<Rightarrow> bool"
  assumes shape: "produced out \<Longrightarrow> okOutcome out"
begin

lemma crashed_not_hang: "produced out \<Longrightarrow> ro_crashed out \<Longrightarrow> \<not> ro_hang out \<and> \<not> ro_ok out"
  using shape by (fastforce simp: okOutcome_def success_def rpcError_def failure_def)

lemma ok_iff_result: "produced out \<Longrightarrow> ro_ok out \<longleftrightarrow> ro_result out \<noteq> None"
  using shape by (fastforce simp: okOutcome_def success_def rpcError_def failure_def)

lemma result_alone:
  "produced out \<Longrightarrow> ro_result out \<noteq> None \<Longrightarrow>
     ro_error out = None \<and> \<not> ro_hang out \<and> \<not> ro_crashed out \<and> ro_transportError out = None"
  using shape by (fastforce simp: okOutcome_def success_def rpcError_def failure_def)

lemma error_alone:
  "produced out \<Longrightarrow> ro_error out \<noteq> None \<Longrightarrow>
     ro_result out = None \<and> \<not> ro_hang out \<and> \<not> ro_crashed out \<and> ro_transportError out = None"
  using shape by (fastforce simp: okOutcome_def success_def rpcError_def failure_def)

lemma neither_failed:
  "produced out \<Longrightarrow> ro_result out = None \<Longrightarrow> ro_error out = None \<Longrightarrow> \<not> ro_ok out \<and> ro_transportError out \<noteq> None"
  using shape by (fastforce simp: okOutcome_def success_def rpcError_def failure_def)

end

definition clientOutcome :: "RpcOutcome \<Rightarrow> bool" where
  "clientOutcome out \<longleftrightarrow> (\<exists>h st used. mcpRun h st used \<and> out \<in> snd ` set (mc_settled st))"

interpretation client: outcome_source clientOutcome
  by unfold_locales (use mcpRun_settledOk in \<open>auto simp: clientOutcome_def settledOk_def\<close>)

end
