(* ===== verification/FuzzRun.thy ===== *)
theory FuzzRun
  imports Fuzz Outcomes Segments Utf8
begin

text \<open>
  The run of the fuzzer: response inspection, classification, the two loops under a time budget, and
  the rendering of the report (\<^verbatim>\<open>src/runner/src/fuzz.ts\<close>).
\<close>

section \<open>The target seen from the fuzzer and the probes\<close>

text \<open>
  The operations of \<open>McpClient\<close> that the runners await, on a world \<open>'w\<close> that holds the client, the
  target and the clock: \<open>callTool\<close>, \<open>sendRaw\<close>, \<open>recover\<close>, \<open>Date.now\<close>, and the counters of the client.
\<close>

record 'w Target =
  tg_call :: "jsstring \<Rightarrow> jsval \<Rightarrow> int \<Rightarrow> 'w \<Rightarrow> RpcOutcome \<times> 'w"
  tg_raw :: "jsstring \<Rightarrow> nat option \<Rightarrow> int \<Rightarrow> 'w \<Rightarrow> RpcOutcome \<times> 'w"
  tg_recover :: "int \<Rightarrow> 'w \<Rightarrow> bool \<times> 'w"
  tg_now :: "'w \<Rightarrow> int \<times> 'w"
  tg_latency :: "'w \<Rightarrow> LatencyStats"
  tg_unsolicited :: "'w \<Rightarrow> (jsstring \<times> nat) list"
  tg_notifications :: "'w \<Rightarrow> nat"

text \<open>The Unicode tables behind \<open>toUpperCase\<close>, \<open>toLowerCase\<close> and \<open>\p{L}\<close>, \<open>\p{N}\<close>.\<close>

record unicode =
  uc_upper :: "jsstring \<Rightarrow> jsstring"
  uc_lower :: "jsstring \<Rightarrow> jsstring"
  uc_letterOrNumber :: "nat \<Rightarrow> bool"

section \<open>Response inspection\<close>

definition LEAK_PATTERNS :: "(jsstring \<times> pattern) list" where
  "LEAK_PATTERNS =
     [(J ''stack trace leaked'',
       rx (Alts [Grp (Cat [Lits ''at'', someR Space, someR NotSpace, someR Space, Lits ''('', manyR Dot, Lits '':'',
                           someR Digit, Lits '':'', someR Digit, Lits '')'']),
                 Lits ''Traceback (most recent call last)'', Cat [Lits ''goroutine '', someR Digit, Lits '' ['']])),
      (J ''absolute filesystem path leaked'',
       rxI (Grp (Alts [Cat [Lits ''/home/'', someR (Items False [Rng (CHR ''a'') (CHR ''z''), Rng (CHR ''0'') (CHR ''9''),
                              One (CHR ''_''), One (CHR ''-'')]), Lits ''/''],
                       Cat [Lits ''/usr/'', anyOf [''lib'', ''local''], Lits ''/''], Lits ''/workspace/'',
                       Lits (''C:'' @ [CHR 0x5C] @ ''Users'' @ [CHR 0x5C])]))),
      (J ''environment variable content leaked'',
       rx (anyOf [''PATH='', ''HOME='', ''KUBERNETES_SERVICE_HOST'', ''AWS_SECRET_ACCESS_KEY'', ''ANTHROPIC_API_KEY'',
                  ''OPENCODE_API_KEY''])),
      (J ''command injection payload executed (uid output)'',
       rx (Cat [Lits ''uid='', someR Digit, Lits ''('', someR WordC, Lits '')'', someR Space, Lits ''gid='', someR Digit])),
      (J ''/etc/passwd content returned'', rx (Lits ''root:x:0:0:'')),
      (J ''internal error details leaked'',
       rx (anyOf [''ECONNREFUSED'', ''ENOENT: no such file'', ''SyntaxError: Unexpected token'', ''TypeError: Cannot read'']))]"

definition TRAVERSAL_SUCCESS :: pattern where
  "TRAVERSAL_SUCCESS = rx (Alts [Lits ''root:x:0:0:'', Lits ''[extensions]'', Lits ''for 16-bit app support''])"

definition leakNote :: "jsstring \<Rightarrow> FuzzCase \<Rightarrow> jsstring \<times> pattern \<Rightarrow> NotableResponse list" where
  "leakNote t c lp =
     (case exec (snd lp) t of
        Some (index, _) \<Rightarrow>
          let i = index - 80 in
          [\<lparr>nr_caseId = fc_id c, nr_tool = fc_tool c, nr_reason = fst lp, nr_excerpt = sliceS t i (i + 240)\<rparr>]
      | None \<Rightarrow> [])"

definition inspectResponse :: "jsstring \<Rightarrow> FuzzCase \<Rightarrow> NotableResponse list" where
  "inspectResponse t c =
     concat (map (leakNote t c) LEAK_PATTERNS) @
     (if fc_category c = FPathTraversal \<and> test TRAVERSAL_SUCCESS t
      then [\<lparr>nr_caseId = fc_id c, nr_tool = fc_tool c, nr_reason = J ''path traversal succeeded'',
             nr_excerpt = sliceS t 0 240\<rparr>]
      else [])"

text \<open>A text that is present and not empty, as a condition.\<close>

definition truthyStr :: "jsstring option \<Rightarrow> bool" where
  "truthyStr t = (case t of Some s \<Rightarrow> s \<noteq> [] | None \<Rightarrow> False)"

definition classify :: "RpcOutcome \<Rightarrow> FuzzErrorClass" where
  "classify outcome =
     (if ro_crashed outcome then FCrash
      else if ro_hang outcome then FHang
      else if ro_transportError outcome = Some (J ''malformed response'') then FMalformedResponse
      else if truthyStr (ro_transportError outcome) \<and> \<not> ro_ok outcome \<and> ro_error outcome = None then FTransportError
      else if ro_error outcome \<noteq> None then FJsonrpcError
      else if isToolError (ro_result outcome) then FToolError
      else FOk)"

section \<open>Echoes of our own input\<close>

text \<open>The elements of \<open>Array.from(s)\<close>: code points, a lone surrogate standing for itself.\<close>

fun charsOf :: "jsstring \<Rightarrow> jsstring list" where
  "charsOf (c # d # s) = (if isHighU c \<and> isLowU d then [c, d] # charsOf s else [c] # charsOf (d # s))"
| "charsOf s = map (\<lambda>c. [c]) s"

function inputStrings :: "jsval \<Rightarrow> jsstring list" where
  "inputStrings (JStr s) = [s]"
| "inputStrings (JArr vs) = concat (map inputStrings vs)"
| "inputStrings (JObj ps) = concat (map (\<lambda>(k, v). inputStrings v) ps)"
| "inputStrings JNull = []"
| "inputStrings (JBool b) = []"
| "inputStrings (JNum n) = []"
  by pat_completeness auto
termination by (relation "measure size") (auto dest: size_entry size_elem)

text \<open>The members of \<open>new Set(xs)\<close> in iteration order.\<close>

definition uniqueS :: "'a list \<Rightarrow> 'a list" where
  "uniqueS xs = rev (remdups (rev xs))"

definition echoForms :: "unicode \<Rightarrow> jsstring \<Rightarrow> jsstring list" where
  "echoForms u s =
     (let r = concat (rev (charsOf s)) in
      uniqueS [s, r, uc_upper u s, uc_lower u s, uc_upper u r, uc_lower u r])"

definition removeForms :: "jsstring \<Rightarrow> jsstring list \<Rightarrow> jsstring" where
  "removeForms answer forms = foldl (\<lambda>rest form. replaceAllS rest form [32]) answer forms"

definition isEchoOfInput :: "unicode \<Rightarrow> jsstring \<Rightarrow> jsval option \<Rightarrow> bool" where
  "isEchoOfInput u answer args =
     (let inputs = (case args of Some v \<Rightarrow> inputStrings v | None \<Rightarrow> []);
          long = sort_key (\<lambda>x. - int (length x)) (filter (\<lambda>x. 4 \<le> length (trimS x)) inputs);
          rest = removeForms answer (concat (map (echoForms u) long))
      in rest \<noteq> answer \<and> length (filter (uc_letterOrNumber u) (codePoints rest)) < 3)"

section \<open>The run\<close>

record FuzzState =
  fs_results :: "FuzzCaseResult list"
  fs_notable :: "NotableResponse list"
  fs_errors :: "FuzzErrorClass \<Rightarrow> nat"
  fs_crashes :: nat
  fs_hangs :: nat

definition emptyErrorCounts :: "FuzzErrorClass \<Rightarrow> nat" where
  "emptyErrorCounts = (\<lambda>_. 0)"

definition newFuzzState :: FuzzState where
  "newFuzzState = \<lparr>fs_results = [], fs_notable = [], fs_errors = emptyErrorCounts, fs_crashes = 0, fs_hangs = 0\<rparr>"

text \<open>The text of an answer that \<open>record\<close> inspects; \<open>None\<close> when the target answered nothing.\<close>

definition errorText :: "host \<Rightarrow> JsonRpcError \<Rightarrow> jsstring" where
  "errorText h e =
     je_message e @ J '' '' @
     hStringify h (case je_data e of None \<Rightarrow> JStr [] | Some JNull \<Rightarrow> JStr [] | Some d \<Rightarrow> d)"

definition answerText :: "host \<Rightarrow> RpcOutcome \<Rightarrow> thrown + jsstring option" where
  "answerText h outcome =
     (case ro_result outcome of
        Some _ \<Rightarrow> bindR (extractText h (ro_result outcome)) (\<lambda>t. Inr (Some t))
      | None \<Rightarrow> Inr (map_option (errorText h) (ro_error outcome)))"

definition caseResult :: "unicode \<Rightarrow> FuzzCase \<Rightarrow> RpcOutcome \<Rightarrow> jsstring \<Rightarrow> FuzzCaseResult" where
  "caseResult u c outcome excerpt =
     (let message = map_option je_message (ro_error outcome) in
      \<lparr>fr_caseId = fc_id c, fr_tool = fc_tool c, fr_category = fc_category c, fr_description = fc_description c,
       fr_errorClass = classify outcome, fr_latencyMs = ro_latencyMs outcome,
       fr_errorCode = map_option je_code (ro_error outcome), fr_errorMessage = message,
       fr_transportError = (if truthyStr (ro_transportError outcome) then ro_transportError outcome else None),
       fr_responseExcerpt = Some excerpt,
       fr_echoOfInput = isEchoOfInput u
         (excerpt @ J '' '' @ (case message of Some m \<Rightarrow> m | None \<Rightarrow> [])) (fc_args c)\<rparr>)"

definition recordCase :: "host \<Rightarrow> unicode \<Rightarrow> FuzzCase \<Rightarrow> RpcOutcome \<Rightarrow> FuzzState \<Rightarrow> thrown + FuzzState" where
  "recordCase h u c outcome st =
     bindR (answerText h outcome) (\<lambda>t.
       let cls = classify outcome in
       Inr \<lparr>fs_results = fs_results st @
              [caseResult u c outcome (case t of Some x \<Rightarrow> sliceS x 0 300 | None \<Rightarrow> [])],
            fs_notable = fs_notable st @ (case t of Some x \<Rightarrow> inspectResponse x c | None \<Rightarrow> []),
            fs_errors = (fs_errors st)(cls := fs_errors st cls + 1),
            fs_crashes = fs_crashes st + (if cls = FCrash then 1 else 0),
            fs_hangs = fs_hangs st + (if cls = FHang then 1 else 0)\<rparr>)"

text \<open>Why a loop ended: it ran through, the budget was spent, or the target did not come back.\<close>

datatype Stop = RanThrough | BudgetSpent | TargetDead

record FuzzSettings =
  fo_maxCasesPerTool :: nat
  fo_budgetMs :: int
  fo_perCallTimeoutMs :: int
  fo_protocol :: bool

definition defaultFuzzSettings :: FuzzSettings where
  "defaultFuzzSettings = \<lparr>fo_maxCasesPerTool = 25, fo_budgetMs = 4 * 60 * 1000, fo_perCallTimeoutMs = 10000,
     fo_protocol = True\<rparr>"

definition overBudget :: "'w Target \<Rightarrow> int \<Rightarrow> int \<Rightarrow> 'w \<Rightarrow> bool \<times> 'w" where
  "overBudget tg startedAt budgetMs w = (case tg_now tg w of (now, w') \<Rightarrow> (now - startedAt > budgetMs, w'))"

text \<open>
  The body both loops share: the budget, the call, the record, and the recovery after a crash. A case
  comes with the request that sends it.
\<close>

type_synonym 'w sendable = "FuzzCase \<times> ('w \<Rightarrow> RpcOutcome \<times> 'w)"

fun caseLoop :: "host \<Rightarrow> unicode \<Rightarrow> 'w Target \<Rightarrow> int \<Rightarrow> FuzzSettings \<Rightarrow> 'w sendable list \<Rightarrow> FuzzState \<Rightarrow> 'w \<Rightarrow>
    (thrown + Stop \<times> FuzzState) \<times> 'w" where
  "caseLoop h u tg t0 fo [] st w = (Inr (RanThrough, st), w)"
| "caseLoop h u tg t0 fo ((c, ask) # cs) st w =
     (case overBudget tg t0 (fo_budgetMs fo) w of (over, w) \<Rightarrow>
      if over then (Inr (BudgetSpent, st), w)
      else case ask w of (outcome, w) \<Rightarrow>
        (case recordCase h u c outcome st of
           Inl e \<Rightarrow> (Inl e, w)
         | Inr st \<Rightarrow>
             if ro_crashed outcome then
               (case tg_recover tg 30000 w of (recovered, w) \<Rightarrow>
                  if recovered then caseLoop h u tg t0 fo cs st w else (Inr (TargetDead, st), w))
             else caseLoop h u tg t0 fo cs st w))"

definition toolCase :: "'w Target \<Rightarrow> FuzzSettings \<Rightarrow> FuzzCase \<Rightarrow> 'w sendable" where
  "toolCase tg fo c =
     (c, tg_call tg (fc_tool c) (case fc_args c of Some v \<Rightarrow> v | None \<Rightarrow> JNull) (fo_perCallTimeoutMs fo))"

definition protocolCase :: "'w Target \<Rightarrow> FuzzSettings \<Rightarrow> ProtocolCase \<Rightarrow> 'w sendable" where
  "protocolCase tg fo pc =
     (\<lparr>fc_id = pc_id pc, fc_tool = J ''<protocol>'', fc_category = FProtocol,
       fc_description = pc_description pc, fc_args = None, fc_rawFrame = Some (pc_rawFrame pc)\<rparr>,
      tg_raw tg (pc_rawFrame pc) (pc_expectId pc) (min (fo_perCallTimeoutMs fo) 5000))"

fun toolLoop :: "host \<Rightarrow> unicode \<Rightarrow> 'w Target \<Rightarrow> int \<Rightarrow> FuzzSettings \<Rightarrow> McpToolDefinition list \<Rightarrow> FuzzState \<Rightarrow> 'w \<Rightarrow>
    (thrown + Stop \<times> FuzzState) \<times> 'w" where
  "toolLoop h u tg t0 fo [] st w = (Inr (RanThrough, st), w)"
| "toolLoop h u tg t0 fo (tool # tools) st w =
     (case generateFuzzCases h tool (fo_maxCasesPerTool fo) of
        Inl e \<Rightarrow> (Inl e, w)
      | Inr cases \<Rightarrow>
          (case caseLoop h u tg t0 fo (map (toolCase tg fo) cases) st w of
             (Inr (RanThrough, st), w) \<Rightarrow> toolLoop h u tg t0 fo tools st w
           | r \<Rightarrow> r))"

definition fuzzReport :: "LatencyStats \<Rightarrow> bool \<Rightarrow> FuzzState \<Rightarrow> FuzzReport" where
  "fuzzReport latency exhausted st =
     \<lparr>fz_cases = fs_results st, fz_totalCases = length (fs_results st), fz_crashes = fs_crashes st,
      fz_hangs = fs_hangs st, fz_errorsByClass = fs_errors st, fz_latency = latency,
      fz_notableResponses = take 100 (fs_notable st), fz_timeBudgetExhausted = exhausted\<rparr>"

definition runFuzz :: "host \<Rightarrow> unicode \<Rightarrow> 'w Target \<Rightarrow> McpToolDefinition list \<Rightarrow> FuzzSettings \<Rightarrow> 'w \<Rightarrow>
    (thrown + FuzzReport) \<times> 'w" where
  "runFuzz h u tg tools fo w =
     (case tg_now tg w of (t0, w) \<Rightarrow>
      case toolLoop h u tg t0 fo tools newFuzzState w of
        (Inl e, w) \<Rightarrow> (Inl e, w)
      | (Inr (stop, st), w) \<Rightarrow>
          if fo_protocol fo \<and> stop \<noteq> BudgetSpent then
            (case caseLoop h u tg t0 fo (map (protocolCase tg fo) (generateProtocolCases h)) st w of
               (Inl e, w) \<Rightarrow> (Inl e, w)
             | (Inr (stop', st), w) \<Rightarrow> (Inr (fuzzReport (tg_latency tg w) (stop' = BudgetSpent) st), w))
          else (Inr (fuzzReport (tg_latency tg w) (stop = BudgetSpent) st), w))"

section \<open>The report as text\<close>

fun categoryStr :: "FuzzCategory \<Rightarrow> jsstring" where
  "categoryStr FBoundary = J ''boundary''"
| "categoryStr FTypeMismatch = J ''type-mismatch''"
| "categoryStr FNullRequired = J ''null-required''"
| "categoryStr FMissingRequired = J ''missing-required''"
| "categoryStr FExtraProps = J ''extra-props''"
| "categoryStr FPrototypePollution = J ''prototype-pollution''"
| "categoryStr FPathTraversal = J ''path-traversal''"
| "categoryStr FCommandInjection = J ''command-injection''"
| "categoryStr FUnicode = J ''unicode''"
| "categoryStr FOversize = J ''oversize''"
| "categoryStr FDeepNesting = J ''deep-nesting''"
| "categoryStr FProtocol = J ''protocol''"

fun errorClassStr :: "FuzzErrorClass \<Rightarrow> jsstring" where
  "errorClassStr FOk = J ''ok''"
| "errorClassStr FJsonrpcError = J ''jsonrpc-error''"
| "errorClassStr FToolError = J ''tool-error''"
| "errorClassStr FHang = J ''hang''"
| "errorClassStr FCrash = J ''crash''"
| "errorClassStr FTransportError = J ''transport-error''"
| "errorClassStr FMalformedResponse = J ''malformed-response''"

definition ERROR_CLASSES :: "FuzzErrorClass list" where
  "ERROR_CLASSES = [FOk, FJsonrpcError, FToolError, FHang, FCrash, FTransportError, FMalformedResponse]"

definition boolText :: "bool \<Rightarrow> jsstring" where
  "boolText b = (if b then J ''true'' else J ''false'')"

text \<open>Grouping by a key in a \<open>Map\<close>: the groups come in the order in which their keys first occur.\<close>

definition groupInto :: "('a \<Rightarrow> 'k) \<Rightarrow> 'a list \<Rightarrow> ('k \<times> 'a list) list" where
  "groupInto key xs = map (\<lambda>k. (k, filter (\<lambda>x. key x = k) xs)) (uniqueS (map key xs))"

definition countsText :: "host \<Rightarrow> FuzzCaseResult list \<Rightarrow> jsstring" where
  "countsText h rs =
     hStringify h (JObj (map (\<lambda>(cls, xs). (errorClassStr cls, jnat (length xs))) (groupInto fr_errorClass rs)))"

definition fuzzHeadLines :: "host \<Rightarrow> FuzzReport \<Rightarrow> jsstring list" where
  "fuzzHeadLines h report =
     (let l = fz_latency report in
      [J ''### Fuzzing summary'',
       J ''- total cases: '' @ showNat (fz_totalCases report),
       J ''- crashes: '' @ showNat (fz_crashes report) @ J '', hangs: '' @ showNat (fz_hangs report) @
         J '', time budget exhausted: '' @ boolText (fz_timeBudgetExhausted report),
       J ''- errors by class: '' @
         hStringify h (JObj (map (\<lambda>c. (errorClassStr c, jnat (fz_errorsByClass report c))) ERROR_CLASSES)),
       J ''- latency: count='' @ showNat (ls_count l) @ J '' avg='' @ hNumStr h (Fin (ls_avgMs l)) @ J ''ms p95='' @
         showInt (ls_p95Ms l) @ J ''ms max='' @ showInt (ls_maxMs l) @ J ''ms''])"

definition notableLines :: "host \<Rightarrow> NotableResponse list \<Rightarrow> jsstring list" where
  "notableLines h ns =
     (if ns = [] then []
      else (J ''### Notable responses ('' @ showNat (length ns) @ J '')'') #
        map (\<lambda>n. J ''- ['' @ nr_caseId n @ J ''] '' @ nr_tool n @ J '': '' @ nr_reason n @ J '' :: '' @
                   hStringify h (JStr (nr_excerpt n))) (take 40 ns))"

definition badLines :: "FuzzCaseResult list \<Rightarrow> jsstring list" where
  "badLines rs =
     (let bad = filter (\<lambda>c. fr_errorClass c \<in> {FCrash, FHang, FMalformedResponse}) rs in
      if bad = [] then []
      else J ''### Crash / hang / malformed cases'' #
        map (\<lambda>c. J ''- ['' @ fr_caseId c @ J ''] '' @ fr_description c @ J '' -> '' @ errorClassStr (fr_errorClass c) @
                   J '' ('' @ showInt (fr_latencyMs c) @ J ''ms) '' @ (case fr_errorMessage c of Some m \<Rightarrow> m | None \<Rightarrow> []))
          (take 40 bad))"

definition renderFuzzMarkdown :: "host \<Rightarrow> FuzzReport \<Rightarrow> jsstring" where
  "renderFuzzMarkdown h report =
     joinS [10]
       (fuzzHeadLines h report @ notableLines h (fz_notableResponses report) @
        [J ''### Per tool/category outcomes''] @
        map (\<lambda>(key, rs). J ''- '' @ key @ J '': '' @ countsText h rs)
          (groupInto (\<lambda>c. fr_tool c @ J ''/'' @ categoryStr (fr_category c)) (fz_cases report)) @
        badLines (fz_cases report))"

section \<open>Invariants of a run\<close>

definition countClass :: "FuzzErrorClass \<Rightarrow> FuzzCaseResult list \<Rightarrow> nat" where
  "countClass cls rs = length (filter (\<lambda>r. fr_errorClass r = cls) rs)"

text \<open>The counters agree with the recorded results.\<close>

definition fuzzOk :: "FuzzState \<Rightarrow> bool" where
  "fuzzOk st \<longleftrightarrow> (\<forall>cls. fs_errors st cls = countClass cls (fs_results st)) \<and>
     fs_crashes st = fs_errors st FCrash \<and> fs_hangs st = fs_errors st FHang"

lemma fuzzOk_new: "fuzzOk newFuzzState"
  by (simp add: fuzzOk_def newFuzzState_def emptyErrorCounts_def countClass_def)

lemma caseResult_fields [simp]:
  "fr_caseId (caseResult u c out ex) = fc_id c" "fr_errorClass (caseResult u c out ex) = classify out"
  by (simp_all add: caseResult_def Let_def)

lemma recordCase_Inr:
  assumes "recordCase h u c out st = Inr st'"
  obtains r where "fs_results st' = fs_results st @ [r]" "fr_caseId r = fc_id c" "fr_errorClass r = classify out"
    "fuzzOk st \<Longrightarrow> fuzzOk st'"
proof -
  from assms obtain t where st': "st' =
     \<lparr>fs_results = fs_results st @ [caseResult u c out (case t of Some x \<Rightarrow> sliceS x 0 300 | None \<Rightarrow> [])],
      fs_notable = fs_notable st @ (case t of Some x \<Rightarrow> inspectResponse x c | None \<Rightarrow> []),
      fs_errors = (fs_errors st)(classify out := fs_errors st (classify out) + 1),
      fs_crashes = fs_crashes st + (if classify out = FCrash then 1 else 0),
      fs_hangs = fs_hangs st + (if classify out = FHang then 1 else 0)\<rparr>"
    by (auto simp: recordCase_def bindR_eq_Inr Let_def)
  show ?thesis
    by (rule that [of "caseResult u c out (case t of Some x \<Rightarrow> sliceS x 0 300 | None \<Rightarrow> [])"])
      (auto simp: st' fuzzOk_def countClass_def)
qed

definition idsOf :: "FuzzState \<Rightarrow> jsstring list" where
  "idsOf st = map fr_caseId (fs_results st)"

text \<open>A loop records the cases it sends, in order, from the first on.\<close>

lemma caseLoop_run:
  assumes "caseLoop h u tg t0 fo cs st w = (Inr (stop, st'), w')"
  shows "(fuzzOk st \<longrightarrow> fuzzOk st') \<and> (\<exists>n. idsOf st' = idsOf st @ take n (map (fc_id \<circ> fst) cs) \<and>
     (stop = RanThrough \<longrightarrow> n = length cs))"
  using assms
proof (induction cs arbitrary: st w)
  case Nil
  then show ?case by (auto simp: idsOf_def)
next
  case (Cons ca cs)
  obtain c ask where ca: "ca = (c, ask)" by (cases ca)
  obtain over w1 where ov: "overBudget tg t0 (fo_budgetMs fo) w = (over, w1)" by (cases "overBudget tg t0 (fo_budgetMs fo) w")
  obtain out w2 where out: "ask w1 = (out, w2)" by (cases "ask w1")
  show ?case
  proof (cases over)
    case True
    with Cons.prems ca ov have "stop = BudgetSpent" "st' = st" by simp_all
    then show ?thesis by (auto intro: exI [of _ 0])
  next
    case False
    with Cons.prems ca ov out obtain st1 where rec: "recordCase h u c out st = Inr st1"
      by (auto split: sum.splits)
    obtain r where r: "fs_results st1 = fs_results st @ [r]" "fr_caseId r = fc_id c"
      and inv: "fuzzOk st \<longrightarrow> fuzzOk st1"
      using recordCase_Inr [OF rec] by metis
    have ids: "idsOf st1 = idsOf st @ [fc_id c]" by (simp add: idsOf_def r)
    have go: "(fuzzOk st \<longrightarrow> fuzzOk st') \<and> (\<exists>n. idsOf st' = idsOf st @ take n (map (fc_id \<circ> fst) (ca # cs)) \<and>
       (stop = RanThrough \<longrightarrow> n = length (ca # cs)))"
      if "caseLoop h u tg t0 fo cs st1 x = (Inr (stop, st'), w')" for x
    proof -
      from Cons.IH [OF that] obtain n where "fuzzOk st1 \<longrightarrow> fuzzOk st'"
        "idsOf st' = idsOf st1 @ take n (map (fc_id \<circ> fst) cs)" "stop = RanThrough \<longrightarrow> n = length cs" by blast
      then show ?thesis using inv ids by (auto simp: ca intro!: exI [of _ "Suc n"])
    qed
    show ?thesis
    proof (cases "ro_crashed out")
      case False
      with Cons.prems ca ov out rec \<open>\<not> over\<close> show ?thesis by (intro go) simp
    next
      case True
      obtain rc w3 where rc: "tg_recover tg 30000 w2 = (rc, w3)" by (cases "tg_recover tg 30000 w2")
      show ?thesis
      proof (cases rc)
        case True
        with Cons.prems ca ov out rec rc \<open>\<not> over\<close> \<open>ro_crashed out\<close> show ?thesis by (intro go) simp
      next
        case False
        with Cons.prems ca ov out rec rc \<open>\<not> over\<close> \<open>ro_crashed out\<close> have "stop = TargetDead" "st' = st1" by simp_all
        then show ?thesis using inv ids by (auto simp: ca intro!: exI [of _ 1])
      qed
    qed
  qed
qed

definition toolIds :: "host \<Rightarrow> nat \<Rightarrow> McpToolDefinition \<Rightarrow> jsstring list" where
  "toolIds h m tool = (case generateFuzzCases h tool m of Inr cs \<Rightarrow> map fc_id cs | Inl _ \<Rightarrow> [])"

lemma toolLoop_run:
  assumes "toolLoop h u tg t0 fo tools st w = (Inr (stop, st'), w')"
  shows "(fuzzOk st \<longrightarrow> fuzzOk st') \<and> (\<exists>n. idsOf st' = idsOf st @ take n (concat (map (toolIds h (fo_maxCasesPerTool fo)) tools)) \<and>
     (stop = RanThrough \<longrightarrow> n = length (concat (map (toolIds h (fo_maxCasesPerTool fo)) tools))))"
  using assms
proof (induction tools arbitrary: st w)
  case Nil
  then show ?case by auto
next
  case (Cons tool tools)
  from Cons.prems obtain cs where cs: "generateFuzzCases h tool (fo_maxCasesPerTool fo) = Inr cs"
    by (auto split: sum.splits)
  obtain r w1 where loop: "caseLoop h u tg t0 fo (map (toolCase tg fo) cs) st w = (r, w1)"
    by (cases "caseLoop h u tg t0 fo (map (toolCase tg fo) cs) st w")
  with Cons.prems cs obtain stop1 st1 where r: "r = Inr (stop1, st1)"
    by (cases r) auto
  have ids: "toolIds h (fo_maxCasesPerTool fo) tool = map fc_id cs" "map (fc_id \<circ> fst) (map (toolCase tg fo) cs) = map fc_id cs"
    by (simp_all add: toolIds_def cs toolCase_def)
  from caseLoop_run [OF loop [unfolded r]] obtain n where inv: "fuzzOk st \<longrightarrow> fuzzOk st1"
    and n: "idsOf st1 = idsOf st @ take n (map fc_id cs)" "stop1 = RanThrough \<longrightarrow> n = length cs"
    unfolding ids(2) by auto
  show ?case
  proof (cases "stop1 = RanThrough")
    case True
    with Cons.prems cs loop r have "toolLoop h u tg t0 fo tools st1 w1 = (Inr (stop, st'), w')" by simp
    from Cons.IH [OF this] obtain k where "fuzzOk st1 \<longrightarrow> fuzzOk st'"
      "idsOf st' = idsOf st1 @ take k (concat (map (toolIds h (fo_maxCasesPerTool fo)) tools))"
      "stop = RanThrough \<longrightarrow> k = length (concat (map (toolIds h (fo_maxCasesPerTool fo)) tools))" by blast
    with True n inv show ?thesis by (auto simp: ids(1) intro!: exI [of _ "length cs + k"])
  next
    case False
    with Cons.prems cs loop r have "stop = stop1" "st' = st1" by (cases stop1; simp)+
    with False n inv show ?thesis
      by (auto simp: ids(1) min_def intro!: exI [of _ "min n (length cs)"])
  qed
qed

lemma length_toolIds: "length (concat (map (toolIds h m) tools)) \<le> m * length tools"
proof (induction tools)
  case (Cons tool tools)
  have "length (toolIds h m tool) \<le> m"
    by (auto simp: toolIds_def split: sum.split dest: generateFuzzCases_length)
  with Cons show ?case by (simp add: algebra_simps)
qed simp

lemma length_protocolCases: "length (generateProtocolCases h) = 16"
  by (simp add: generateProtocolCases_def Let_def)

text \<open>A report comes from the tool cases, then, unless the budget was spent, from protocol cases.\<close>

lemma runFuzz_report:
  assumes "runFuzz h u tg tools fo w = (Inr report, w')"
  obtains st stop st' n m where "fuzzOk st'" "fz_cases report = fs_results st'"
    "report = fuzzReport (fz_latency report) (fz_timeBudgetExhausted report) st'"
    "idsOf st' = take n (concat (map (toolIds h (fo_maxCasesPerTool fo)) tools)) @ take m (map pc_id (generateProtocolCases h))"
proof -
  obtain t0 w0 where now: "tg_now tg w = (t0, w0)" by (cases "tg_now tg w")
  obtain r w1 where tools: "toolLoop h u tg t0 fo tools newFuzzState w0 = (r, w1)"
    by (cases "toolLoop h u tg t0 fo tools newFuzzState w0")
  with assms now obtain stop st where r: "r = Inr (stop, st)" by (cases r) (auto simp: runFuzz_def)
  have new: "idsOf newFuzzState = []" by (simp add: idsOf_def newFuzzState_def)
  from toolLoop_run [OF tools [unfolded r]] fuzzOk_new new obtain n where ok: "fuzzOk st"
    and n: "idsOf st = take n (concat (map (toolIds h (fo_maxCasesPerTool fo)) tools))" by auto
  show ?thesis
  proof (cases "fo_protocol fo \<and> stop \<noteq> BudgetSpent")
    case False
    with assms now tools r have "report = fuzzReport (tg_latency tg w1) (stop = BudgetSpent) st"
      by (auto simp: runFuzz_def)
    then show ?thesis using ok n by (intro that [of st n 0]) (simp_all add: fuzzReport_def)
  next
    case True
    let ?ps = "map (protocolCase tg fo) (generateProtocolCases h)"
    obtain r2 w2 where pro: "caseLoop h u tg t0 fo ?ps st w1 = (r2, w2)" by (cases "caseLoop h u tg t0 fo ?ps st w1")
    with assms now tools r True obtain stop2 st2 where r2: "r2 = Inr (stop2, st2)"
      by (cases r2) (auto simp: runFuzz_def)
    have ids: "map (fc_id \<circ> fst) ?ps = map pc_id (generateProtocolCases h)" by (simp add: protocolCase_def)
    from caseLoop_run [OF pro [unfolded r2]] ok n obtain m where "fuzzOk st2"
      "idsOf st2 = take n (concat (map (toolIds h (fo_maxCasesPerTool fo)) tools)) @ take m (map pc_id (generateProtocolCases h))"
      unfolding ids by auto
    moreover from assms now tools r True pro r2
    have "report = fuzzReport (tg_latency tg w2) (stop2 = BudgetSpent) st2" by (auto simp: runFuzz_def)
    ultimately show ?thesis by (intro that [of st2 n m]) (simp_all add: fuzzReport_def)
  qed
qed

section \<open>Inspection\<close>

lemma leak_anchorFree: "\<forall>lp \<in> set LEAK_PATTERNS. anchorFree (rx_body (snd lp))"
  by (simp add: LEAK_PATTERNS_def rx_def rxI_def anyOf_def quantifier_defs)

lemma inspect_reports_iff:
  "(\<exists>n \<in> set (inspectResponse t c). nr_reason n = reason) \<longleftrightarrow>
     (\<exists>p. (reason, p) \<in> set LEAK_PATTERNS \<and> test p t) \<or>
     reason = J ''path traversal succeeded'' \<and> fc_category c = FPathTraversal \<and> test TRAVERSAL_SUCCESS t"
proof -
  have "(\<exists>n \<in> set (leakNote t c lp). nr_reason n = reason) \<longleftrightarrow> fst lp = reason \<and> test (snd lp) t" for lp
    by (cases "exec (snd lp) t") (auto simp: leakNote_def test_def Let_def)
  then show ?thesis by (auto simp: inspectResponse_def Bex_def) (metis fst_conv snd_conv)+
qed

lemma truthy_alone: "ro_transportError out \<noteq> Some [] \<Longrightarrow> truthyStr (ro_transportError out) \<longleftrightarrow> ro_transportError out \<noteq> None"
  by (auto simp: truthyStr_def split: option.split)

section \<open>A target that never answers\<close>

text \<open>Such a target cannot make the fuzzer fail: without a result there is nothing to convert.\<close>

lemma caseLoop_deaf:
  "\<forall>ca \<in> set cs. \<forall>w. ro_result (fst (snd ca w)) = None \<Longrightarrow>
   \<exists>stop st' w'. caseLoop h u tg t0 fo cs st w = (Inr (stop, st'), w')"
proof (induction cs arbitrary: st w)
  case (Cons ca cs)
  obtain c ask where ca: "ca = (c, ask)" by (cases ca)
  obtain over w1 where ov: "overBudget tg t0 (fo_budgetMs fo) w = (over, w1)" by (cases "overBudget tg t0 (fo_budgetMs fo) w")
  obtain out w2 where out: "ask w1 = (out, w2)" by (cases "ask w1")
  have "ro_result out = None" using Cons.prems ca out by (metis fst_conv list.set_intros(1) snd_conv)
  then obtain st1 where rec: "recordCase h u c out st = Inr st1"
    by (simp add: recordCase_def answerText_def Let_def)
  obtain rc w3 where rc: "tg_recover tg 30000 w2 = (rc, w3)" by (cases "tg_recover tg 30000 w2")
  have "\<forall>ca \<in> set cs. \<forall>w. ro_result (fst (snd ca w)) = None" using Cons.prems by simp
  from Cons.IH [OF this, of st1 w2] Cons.IH [OF this, of st1 w3] show ?case by (auto simp: ca ov out rec rc)
qed simp

definition deafTarget :: "nat Target" where
  "deafTarget = \<lparr>tg_call = (\<lambda>_ _ _ w. (failure True False 10000 (J ''timeout''), w + 1)),
     tg_raw = (\<lambda>_ _ _ w. (failure True False 5000 (J ''timeout''), w + 1)), tg_recover = (\<lambda>_ w. (False, w)),
     tg_now = (\<lambda>w. (int w, w)), tg_latency = (\<lambda>_. latencyStats []), tg_unsolicited = (\<lambda>_. []), tg_notifications = (\<lambda>_. 0)\<rparr>"

definition plainUnicode :: unicode where
  "plainUnicode = \<lparr>uc_upper = map foldU, uc_lower = asciiLower, uc_letterOrNumber = (\<lambda>n. n < 128 \<and> isWordU (of_nat n))\<rparr>"

lemma deaf_run: "\<exists>report w'. runFuzz h u deafTarget [searchTool] fo w = (Inr report, w')"
proof -
  obtain cs where cs: "generateFuzzCases h searchTool (fo_maxCasesPerTool fo) = Inr cs" using searchTool_cases by blast
  have call: "\<forall>ca \<in> set (map (toolCase deafTarget fo) cs). \<forall>w. ro_result (fst (snd ca w)) = None"
    by (auto simp: toolCase_def deafTarget_def failure_def)
  obtain stop st w1 where tool: "caseLoop h u deafTarget (int w) fo (map (toolCase deafTarget fo) cs) newFuzzState w = (Inr (stop, st), w1)"
    using caseLoop_deaf [OF call] by metis
  have raw: "\<forall>ca \<in> set (map (protocolCase deafTarget fo) (generateProtocolCases h)). \<forall>w. ro_result (fst (snd ca w)) = None"
    by (auto simp: protocolCase_def deafTarget_def failure_def)
  obtain stop' st' w2 where pro: "caseLoop h u deafTarget (int w) fo (map (protocolCase deafTarget fo) (generateProtocolCases h)) st w1 =
      (Inr (stop', st'), w2)"
    using caseLoop_deaf [OF raw] by metis
  have now: "tg_now deafTarget w = (int w, w)" by (simp add: deafTarget_def)
  have loop: "toolLoop h u deafTarget (int w) fo [searchTool] newFuzzState w = (Inr (stop, st), w1)"
    using cs tool by (cases stop) simp_all
  show ?thesis using loop pro by (simp add: runFuzz_def now)
qed

section \<open>Properties\<close>

text \<open>
  C19. The fuzz report adds up: for whatever the target answers, the total is the number of recorded
  cases, every error class is counted exactly, the classes sum up to the total, crashes and hangs are
  the counts of their classes, and at most 100 notable responses are kept.
\<close>

theorem fuzz_report_consistent:
  assumes "runFuzz h u tg tools fo w = (Inr report, w')"
  shows "fz_totalCases report = length (fz_cases report) \<and>
     (\<forall>cls. fz_errorsByClass report cls = countClass cls (fz_cases report)) \<and>
     sum_list (map (fz_errorsByClass report) ERROR_CLASSES) = fz_totalCases report \<and>
     fz_crashes report = countClass FCrash (fz_cases report) \<and> fz_hangs report = countClass FHang (fz_cases report) \<and>
     length (fz_notableResponses report) \<le> 100"
proof -
  obtain st where st: "fuzzOk st" "report = fuzzReport (fz_latency report) (fz_timeBudgetExhausted report) st"
    using runFuzz_report [OF assms] by metis
  have sum: "sum_list (map (\<lambda>cls. countClass cls rs) ERROR_CLASSES) = length rs" for rs
  proof (induction rs)
    case (Cons r rs)
    then show ?case by (cases "fr_errorClass r") (simp_all add: ERROR_CLASSES_def countClass_def)
  qed (simp add: ERROR_CLASSES_def countClass_def)
  have "fz_errorsByClass report = (\<lambda>cls. countClass cls (fz_cases report))"
    using st by (metis (no_types, lifting) FuzzReport.select_convs(1,5) ext fuzzOk_def fuzzReport_def)
  moreover have "fz_crashes report = fz_errorsByClass report FCrash" "fz_hangs report = fz_errorsByClass report FHang"
    "fz_totalCases report = length (fz_cases report)" "length (fz_notableResponses report) \<le> 100"
    using st by (metis (no_types, lifting) FuzzReport.select_convs fuzzOk_def fuzzReport_def length_take min.cobounded2 min.commute)+
  ultimately show ?thesis by (simp add: sum)
qed

theorem fuzz_report_consistent_witness:
  "\<exists>report w'. runFuzz (sampleHost []) plainUnicode deafTarget [searchTool] defaultFuzzSettings 0 = (Inr report, w') \<and>
     fz_totalCases report = length (fz_cases report) \<and> fz_hangs report = countClass FHang (fz_cases report)"
proof -
  obtain report w' where "runFuzz (sampleHost []) plainUnicode deafTarget [searchTool] defaultFuzzSettings 0 = (Inr report, w')"
    using deaf_run by blast
  with fuzz_report_consistent [OF this] show ?thesis by blast
qed

text \<open>
  The report lists what was sent, in order and once: the recorded cases are a beginning of the
  generated cases of the tools, one tool after the other, followed by a beginning of the protocol cases.
  No run makes more than \<open>maxCasesPerTool\<close> calls per tool and sixteen more.
\<close>

theorem fuzz_report_in_order:
  assumes "runFuzz h u tg tools fo w = (Inr report, w')"
  shows "(\<exists>n m. map fr_caseId (fz_cases report) =
       take n (concat (map (toolIds h (fo_maxCasesPerTool fo)) tools)) @ take m (map pc_id (generateProtocolCases h))) \<and>
     fz_totalCases report \<le> fo_maxCasesPerTool fo * length tools + 16"
proof -
  obtain st n m where st: "fz_cases report = fs_results st" "report = fuzzReport (fz_latency report) (fz_timeBudgetExhausted report) st"
    and ids: "idsOf st = take n (concat (map (toolIds h (fo_maxCasesPerTool fo)) tools)) @ take m (map pc_id (generateProtocolCases h))"
    using runFuzz_report [OF assms] by metis
  have "fz_totalCases report = length (idsOf st)"
    using st by (metis (no_types, lifting) FuzzReport.select_convs(2) fuzzReport_def idsOf_def length_map)
  then have "fz_totalCases report \<le> fo_maxCasesPerTool fo * length tools + 16"
    using length_toolIds [of h "fo_maxCasesPerTool fo" tools] length_protocolCases [of h] by (simp add: ids)
  then show ?thesis using ids st(1) unfolding idsOf_def by metis
qed

theorem fuzz_report_in_order_witness:
  "\<exists>report w'. runFuzz (sampleHost []) plainUnicode deafTarget [searchTool] defaultFuzzSettings 0 = (Inr report, w') \<and>
     fz_totalCases report \<le> 41"
proof -
  obtain report w' where r: "runFuzz (sampleHost []) plainUnicode deafTarget [searchTool] defaultFuzzSettings 0 = (Inr report, w')"
    using deaf_run by blast
  from fuzz_report_in_order [OF this] have "fz_totalCases report \<le> 41" by (simp add: defaultFuzzSettings_def)
  with r show ?thesis by blast
qed



text \<open>
  The fuzzer reads the client's outcomes right: for every outcome any run of the client settles a
  request with, the class tells exactly what happened (an exception with an empty message apart, which
  no transport throws).
\<close>

theorem classification_exact:
  assumes "clientOutcome out" "ro_transportError out \<noteq> Some []"
  shows "(classify out = FCrash \<longleftrightarrow> ro_crashed out) \<and> (classify out = FHang \<longleftrightarrow> ro_hang out) \<and>
     (classify out = FJsonrpcError \<longleftrightarrow> ro_error out \<noteq> None) \<and>
     (classify out \<in> {FOk, FToolError} \<longleftrightarrow> ro_ok out) \<and>
     (classify out = FToolError \<longleftrightarrow> isToolError (ro_result out)) \<and>
     (classify out \<in> {FTransportError, FMalformedResponse} \<longleftrightarrow>
        ro_transportError out \<noteq> None \<and> \<not> ro_crashed out \<and> \<not> ro_hang out)"
proof -
  have none: "\<not> isToolError None" by (simp add: isToolError_def)
  note facts = client.crashed_not_hang [OF assms(1)] client.ok_iff_result [OF assms(1)] client.result_alone [OF assms(1)]
    client.error_alone [OF assms(1)] client.neither_failed [OF assms(1)] truthy_alone [OF assms(2)]
  show ?thesis
  proof (cases "ro_result out")
    case None
    then show ?thesis using facts none by (cases "ro_error out") (auto simp: classify_def)
  next
    case (Some v)
    then show ?thesis using facts by (auto simp: classify_def truthyStr_def)
  qed
qed

theorem classification_exact_witness:
  "\<exists>out. clientOutcome out \<and> ro_hang out \<and> classify out = FHang"
proof -
  let ?h = "sampleHost []" and ?st = "request (sampleHost []) (J ''tools/list'') (JObj []) 0 newMcpClient"
  let ?out = "failure True False 5 (J ''timeout'')"
  have run: "mcpRun ?h (timeoutFires 0 5 ?st) [(mc_tickets newMcpClient, showNat (mc_nextId newMcpClient), 0)]"
    by (intro mcpRun.run_timeout mcpRun.run_request mcpRun.run_start) simp
  have "showNat (Suc 0) = [49]" by (subst showNat.simps) simp
  then have "\<not> startsWith (showNat 1) (J ''raw:'')" by (simp add: J_def)
  then have "?out \<in> snd ` set (mc_settled (timeoutFires 0 5 ?st))"
    by (simp add: timeoutFires_def request_def dispatch_def transportSend_def newMcpClient_def Let_def settle_def clearTimer_def)
  with run have out: "clientOutcome ?out" unfolding clientOutcome_def by blast
  have "ro_hang ?out" "ro_transportError ?out \<noteq> Some []" by (simp_all add: failure_def)
  with classification_exact [OF out] out show ?thesis by blast
qed

text \<open>
  A target can switch the fuzzer off with its schema: if the first tool asks for a string longer than
  a string can be, the run throws before it has sent a single case.
\<close>

theorem schema_stops_fuzzing:
  assumes "givenValue (toolSchema tool) = None" "alternative (toolSchema tool) = None"
    "schemaType (toolSchema tool) = J ''object''" "p \<in> set (listProperties (Some (toolSchema tool)))"
    "pi_type p = J ''string''" "givenValue (pi_schema p) = None" "alternative (pi_schema p) = None"
    "asStr (fld (pi_schema p) (J ''format'')) = None"
    "fld (pi_schema p) (J ''minLength'') = Some (JNum (Fin q))" "of_nat MAX_STRING_LENGTH + 8 \<le> q"
  shows "\<exists>e. runFuzz h u tg (tool # tools) fo w = (Inl e, snd (tg_now tg w))"
proof -
  obtain e where "generateFuzzCases h tool (fo_maxCasesPerTool fo) = Inl e"
    using huge_min_length_throws [OF assms] by blast
  then show ?thesis by (simp add: runFuzz_def split: prod.split)
qed

theorem schema_stops_fuzzing_witness:
  "\<exists>e. runFuzz (sampleHost []) plainUnicode deafTarget [hugeTool, searchTool] defaultFuzzSettings 0 = (Inl e, 0)"
  using schema_stops_fuzzing [OF hugeTool_facts, of "sampleHost []" plainUnicode deafTarget "[searchTool]" defaultFuzzSettings 0]
  by (simp add: deafTarget_def)

end
