(* ===== verification/Static.thy ===== *)
theory Static
  imports FuzzRun StatusWriter "HOL-Library.Multiset"
begin

text \<open>
  \<^verbatim>\<open>src/runner/src/static.ts\<close>: the walk over the cloned repository, the choice of the files that are
  sampled, the scan of their lines for sinks and registrations, the dependency parsers and the text
  the static persona receives. The branches that read through an OpenCode client are left out: the
  evaluator, the only caller, passes none.
\<close>

section \<open>The repository on disk\<close>

text \<open>
  A node of the file system as \<open>readdirSync\<close> with file types and \<open>readFileSync\<close> see it. \<open>None\<close> stands
  for a call that throws. \<open>OtherNode\<close> is neither file nor directory (a link, a socket).
\<close>

datatype fsnode =
    FileNode "nat list option"
  | DirNode "(jsstring \<times> fsnode) list option"
  | OtherNode

definition SEP :: jsstring where "SEP = J ''/''"

text \<open>\<open>path.join(rel, name)\<close> for a plain entry name.\<close>

definition childPath :: "jsstring \<Rightarrow> jsstring \<Rightarrow> jsstring" where
  "childPath rel name = (if rel = [] then name else rel @ SEP @ name)"

definition basename :: "jsstring \<Rightarrow> jsstring" where
  "basename p = rev (takeWhile (\<lambda>c. c \<noteq> 47) (dropWhile (\<lambda>c. c = 47) (rev p)))"

definition extname :: "jsstring \<Rightarrow> jsstring" where
  "extname p =
     (let b = basename p in
      case lastIndexOf b 46 of
        None \<Rightarrow> []
      | Some k \<Rightarrow> if k = 0 \<or> b = J ''..'' then [] else drop k b)"

text \<open>The node at a relative path.\<close>

fun resolve :: "fsnode \<Rightarrow> jsstring list \<Rightarrow> fsnode option" where
  "resolve node [] = Some node"
| "resolve (DirNode (Some entries)) (name # rest) =
     (case map_of entries name of Some child \<Rightarrow> resolve child rest | None \<Rightarrow> None)"
| "resolve _ (name # rest) = None"

section \<open>Constants\<close>

definition MAX_FILES :: nat where "MAX_FILES = 200"
definition MAX_FILE_EXCERPT :: nat where "MAX_FILE_EXCERPT = 40 * 1024"
definition MAX_TOTAL_BYTES :: nat where "MAX_TOTAL_BYTES = 400 * 1024"

definition MANIFEST_NAMES :: "jsstring list" where
  "MANIFEST_NAMES =
     map J [''package.json'', ''package-lock.json'', ''pnpm-lock.yaml'', ''yarn.lock'', ''pyproject.toml'',
       ''requirements.txt'', ''requirements-dev.txt'', ''uv.lock'', ''poetry.lock'', ''go.mod'', ''go.sum'',
       ''Cargo.toml'', ''Cargo.lock'']"

definition SOURCE_EXTENSIONS :: "jsstring list" where
  "SOURCE_EXTENSIONS =
     map J [''.ts'', ''.tsx'', ''.js'', ''.mjs'', ''.cjs'', ''.py'', ''.go'', ''.rs'', ''.sh'', ''.json'', ''.yaml'', ''.yml'',
       ''.toml'']"

definition SKIP_DIRS :: "jsstring list" where
  "SKIP_DIRS =
     map J [''node_modules'', ''.git'', ''.venv'', ''venv'', ''dist'', ''build'', ''__pycache__'', ''.mypy_cache'',
       ''.pytest_cache'', ''target'', ''vendor'', ''.bin'', ''.cache'']"

definition SINK_PATTERNS :: "(jsstring \<times> pattern) list" where
  "SINK_PATTERNS =
     [
      (J ''command-execution'', rx (Cat [WordB, Lits ''child_process'', WordB])),
      (J ''command-execution'', rx (Cat [WordB, anyOf [''exec'', ''execSync'', ''execFile'', ''execFileSync''], manyR
         Space, Lits ''(''])),
      (J ''command-execution'', rx (Cat [WordB, anyOf [''spawn'', ''spawnSync''], manyR Space, Lits ''(''])),
      (J ''command-execution'', rx (Cat [WordB, Lits ''subprocess.'', anyOf [''run'', ''Popen'', ''call'',
         ''check_output'', ''check_call''], WordB])),
      (J ''command-execution'', rx (Cat [WordB, Lits ''os.'', anyOf [''system'', ''popen'', ''execv'', ''execl'',
         ''execvp'', ''spawn''], WordB])),
      (J ''command-execution'', rx (Cat [WordB, Lits ''exec.Command'', manyR Space, Lits ''(''])),
      (J ''dynamic-code'', rx (Cat [WordB, Lits ''eval'', manyR Space, Lits ''(''])),
      (J ''dynamic-code'', rx (Cat [WordB, Lits ''new'', someR Space, Lits ''Function'', manyR Space, Lits ''(''])),
      (J ''dynamic-code'', rx (Cat [WordB, anyOf [''vm.runInNewContext'', ''vm.runInThisContext'', ''vm.Script''],
         WordB])),
      (J ''dynamic-code'', rx (Cat [WordB, Lits ''exec'', manyR Space, Lits ''('', manyR Space, Lits ''compile'',
         manyR Space, Lits ''(''])),
      (J ''raw-socket'', rx (Cat [WordB, Lits ''net.'', anyOf [''connect'', ''createConnection'', ''Socket''],
         WordB])),
      (J ''raw-socket'', rx (Cat [WordB, Lits ''socket.'', anyOf [''socket'', ''create_connection''], WordB])),
      (J ''raw-socket'', rx (Cat [WordB, Lits ''net.Dial'', manyR Space, Lits ''(''])),
      (J ''network-egress'', rx (Cat [WordB, Grp (Alts [Lits ''fetch'', Lits ''axios'', Lits ''got'', Lits
         ''request'', Lits ''http.get'', Lits ''https.get'', Lits ''https.request'', Lits ''urllib.request'', Cat
         [Lits ''requests.'', anyOf [''get'', ''post'']], Lits ''httpx.'']), manyR Space, Lits ''(''])),
      (J ''file-access-absolute'', rx (Cat [WordB, anyOf [''readFile'', ''readFileSync'', ''writeFile'',
         ''writeFileSync'', ''open'', ''createReadStream''], manyR Space, Lits ''('', manyR Space, Items False [One
         (CHR 0x22), One (CHR 0x27), One (CHR 0x60)], Lits ''/'', anyOf [''etc'', ''proc'', ''root'', ''home'',
         ''var'', ''usr'', ''sys''], WordB])),
      (J ''file-access-absolute'', rx (Cat [WordB, Lits ''open'', manyR Space, Lits ''('', manyR Space, Items False
         [One (CHR 0x22), One (CHR 0x27)], Lits ''/'', anyOf [''etc'', ''proc'', ''root'', ''home'', ''var'',
         ''sys''], WordB])),
      (J ''file-access-traversal'', rx (Lits ''../../'')),
      (J ''hardcoded-secret'', rx (Cat [Lits ''AKIA'', timesR 16 (Items False [Rng (CHR ''0'') (CHR ''9''), Rng (CHR
         ''A'') (CHR ''Z'')])])),
      (J ''hardcoded-secret'', rx (Cat [WordB, Lits ''sk-'', atLeastR 20 (Items False [Rng (CHR ''A'') (CHR ''Z''),
         Rng (CHR ''a'') (CHR ''z''), Rng (CHR ''0'') (CHR ''9''), One (CHR ''_''), One (CHR ''-'')])])),
      (J ''hardcoded-secret'', rx (Cat [WordB, Lits ''ghp_'', timesR 36 (Items False [Rng (CHR ''A'') (CHR ''Z''), Rng
         (CHR ''a'') (CHR ''z''), Rng (CHR ''0'') (CHR ''9'')]), WordB])),
      (J ''hardcoded-secret'', rx (Cat [WordB, Lits ''xox'', Items False [One (CHR ''b''), One (CHR ''a''), One (CHR
         ''p''), One (CHR ''r''), One (CHR ''s'')], Lits ''-'', atLeastR 10 (Items False [Rng (CHR ''A'') (CHR ''Z''),
         Rng (CHR ''a'') (CHR ''z''), Rng (CHR ''0'') (CHR ''9''), One (CHR ''-'')])])),
      (J ''hardcoded-secret'', rx (Cat [Lits ''-----BEGIN '', Grp (Alts [Lits ''RSA '', Lits ''EC '', Lits ''OPENSSH
         '', Cat []]), Lits ''PRIVATE KEY-----''])),
      (J ''hardcoded-secret'', rxI (Cat [Grp (Alts [Cat [Lits ''api'', optR (Items False [One (CHR ''_''), One (CHR
         ''-'')]), Lits ''key''], Lits ''secret'', Lits ''password'', Lits ''token'']), manyR Space, Items False [One
         (CHR '':''), One (CHR ''='')], manyR Space, Items False [One (CHR 0x22), One (CHR 0x27)], atLeastR 16 (Items
         False [Rng (CHR ''A'') (CHR ''Z''), Rng (CHR ''a'') (CHR ''z''), Rng (CHR ''0'') (CHR ''9''), One (CHR
         ''_''), Esc (CHR ''-'')]), Items False [One (CHR 0x22), One (CHR 0x27)]])),
      (J ''env-access'', rx (Cat [WordB, Lits ''process.env.'', someR (Items False [Rng (CHR ''A'') (CHR ''Z''), One
         (CHR ''_'')])])),
      (J ''env-access'', rx (Cat [WordB, Lits ''os.environ'', optR (Grp (Lits ''.get'')), WordB])),
      (J ''cloud-metadata'', rx (Alts [Lits ''169.254.169.254'', Lits ''metadata.google.internal''])),
      (J ''obfuscation'', rx (Cat [WordB, anyOf [''atob'', ''Buffer.from''], manyR Space, Lits ''('', manyR Space,
         Items False [One (CHR 0x22), One (CHR 0x27)], atLeastR 40 (Items False [Rng (CHR ''A'') (CHR ''Z''), Rng (CHR
         ''a'') (CHR ''z''), Rng (CHR ''0'') (CHR ''9''), One (CHR ''+''), One (CHR ''/''), One (CHR ''='')]), Items
         False [One (CHR 0x22), One (CHR 0x27)]])),
      (J ''obfuscation'', rx (Cat [WordB, Lits ''base64.b64decode'', manyR Space, Lits ''('', manyR Space, Items False
         [One (CHR 0x22), One (CHR 0x27)], atLeastR 40 (Items False [Rng (CHR ''A'') (CHR ''Z''), Rng (CHR ''a'') (CHR
         ''z''), Rng (CHR ''0'') (CHR ''9''), One (CHR ''+''), One (CHR ''/''), One (CHR ''='')]), Items False [One
         (CHR 0x22), One (CHR 0x27)]])),
      (J ''install-hook'', rx (Cat [Lits [CHR 0x22], anyOf [''preinstall'', ''postinstall'', ''prepare''], Lits [CHR
         0x22], manyR Space, Lits '':'']))]"

definition REGISTRATION_PATTERNS :: "pattern list" where
  "REGISTRATION_PATTERNS =
     [
      rx (Lits ''tools/list''),
      rx (Cat [Lits ''registerTool'', manyR Space, Lits ''('']),
      rx (Cat [Lits ''server.tool'', manyR Space, Lits ''('']),
      rx (Cat [Lits ''.addTool'', manyR Space, Lits ''('']),
      rx (Lits ''@mcp.tool''),
      rx (Cat [Lits ''@server.'', anyOf [''list_tools'', ''call_tool'', ''list_resources'', ''list_prompts'']]),
      rx (Lits ''ListToolsRequestSchema''),
      rx (Lits ''CallToolRequestSchema''),
      rx (Lits ''ListResourcesRequestSchema''),
      rx (Lits ''ListPromptsRequestSchema''),
      rx (Cat [WordB, Lits ''inputSchema'', WordB]),
      rx (Lits ''resources/list''),
      rx (Lits ''prompts/list''),
      rx (Cat [Lits ''setRequestHandler'', manyR Space, Lits ''('']),
      rx (Cat [Lits ''FastMCP'', manyR Space, Lits ''('']),
      rx (Alts [Lits ''mcp.NewServer'', Lits ''server.AddTool'', Lits ''mcp.NewTool''])]"

section \<open>Discovery\<close>

definition isSkipDir :: "jsstring \<Rightarrow> bool" where
  "isSkipDir name \<longleftrightarrow> name \<in> set SKIP_DIRS"

fun isDirectory :: "fsnode \<Rightarrow> bool" where
  "isDirectory (DirNode _) = True"
| "isDirectory _ = False"

fun isFile :: "fsnode \<Rightarrow> bool" where
  "isFile (FileNode _) = True"
| "isFile _ = False"

text \<open>What one pass over the entries of a directory pushes on the stack, and on \<open>out\<close>.\<close>

definition childDirs :: "jsstring \<Rightarrow> (jsstring \<times> fsnode) list \<Rightarrow> (jsstring \<times> fsnode) list" where
  "childDirs rel entries = [(childPath rel name, node). (name, node) \<leftarrow> entries, isDirectory node \<and> \<not> isSkipDir name]"

definition childFiles :: "jsstring \<Rightarrow> (jsstring \<times> fsnode) list \<Rightarrow> jsstring list" where
  "childFiles rel entries = [childPath rel name. (name, node) \<leftarrow> entries, isFile node]"

definition WALK_LIMIT :: nat where "WALK_LIMIT = 20000"

lemma size_childDirs: "(\<Sum>(p, n) \<leftarrow> childDirs rel entries. Suc (size n)) < Suc (size (DirNode (Some entries)))"
  by (induction entries) (auto simp: childDirs_def)

text \<open>The loop; the head of the list is the top of the stack.\<close>

function walkLoop :: "(jsstring \<times> fsnode) list \<Rightarrow> jsstring list \<Rightarrow> jsstring list" where
  "walkLoop [] out = out"
| "walkLoop ((rel, node) # stack) out =
     (if WALK_LIMIT \<le> length out then out
      else case node of
        DirNode (Some entries) \<Rightarrow> walkLoop (rev (childDirs rel entries) @ stack) (out @ childFiles rel entries)
      | _ \<Rightarrow> walkLoop stack out)"
  by pat_completeness auto
termination
  using size_childDirs
  by (relation "measure (\<lambda>(stack, out). \<Sum>(p, n) \<leftarrow> stack. Suc (size n))") (auto simp flip: rev_map simp: eval_nat_numeral)

declare walkLoop.simps [simp del]

text \<open>\<open>Array.prototype.sort\<close> is stable; \<open>le a b\<close> says that the comparator returns no positive number.\<close>

definition insertBy :: "('a \<Rightarrow> 'a \<Rightarrow> bool) \<Rightarrow> 'a \<Rightarrow> 'a list \<Rightarrow> 'a list" where
  "insertBy le x ys = takeWhile (\<lambda>y. \<not> le x y) ys @ x # dropWhile (\<lambda>y. \<not> le x y) ys"

definition sortWith :: "('a \<Rightarrow> 'a \<Rightarrow> bool) \<Rightarrow> 'a list \<Rightarrow> 'a list" where
  "sortWith le xs = foldr (insertBy le) xs []"

text \<open>The default order of \<open>sort\<close>: by code units.\<close>

fun unitsLe :: "jsstring \<Rightarrow> jsstring \<Rightarrow> bool" where
  "unitsLe [] t = True"
| "unitsLe (c # s) [] = False"
| "unitsLe (c # s) (d # t) = (c < d \<or> c = d \<and> unitsLe s t)"

definition walkFs :: "fsnode \<Rightarrow> jsstring list" where
  "walkFs repo = sortWith unitsLe (walkLoop [([], repo)] [])"

definition isSkipped :: "jsstring \<Rightarrow> bool" where
  "isSkipped relPath = list_ex isSkipDir (splitS relPath SEP)"

definition MAX_READ_BYTES :: nat where "MAX_READ_BYTES = 2 * 1024 * 1024"

definition readFile :: "fsnode \<Rightarrow> jsstring \<Rightarrow> jsstring option" where
  "readFile repo relPath =
     (case resolve repo (splitS relPath SEP) of
        Some (FileNode (Some buf)) \<Rightarrow>
          if MAX_READ_BYTES < length buf then None
          else if 0 \<in> set buf then None
          else Some (fromUtf8 buf)
      | _ \<Rightarrow> None)"

definition TOP_DIRS :: pattern where
  "TOP_DIRS = rx (Cat [Bol, anyOf [''src'', ''server'', ''lib'', ''app''], WordB])"

definition ENTRY_FILES :: pattern where
  "ENTRY_FILES = rx (Cat [anyOf [''index'', ''main'', ''server''], Lits ''.'', anyOf [''ts'', ''js'', ''py'', ''go''], Eol])"

definition isManifestName :: "jsstring \<Rightarrow> bool" where
  "isManifestName relPath \<longleftrightarrow> basename relPath \<in> set MANIFEST_NAMES"

definition priority :: "jsstring \<Rightarrow> nat" where
  "priority relPath =
     (if isManifestName relPath then 0
      else if test TOP_DIRS relPath then 1
      else if test ENTRY_FILES (basename relPath) then 1
      else 2)"

section \<open>Captured groups\<close>

text \<open>
  The boundaries between the parts of a sequence in the match that backtracking finds first. The
  text between the boundaries of a group is what the group captured.
\<close>

fun pathsCat :: "jsstring \<Rightarrow> regex list \<Rightarrow> nat \<Rightarrow> nat list list" where
  "pathsCat s [] i = [[i]]"
| "pathsCat s (r # rs) i = concat (map (\<lambda>j. map (Cons i) (pathsCat s rs j)) (ends False False s r i))"

fun pathFrom :: "jsstring \<Rightarrow> regex list \<Rightarrow> nat list \<Rightarrow> nat list option" where
  "pathFrom s rs [] = None"
| "pathFrom s rs (i # is) = (case pathsCat s rs i of p # _ \<Rightarrow> Some p | [] \<Rightarrow> pathFrom s rs is)"

definition captures :: "regex list \<Rightarrow> jsstring \<Rightarrow> (nat \<Rightarrow> jsstring) option" where
  "captures rs s =
     map_option (\<lambda>p k. sliceS s (p ! k) (p ! Suc k)) (pathFrom s rs [0..<Suc (length s)])"

section \<open>Dependencies\<close>

definition alnum :: "citem list" where
  "alnum = [Rng (CHR ''A'') (CHR ''Z''), Rng (CHR ''a'') (CHR ''z''), Rng (CHR ''0'') (CHR ''9'')]"

definition anyChar :: regex where "anyChar = Items False [ClsS, ClsNotS]"

definition pypiName :: regex where
  "pypiName = Grp (someR (Items False (alnum @ [One (CHR ''_''), One (CHR ''.''), Esc (CHR ''-''), Esc (CHR ''[''), Esc (CHR '']'')])))"

definition REQUIREMENT :: "regex list" where
  "REQUIREMENT =
     [Bol, pypiName, manyR Space,
      optR (Grp (Cat [someR (Items False [One (CHR ''=''), One (CHR ''<''), One (CHR ''>''), One (CHR ''!''), One (CHR ''~'')]), manyR Dot])),
      Eol]"

definition PROJECT_SECTION :: "regex list" where
  "PROJECT_SECTION =
     [Lits ''[project]'', lazyR anyChar, Lits ''dependencies'', manyR Space, Lits ''='', manyR Space, Lits ''['',
      Grp (lazyR anyChar), Lits '']'']"

definition PROJECT_ITEM :: "regex list" where
  "PROJECT_ITEM = [Bol, pypiName, manyR Space, Grp (manyR Dot), Eol]"

text \<open>A section up to the next header; decimal 10 is the line feed.\<close>

definition sectionOf :: "string \<Rightarrow> regex list" where
  "sectionOf header = [Lits header, Grp (lazyR anyChar), Grp (Alts [Lits (CHR 0x0A # ''[''), Eol])]"

definition assignmentOf :: "citem list \<Rightarrow> regex list" where
  "assignmentOf items =
     [Bol, manyR Space, Grp (someR (Items False items)), manyR Space, Lits ''='', manyR Space, Grp (someR Dot), Eol]"

definition POETRY_LINE :: "regex list" where
  "POETRY_LINE = assignmentOf (alnum @ [One (CHR ''_''), One (CHR ''.''), Esc (CHR ''-'')])"

definition CARGO_LINE :: "regex list" where
  "CARGO_LINE = assignmentOf (alnum @ [One (CHR ''_''), Esc (CHR ''-'')])"

definition GO_LINE :: "regex list" where
  "GO_LINE =
     [Bol, manyR Space,
      Grp (Cat [someR (Items False [Rng (CHR ''a'') (CHR ''z''), Rng (CHR ''A'') (CHR ''Z''), Rng (CHR ''0'') (CHR ''9''),
                                    One (CHR ''.''), Esc (CHR ''-''), One (CHR ''_''), One (CHR ''/'')]),
                Lits ''.'', someR (Items False [Rng (CHR ''a'') (CHR ''z'')]), Lits ''/'', someR (Items True [ClsS])]),
      someR Space, Grp (Cat [Lits ''v'', someR (Items True [ClsS])])]"

definition dep :: "Ecosystem \<Rightarrow> jsstring \<Rightarrow> jsstring \<Rightarrow> jsstring \<Rightarrow> DependencyEntry" where
  "dep eco name version source = \<lparr>de_ecosystem = eco, de_name = name, de_version = version, de_source = source\<rparr>"

definition orElse :: "jsstring \<Rightarrow> jsstring \<Rightarrow> jsstring" where
  "orElse s d = (if s = [] then d else s)"

definition packageJsonDeps :: "jsstring \<Rightarrow> jsval \<Rightarrow> DependencyEntry list" where
  "packageJsonDeps path parsed =
     (case parsed of
        JObj o' \<Rightarrow>
          [dep Npm name (case version of JStr v \<Rightarrow> v | _ \<Rightarrow> J ''?'') (path @ J ''#'' @ section).
             section \<leftarrow> map J [''dependencies'', ''devDependencies'', ''optionalDependencies'', ''peerDependencies''],
             (name, version) \<leftarrow> (case fld o' section of Some (JObj block) \<Rightarrow> block | _ \<Rightarrow> [])]
      | _ \<Rightarrow> [])"

definition requirementDep :: "jsstring \<Rightarrow> jsstring \<Rightarrow> DependencyEntry list" where
  "requirementDep path line =
     (let trimmed = trimS line in
      if trimmed = [] \<or> startsWith trimmed (J ''#'') \<or> startsWith trimmed (J ''-'') then []
      else case captures REQUIREMENT trimmed of
        Some m \<Rightarrow> [dep Pypi (m 1) (trimS (orElse (m 3) (J ''*''))) path]
      | None \<Rightarrow> [])"

definition isQuote :: "jschar \<Rightarrow> bool" where "isQuote c \<longleftrightarrow> c = 34 \<or> c = 39"

text \<open>\<open>s.replace(/^["']|["']$/g, "")\<close>\<close>

definition unquote :: "jsstring \<Rightarrow> jsstring" where
  "unquote s =
     (let t = (case s of c # r \<Rightarrow> if isQuote c then r else s | [] \<Rightarrow> []) in
      if t \<noteq> [] \<and> isQuote (last t) then butlast t else t)"

definition projectDep :: "jsstring \<Rightarrow> jsstring \<Rightarrow> DependencyEntry list" where
  "projectDep path raw =
     (let item = unquote (trimS raw) in
      if item = [] then []
      else case captures PROJECT_ITEM item of
        Some m \<Rightarrow> [dep Pypi (m 1) (orElse (trimS (m 3)) (J ''*'')) path]
      | None \<Rightarrow> [dep Pypi item (J ''*'') path])"

definition assignmentDep :: "Ecosystem \<Rightarrow> regex list \<Rightarrow> jsstring list \<Rightarrow> jsstring \<Rightarrow> jsstring \<Rightarrow> DependencyEntry list" where
  "assignmentDep eco rs excluded path line =
     (case captures rs line of
        Some m \<Rightarrow> if m 2 \<noteq> [] \<and> m 2 \<notin> set excluded then [dep eco (m 2) (trimS (m 6)) path] else []
      | None \<Rightarrow> [])"

definition goDep :: "jsstring \<Rightarrow> jsstring \<Rightarrow> DependencyEntry list" where
  "goDep path line =
     (case captures GO_LINE line of
        Some m \<Rightarrow> if m 2 \<noteq> [] \<and> m 4 \<noteq> [] then [dep GoMod (m 2) (m 4) path] else []
      | None \<Rightarrow> [])"

text \<open>The lines of the section that a header opens, when it is there and not empty.\<close>

definition sectionLines :: "string \<Rightarrow> jsstring \<Rightarrow> jsstring list" where
  "sectionLines header content =
     (case captures (sectionOf header) content of
        Some m \<Rightarrow> if m 1 \<noteq> [] then splitS (m 1) [10] else []
      | None \<Rightarrow> [])"

definition pyprojectDeps :: "jsstring \<Rightarrow> jsstring \<Rightarrow> DependencyEntry list" where
  "pyprojectDeps path content =
     (case captures PROJECT_SECTION content of
        Some m \<Rightarrow> if m 7 \<noteq> [] then concat (map (projectDep path) (splitS (m 7) (J '',''))) else []
      | None \<Rightarrow> []) @
     concat (map (assignmentDep Pypi POETRY_LINE [J ''python''] path) (sectionLines ''[tool.poetry.dependencies]'' content))"

definition manifestDeps :: "host \<Rightarrow> ManifestFile \<Rightarrow> DependencyEntry list" where
  "manifestDeps h m =
     (let base = basename (mf_path m); lines = splitS (mf_content m) [10] in
      if base = J ''package.json'' then
        (case hParse h (mf_content m) of
           Some parsed \<Rightarrow> packageJsonDeps (mf_path m) parsed
         | None \<Rightarrow> [dep Npm (J ''<parse-error:'' @ mf_path m @ J ''>'')
                      (errorMessage h (BuiltinError (J ''SyntaxError'') (hParseErr h (mf_content m)))) (mf_path m)])
      else if base = J ''requirements.txt'' \<or> base = J ''requirements-dev.txt'' then
        concat (map (requirementDep (mf_path m)) lines)
      else if base = J ''pyproject.toml'' then pyprojectDeps (mf_path m) (mf_content m)
      else if base = J ''go.mod'' then concat (map (goDep (mf_path m)) lines)
      else if base = J ''Cargo.toml'' then
        concat (map (assignmentDep Cargo CARGO_LINE [] (mf_path m)) (sectionLines ''[dependencies]'' (mf_content m)))
      else [])"

definition parseDependencies :: "host \<Rightarrow> ManifestFile list \<Rightarrow> DependencyEntry list" where
  "parseDependencies h manifests = concat (map (manifestDeps h) manifests)"

section \<open>The scan\<close>

definition MAX_LINE :: nat where "MAX_LINE = 2000"

definition snippetOf :: "jsstring \<Rightarrow> jsstring" where
  "snippetOf line = take 200 (trimS line)"

definition lineSinks :: "jsstring \<Rightarrow> nat \<Rightarrow> jsstring \<Rightarrow> SinkHit list" where
  "lineSinks relPath lineNo line =
     [\<lparr>sh_file = relPath, sh_line = lineNo, sh_pattern = sourceText p, sh_category = category, sh_snippet = snippetOf line\<rparr>.
        (category, p) \<leftarrow> SINK_PATTERNS,
        (category = J ''install-hook'' \<longrightarrow> isManifestName relPath) \<and> test p line]"

definition lineRegistrations :: "jsstring \<Rightarrow> nat \<Rightarrow> jsstring \<Rightarrow> RegistrationHit list" where
  "lineRegistrations relPath lineNo line =
     (case find (\<lambda>p. test p line) REGISTRATION_PATTERNS of
        Some p \<Rightarrow> [\<lparr>rh_file = relPath, rh_line = lineNo, rh_pattern = sourceText p, rh_snippet = snippetOf line\<rparr>]
      | None \<Rightarrow> [])"

definition scannedLines :: "jsstring \<Rightarrow> (nat \<times> jsstring) list" where
  "scannedLines content = filter (\<lambda>(n, line). length line \<le> MAX_LINE) (enumerate 1 (splitS content [10]))"

definition scanFile :: "jsstring \<Rightarrow> jsstring \<Rightarrow> SinkHit list \<times> RegistrationHit list \<Rightarrow> SinkHit list \<times> RegistrationHit list" where
  "scanFile relPath content acc =
     (case acc of (sinks, registrations) \<Rightarrow>
        (sinks @ concat (map (\<lambda>(n, line). lineSinks relPath n line) (scannedLines content)),
         registrations @ concat (map (\<lambda>(n, line). lineRegistrations relPath n line) (scannedLines content))))"

section \<open>Collection\<close>

text \<open>\<open>localeCompare\<close> of the host gives the sign of the comparison.\<close>

definition candidateLe :: "(jsstring \<Rightarrow> jsstring \<Rightarrow> int) \<Rightarrow> jsstring \<Rightarrow> jsstring \<Rightarrow> bool" where
  "candidateLe localeCompare a b \<longleftrightarrow>
     priority a < priority b \<or> priority a = priority b \<and> localeCompare a b \<le> 0"

definition candidatesOf :: "(jsstring \<Rightarrow> jsstring \<Rightarrow> int) \<Rightarrow> jsstring list \<Rightarrow> jsstring list" where
  "candidatesOf localeCompare allFiles =
     take MAX_FILES (sortWith (candidateLe localeCompare)
       (filter (\<lambda>f. isManifestName f \<or> extname f \<in> set SOURCE_EXTENSIONS) allFiles))"

record Sampled =
  sa_manifests :: "ManifestFile list"
  sa_hits :: "SinkHit list \<times> RegistrationHit list"
  sa_files :: "jsstring list"
  sa_totalBytes :: nat
  sa_truncated :: bool

definition sampleOne :: "jsstring \<Rightarrow> jsstring \<Rightarrow> Sampled \<Rightarrow> Sampled" where
  "sampleOne rel content sa =
     (let excerpt = (if MAX_FILE_EXCERPT < length content then take MAX_FILE_EXCERPT content else content) in
      sa\<lparr>sa_totalBytes := sa_totalBytes sa + length excerpt,
         sa_files := sa_files sa @ [rel],
         sa_manifests := sa_manifests sa @
           (if isManifestName rel
            then [\<lparr>mf_path = rel, mf_content = excerpt, mf_truncated = length excerpt < length content\<rparr>] else []),
         sa_hits := scanFile rel excerpt (sa_hits sa)\<rparr>)"

fun sampleLoop :: "fsnode \<Rightarrow> jsstring list \<Rightarrow> Sampled \<Rightarrow> Sampled" where
  "sampleLoop repo [] sa = sa"
| "sampleLoop repo (rel # rest) sa =
     (if MAX_TOTAL_BYTES \<le> sa_totalBytes sa then sa\<lparr>sa_truncated := True\<rparr>
      else case readFile repo rel of
        None \<Rightarrow> sampleLoop repo rest sa
      | Some content \<Rightarrow> sampleLoop repo rest (sampleOne rel content sa))"

text \<open>\<open>.mcp-launch.json\<close>: the parsed value, when it can be read and parsed.\<close>

definition launchFileOf :: "host \<Rightarrow> fsnode \<Rightarrow> jsval option" where
  "launchFileOf h repo =
     (case resolve repo [J ''.mcp-launch.json''] of
        Some (FileNode (Some buf)) \<Rightarrow> hParse h (fromUtf8 buf)
      | _ \<Rightarrow> None)"

definition PYTHON_MANIFEST :: pattern where
  "PYTHON_MANIFEST = rx (Alts [Lits ''pyproject.toml'', Lits ''requirements''])"

definition hasManifest :: "string \<Rightarrow> ManifestFile list \<Rightarrow> bool" where
  "hasManifest name manifests = list_ex (\<lambda>m. basename (mf_path m) = J name) manifests"

definition runtimeOf :: "jsval option \<Rightarrow> ManifestFile list \<Rightarrow> jsstring" where
  "runtimeOf launchFile manifests =
     (let runtime = (case Option.bind (asRec launchFile) (\<lambda>o'. asStr (fld o' (J ''runtime''))) of
                       Some r \<Rightarrow> r | None \<Rightarrow> J ''unknown'') in
      if runtime \<noteq> J ''unknown'' then runtime
      else if hasManifest ''package.json'' manifests then J ''node''
      else if list_ex (\<lambda>m. test PYTHON_MANIFEST (mf_path m)) manifests then J ''python''
      else if hasManifest ''go.mod'' manifests then J ''go''
      else runtime)"

definition listedFiles :: "fsnode \<Rightarrow> jsstring list" where
  "listedFiles repo = filter (\<lambda>f. \<not> isSkipped f) (walkFs repo)"

definition sampleFiles :: "fsnode \<Rightarrow> jsstring list \<Rightarrow> jsstring list \<Rightarrow> Sampled" where
  "sampleFiles repo allFiles candidates =
     sampleLoop repo candidates
       \<lparr>sa_manifests = [], sa_hits = ([], []), sa_files = [], sa_totalBytes = 0,
        sa_truncated = length candidates < length allFiles\<rparr>"

definition collectStaticEvidence :: "host \<Rightarrow> (jsstring \<Rightarrow> jsstring \<Rightarrow> int) \<Rightarrow> fsnode \<Rightarrow> StaticEvidence" where
  "collectStaticEvidence h localeCompare repo =
     (let allFiles = listedFiles repo;
          sa = sampleFiles repo allFiles (candidatesOf localeCompare allFiles);
          launchFile = launchFileOf h repo in
      \<lparr>se_runtime = runtimeOf launchFile (sa_manifests sa),
       se_fileCount = length allFiles,
       se_filesSampled = sa_files sa,
       se_manifests = sa_manifests sa,
       se_dependencies = parseDependencies h (sa_manifests sa),
       se_registrations = take 300 (snd (sa_hits sa)),
       se_sinks = take 500 (fst (sa_hits sa)),
       se_launchFile = (case launchFile of Some v \<Rightarrow> v | None \<Rightarrow> JNull),
       se_truncated = sa_truncated sa,
       se_totalBytes = sa_totalBytes sa\<rparr>)"

section \<open>The evidence as text\<close>

fun ecosystemStr :: "Ecosystem \<Rightarrow> jsstring" where
  "ecosystemStr Npm = J ''npm''"
| "ecosystemStr Pypi = J ''pypi''"
| "ecosystemStr GoMod = J ''go''"
| "ecosystemStr Cargo = J ''cargo''"

definition fenceLine :: jsstring where "fenceLine = [96, 96, 96]"

definition overviewLines :: "host \<Rightarrow> StaticEvidence \<Rightarrow> jsstring \<Rightarrow> jsstring list" where
  "overviewLines h e workspaceDir =
     [J ''### Repository overview'',
      J ''- workspace: '' @ workspaceDir @ J '' (read-only; use your file tools to inspect any file)'',
      J ''- detected runtime: '' @ se_runtime e,
      J ''- files discovered: '' @ showNat (se_fileCount e) @ J ''; sampled: '' @ showNat (length (se_filesSampled e)) @
        J ''; truncated: '' @ boolText (se_truncated e)] @
     (if se_launchFile e \<noteq> JNull
      then [J ''- launch descriptor (.mcp-launch.json): '' @ hStringify h (se_launchFile e)] else [])"

definition dependencyLines :: "DependencyEntry list \<Rightarrow> jsstring list" where
  "dependencyLines ds =
     (J ''### Dependencies ('' @ showNat (length ds) @ J '')'') #
     map (\<lambda>d. J ''- ['' @ ecosystemStr (de_ecosystem d) @ J ''] '' @ de_name d @ J '' '' @ de_version d @ J '' ('' @
                de_source d @ J '')'') (take 300 ds)"

definition manifestLines :: "ManifestFile list \<Rightarrow> jsstring list" where
  "manifestLines ms =
     J ''### Manifests'' #
     concat (map (\<lambda>m. [J ''#### '' @ mf_path m @ (if mf_truncated m then J '' (truncated)'' else []),
                       fenceLine, take 8000 (mf_content m), fenceLine]) ms)"

definition hitLine :: "jsstring \<Rightarrow> nat \<Rightarrow> jsstring \<Rightarrow> jsstring" where
  "hitLine file lineNo snippet = J ''- '' @ file @ J '':'' @ showNat lineNo @ J '' :: '' @ snippet"

definition registrationLines :: "RegistrationHit list \<Rightarrow> jsstring list" where
  "registrationLines rs =
     (J ''### MCP registration sites ('' @ showNat (length rs) @ J '')'') #
     map (\<lambda>r. hitLine (rh_file r) (rh_line r) (rh_snippet r)) (take 120 rs)"

definition sinkLines :: "SinkHit list \<Rightarrow> jsstring list" where
  "sinkLines ss =
     (J ''### Dangerous sink candidates ('' @ showNat (length ss) @ J '')'') #
     concat (map (\<lambda>(category, l).
        (J ''#### '' @ category @ J '' ('' @ showNat (length l) @ J '')'') #
        map (\<lambda>s. hitLine (sh_file s) (sh_line s) (sh_snippet s)) (take 60 l)) (groupInto sh_category ss))"

definition renderStaticMarkdown :: "host \<Rightarrow> StaticEvidence \<Rightarrow> jsstring \<Rightarrow> jsstring" where
  "renderStaticMarkdown h e workspaceDir =
     joinS [10]
       (overviewLines h e workspaceDir @
        [J ''### Files sampled''] @ map (\<lambda>f. J ''- '' @ f) (take 200 (se_filesSampled e)) @
        dependencyLines (se_dependencies e) @
        manifestLines (se_manifests e) @
        registrationLines (se_registrations e) @
        sinkLines (se_sinks e))"

section \<open>Sorting: lemmas\<close>

lemma mset_insertBy [simp]: "mset (insertBy le x ys) = add_mset x (mset ys)"
proof -
  have "mset (insertBy le x ys) =
      add_mset x (mset (takeWhile (\<lambda>y. \<not> le x y) ys @ dropWhile (\<lambda>y. \<not> le x y) ys))"
    unfolding insertBy_def mset_append mset.simps by (simp only: union_mset_add_mset_right)
  then show ?thesis by (simp only: takeWhile_dropWhile_id)
qed

lemma mset_sortWith [simp]: "mset (sortWith le xs) = mset xs"
  by (induction xs) (simp_all add: sortWith_def)

lemma set_sortWith [simp]: "set (sortWith le xs) = set xs"
  by (metis mset_sortWith set_mset_mset)

lemma sorted_insertBy:
  assumes "\<And>a b. le a b \<or> le b a" "\<And>a b c. le a b \<Longrightarrow> le b c \<Longrightarrow> le a c"
  shows "sorted_wrt le ys \<Longrightarrow> sorted_wrt le (insertBy le x ys)"
proof (induction ys)
  case (Cons y ys)
  show ?case
  proof (cases "le x y")
    case True
    with Cons.prems assms(2) show ?thesis by (auto simp: insertBy_def)
  next
    case False
    then have "insertBy le x (y # ys) = y # insertBy le x ys" by (simp add: insertBy_def)
    moreover have "set (insertBy le x ys) = insert x (set ys)"
      by (metis mset_insertBy set_mset_add_mset_insert set_mset_mset)
    ultimately show ?thesis using Cons False assms(1) [of x y] by auto
  qed
qed (simp add: insertBy_def)

lemma sorted_sortWith:
  assumes "\<And>a b. le a b \<or> le b a" "\<And>a b c. le a b \<Longrightarrow> le b c \<Longrightarrow> le a c"
  shows "sorted_wrt le (sortWith le xs)"
  unfolding sortWith_def by (induction xs) (simp_all add: sorted_insertBy [OF assms])

lemma unitsLe_total: "unitsLe a b \<or> unitsLe b a"
  by (induction a b rule: unitsLe.induct) auto

lemma unitsLe_trans: "unitsLe a b \<Longrightarrow> unitsLe b c \<Longrightarrow> unitsLe a c"
proof (induction a b arbitrary: c rule: unitsLe.induct)
  case (3 x s y t)
  from 3(3) obtain z u where "c = z # u" by (cases c) auto
  with 3 show ?case by auto
qed simp_all

section \<open>The walk: lemmas\<close>

text \<open>The files below a directory, by recursion on the tree.\<close>

fun filesUnder :: "jsstring \<Rightarrow> fsnode \<Rightarrow> jsstring list" where
  "filesUnder rel (DirNode (Some entries)) =
     concat (map (\<lambda>(name, node).
       case node of
         FileNode _ \<Rightarrow> [childPath rel name]
       | DirNode _ \<Rightarrow> if isSkipDir name then [] else filesUnder (childPath rel name) node
       | OtherNode \<Rightarrow> []) entries)"
| "filesUnder rel _ = []"

definition stackFiles :: "(jsstring \<times> fsnode) list \<Rightarrow> jsstring multiset" where
  "stackFiles stack = (\<Sum>(p, n) \<leftarrow> stack. mset (filesUnder p n))"

lemma stackFiles_simps [simp]:
  "stackFiles [] = {#}" "stackFiles ((p, n) # stack) = mset (filesUnder p n) + stackFiles stack"
  "stackFiles (a @ b) = stackFiles a + stackFiles b"
  by (simp_all add: stackFiles_def)

lemma stackFiles_rev [simp]: "stackFiles (rev a) = stackFiles a"
  by (induction a) (auto simp: add.commute)

lemma filesUnder_children:
  "mset (filesUnder rel (DirNode (Some entries))) = mset (childFiles rel entries) + stackFiles (childDirs rel entries)"
  by (induction entries) (auto simp: childFiles_def childDirs_def split: fsnode.splits)

lemma walkLoop_files:
  "length out + size (stackFiles stack) \<le> WALK_LIMIT \<Longrightarrow> mset (walkLoop stack out) = mset out + stackFiles stack"
proof (induction stack out rule: walkLoop.induct)
  case (2 rel node stack out)
  show ?case
  proof (cases "WALK_LIMIT \<le> length out")
    case True
    with 2(5) have "size (stackFiles ((rel, node) # stack)) = 0" by linarith
    then have "stackFiles ((rel, node) # stack) = {#}" by (simp only: size_eq_0_iff_empty)
    with True show ?thesis by (simp add: walkLoop.simps del: stackFiles_simps)
  next
    case False
    show ?thesis
    proof (cases "\<exists>entries. node = DirNode (Some entries)")
      case True
      then obtain entries where node: "node = DirNode (Some entries)" by blast
      let ?dirs = "childDirs rel entries" and ?files = "childFiles rel entries"
      have all: "stackFiles ((rel, node) # stack) = mset ?files + stackFiles ?dirs + stackFiles stack"
        by (simp only: node stackFiles_simps filesUnder_children)
      have "mset (walkLoop (rev ?dirs @ stack) (out @ ?files)) = mset (out @ ?files) + stackFiles (rev ?dirs @ stack)"
        by (rule 2(3) [OF False node refl]) (use 2(5) in \<open>simp add: all del: stackFiles_simps(2)\<close>)
      moreover have "walkLoop ((rel, node) # stack) out = walkLoop (rev ?dirs @ stack) (out @ ?files)"
        using False by (simp add: node walkLoop.simps(2))
      ultimately show ?thesis by (simp add: all del: stackFiles_simps(2))
    next
      case nd: False
      then have "filesUnder rel node = []" by (cases "(rel, node)" rule: filesUnder.cases) auto
      with nd False 2 show ?thesis by (auto simp: walkLoop.simps(2) split: fsnode.splits option.splits)
    qed
  qed
qed (simp add: walkLoop.simps)

section \<open>The sample: lemmas\<close>

text \<open>The part of a file that is scanned, and what the scan of it finds.\<close>

definition sampleText :: "fsnode \<Rightarrow> jsstring \<Rightarrow> jsstring" where
  "sampleText repo rel = (case readFile repo rel of Some content \<Rightarrow> take MAX_FILE_EXCERPT content | None \<Rightarrow> [])"

definition fileSinks :: "fsnode \<Rightarrow> jsstring \<Rightarrow> SinkHit list" where
  "fileSinks repo rel = fst (scanFile rel (sampleText repo rel) ([], []))"

lemma sampleOne_fields:
  assumes "readFile repo rel = Some content"
  shows "sa_files (sampleOne rel content sa) = sa_files sa @ [rel]"
    "sa_totalBytes (sampleOne rel content sa) = sa_totalBytes sa + length (sampleText repo rel)"
    "sa_truncated (sampleOne rel content sa) = sa_truncated sa"
    "fst (sa_hits (sampleOne rel content sa)) = fst (sa_hits sa) @ fileSinks repo rel"
  using assms
  by (auto simp: sampleOne_def Let_def sampleText_def fileSinks_def scanFile_def split: prod.splits)

text \<open>What the loop adds to its accumulator when it samples the files \<open>fs\<close>.\<close>

definition adds :: "fsnode \<Rightarrow> Sampled \<Rightarrow> jsstring list \<Rightarrow> Sampled \<Rightarrow> bool" where
  "adds repo sa fs sa' \<longleftrightarrow>
     sa_files sa' = sa_files sa @ fs \<and>
     sa_totalBytes sa' = sa_totalBytes sa + (\<Sum>f \<leftarrow> fs. length (sampleText repo f)) \<and>
     fst (sa_hits sa') = fst (sa_hits sa) @ concat (map (fileSinks repo) fs)"

lemma adds_Nil: "adds repo sa [] (sa\<lparr>sa_truncated := b\<rparr>)" "adds repo sa [] sa"
  by (simp_all add: adds_def)

lemma adds_Cons:
  "readFile repo rel = Some content \<Longrightarrow> adds repo (sampleOne rel content sa) fs sa' \<Longrightarrow> adds repo sa (rel # fs) sa'"
  by (simp add: adds_def sampleOne_fields)

lemma sampleLoop_adds:
  "\<exists>fs. subseq fs cands \<and> adds repo sa fs (sampleLoop repo cands sa) \<and>
     (\<not> sa_truncated (sampleLoop repo cands sa) \<longrightarrow> \<not> sa_truncated sa \<and> fs = filter (\<lambda>f. readFile repo f \<noteq> None) cands)"
proof (induction cands arbitrary: sa)
  case Nil
  show ?case by (intro exI [of _ "[]"]) (simp add: adds_Nil)
next
  case (Cons rel cands)
  show ?case
  proof (cases "MAX_TOTAL_BYTES \<le> sa_totalBytes sa")
    case True
    then show ?thesis by (intro exI [of _ "[]"]) (simp add: adds_Nil)
  next
    case False
    show ?thesis
    proof (cases "readFile repo rel")
      case None
      from Cons [of sa] obtain fs where "subseq fs cands" "adds repo sa fs (sampleLoop repo cands sa)"
        "\<not> sa_truncated (sampleLoop repo cands sa) \<longrightarrow> \<not> sa_truncated sa \<and> fs = filter (\<lambda>f. readFile repo f \<noteq> None) cands"
        by blast
      with False None show ?thesis by (intro exI [of _ fs]) (simp add: list_emb_Cons)
    next
      case (Some content)
      let ?sa = "sampleOne rel content sa"
      from Cons [of ?sa] obtain fs where "subseq fs cands" "adds repo ?sa fs (sampleLoop repo cands ?sa)"
        "\<not> sa_truncated (sampleLoop repo cands ?sa) \<longrightarrow> \<not> sa_truncated sa \<and> fs = filter (\<lambda>f. readFile repo f \<noteq> None) cands"
        unfolding sampleOne_fields(3) [OF Some] by blast
      with False Some adds_Cons [OF Some] show ?thesis by (intro exI [of _ "rel # fs"]) simp
    qed
  qed
qed

lemma sampleText_length: "length (sampleText repo rel) \<le> MAX_FILE_EXCERPT"
  by (simp add: sampleText_def split: option.split)

lemma sampleLoop_bytes:
  "sa_totalBytes sa < MAX_TOTAL_BYTES + MAX_FILE_EXCERPT \<Longrightarrow>
   sa_totalBytes (sampleLoop repo cands sa) < MAX_TOTAL_BYTES + MAX_FILE_EXCERPT"
proof (induction cands arbitrary: sa)
  case (Cons rel cands)
  show ?case
  proof (cases "MAX_TOTAL_BYTES \<le> sa_totalBytes sa")
    case False
    with Cons sampleText_length [of repo rel] show ?thesis
      by (auto simp: sampleOne_fields split: option.split)
  qed (use Cons.prems in simp)
qed simp

lemma set_candidatesOf: "set (candidatesOf lc files) \<subseteq> set files"
  by (auto simp: candidatesOf_def dest: in_set_takeD)

lemma candidatesOf_all:
  assumes "length files \<le> length (candidatesOf lc files)"
  shows "set (candidatesOf lc files) = set files"
proof -
  let ?P = "\<lambda>f. isManifestName f \<or> extname f \<in> set SOURCE_EXTENSIONS"
  have len: "length (sortWith le xs) = length xs" for le and xs :: "jsstring list"
    by (metis mset_sortWith size_mset)
  with assms have "length files \<le> length (filter ?P files)" by (simp add: candidatesOf_def)
  then have "\<forall>f \<in> set files. ?P f" using length_filter_less [of _ files ?P] by (meson not_le)
  then have all: "filter ?P files = files" by simp
  with assms len show ?thesis unfolding candidatesOf_def by (simp add: all)
qed

text \<open>The candidates and the sample of a repository.\<close>

lemma collect_sample:
  fixes h lc repo
  defines "files \<equiv> listedFiles repo"
  defines "sa \<equiv> sampleFiles repo files (candidatesOf lc files)"
  shows "subseq (sa_files sa) (candidatesOf lc files)"
    "sa_totalBytes sa = (\<Sum>f \<leftarrow> sa_files sa. length (sampleText repo f))"
    "fst (sa_hits sa) = concat (map (fileSinks repo) (sa_files sa))"
    "\<not> sa_truncated sa \<Longrightarrow> set (sa_files sa) = {f \<in> set files. readFile repo f \<noteq> None}"
proof -
  let ?c = "candidatesOf lc files"
  obtain fs where fs: "subseq fs ?c" "sa_files sa = fs" "sa_totalBytes sa = (\<Sum>f \<leftarrow> fs. length (sampleText repo f))"
    "fst (sa_hits sa) = concat (map (fileSinks repo) fs)"
    "\<not> sa_truncated sa \<longrightarrow> length files \<le> length ?c \<and> fs = filter (\<lambda>f. readFile repo f \<noteq> None) ?c"
    using sampleLoop_adds [of ?c repo "\<lparr>sa_manifests = [], sa_hits = ([], []), sa_files = [], sa_totalBytes = 0,
        sa_truncated = length ?c < length files\<rparr>"]
    unfolding sa_def sampleFiles_def adds_def by (simp add: not_less) blast
  show "subseq (sa_files sa) ?c" "sa_totalBytes sa = (\<Sum>f \<leftarrow> sa_files sa. length (sampleText repo f))"
    "fst (sa_hits sa) = concat (map (fileSinks repo) (sa_files sa))" unfolding fs(2) by (rule fs)+
  assume "\<not> sa_truncated sa"
  with fs candidatesOf_all [of files lc] show "set (sa_files sa) = {f \<in> set files. readFile repo f \<noteq> None}" by auto
qed

lemma collect_fields:
  fixes h lc repo
  defines "e \<equiv> collectStaticEvidence h lc repo"
  defines "sa \<equiv> sampleFiles repo (listedFiles repo) (candidatesOf lc (listedFiles repo))"
  shows "se_filesSampled e = sa_files sa" "se_totalBytes e = sa_totalBytes sa" "se_truncated e = sa_truncated sa"
    "se_sinks e = take 500 (fst (sa_hits sa))" "se_registrations e = take 300 (snd (sa_hits sa))"
  by (simp_all add: e_def sa_def collectStaticEvidence_def Let_def)

section \<open>A small repository\<close>

definition bytesOf :: "string \<Rightarrow> nat list" where "bytesOf s = map of_char s"

definition sampleRepo :: fsnode where
  "sampleRepo = DirNode (Some
     [(J ''src'', DirNode (Some [(J ''index.js'', FileNode (Some (bytesOf ''eval(x)'')))])),
      (J ''node_modules'', DirNode (Some [(J ''evil.js'', FileNode (Some (bytesOf ''eval(y)'')))])),
      (J ''broken.py'', FileNode None)])"

lemma fromUtf8_ascii: "list_all (\<lambda>b. b < 0x80) ys \<Longrightarrow> fromUtf8 ys = map of_nat ys"
proof (induction ys)
  case (Cons b ys)
  then show ?case by (simp add: fromUtf8_def fromCodePoints_def leadByte_def unitsOfCp_def)
qed (simp add: fromUtf8_def fromCodePoints_def)

lemma fromUtf8_bytesOf:
  assumes "list_all (\<lambda>b. b < 0x80) (bytesOf s)"
  shows "fromUtf8 (bytesOf s) = J s"
  by (simp add: fromUtf8_ascii [OF assms]) (simp add: bytesOf_def J_def comp_def of_nat_of_char)

lemma sample_read:
  "readFile sampleRepo (J ''src/index.js'') = Some (J ''eval(x)'')"
proof -
  have "resolve sampleRepo (splitS (J ''src/index.js'') SEP) = Some (FileNode (Some (bytesOf ''eval(x)'')))" by code_simp
  moreover have "list_all (\<lambda>b. b < 0x80) (bytesOf ''eval(x)'')" "length (bytesOf ''eval(x)'') = 7"
    "0 \<notin> set (bytesOf ''eval(x)'')" by code_simp+
  ultimately show ?thesis by (simp add: readFile_def MAX_READ_BYTES_def fromUtf8_bytesOf)
qed

lemma sample_unreadable: "readFile sampleRepo (J ''broken.py'') = None"
proof -
  have "resolve sampleRepo (splitS (J ''broken.py'') SEP) = Some (FileNode None)" by code_simp
  then show ?thesis by (simp add: readFile_def)
qed

lemma sample_listed: "listedFiles sampleRepo = [J ''broken.py'', J ''src/index.js'']"
  by code_simp

lemma sample_candidates: "candidatesOf (\<lambda>_ _. 0) [J ''broken.py'', J ''src/index.js''] = [J ''src/index.js'', J ''broken.py'']"
  by code_simp

lemma sample_text: "sampleText sampleRepo (J ''src/index.js'') = J ''eval(x)''"
  by (simp add: sampleText_def sample_read MAX_FILE_EXCERPT_def)

lemma sample_evidence:
  "se_filesSampled (collectStaticEvidence h (\<lambda>_ _. 0) sampleRepo) = [J ''src/index.js'']"
  "length (se_sinks (collectStaticEvidence h (\<lambda>_ _. 0) sampleRepo)) = 1"
  "\<not> se_truncated (collectStaticEvidence h (\<lambda>_ _. 0) sampleRepo)"
proof -
  have "splitS (J ''eval(x)'') [10] = [J ''eval(x)'']" by code_simp
  then have "scannedLines (J ''eval(x)'') = [(1, J ''eval(x)'')]" by (simp add: scannedLines_def MAX_LINE_def)
  moreover have "length (lineSinks (J ''src/index.js'') 1 (J ''eval(x)'')) = 1" by code_simp
  ultimately have one: "length (fst (scanFile (J ''src/index.js'') (J ''eval(x)'') ([], []))) = 1"
    by (simp add: scanFile_def)
  show "se_filesSampled (collectStaticEvidence h (\<lambda>_ _. 0) sampleRepo) = [J ''src/index.js'']"
    "length (se_sinks (collectStaticEvidence h (\<lambda>_ _. 0) sampleRepo)) = 1"
    "\<not> se_truncated (collectStaticEvidence h (\<lambda>_ _. 0) sampleRepo)"
    by (simp_all add: collect_fields sample_listed sample_candidates sampleFiles_def sample_read sample_unreadable sampleOne_def
        MAX_TOTAL_BYTES_def MAX_FILE_EXCERPT_def Let_def one)
qed

section \<open>Properties\<close>

text \<open>
  C23. Walking the repository with an explicit stack lists the files a direct recursion over the tree
  finds: every file once, none below a skipped directory, in the order of their code units, as long
  as there are no more than the 20000 the walk allows.
\<close>

theorem walk_lists_all_files:
  assumes "length (filesUnder [] repo) \<le> 20000"
  shows "mset (walkFs repo) = mset (filesUnder [] repo) \<and> sorted_wrt unitsLe (walkFs repo)"
proof
  have "mset (walkLoop [([], repo)] []) = mset (filesUnder [] repo)"
    using walkLoop_files [of "[]" "[([], repo)]"] assms by (simp add: WALK_LIMIT_def)
  then show "mset (walkFs repo) = mset (filesUnder [] repo)" by (simp add: walkFs_def)
  show "sorted_wrt unitsLe (walkFs repo)"
    unfolding walkFs_def by (rule sorted_sortWith) (use unitsLe_total unitsLe_trans in blast)+
qed

theorem walk_lists_all_files_witness:
  "mset (walkFs sampleRepo) = mset [J ''src/index.js'', J ''broken.py''] \<and> sorted_wrt unitsLe (walkFs sampleRepo)"
proof -
  have files: "filesUnder [] sampleRepo = [J ''src/index.js'', J ''broken.py'']" by code_simp
  show ?thesis using walk_lists_all_files [of sampleRepo] unfolding files by simp
qed

text \<open>
  The evidence a repository yields is bounded whatever it holds: at most 200 files, fewer than 440
  units of 1024 characters, at most 500 sinks and 300 registrations; every sampled file is a listed one, and when the
  evidence is not marked truncated, every listed file that can be read was sampled.
\<close>

theorem static_evidence_bounded:
  fixes h lc repo
  defines "e \<equiv> collectStaticEvidence h lc repo"
  shows "length (se_filesSampled e) \<le> 200 \<and> set (se_filesSampled e) \<subseteq> set (listedFiles repo) \<and>
    se_totalBytes e = (\<Sum>f \<leftarrow> se_filesSampled e. length (sampleText repo f)) \<and> se_totalBytes e < 440 * 1024 \<and>
    length (se_sinks e) \<le> 500 \<and> length (se_registrations e) \<le> 300 \<and>
    (\<not> se_truncated e \<longrightarrow> set (se_filesSampled e) = {f \<in> set (listedFiles repo). readFile repo f \<noteq> None})"
proof -
  let ?c = "candidatesOf lc (listedFiles repo)"
  let ?sa = "sampleFiles repo (listedFiles repo) ?c"
  note sample = collect_sample [where lc = lc and repo = repo] and fields = collect_fields [of h lc repo, folded e_def]
  have "length (se_filesSampled e) \<le> length ?c" using sample(1) by (simp add: fields list_emb_length)
  then have "length (se_filesSampled e) \<le> 200" by (simp add: candidatesOf_def MAX_FILES_def)
  moreover have "set (se_filesSampled e) \<subseteq> set (listedFiles repo)"
    using list_emb_set [OF sample(1)] set_candidatesOf [of lc] by (auto simp: fields)
  moreover have "se_totalBytes e < 440 * 1024"
    using sampleLoop_bytes [of "\<lparr>sa_manifests = [], sa_hits = ([], []), sa_files = [], sa_totalBytes = 0,
        sa_truncated = length ?c < length (listedFiles repo)\<rparr>" repo ?c]
    by (simp add: fields sampleFiles_def MAX_TOTAL_BYTES_def MAX_FILE_EXCERPT_def)
  ultimately show ?thesis using sample(2,4) by (simp add: fields)
qed

theorem static_evidence_bounded_witness:
  "[J ''src/index.js''] = se_filesSampled (collectStaticEvidence (sampleHost []) (\<lambda>_ _. 0) sampleRepo) \<and>
   {J ''src/index.js''} = {f \<in> set (listedFiles sampleRepo). readFile sampleRepo f \<noteq> None}"
  using static_evidence_bounded [of "sampleHost []" "\<lambda>_ _. 0" sampleRepo] by (simp add: sample_evidence)

text \<open>
  No dangerous line of a sampled file escapes the report: as long as fewer than 500 sinks are
  reported, every line of up to 2000 characters in the scanned part of the file that a sink pattern
  matches is reported with its file, line number, category and pattern (install hooks only count in
  manifests).
\<close>

theorem sink_lines_reported:
  assumes "length (se_sinks (collectStaticEvidence h lc repo)) < 500"
    and "f \<in> set (se_filesSampled (collectStaticEvidence h lc repo))"
    and "(n, line) \<in> set (enumerate 1 (splitS (sampleText repo f) [10]))" "length line \<le> 2000"
    and "(category, p) \<in> set SINK_PATTERNS" "category \<noteq> J ''install-hook'' \<or> isManifestName f" "test p line"
  shows "\<lparr>sh_file = f, sh_line = n, sh_pattern = sourceText p, sh_category = category, sh_snippet = take 200 (trimS line)\<rparr>
    \<in> set (se_sinks (collectStaticEvidence h lc repo))"
    (is "?hit \<in> _")
proof -
  note fields = collect_fields [of h lc repo] and sample = collect_sample [where lc = lc and repo = repo]
  have "?hit \<in> set (lineSinks f n line)" using assms(5-7) by (force simp: lineSinks_def snippetOf_def)
  moreover have "(n, line) \<in> set (scannedLines (sampleText repo f))"
    using assms(3,4) by (simp add: scannedLines_def MAX_LINE_def)
  ultimately have "?hit \<in> set (fileSinks repo f)" by (force simp: fileSinks_def scanFile_def)
  with assms(2) have "?hit \<in> set (fst (sa_hits (sampleFiles repo (listedFiles repo) (candidatesOf lc (listedFiles repo)))))"
    by (auto simp: fields sample(3))
  with assms(1) show ?thesis by (simp add: fields)
qed

theorem sink_lines_reported_witness:
  "\<lparr>sh_file = J ''src/index.js'', sh_line = 1, sh_pattern = sourceText (rx (Cat [WordB, Lits ''eval'', manyR Space, Lits ''(''])),
    sh_category = J ''dynamic-code'', sh_snippet = take 200 (trimS (J ''eval(x)''))\<rparr>
   \<in> set (se_sinks (collectStaticEvidence (sampleHost []) (\<lambda>_ _. 0) sampleRepo))"
proof (rule sink_lines_reported)
  show "length (se_sinks (collectStaticEvidence (sampleHost []) (\<lambda>_ _. 0) sampleRepo)) < 500"
    by (simp add: sample_evidence)
  show "J ''src/index.js'' \<in> set (se_filesSampled (collectStaticEvidence (sampleHost []) (\<lambda>_ _. 0) sampleRepo))"
    by (simp add: sample_evidence)
  show "(1, J ''eval(x)'') \<in> set (enumerate 1 (splitS (sampleText sampleRepo (J ''src/index.js'')) [10]))"
    unfolding sample_text by code_simp
  show "test (rx (Cat [WordB, Lits ''eval'', manyR Space, Lits ''(''])) (J ''eval(x)'')" by code_simp
  show "(J ''dynamic-code'', rx (Cat [WordB, Lits ''eval'', manyR Space, Lits ''(''])) \<in> set SINK_PATTERNS"
    by (simp add: SINK_PATTERNS_def)
qed simp_all

end
