(* ===== verification/Synthesis.thy ===== *)
theory Synthesis
  imports StatusWriter
begin

text \<open>
  The lenient parser of what the synthesis persona returns and the scores computed from it
  (\<open>clampScore\<close>, \<open>parseFindings\<close>, \<open>parseSynthesis\<close> of \<^verbatim>\<open>src/runner/src/evaluator.ts\<close>).
\<close>

section \<open>Parsing\<close>

definition clampScore :: "jsval option \<Rightarrow> int option" where
  "clampScore v = (case finNum v of None \<Rightarrow> None | Some q \<Rightarrow> Some (max 0 (min 100 (roundN q))))"

text \<open>\<open>a ?? b ?? c\<close>\<close>

fun coalesce :: "jsval option list \<Rightarrow> jsval option" where
  "coalesce [] = None"
| "coalesce (v # vs) = (if v = None \<or> v = Some JNull then coalesce vs else v)"

definition strOr :: "jsval option \<Rightarrow> jsstring \<Rightarrow> jsstring" where
  "strOr v fallback = (case asStr v of Some s \<Rightarrow> s | None \<Rightarrow> fallback)"

definition neStrOr :: "jsval option \<Rightarrow> jsstring \<Rightarrow> jsstring" where
  "neStrOr v fallback = (case neStr v of Some s \<Rightarrow> s | None \<Rightarrow> fallback)"

definition severityOr :: "jsval option \<Rightarrow> Severity \<Rightarrow> Severity" where
  "severityOr v fallback = (case asSeverity v of Some s \<Rightarrow> s | None \<Rightarrow> fallback)"

definition parseFinding :: "jsstring \<Rightarrow> jsval \<Rightarrow> Finding list" where
  "parseFinding defaultAgent item =
     (case item of
        JObj o' \<Rightarrow>
          [\<lparr>fi_agent = neStrOr (fld o' (J ''agent'')) defaultAgent,
            fi_severity = severityOr (fld o' (J ''severity'')) Info,
            fi_title = neStrOr (fld o' (J ''title'')) (J ''untitled finding''),
            fi_description = strOr (fld o' (J ''description'')) [],
            fi_remediation = asStr (fld o' (J ''remediation''))\<rparr>]
      | _ \<Rightarrow> [])"

definition parseFindings :: "jsval option \<Rightarrow> jsstring \<Rightarrow> Finding list" where
  "parseFindings raw defaultAgent =
     (case asArr raw of None \<Rightarrow> [] | Some items \<Rightarrow> concat (map (parseFinding defaultAgent) items))"

definition parseRemediation :: "jsval \<Rightarrow> RemediationItem list" where
  "parseRemediation item =
     (case item of
        JObj o' \<Rightarrow>
          [\<lparr>ri_title = neStrOr (fld o' (J ''title'')) (J ''remediation''),
            ri_severity = severityOr (fld o' (J ''severity'')) Medium,
            ri_description = strOr (fld o' (J ''description'')) [],
            ri_codeGuidance = strOr (fld o' (J ''codeGuidance'')) []\<rparr>]
      | _ \<Rightarrow> [])"

definition parsePlan :: "jsval option \<Rightarrow> RemediationItem list" where
  "parsePlan raw = (case asArr raw of None \<Rightarrow> [] | Some items \<Rightarrow> concat (map parseRemediation items))"

definition scoreValue :: "int option \<Rightarrow> jsval option" where
  "scoreValue s = map_option jint s"

definition safetyOf :: "jsobj \<Rightarrow> int option" where
  "safetyOf raw = clampScore (coalesce [fld raw (J ''safetyScore''), fld raw (J ''safety_score''), fld raw (J ''score'')])"

definition reliabilityOf :: "jsobj \<Rightarrow> int option" where
  "reliabilityOf raw =
     clampScore (coalesce [fld raw (J ''reliabilityScore''), fld raw (J ''reliability_score''), scoreValue (safetyOf raw)])"

definition parseSynthesis :: "host \<Rightarrow> jsval \<Rightarrow> jsstring \<Rightarrow> RunnerError + SynthesisOutput" where
  "parseSynthesis h raw agentName =
     (case raw of
        JObj o' \<Rightarrow>
          if safetyOf o' = None \<and> reliabilityOf o' = None then
            Inl (StructuredOutputExhaustedError agentName 0
              (J ''synthesis output lacks safetyScore and reliabilityScore (keys: '' @
               hStringify h (JArr (map (\<lambda>(k, v). JStr k) (take 20 o'))) @ J '')''))
          else Inr
            \<lparr>so_safetyScore = (case safetyOf o' of Some s \<Rightarrow> s | None \<Rightarrow> (case reliabilityOf o' of Some r \<Rightarrow> r | None \<Rightarrow> 0)),
             so_reliabilityScore = (case reliabilityOf o' of Some r \<Rightarrow> r | None \<Rightarrow> (case safetyOf o' of Some s \<Rightarrow> s | None \<Rightarrow> 0)),
             so_riskCategory = (case asRiskCategory (fld o' (J ''riskCategory'')) of Some c \<Rightarrow> c | None \<Rightarrow> UnknownRisk),
             so_summary = strOr (fld o' (J ''summary'')) [],
             so_remediationPlan = parsePlan (fld o' (J ''remediationPlan'')),
             so_findings = parseFindings (fld o' (J ''findings'')) agentName\<rparr>
      | _ \<Rightarrow> Inl (StructuredOutputExhaustedError agentName 0 (J ''synthesis output is not an object'')))"

section \<open>Scores\<close>

text \<open>\<open>Math.round((safety + reliability) / 2)\<close>, and the mean of a list of scores.\<close>

definition synthFinalScore :: "SynthesisOutput \<Rightarrow> int" where
  "synthFinalScore s = roundN (of_int (so_safetyScore s + so_reliabilityScore s) / 2)"

definition meanScore :: "int list \<Rightarrow> int" where
  "meanScore scores = roundN (of_int (sum_list scores) / of_nat (length scores))"

definition SCORE_KEYS :: "jsstring list" where
  "SCORE_KEYS = map J [''score'', ''reliabilityScore'', ''rogueScore'', ''safetyScore'']"

definition agentScores :: "AgentRunRecord \<Rightarrow> int list" where
  "agentScores r =
     (case (ar_statusOk r, asRec (ar_structuredOutput r)) of
        (True, Some o') \<Rightarrow> concat (map (\<lambda>k. case clampScore (fld o' k) of Some v \<Rightarrow> [v] | None \<Rightarrow> []) SCORE_KEYS)
      | _ \<Rightarrow> [])"

section \<open>Lemmas\<close>

lemma clampScore_range: "clampScore v = Some s \<Longrightarrow> 0 \<le> s \<and> s \<le> 100"
  by (auto simp: clampScore_def split: option.splits)

lemma clampScore_jint: "0 \<le> s \<Longrightarrow> s \<le> 100 \<Longrightarrow> clampScore (Some (jint s)) = Some s"
  by (simp add: clampScore_def jint_def finNum_def)

lemma agentScores_range: "s \<in> set (agentScores r) \<Longrightarrow> 0 \<le> s \<and> s \<le> 100"
  by (auto simp: agentScores_def dest: clampScore_range [OF sym] split: option.splits bool.splits)

text \<open>A rounded mean stays between the bounds of what it is the mean of.\<close>

lemma roundN_mono: "p \<le> q \<Longrightarrow> roundN p \<le> roundN q"
  by (simp add: roundN_def floor_mono)

lemma roundN_range: "of_int a \<le> q \<Longrightarrow> q \<le> of_int b \<Longrightarrow> a \<le> roundN q \<and> roundN q \<le> b"
  using roundN_mono [of "of_int a" q] roundN_mono [of q "of_int b"] by simp

lemma sum_list_bounds:
  "(\<And>x. x \<in> set xs \<Longrightarrow> a \<le> x \<and> x \<le> b) \<Longrightarrow> a * int (length xs) \<le> sum_list xs \<and> sum_list xs \<le> b * int (length xs)"
  by (induction xs) (auto simp: algebra_simps, fastforce+)

lemma meanScore_range:
  assumes "xs \<noteq> []" "\<And>x. x \<in> set xs \<Longrightarrow> a \<le> x \<and> x \<le> b"
  shows "a \<le> meanScore xs \<and> meanScore xs \<le> b"
proof -
  have len: "0 < (of_nat (length xs) :: rat)" using assms(1) by simp
  have "a * int (length xs) \<le> sum_list xs" "sum_list xs \<le> b * int (length xs)"
    using sum_list_bounds [of xs a b] assms(2) by blast+
  then have "of_int (a * int (length xs)) \<le> (of_int (sum_list xs) :: rat)"
    "(of_int (sum_list xs) :: rat) \<le> of_int (b * int (length xs))" by (simp_all only: of_int_le_iff)
  then have "of_int a \<le> (of_int (sum_list xs) :: rat) / of_nat (length xs)"
    "(of_int (sum_list xs) :: rat) / of_nat (length xs) \<le> of_int b"
    using len by (simp_all add: pos_le_divide_eq pos_divide_le_eq)
  then show ?thesis unfolding meanScore_def by (rule roundN_range)
qed

lemma scoreOf_range: "safetyOf o' = Some s \<Longrightarrow> 0 \<le> s \<and> s \<le> 100" "reliabilityOf o' = Some s \<Longrightarrow> 0 \<le> s \<and> s \<le> 100"
  unfolding safetyOf_def reliabilityOf_def by (rule clampScore_range, assumption)+

lemma parseSynthesis_range:
  assumes "parseSynthesis h raw name = Inr s"
  shows "0 \<le> so_safetyScore s \<and> so_safetyScore s \<le> 100 \<and> 0 \<le> so_reliabilityScore s \<and> so_reliabilityScore s \<le> 100"
proof -
  obtain o' where "raw = JObj o'" using assms by (cases raw) (simp_all add: parseSynthesis_def)
  with assms scoreOf_range [of o'] show ?thesis
    by (cases "safetyOf o'"; cases "reliabilityOf o'") (auto simp: parseSynthesis_def)
qed

lemma coalesce_None: "coalesce (vs @ [None]) = coalesce vs"
  by (induction vs) simp_all

lemma synthFinalScore_range:
  assumes "parseSynthesis h raw name = Inr s"
  shows "min (so_safetyScore s) (so_reliabilityScore s) \<le> synthFinalScore s \<and>
    synthFinalScore s \<le> max (so_safetyScore s) (so_reliabilityScore s)"
  unfolding synthFinalScore_def by (rule roundN_range) (auto simp: min_def max_def)

subsection \<open>The JSON form of a synthesis\<close>

definition findingJson :: "Finding \<Rightarrow> jsval" where
  "findingJson f = JObj ([(J ''agent'', JStr (fi_agent f)), (J ''severity'', JStr (severityStr (fi_severity f))),
     (J ''title'', JStr (fi_title f)), (J ''description'', JStr (fi_description f))] @
     optField ''remediation'' JStr (fi_remediation f))"

definition remediationJson :: "RemediationItem \<Rightarrow> jsval" where
  "remediationJson r = JObj [(J ''title'', JStr (ri_title r)), (J ''severity'', JStr (severityStr (ri_severity r))),
     (J ''description'', JStr (ri_description r)), (J ''codeGuidance'', JStr (ri_codeGuidance r))]"

definition synthesisJson :: "SynthesisOutput \<Rightarrow> jsval" where
  "synthesisJson s = JObj [(J ''safetyScore'', jint (so_safetyScore s)), (J ''reliabilityScore'', jint (so_reliabilityScore s)),
     (J ''riskCategory'', JStr (riskStr (so_riskCategory s))), (J ''summary'', JStr (so_summary s)),
     (J ''remediationPlan'', JArr (map remediationJson (so_remediationPlan s))),
     (J ''findings'', JArr (map findingJson (so_findings s)))]"

lemma parseFinding_json: "fi_agent f \<noteq> [] \<Longrightarrow> fi_title f \<noteq> [] \<Longrightarrow> parseFinding d (findingJson f) = [f]"
  by (cases f) (auto simp: parseFinding_def findingJson_def neStrOr_def severityOr_def strOr_def neStr_def optField_def
      split: option.split)

lemma parseRemediation_json: "ri_title r \<noteq> [] \<Longrightarrow> parseRemediation (remediationJson r) = [r]"
  by (cases r) (auto simp: parseRemediation_def remediationJson_def neStrOr_def severityOr_def strOr_def neStr_def)

lemma concat_map_singleton: "(\<And>x. x \<in> set xs \<Longrightarrow> f (g x) = [x]) \<Longrightarrow> concat (map f (map g xs)) = xs"
  by (induction xs) simp_all

definition wfSynthesis :: "SynthesisOutput \<Rightarrow> bool" where
  "wfSynthesis s \<longleftrightarrow> 0 \<le> so_safetyScore s \<and> so_safetyScore s \<le> 100 \<and> 0 \<le> so_reliabilityScore s \<and> so_reliabilityScore s \<le> 100 \<and>
     (\<forall>f \<in> set (so_findings s). fi_agent f \<noteq> [] \<and> fi_title f \<noteq> []) \<and> (\<forall>r \<in> set (so_remediationPlan s). ri_title r \<noteq> [])"

section \<open>Properties\<close>


definition sampleSynthesis :: SynthesisOutput where
  "sampleSynthesis = \<lparr>so_safetyScore = 40, so_reliabilityScore = 75, so_riskCategory = Untrusted, so_summary = J ''weak'',
     so_remediationPlan = [\<lparr>ri_title = J ''pin'', ri_severity = High, ri_description = [], ri_codeGuidance = J ''npm ci''\<rparr>],
     so_findings = [\<lparr>fi_agent = J ''sast'', fi_severity = Critical, fi_title = J ''eval'', fi_description = J ''d'',
       fi_remediation = None\<rparr>]\<rparr>"


text \<open>
  A verdict written in the documented shape is read back unchanged: for scores between 0 and 100 and
  findings with an agent and a title, parsing the JSON of a verdict gives that verdict, findings and
  remediation plan included and in order.
\<close>

theorem synthesis_round_trip:
  assumes "wfSynthesis s"
  shows "parseSynthesis h (synthesisJson s) name = Inr s"
proof -
  have "concat (map (parseFinding name) (map findingJson (so_findings s))) = so_findings s"
    using assms by (intro concat_map_singleton parseFinding_json) (auto simp: wfSynthesis_def)
  moreover have "concat (map parseRemediation (map remediationJson (so_remediationPlan s))) = so_remediationPlan s"
    using assms by (intro concat_map_singleton parseRemediation_json) (auto simp: wfSynthesis_def)
  moreover have "0 \<le> so_safetyScore s" "so_safetyScore s \<le> 100" "0 \<le> so_reliabilityScore s" "so_reliabilityScore s \<le> 100"
    using assms by (simp_all add: wfSynthesis_def)
  moreover have "jint i \<noteq> JNull" for i by (simp add: jint_def)
  ultimately show ?thesis
    unfolding parseSynthesis_def synthesisJson_def
    by (simp add: safetyOf_def reliabilityOf_def clampScore_jint parsePlan_def parseFindings_def strOr_def del: map_map)
qed

theorem synthesis_round_trip_witness:
  "parseSynthesis (sampleHost []) (synthesisJson sampleSynthesis) (J ''s'') = Inr sampleSynthesis"
  by (rule synthesis_round_trip) (simp add: wfSynthesis_def sampleSynthesis_def)

end
