(* ===== verification/Evaluator.thy ===== *)
theory Evaluator
  imports Gate
begin

text \<open>
  The evaluation of a server (\<open>evaluate\<close> of \<^verbatim>\<open>src/runner/src/evaluator.ts\<close>): the personas one after the
  other, each with the evidence its kind needs, then the score and the completion of the run.
\<close>

section \<open>The target session\<close>

definition TARGET_READY_TIMEOUT_MS :: int where "TARGET_READY_TIMEOUT_MS = 90000"

definition modDynamic :: "(DynamicEvidence \<Rightarrow> DynamicEvidence) \<Rightarrow> RunState \<Rightarrow> RunState" where
  "modDynamic f st = st\<lparr>st_dynamic := f (st_dynamic st)\<rparr>"

definition runnerCall :: "('s \<Rightarrow> (RunnerError + 'a) \<times> 's) \<Rightarrow> ('s, 'a) run" where
  "runnerCall f = tryM (\<lambda>w. map_prod (map_sum Runner id) id (f w))"

text \<open>A listing that fails leaves the evidence as it was.\<close>

definition enumerateSurface :: "'s Setting \<Rightarrow> ('s, unit) run" where
  "enumerateSurface cx =
     (let ask = ow_ask (rn_out cx) in
      thenM (catchM (bindM (runnerCall (listTools ask)) (\<lambda>l. modM (modDynamic (\<lambda>d. d\<lparr>dy_tools := l\<rparr>)))) (\<lambda>_. retM ()))
      (thenM (catchM (bindM (runnerCall (listPrompts ask)) (\<lambda>l. modM (modDynamic (\<lambda>d. d\<lparr>dy_prompts := l\<rparr>)))) (\<lambda>_. retM ()))
      (catchM (bindM (runnerCall (listResources ask)) (\<lambda>l. modM (modDynamic (\<lambda>d. d\<lparr>dy_resources := l\<rparr>)))) (\<lambda>_. retM ()))))"

definition evidenceTelemetry :: "DynamicEvidence \<Rightarrow> Telemetry \<Rightarrow> Telemetry" where
  "evidenceTelemetry ev t =
     t\<lparr>te_initializeOk := dy_init ev \<noteq> None,
       te_protocolVersion := (case dy_init ev of Some i \<Rightarrow> ir_protocolVersion i | None \<Rightarrow> []),
       te_serverName := Option.bind (dy_init ev) ir_serverName, te_serverVersion := Option.bind (dy_init ev) ir_serverVersion,
       te_toolsCount := length (dy_tools ev), te_promptsCount := length (dy_prompts ev),
       te_resourcesCount := length (dy_resources ev)\<rparr>"

definition clientTelemetry :: "'s Outside \<Rightarrow> 's \<Rightarrow> Telemetry \<Rightarrow> Telemetry" where
  "clientTelemetry ow w t =
     (let stats = tg_latency (ow_target ow) w in
      t\<lparr>te_avgLatencyMs := ls_avgMs stats, te_p95LatencyMs := ls_p95Ms stats, te_maxLatencyMs := ls_maxMs stats,
        te_crashes := ow_crashes ow w, te_malformedFrames := ow_malformed ow w,
        te_unsolicitedRequests := unsolicitedTotal (ow_target ow) w, te_notifications := tg_notifications (ow_target ow) w\<rparr>)"

definition fuzzTelemetry :: "DynamicEvidence \<Rightarrow> Telemetry \<Rightarrow> Telemetry" where
  "fuzzTelemetry ev t =
     (case dy_fuzz ev of Some z \<Rightarrow> t\<lparr>te_fuzzCases := fz_totalCases z, te_hangs := fz_hangs z\<rparr> | None \<Rightarrow> t)"

text \<open>Every caller passes a client, so the branch for it is always taken.\<close>

definition refreshTelemetry :: "'s Setting \<Rightarrow> ('s, unit) run" where
  "refreshTelemetry cx st =
     (case st of (rs, w) \<Rightarrow>
        (Inr (), (modReport (\<lambda>r. r\<lparr>er_telemetry :=
           fuzzTelemetry (st_dynamic rs) (clientTelemetry (rn_out cx) w (evidenceTelemetry (st_dynamic rs) (er_telemetry r)))\<rparr>) rs, w)))"

definition ensureTarget :: "'s Setting \<Rightarrow> ('s, unit) run" where
  "ensureTarget cx =
     bindM (getM st_targetStarted) (\<lambda>started.
     if started then retM ()
     else
       thenM (modM (\<lambda>st. st\<lparr>st_targetStarted := True, st_mcp := True\<rparr>))
       (bindM (catchM (bindM (tryM (ow_start (rn_out cx))) (\<lambda>_. retM True))
                (\<lambda>err. thenM (modM (modDynamic (\<lambda>d. d\<lparr>dy_initError := J ''transport start failed: '' @ errorMessage (rn_host cx) err\<rparr>)))
                         (retM False)))
         (\<lambda>up. if \<not> up then retM ()
               else thenM
                 (catchM
                   (bindM (tryM (ow_initialize (rn_out cx) TARGET_READY_TIMEOUT_MS)) (\<lambda>i.
                      thenM (modM (modDynamic (\<lambda>d. d\<lparr>dy_init := Some i\<rparr>))) (enumerateSurface cx)))
                   (\<lambda>err. modM (modDynamic (\<lambda>d. d\<lparr>dy_initError := errorMessage (rn_host cx) err\<rparr>))))
                 (refreshTelemetry cx))))"

section \<open>Recording an agent\<close>

definition agentPatch :: "jsstring \<Rightarrow> jsval \<Rightarrow> StatusPatch" where
  "agentPatch name v = emptyPatch\<lparr>sp_agentResults := Some [(name, v)]\<rparr>"

definition newRecord :: "OpenCodeAgent \<Rightarrow> AgentKind \<Rightarrow> AgentRunRecord" where
  "newRecord agent kind = \<lparr>ar_role = as_role (oa_spec agent), ar_kind = kind, ar_model = modelRef agent, ar_durationMs = 0,
     ar_statusOk = False, ar_error = None, ar_structuredOutput = None\<rparr>"

definition setAgent :: "jsstring \<Rightarrow> AgentRunRecord \<Rightarrow> RunState \<Rightarrow> RunState" where
  "setAgent name r = modReport (\<lambda>rep. rep\<lparr>er_agents := assignProp (er_agents rep) name r\<rparr>)"

definition failAgent :: "jsstring \<Rightarrow> RunState \<Rightarrow> RunState" where
  "failAgent name st = st\<lparr>st_failedAgents := st_failedAgents st @ [name]\<rparr>"

text \<open>\<open>message\<close> is evaluated when the prompt is sent, after the record of the agent is in the report.\<close>

definition recordAgent :: "'s Setting \<Rightarrow> OpenCodeAgent \<Rightarrow> AgentKind \<Rightarrow> (RunState \<Rightarrow> jsstring) \<Rightarrow> ('s, jsval) run" where
  "recordAgent cx agent kind message =
     (let name = agentName agent; r0 = newRecord agent kind in
      bindM (callM (ow_now (rn_out cx))) (\<lambda>started.
      thenM (patchM cx (emptyPatch\<lparr>sp_phase := Some Evaluating, sp_currentAgent := Some name,
                          sp_message := Some (J ''running agent '' @ name)\<rparr>))
      (thenM (modM (setAgent name r0))
      (catchM
        (bindM (getM message) (\<lambda>msg.
         bindM (tryM (runAgentPrompt (rn_host cx) (ow_opencode (rn_out cx)) agent kind msg (rn_env cx))) (\<lambda>result.
           case result of (structured, durationMs) \<Rightarrow>
             thenM (modM (setAgent name (r0\<lparr>ar_durationMs := durationMs, ar_statusOk := True, ar_structuredOutput := Some structured\<rparr>)))
             (thenM (patchM cx (agentPatch name structured)) (retM structured)))))
        (\<lambda>err.
          let error = errorMessage (rn_host cx) err in
          bindM (callM (ow_now (rn_out cx))) (\<lambda>now.
          thenM (modM (setAgent name (r0\<lparr>ar_durationMs := now - started, ar_error := Some error\<rparr>)))
          (thenM (modM (failAgent name))
          (thenM (patchM cx (agentPatch name (JObj [(J ''error'', JStr error), (J ''errorClass'', JStr (errorName err))])))
             (throwM err)))))))))"

text \<open>The call sites that carry on when the agent fails.\<close>

definition degraded :: "('s, 'a) run \<Rightarrow> ('s, unit) run" where
  "degraded m = catchM (thenM m (retM ())) (\<lambda>_. retM ())"

section \<open>Personas\<close>

definition evidenceSummary :: "StaticEvidence \<Rightarrow> StaticEvidenceSummary" where
  "evidenceSummary e = \<lparr>ss_fileCount = se_fileCount e, ss_dependencyCount = length (se_dependencies e),
     ss_sinkCount = length (se_sinks e), ss_registrationCount = length (se_registrations e)\<rparr>"

text \<open>
  Collecting static evidence handles its own failures, so the handler around it, which would skip the
  agent, never runs and is left out.
\<close>

definition staticEvidenceM :: "'s Setting \<Rightarrow> ('s, StaticEvidence) run" where
  "staticEvidenceM cx =
     bindM (getM st_staticEvidence) (\<lambda>known.
     case known of
       Some e \<Rightarrow> retM e
     | None \<Rightarrow>
         bindM (callM (\<lambda>w. (collectStaticEvidence (rn_host cx) (ow_localeCompare (rn_out cx)) (ow_repo (rn_out cx) w), w))) (\<lambda>e.
         thenM (modM (\<lambda>st. modReport (\<lambda>r. r\<lparr>er_staticEvidenceSummary := Some (evidenceSummary e)\<rparr>) (st\<lparr>st_staticEvidence := Some e\<rparr>)))
           (retM e)))"

definition staticAgent :: "'s Setting \<Rightarrow> MCPServer \<Rightarrow> OpenCodeAgent \<Rightarrow> ('s, unit) run" where
  "staticAgent cx server agent =
     bindM (staticEvidenceM cx) (\<lambda>evidence.
       degraded (recordAgent cx agent KStatic (\<lambda>_. buildStaticMessage (rn_host cx) server evidence (rn_env cx))))"

text \<open>Gate 1: the advertised surface, once.\<close>

definition scanSurface :: "'s Setting \<Rightarrow> ('s, unit) run" where
  "scanSurface cx =
     bindM (getM (\<lambda>st. dy_init (st_dynamic st) \<noteq> None \<and> \<not> st_surfaceScanned st)) (\<lambda>due.
     if due then
       thenM (modM (\<lambda>st. st\<lparr>st_surfaceScanned := True\<rparr>))
         (bindM (getM (\<lambda>st. surfaceSegments (surfaceOf (st_dynamic st)))) (scanUntrusted cx (J ''advertised-surface'')))
     else retM ())"

definition isTargetLost :: "thrown \<Rightarrow> bool" where
  "isTargetLost err = (case err of Runner (TargetCrashError _) \<Rightarrow> True | Runner (TargetUnavailableError _) \<Rightarrow> True | _ \<Rightarrow> False)"

text \<open>The handler the fuzzing and the probing share.\<close>

definition evidenceFailed :: "'s Setting \<Rightarrow> thrown \<Rightarrow> ('s, unit) run" where
  "evidenceFailed cx err =
     (if isTargetLost err then
        thenM (modM (modReport (\<lambda>r. r\<lparr>er_telemetry := (er_telemetry r)\<lparr>te_crashes := te_crashes (er_telemetry r) + 1\<rparr>\<rparr>)))
          (thenM (callM (tg_recover (ow_target (rn_out cx)) 30000)) (retM ()))
      else retM ())"

definition fuzzSettings :: FuzzSettings where
  "fuzzSettings = \<lparr>fo_maxCasesPerTool = 25, fo_budgetMs = 240000, fo_perCallTimeoutMs = 10000, fo_protocol = True\<rparr>"

definition probeSettings :: ProbeSettings where
  "probeSettings = \<lparr>po_perCallTimeoutMs = 10000, po_budgetMs = 180000, po_maxActive = 6\<rparr>"

definition fuzzM :: "'s Setting \<Rightarrow> ('s, unit) run" where
  "fuzzM cx =
     bindM (getM (\<lambda>st. (st_mcp st \<and> dy_init (st_dynamic st) \<noteq> None, dy_tools (st_dynamic st)))) (\<lambda>(live, tools).
     if \<not> live then retM ()
     else thenM
       (catchM
         (bindM (tryM (runFuzz (rn_host cx) (rn_unicode cx) (ow_target (rn_out cx)) tools fuzzSettings)) (\<lambda>z.
            modM (\<lambda>st. modReport (\<lambda>r. r\<lparr>er_fuzz := Some z\<rparr>) (modDynamic (\<lambda>d. d\<lparr>dy_fuzz := Some z\<rparr>) st))))
         (evidenceFailed cx))
       (refreshTelemetry cx))"

definition scanFuzz :: "'s Setting \<Rightarrow> ('s, unit) run" where
  "scanFuzz cx =
     bindM (getM (\<lambda>st. dy_fuzz (st_dynamic st))) (\<lambda>z.
     case z of Some report \<Rightarrow> scanUntrusted cx (J ''fuzz-responses'') (fuzzSegments report) | None \<Rightarrow> retM ())"

definition dynamicMessage :: "'s Setting \<Rightarrow> MCPServer \<Rightarrow> RunState \<Rightarrow> jsstring" where
  "dynamicMessage cx server st =
     withVigilNotes (rn_host cx) st (buildDynamicMessage (rn_host cx) server (st_dynamic st) (er_telemetry (st_report st)))"

definition dynamicAgent :: "'s Setting \<Rightarrow> MCPServer \<Rightarrow> OpenCodeAgent \<Rightarrow> ('s, unit) run" where
  "dynamicAgent cx server agent =
     thenM (ensureTarget cx) (thenM (scanSurface cx) (thenM (fuzzM cx) (thenM (scanFuzz cx)
       (degraded (recordAgent cx agent KDynamic (dynamicMessage cx server))))))"

definition probesM :: "'s Setting \<Rightarrow> ('s, unit) run" where
  "probesM cx =
     bindM (getM (\<lambda>st. (st_mcp st \<and> dy_init (st_dynamic st) \<noteq> None, st_dynamic st))) (\<lambda>(live, d).
     if \<not> live then retM ()
     else thenM
       (catchM
         (bindM (tryM (runProbes (rn_host cx) (rn_unicode cx) (ow_target (rn_out cx)) (dy_tools d) (dy_init d) probeSettings)) (\<lambda>p.
            modM (\<lambda>st. modReport (\<lambda>r. r\<lparr>er_probes := Some p\<rparr>) (st\<lparr>st_probes := Some p\<rparr>))))
         (evidenceFailed cx))
       (refreshTelemetry cx))"

definition scanProbes :: "'s Setting \<Rightarrow> ('s, unit) run" where
  "scanProbes cx =
     bindM (getM st_probes) (\<lambda>p.
     case p of Some report \<Rightarrow> scanUntrusted cx (J ''probe-responses'') (probeSegments report) | None \<Rightarrow> retM ())"

definition adversarialMessage :: "'s Setting \<Rightarrow> MCPServer \<Rightarrow> RunState \<Rightarrow> jsstring" where
  "adversarialMessage cx server st =
     withVigilNotes (rn_host cx) st
       (buildAdversarialMessage (rn_host cx) server (st_dynamic st) (er_telemetry (st_report st)) (st_probes st))"

definition adversarialAgent :: "'s Setting \<Rightarrow> MCPServer \<Rightarrow> OpenCodeAgent \<Rightarrow> ('s, unit) run" where
  "adversarialAgent cx server agent =
     thenM (ensureTarget cx) (thenM (scanSurface cx) (thenM (probesM cx) (thenM (scanProbes cx)
       (degraded (recordAgent cx agent KAdversarial (adversarialMessage cx server))))))"

definition synthScoring :: "SynthesisOutput \<Rightarrow> ScoringBlock" where
  "synthScoring s = \<lparr>sc_safetyScore = so_safetyScore s, sc_reliabilityScore = so_reliabilityScore s,
     sc_riskCategory = so_riskCategory s, sc_summary = so_summary s\<rparr>"

definition applySynthesis :: "'s Setting \<Rightarrow> OpenCodeAgent \<Rightarrow> jsval \<Rightarrow> ('s, unit) run" where
  "applySynthesis cx agent structured =
     (case parseSynthesis (rn_host cx) structured (agentName agent) of
        Inl _ \<Rightarrow> modM (failAgent (agentName agent))
      | Inr synth \<Rightarrow>
          thenM (modM (modReport (\<lambda>r. r\<lparr>er_scoring := synthScoring synth, er_finalScore := synthFinalScore synth,
                                       er_findings := so_findings synth\<rparr>)))
            (patchM cx (emptyPatch\<lparr>sp_finalScore := Some (synthFinalScore synth), sp_scoring := Some (synthScoring synth),
                          sp_findings := Some (so_findings synth)\<rparr>)))"

definition synthesisMessage :: "'s Setting \<Rightarrow> MCPServer \<Rightarrow> RunState \<Rightarrow> jsstring" where
  "synthesisMessage cx server st =
     withVigilNotes (rn_host cx) st
       (buildSynthesisMessage (rn_host cx) server (er_agents (st_report st)) (er_telemetry (st_report st)))"

definition synthesisAgent :: "'s Setting \<Rightarrow> bool \<Rightarrow> MCPServer \<Rightarrow> OpenCodeAgent \<Rightarrow> ('s, unit) run" where
  "synthesisAgent cx needsTarget server agent =
     thenM (bindM (getM st_mcp) (\<lambda>mcp. if needsTarget \<and> mcp then refreshTelemetry cx else retM ()))
       (bindM (catchM (bindM (recordAgent cx agent KSynthesis (synthesisMessage cx server)) (\<lambda>v. retM (Some v))) (\<lambda>_. retM None))
         (\<lambda>structured. case structured of None \<Rightarrow> retM () | Some v \<Rightarrow> applySynthesis cx agent v))"

definition genericMessage :: "'s Setting \<Rightarrow> MCPServer \<Rightarrow> RunState \<Rightarrow> jsstring" where
  "genericMessage cx server st =
     withVigilNotes (rn_host cx) st
       (buildGenericMessage (rn_host cx) server (er_agents (st_report st)) (er_telemetry (st_report st)))"

definition genericAgent :: "'s Setting \<Rightarrow> MCPServer \<Rightarrow> OpenCodeAgent \<Rightarrow> ('s, unit) run" where
  "genericAgent cx server agent = degraded (recordAgent cx agent KGeneric (genericMessage cx server))"

section \<open>The run\<close>

text \<open>\<open>kinds.get(name)\<close>: of two agents with one name the later decides.\<close>

definition kindOf :: "OpenCodeAgent list \<Rightarrow> OpenCodeAgent \<Rightarrow> AgentKind" where
  "kindOf agents agent =
     (case map_of (rev (map (\<lambda>a. (agentName a, classifyAgent a)) agents)) (agentName agent) of
        Some k \<Rightarrow> k | None \<Rightarrow> KGeneric)"

definition needsTarget :: "OpenCodeAgent list \<Rightarrow> bool" where
  "needsTarget agents = list_ex (\<lambda>a. kindOf agents a = KDynamic \<or> kindOf agents a = KAdversarial) agents"

definition personaM :: "'s Setting \<Rightarrow> MCPServer \<Rightarrow> OpenCodeAgent list \<Rightarrow> OpenCodeAgent \<Rightarrow> ('s, unit) run" where
  "personaM cx server agents agent =
     (case kindOf agents agent of
        KStatic \<Rightarrow> staticAgent cx server agent
      | KDynamic \<Rightarrow> dynamicAgent cx server agent
      | KAdversarial \<Rightarrow> adversarialAgent cx server agent
      | KSynthesis \<Rightarrow> synthesisAgent cx (needsTarget agents) server agent
      | KGeneric \<Rightarrow> genericAgent cx server agent)"

definition agentStep :: "'s Setting \<Rightarrow> MCPServer \<Rightarrow> OpenCodeAgent list \<Rightarrow> OpenCodeAgent \<Rightarrow> ('s, unit) run" where
  "agentStep cx server agents agent =
     bindM (callM (\<lambda>w. (ow_terminated (rn_out cx) w, w))) (\<lambda>terminated.
     if terminated then fail cx (J ''run'') (Runner (RunTerminatedError (J ''SIGTERM/SIGINT'')))
     else personaM cx server agents agent)"

definition okAgents :: "RunState \<Rightarrow> nat" where
  "okAgents st = length (filter (\<lambda>(n, r). ar_statusOk r) (er_agents (st_report st)))"

definition reportedScores :: "RunState \<Rightarrow> int list" where
  "reportedScores st = concat (map (\<lambda>(n, r). agentScores r) (er_agents (st_report st)))"

definition deriveScore :: "'s Setting \<Rightarrow> ('s, unit) run" where
  "deriveScore cx =
     bindM (getM (\<lambda>st. (sc_riskCategory (er_scoring (st_report st)) = UnknownRisk \<and> er_finalScore (st_report st) = 0, reportedScores st)))
       (\<lambda>(unscored, scores).
        if unscored \<and> scores \<noteq> [] then
          let score = meanScore scores;
              scoring = \<lparr>sc_safetyScore = score, sc_reliabilityScore = score, sc_riskCategory = UnknownRisk,
                         sc_summary = J ''No synthesis agent in suite; finalScore is the mean of agent-reported scores.''\<rparr> in
          thenM (modM (modReport (\<lambda>r. r\<lparr>er_finalScore := score, er_scoring := scoring\<rparr>)))
            (patchM cx (emptyPatch\<lparr>sp_finalScore := Some score, sp_scoring := Some scoring\<rparr>))
        else retM ())"

definition completionMessage :: "nat \<Rightarrow> RunState \<Rightarrow> jsstring" where
  "completionMessage n st =
     (let report = st_report st; failed = st_failedAgents st;
          base = J ''evaluated '' @ showNat n @ J '' agent(s); riskCategory='' @ riskStr (sc_riskCategory (er_scoring report)) @
                 J '' finalScore='' @ showInt (er_finalScore report) in
      if failed \<noteq> [] then
        J ''degraded: '' @ showNat (length failed) @ J ''/'' @ showNat n @ J '' agent(s) failed ('' @ joinS (J '', '') failed @ J ''); '' @ base
      else base)"

definition complete :: "'s Setting \<Rightarrow> nat \<Rightarrow> ('s, unit) run" where
  "complete cx n =
     bindM (getM (\<lambda>st. (completionMessage n st, st_failedAgents st \<noteq> []))) (\<lambda>(message, anyFailed).
     thenM (modM (modReport (\<lambda>r. r\<lparr>er_phase := Completed, er_degraded := er_degraded r \<or> anyFailed, er_message := message\<rparr>)))
       (patchM cx (emptyPatch\<lparr>sp_phase := Some Completed, sp_currentAgent := Some [], sp_message := Some message\<rparr>)))"

definition finishRun :: "'s Setting \<Rightarrow> nat \<Rightarrow> ('s, unit) run" where
  "finishRun cx n =
     bindM (getM (\<lambda>st. (okAgents st, st_failedAgents st))) (\<lambda>(ok, failed).
     if ok = 0 then
       fail cx (J ''all agents failed'') (Runner (RunnerErrorBase (J ''AllAgentsFailed'') (J ''agents'')
         (J ''every agent failed: '' @ joinS (J '', '') failed)))
     else thenM (deriveScore cx) (complete cx n))"

definition fetchM :: "'s Setting \<Rightarrow> jsstring \<Rightarrow> ('s \<Rightarrow> (RunnerError + 'a) \<times> 's) \<Rightarrow> ('s, 'a) run" where
  "fetchM cx stage f = catchM (runnerCall f) (fail cx stage)"

definition evaluate :: "'s Setting \<Rightarrow> ('s, unit) run" where
  "evaluate cx =
     thenM (patchM cx (emptyPatch\<lparr>sp_phase := Some Running, sp_message := Some (J ''evaluator started'')\<rparr>))
     (bindM (fetchM cx (J ''fetch MCPServer'') (ow_fetchServer (rn_out cx) (re_serverName (rn_env cx)))) (\<lambda>server.
      bindM (mapM (\<lambda>name. fetchM cx (J ''fetch OpenCodeAgent '' @ name) (ow_fetchAgent (rn_out cx) name)) (re_agentNames (rn_env cx))) (\<lambda>agents.
      thenM (eachM (agentStep cx server agents) agents) (finishRun cx (length agents)))))"

end
