(* ===== verification/RunOutcome.thy ===== *)
theory RunOutcome
  imports Evaluator
begin

text \<open>
  What a run comes to: which parts of it never throw, with which errors the others stop it, and the
  invariant of the report that every step of \<open>evaluate\<close> keeps.
\<close>

section \<open>Computations that do not throw\<close>

definition total :: "('st, 'a) comp \<Rightarrow> bool" where
  "total m \<longleftrightarrow> (\<forall>s. \<exists>v s'. m s = (Inr v, s'))"

named_theorems totals \<open>computations that return\<close>

lemma total_basic [totals]: "total (retM v)" "total (getM f)" "total (modM g)" "total (doM k)" "total (callM c)"
  by (auto simp: total_def comp_defs split: prod.splits)

lemma total_bind [totals]: "total m \<Longrightarrow> (\<And>v. total (f v)) \<Longrightarrow> total (bindM m f)"
  unfolding total_def bindM_def by (metis (no_types, lifting) case_prod_conv sum.case(2))

lemma total_then [totals]: "total m \<Longrightarrow> total k \<Longrightarrow> total (thenM m k)"
  unfolding thenM_def by (rule total_bind)

lemma total_catch [totals]: "(\<And>e. total (f e)) \<Longrightarrow> total (catchM m f)"
  unfolding total_def catchM_def by (auto split: prod.splits sum.splits)

lemma total_if [totals]: "total m \<Longrightarrow> total k \<Longrightarrow> total (if b then m else k)"
  by simp

lemma total_refresh [totals]: "total (refreshTelemetry cx)"
  by (simp add: total_def refreshTelemetry_def)

lemma total_patchM [totals]: "total (patchM cx p)"
  unfolding patchM_def by (intro totals)

lemma total_enumerate [totals]: "total (enumerateSurface cx)"
  unfolding enumerateSurface_def Let_def by (intro totals)

lemma total_ensureTarget [totals]: "total (ensureTarget cx)"
  unfolding ensureTarget_def by (intro totals)

lemma total_degraded [totals]: "total (degraded m)"
  unfolding degraded_def by (intro totals)

lemma total_evidenceFailed [totals]: "total (evidenceFailed cx err)"
  unfolding evidenceFailed_def by (intro totals)

lemma total_fuzzM [totals]: "total (fuzzM cx)"
  unfolding fuzzM_def by (rule total_bind, intro totals, simp split: prod.split, intro conjI impI allI totals)

lemma total_probesM [totals]: "total (probesM cx)"
  unfolding probesM_def by (rule total_bind, intro totals, simp split: prod.split, intro conjI impI allI totals)

lemma total_staticEvidence [totals]: "total (staticEvidenceM cx)"
  unfolding staticEvidenceM_def by (rule total_bind, intro totals, simp split: option.split, intro conjI impI allI totals)

lemma total_applySynthesis [totals]: "total (applySynthesis cx agent v)"
  unfolding applySynthesis_def by (simp split: sum.split, intro conjI impI allI totals)

lemma total_synthesisAgent [totals]: "total (synthesisAgent cx nt server agent)"
  unfolding synthesisAgent_def
  by (rule total_then, intro totals, rule total_bind, intro totals, simp split: option.split, intro conjI impI allI totals)

lemma total_deriveScore [totals]: "total (deriveScore cx)"
  unfolding deriveScore_def Let_def by (rule total_bind, intro totals, simp split: prod.split, intro conjI impI allI totals)

lemma total_complete [totals]: "total (complete cx n)"
  unfolding complete_def by (rule total_bind, intro totals, simp split: prod.split, intro conjI impI allI totals)

section \<open>How a run stops\<close>

text \<open>
  The error is one of the runner's own, and the report says the run failed, or an injection was found
  and the report has the verdict for it.
\<close>

definition stopped :: "thrown \<Rightarrow> RunState \<times> 's \<Rightarrow> bool" where
  "stopped e s \<longleftrightarrow> (\<exists>re. e = Runner re \<and>
     (er_phase (st_report (fst s)) = Failed \<or>
      (\<exists>source c ss x. re = VigilInjectionError source c ss x \<and> er_finalScore (st_report (fst s)) = 0 \<and>
         er_scoring (st_report (fst s)) = maliciousScoring source)))"

definition stops :: "('s, 'a) run \<Rightarrow> bool" where
  "stops m \<longleftrightarrow> (\<forall>s e s'. m s = (Inl e, s') \<longrightarrow> stopped e s')"

named_theorems stopping \<open>computations that stop the run as they should\<close>

lemma stops_total: "total m \<Longrightarrow> stops m"
  unfolding total_def stops_def by (metis Inl_Inr_False Pair_inject)

lemma stops_bind [stopping]: "stops m \<Longrightarrow> (\<And>v. stops (f v)) \<Longrightarrow> stops (bindM m f)"
  unfolding stops_def bindM_def by (fastforce split: prod.splits sum.splits)

lemma stops_then [stopping]: "stops m \<Longrightarrow> stops k \<Longrightarrow> stops (thenM m k)"
  unfolding thenM_def by (rule stops_bind)

lemma stops_catch [stopping]: "(\<And>e. stops (f e)) \<Longrightarrow> stops (catchM m f)"
  unfolding stops_def catchM_def by (fastforce split: prod.splits sum.splits)

lemma stops_if [stopping]: "stops m \<Longrightarrow> stops k \<Longrightarrow> stops (if b then m else k)"
  by simp

lemma stops_fail [stopping]: "stops (fail cx stage err)"
  by (auto simp: stops_def fail_run stopped_def modReport_def split: thrown.splits)

lemma stops_each: "(\<And>x. stops (f x)) \<Longrightarrow> stops (eachM f xs)"
  by (induction xs) (auto intro: stopping stops_total totals)

lemma stops_map: "(\<And>x. stops (f x)) \<Longrightarrow> stops (mapM f xs)"
  by (induction xs) (auto intro!: stopping intro: stops_total totals)

lemma stops_scanFailed [stopping]: "stops (scanFailed cx source err)"
  unfolding scanFailed_def Let_def
  by (simp split: thrown.split RunnerError.split) (auto intro!: stopping intro: stops_total totals)

lemma stops_reportAbort [stopping]: "stops (reportAbort cx source u v)"
proof -
  have "stopped e s'" if run: "reportAbort cx source u v s = (Inl e, s')" for s e s'
  proof (cases s)
    case (Pair rs w)
    show ?thesis
    proof (cases "vg_enforced (vrecOf rs)")
      case True
      from reportAbort_strict [OF this, of cx source u v w] run Pair show ?thesis by (auto simp: stopped_def)
    next
      case False
      from reportAbort_monitor [OF this, of cx source u v w] run Pair show ?thesis by auto
    qed
  qed
  then show ?thesis by (simp add: stops_def)
qed

lemma stops_scanUntrusted [stopping]: "stops (scanUntrusted cx source segments)"
  unfolding scanUntrusted_def
  by (simp split: option.split prod.split)
    (auto intro!: stopping stops_bind stops_catch simp: stops_total totals split: option.split prod.split)

lemma stops_personas [stopping]:
  "stops (scanSurface cx)" "stops (scanFuzz cx)" "stops (scanProbes cx)"
  unfolding scanSurface_def scanFuzz_def scanProbes_def
  by (auto intro!: stopping stops_total [OF total_basic(1)] stops_total [OF total_basic(2)] stops_total [OF total_basic(3)]
      split: option.split)

lemma stops_persona [stopping]: "stops (personaM cx server agents agent)"
  unfolding personaM_def staticAgent_def dynamicAgent_def adversarialAgent_def genericAgent_def
  by (auto intro!: stopping stops_total [OF total_ensureTarget] stops_total [OF total_fuzzM] stops_total [OF total_probesM]
      stops_total [OF total_degraded] stops_total [OF total_synthesisAgent] stops_total [OF total_staticEvidence]
      split: AgentKind.split)

lemma stops_agentStep [stopping]: "stops (agentStep cx server agents agent)"
  unfolding agentStep_def by (intro stopping stops_total [OF total_basic(5)])

lemma stops_finishRun [stopping]: "stops (finishRun cx n)"
  unfolding finishRun_def
  by (rule stops_bind [OF stops_total [OF total_basic(2)]])
    (auto intro!: stopping stops_total [OF total_deriveScore] stops_total [OF total_complete])

lemma stops_fetchM [stopping]: "stops (fetchM cx stage f)"
  unfolding fetchM_def by (intro stopping)

lemma stops_evaluate: "stops (evaluate cx)"
  unfolding evaluate_def
  by (intro stopping stops_map stops_each stops_total [OF total_patchM])

section \<open>The invariant of a run\<close>

text \<open>
  A record in the report is of an agent that answered, or of one that failed with an error and is
  listed as failed. Scores stay in their range. An agent named \<open>__proto__\<close> has no own entry in the report.
\<close>

definition agentKeys :: "RunState \<Rightarrow> jsstring set" where
  "agentKeys rs = fst ` set (er_agents (st_report rs))"

definition settledRecord :: "jsstring list \<Rightarrow> jsstring \<Rightarrow> AgentRunRecord \<Rightarrow> bool" where
  "settledRecord failed n r \<longleftrightarrow>
     (if ar_statusOk r then ar_structuredOutput r \<noteq> None \<and> ar_error r = None
      else n \<in> set failed \<and> ar_error r \<noteq> None \<and> ar_structuredOutput r = None)"

definition scoresOk :: "EvaluationReport \<Rightarrow> bool" where
  "scoresOk r \<longleftrightarrow> 0 \<le> er_finalScore r \<and> er_finalScore r \<le> 100 \<and>
     0 \<le> sc_safetyScore (er_scoring r) \<and> sc_safetyScore (er_scoring r) \<le> 100 \<and>
     0 \<le> sc_reliabilityScore (er_scoring r) \<and> sc_reliabilityScore (er_scoring r) \<le> 100"

definition runInv :: "RunState \<Rightarrow> bool" where
  "runInv rs \<longleftrightarrow> scoresOk (st_report rs) \<and> distinct (map fst (er_agents (st_report rs))) \<and>
     (\<forall>(n, r) \<in> set (er_agents (st_report rs)). settledRecord (st_failedAgents rs) n r)"

definition PROTO :: jsstring where "PROTO = J ''__proto__''"

text \<open>\<open>N\<close> are the names that may get a record.\<close>

definition keepsRun :: "jsstring set \<Rightarrow> RunState \<times> 's \<Rightarrow> RunState \<times> 's \<Rightarrow> bool" where
  "keepsRun N s s' \<longleftrightarrow> (runInv (fst s) \<longrightarrow> runInv (fst s')) \<and>
     agentKeys (fst s) \<subseteq> agentKeys (fst s') \<and> agentKeys (fst s') \<subseteq> agentKeys (fst s) \<union> (N - {PROTO}) \<and>
     er_degraded (st_report (fst s')) = er_degraded (st_report (fst s))"

interpretation keeping: preorder_steps "keepsRun N"
  by unfold_locales (auto simp: keepsRun_def)

lemma keeps_refl [simp]: "keepsRun N s s"
  by (rule keeping.stays)

text \<open>What does not touch the part of the state that the invariant speaks of.\<close>

definition runView :: "RunState \<Rightarrow> (jsstring \<times> AgentRunRecord) list \<times> jsstring list \<times> bool \<times> int \<times> ScoringBlock" where
  "runView rs = (er_agents (st_report rs), st_failedAgents rs, er_degraded (st_report rs), er_finalScore (st_report rs),
     er_scoring (st_report rs))"

lemma keeps_view: "runView (fst s') = runView (fst s) \<Longrightarrow> keepsRun N s s'"
  by (simp add: keepsRun_def runView_def runInv_def agentKeys_def scoresOk_def)

named_theorems kept \<open>computations that keep the invariant\<close>

lemma kept_world [kept]:
  "steps (keepsRun N) (getM f)" "steps (keepsRun N) (callM c)" "steps (keepsRun N) (tryM t)" "steps (keepsRun N) (doM d)"
  by (auto simp: steps_def comp_defs split: prod.splits intro: keeps_view)

lemma kept_mod: "(\<And>rs. runView (f rs) = runView rs) \<Longrightarrow> steps (keepsRun N) (modM f)"
  by (simp add: steps_def modM_def keeps_view)

lemmas kept_rules [kept] = keeping.ret keeping.throw keeping.bind keeping.sequence keeping.handle keeping.branch

lemmas view_defs = runView_def state_defs modDynamic_def

lemma kept_refresh [kept]: "steps (keepsRun N) (refreshTelemetry cx)"
  by (auto simp: steps_def refreshTelemetry_def view_defs split: prod.splits intro: keeps_view)

lemma kept_calls [kept]:
  "steps (keepsRun N) (runnerCall f)" "steps (keepsRun N) (patchM cx p)" "steps (keepsRun N) (patchFrom cx g)"
  unfolding runnerCall_def patchM_def patchFrom_def by (intro kept)+

lemma kept_fail [kept]: "steps (keepsRun N) (fail cx stage err)"
  unfolding fail_def Let_def by (intro kept kept_mod) (simp add: view_defs)

lemma kept_enumerate [kept]: "steps (keepsRun N) (enumerateSurface cx)"
  unfolding enumerateSurface_def Let_def by (intro kept kept_mod) (simp_all add: view_defs)

lemma kept_ensureTarget [kept]: "steps (keepsRun N) (ensureTarget cx)"
  unfolding ensureTarget_def by (intro kept kept_mod) (simp_all add: view_defs)

lemma kept_staticEvidence [kept]: "steps (keepsRun N) (staticEvidenceM cx)"
  unfolding staticEvidenceM_def
  by (rule keeping.bind, intro kept, simp split: option.split, intro conjI impI allI kept kept_mod) (simp_all add: view_defs)

subsection \<open>The gate\<close>

lemma kept_warnings [kept]: "steps (keepsRun N) (recordVigilWarnings cx source warnings)"
  unfolding recordVigilWarnings_def by (intro kept kept_mod) (simp_all add: view_defs)

lemma kept_scanFailed [kept]: "steps (keepsRun N) (scanFailed cx source err)"
  unfolding scanFailed_def Let_def
  by (simp split: thrown.split RunnerError.split) (auto intro!: kept kept_mod simp: view_defs)

lemma kept_malicious: "steps (keepsRun N) (modM (modReport (\<lambda>r. r\<lparr>er_scoring := maliciousScoring source, er_finalScore := 0\<rparr>)))"
  by (auto simp: steps_def modM_def keepsRun_def runInv_def scoresOk_def agentKeys_def modReport_def maliciousScoring_def)

lemma kept_reportAbort [kept]: "steps (keepsRun N) (reportAbort cx source u v)"
  unfolding reportAbort_def by (intro kept kept_malicious kept_mod) (simp_all add: view_defs)

lemma kept_scanGate [kept]: "steps (keepsRun N) (scanGate (scanOne cx vigil source) level units)"
  by (rule keeping.gate) (auto simp: scanOne_def view_defs split: prod.splits intro: keeps_view)

lemma kept_scanUntrusted [kept]: "steps (keepsRun N) (scanUntrusted cx source segments)"
  unfolding scanUntrusted_def
  by (simp split: option.split, intro allI impI, intro kept) (simp split: option.split prod.split, intro conjI allI impI kept)

lemma kept_gates [kept]:
  "steps (keepsRun N) (scanSurface cx)" "steps (keepsRun N) (scanFuzz cx)" "steps (keepsRun N) (scanProbes cx)"
  unfolding scanSurface_def scanFuzz_def scanProbes_def
  by (auto intro!: kept kept_mod split: option.split simp: view_defs)

subsection \<open>Evidence and agents\<close>

lemma kept_evidenceFailed [kept]: "steps (keepsRun N) (evidenceFailed cx err)"
  unfolding evidenceFailed_def by (intro kept kept_mod) (simp_all add: view_defs)

lemma kept_fuzzM [kept]: "steps (keepsRun N) (fuzzM cx)"
  unfolding fuzzM_def
  by (rule keeping.bind, intro kept, simp split: prod.split, intro conjI impI allI kept kept_mod) (simp_all add: view_defs)

lemma kept_probesM [kept]: "steps (keepsRun N) (probesM cx)"
  unfolding probesM_def
  by (rule keeping.bind, intro kept, simp split: prod.split, intro conjI impI allI kept kept_mod) (simp_all add: view_defs)

lemma set_assignProp: "x \<in> set (assignProp ps k v) \<Longrightarrow> x = (k, v) \<or> x \<in> set ps \<and> fst x \<noteq> k"
  by (force simp: assignProp_def defineProp_def split: if_splits)

lemma keys_assignProp: "fst ` set (assignProp ps k v) = fst ` set ps \<union> ({k} - {PROTO})"
  by (force simp: assignProp_def defineProp_def PROTO_def image_image case_prod_beta')

text \<open>The whole of \<open>recordAgent\<close>, and the two ways it ends.\<close>

lemma recordAgent_run:
  "recordAgent cx agent kind message (rs, w) =
     (let name = agentName agent; out = rn_out cx; r0 = newRecord agent kind; rs0 = setAgent name r0 rs in
      case ow_now out w of (started, w) \<Rightarrow>
      case runAgentPrompt (rn_host cx) (ow_opencode out) agent kind (message rs0) (rn_env cx)
        (ow_patch out (emptyPatch\<lparr>sp_phase := Some Evaluating, sp_currentAgent := Some name,
           sp_message := Some (J ''running agent '' @ name)\<rparr>) w) of (r, w) \<Rightarrow>
      case r of
        Inr (v, d) \<Rightarrow> (Inr v, (setAgent name (r0\<lparr>ar_durationMs := d, ar_statusOk := True, ar_structuredOutput := Some v\<rparr>) rs0,
                        ow_patch out (agentPatch name v) w))
      | Inl err \<Rightarrow>
          (case ow_now out w of (finished, w) \<Rightarrow>
             (Inl err, (failAgent name (setAgent name (r0\<lparr>ar_durationMs := finished - started,
                           ar_error := Some (errorMessage (rn_host cx) err)\<rparr>) rs0),
                        ow_patch out (agentPatch name (JObj [(J ''error'', JStr (errorMessage (rn_host cx) err)),
                          (J ''errorClass'', JStr (errorName err))])) w))))"
  by (simp add: recordAgent_def Let_def comp_defs patchM_def split: prod.split sum.split)

lemma recordAgent_cases:
  obtains (answered) v d w' where
      "recordAgent cx agent kind message (rs, w) = (Inr v, (setAgent (agentName agent)
         ((newRecord agent kind)\<lparr>ar_durationMs := d, ar_statusOk := True, ar_structuredOutput := Some v\<rparr>)
         (setAgent (agentName agent) (newRecord agent kind) rs), w'))"
  | (failed) err d w' where
      "recordAgent cx agent kind message (rs, w) = (Inl err, (failAgent (agentName agent) (setAgent (agentName agent)
         ((newRecord agent kind)\<lparr>ar_durationMs := d, ar_error := Some (errorMessage (rn_host cx) err)\<rparr>)
         (setAgent (agentName agent) (newRecord agent kind) rs)), w'))"
  unfolding recordAgent_run Let_def by (fastforce split: prod.splits sum.splits)

lemma settle_keeps:
  assumes "ar_statusOk r \<and> ar_structuredOutput r \<noteq> None \<and> ar_error r = None \<and> rs' = setAgent name r rs \<or>
      \<not> ar_statusOk r \<and> ar_structuredOutput r = None \<and> ar_error r \<noteq> None \<and> rs' = failAgent name (setAgent name r rs)"
    and "name \<in> N \<union> {PROTO}" "rs = setAgent name r0 rs0"
  shows "keepsRun N (rs0, w) (rs', w')"
proof -
  have "agentKeys rs' = agentKeys rs0 \<union> ({name} - {PROTO})"
    using assms(1,3) by (elim disjE conjE) (simp_all add: agentKeys_def setAgent_def failAgent_def modReport_def keys_assignProp Un_assoc)
  moreover have "runInv rs0 \<Longrightarrow> runInv rs'"
    using assms(1,3)
    by (auto simp: runInv_def setAgent_def failAgent_def modReport_def scoresOk_def settledRecord_def
        dest!: set_assignProp split: if_splits)
  moreover have "er_degraded (st_report rs') = er_degraded (st_report rs0)"
    using assms(1,3) by (auto simp: setAgent_def failAgent_def modReport_def)
  ultimately show ?thesis using assms(2) by (auto simp: keepsRun_def)
qed

lemma kept_recordAgent:
  assumes "agentName agent \<in> N"
  shows "steps (keepsRun N) (recordAgent cx agent kind message)"
  unfolding steps_def
proof
  fix s :: "RunState \<times> 'a"
  obtain rs w where s: "s = (rs, w)" by force
  show "keepsRun N s (snd (recordAgent cx agent kind message s))"
  proof (cases rule: recordAgent_cases [of cx agent kind message rs w])
    case (answered v d w')
    then show ?thesis
      unfolding s by simp (rule settle_keeps, rule disjI1, use assms in \<open>auto simp: newRecord_def\<close>)
  next
    case (failed err d w')
    then show ?thesis
      unfolding s by simp (rule settle_keeps, rule disjI2, use assms in \<open>auto simp: newRecord_def\<close>)
  qed
qed

lemma recordAgent_recorded: "agentName agent \<in> agentKeys (fst (snd (recordAgent cx agent kind message s))) \<union> {PROTO}"
proof -
  obtain rs w where s: "s = (rs, w)" by force
  show ?thesis unfolding s
    by (cases rule: recordAgent_cases [of cx agent kind message rs w])
      (auto simp: agentKeys_def setAgent_def failAgent_def modReport_def keys_assignProp)
qed

lemma kept_degraded: "steps (keepsRun N) m \<Longrightarrow> steps (keepsRun N) (degraded m)"
  unfolding degraded_def by (intro kept)

lemma kept_failAgent: "steps (keepsRun N) (modM (failAgent name))"
  by (auto simp: steps_def modM_def keepsRun_def failAgent_def runInv_def agentKeys_def settledRecord_def split: if_splits)

lemma kept_scores:
  assumes "\<And>r. scoresOk r \<Longrightarrow> scoresOk (f r)" "\<And>r. er_agents (f r) = er_agents r" "\<And>r. er_degraded (f r) = er_degraded r"
  shows "steps (keepsRun N) (modM (modReport f))"
  using assms by (simp add: steps_def modM_def keepsRun_def modReport_def runInv_def agentKeys_def)

lemma kept_applySynthesis [kept]: "steps (keepsRun N) (applySynthesis cx agent v)"
proof (cases "parseSynthesis (rn_host cx) v (agentName agent)")
  case (Inl e)
  then show ?thesis by (simp add: applySynthesis_def kept_failAgent)
next
  case (Inr synth)
  from parseSynthesis_range [OF Inr] synthFinalScore_range [OF Inr] show ?thesis
    unfolding applySynthesis_def Inr
    by (auto intro!: kept kept_scores simp: scoresOk_def synthScoring_def)
qed

lemma kept_synthesisAgent: "agentName agent \<in> N \<Longrightarrow> steps (keepsRun N) (synthesisAgent cx nt server agent)"
  unfolding synthesisAgent_def
  by (intro kept kept_recordAgent) (simp_all split: option.split add: kept)

lemma kept_persona: "agentName agent \<in> N \<Longrightarrow> steps (keepsRun N) (personaM cx server agents agent)"
  unfolding personaM_def staticAgent_def dynamicAgent_def adversarialAgent_def genericAgent_def
  by (auto intro!: kept kept_degraded kept_recordAgent kept_synthesisAgent split: AgentKind.split)

lemma kept_agentStep: "agentName agent \<in> N \<Longrightarrow> steps (keepsRun N) (agentStep cx server agents agent)"
  unfolding agentStep_def by (intro kept kept_persona)

lemma kept_deriveScore [kept]: "steps (keepsRun N) (deriveScore cx)"
proof -
  have "0 \<le> meanScore (reportedScores rs) \<and> meanScore (reportedScores rs) \<le> 100" if "reportedScores rs \<noteq> []" for rs
    using that by (intro meanScore_range) (auto simp: reportedScores_def dest: agentScores_range)
  then show ?thesis
    by (auto simp: steps_def deriveScore_def comp_defs patchM_def Let_def keepsRun_def modReport_def runInv_def agentKeys_def scoresOk_def)
qed

section \<open>A run that returns\<close>

lemma bind_return: "bindM m f s = (Inr v, s') \<Longrightarrow> \<exists>u t. m s = (Inr u, t) \<and> f u t = (Inr v, s')"
  by (auto simp: bindM_def split: prod.splits sum.splits)

lemma then_return: "thenM m k s = (Inr v, s') \<Longrightarrow> \<exists>u t. m s = (Inr u, t) \<and> k t = (Inr v, s')"
  unfolding thenM_def by (rule bind_return)

lemma mapM_length: "mapM f xs s = (Inr ys, s') \<Longrightarrow> length ys = length xs"
  by (induction xs arbitrary: s ys) (auto simp: retM_def dest!: bind_return)

definition records :: "jsstring \<Rightarrow> ('s, 'a) run \<Rightarrow> bool" where
  "records name m \<longleftrightarrow> (\<forall>s v s'. m s = (Inr v, s') \<longrightarrow> name \<in> agentKeys (fst s') \<union> {PROTO})"

lemma records_bind: "(\<And>v. records name (f v)) \<Longrightarrow> records name (bindM m f)"
  unfolding records_def by (blast dest: bind_return)

lemma records_then: "records name k \<Longrightarrow> records name (thenM m k)"
  unfolding thenM_def by (rule records_bind)

lemma records_first:
  assumes "records name m" "\<And>v. steps (keepsRun UNIV) (f v)"
  shows "records name (bindM m f)"
  unfolding records_def
proof (intro allI impI)
  fix s v s'
  assume "bindM m f s = (Inr v, s')"
  then obtain u t where "m s = (Inr u, t)" "f u t = (Inr v, s')" by (blast dest: bind_return)
  with assms(1) stepsD [OF assms(2)] show "name \<in> agentKeys (fst s') \<union> {PROTO}"
    unfolding records_def keepsRun_def by blast
qed

lemma records_attempt: "records (agentName agent) (catchM (bindM (recordAgent cx agent kind message) (\<lambda>v. retM (g v))) (\<lambda>_. retM d))"
  unfolding records_def
  using recordAgent_recorded [of agent cx kind message]
  by (auto simp: comp_defs split: prod.splits sum.splits) (metis fst_conv snd_conv)+

lemma records_degraded: "records (agentName agent) (degraded (recordAgent cx agent kind message))"
  unfolding degraded_def thenM_def by (rule records_attempt)

lemma records_persona: "records (agentName agent) (personaM cx server agents agent)"
proof -
  have "steps (keepsRun UNIV) (case x of None \<Rightarrow> retM () | Some v \<Rightarrow> applySynthesis cx agent v)" for x
    by (simp split: option.split add: kept)
  then have "records (agentName agent) (synthesisAgent cx nt server agent)" for nt
    unfolding synthesisAgent_def by (intro records_then records_first records_attempt)
  then show ?thesis
    unfolding personaM_def staticAgent_def dynamicAgent_def adversarialAgent_def genericAgent_def
    by (simp split: AgentKind.split) (intro conjI impI records_then records_bind records_degraded)
qed

lemma records_agentStep: "records (agentName agent) (agentStep cx server agents agent)"
  unfolding agentStep_def
  by (rule records_bind) (simp add: records_persona, simp add: records_def fail_run split_paired_all)

lemma kept_agents: "agentName ` set xs \<subseteq> N \<Longrightarrow> steps (keepsRun N) (eachM (agentStep cx server agents) xs)"
  by (induction xs) (auto intro: kept kept_agentStep)

lemma agents_recorded:
  "eachM (agentStep cx server agents) xs s = (Inr u, s') \<Longrightarrow> agentName ` set xs \<subseteq> agentKeys (fst s') \<union> {PROTO}"
proof (induction xs arbitrary: s)
  case (Cons x xs)
  then obtain t where x: "agentStep cx server agents x s = (Inr (), t)"
      and rest: "eachM (agentStep cx server agents) xs t = (Inr u, s')"
    by (auto dest!: then_return)
  with stepsD [OF kept_agents [OF subset_UNIV] rest] have "agentKeys (fst t) \<subseteq> agentKeys (fst s')" by (simp add: keepsRun_def)
  moreover have "agentName x \<in> agentKeys (fst t) \<union> {PROTO}" using x records_agentStep [of x cx server agents] unfolding records_def by blast
  ultimately show ?case using Cons.IH [OF rest] by auto
qed simp

lemma deriveScore_run:
  "\<exists>rs' w'. deriveScore cx (rs, w) = (Inr (), (rs', w')) \<and> er_agents (st_report rs') = er_agents (st_report rs) \<and>
     st_failedAgents rs' = st_failedAgents rs"
  by (simp add: deriveScore_def comp_defs patchM_def Let_def modReport_def)

text \<open>What the last part of \<open>evaluate\<close> leaves behind.\<close>

lemma finishRun_return:
  assumes "finishRun cx n s = (Inr u, (rs', w'))" "runInv (fst s)" "\<not> er_degraded (st_report (fst s))"
  shows "er_phase (st_report rs') = Completed \<and> runInv rs' \<and> agentKeys rs' = agentKeys (fst s) \<and>
    (\<exists>(a, r) \<in> set (er_agents (st_report rs')). ar_statusOk r) \<and>
    (er_degraded (st_report rs') \<longleftrightarrow> st_failedAgents rs' \<noteq> []) \<and>
    (\<exists>w0. w' = ow_patch (rn_out cx) (emptyPatch\<lparr>sp_phase := Some Completed, sp_currentAgent := Some [],
       sp_message := Some (er_message (st_report rs'))\<rparr>) w0)"
proof -
  obtain rs w where s: "s = (rs, w)" by force
  obtain rs1 w1 where d: "deriveScore cx (rs, w) = (Inr (), (rs1, w1))" "er_agents (st_report rs1) = er_agents (st_report rs)"
    using deriveScore_run [of cx rs w] by (elim exE conjE) (rule that; assumption)
  from stepsD [OF kept_deriveScore d(1), of "{}"] assms(2,3) s
  have inv: "runInv rs1" "agentKeys rs1 = agentKeys rs" "\<not> er_degraded (st_report rs1)" by (auto simp: keepsRun_def)
  have "okAgents rs \<noteq> 0"
    using assms(1) unfolding finishRun_def s by (auto simp: bindM_def getM_def fail_run split: if_splits)
  then have some: "\<exists>(a, r) \<in> set (er_agents (st_report rs1)). ar_statusOk r"
    using d(2) by (auto simp: okAgents_def filter_empty_conv)
  have "(rs', w') = (modReport (\<lambda>r. r\<lparr>er_phase := Completed, er_degraded := er_degraded r \<or> st_failedAgents rs1 \<noteq> [],
       er_message := completionMessage n rs1\<rparr>) rs1,
     ow_patch (rn_out cx) (emptyPatch\<lparr>sp_phase := Some Completed, sp_currentAgent := Some [],
       sp_message := Some (completionMessage n rs1)\<rparr>) w1)"
    using assms(1) \<open>okAgents rs \<noteq> 0\<close> d(1) unfolding finishRun_def s by (simp add: comp_defs complete_def patchM_def)
  with inv some show ?thesis
    by (auto simp: modReport_def s runInv_def agentKeys_def scoresOk_def)
qed

lemma runInv_new: "runInv (newRunState (newReport env on port t))" "agentKeys (newRunState (newReport env on port t)) = {}"
    "\<not> er_degraded (st_report (newRunState (newReport env on port t)))"
  by (simp_all add: newRunState_def newReport_def runInv_def agentKeys_def scoresOk_def emptyScoring_def)

lemma keptD: "steps (keepsRun N) m \<Longrightarrow> m s = (r, s') \<Longrightarrow> runInv (fst s) \<Longrightarrow> \<not> er_degraded (st_report (fst s)) \<Longrightarrow>
  runInv (fst s') \<and> \<not> er_degraded (st_report (fst s')) \<and> agentKeys (fst s') \<subseteq> agentKeys (fst s) \<union> (N - {PROTO})"
  by (drule (1) stepsD) (auto simp: keepsRun_def)

lemma kept_fetchM [kept]: "steps (keepsRun N) (fetchM cx stage f)"
  unfolding fetchM_def by (intro kept)

lemma evaluate_return:
  assumes "evaluate cx (newRunState (newReport env on port t), w) = (Inr u, (rs', w'))"
  shows "\<exists>agents w0. er_phase (st_report rs') = Completed \<and> runInv rs' \<and> length agents = length (re_agentNames (rn_env cx)) \<and>
    agentKeys rs' = agentName ` set agents - {PROTO} \<and> (\<exists>(n, r) \<in> set (er_agents (st_report rs')). ar_statusOk r) \<and>
    (er_degraded (st_report rs') \<longleftrightarrow> st_failedAgents rs' \<noteq> []) \<and>
    w' = ow_patch (rn_out cx) (emptyPatch\<lparr>sp_phase := Some Completed, sp_currentAgent := Some [],
       sp_message := Some (er_message (st_report rs'))\<rparr>) w0"
proof -
  let ?s = "(newRunState (newReport env on port t), w)"
  from assms [unfolded evaluate_def] obtain s1 server s2 agents s3 s4 where
      start: "patchM cx (emptyPatch\<lparr>sp_phase := Some Running, sp_message := Some (J ''evaluator started'')\<rparr>) ?s = (Inr (), s1)"
    and fetch: "fetchM cx (J ''fetch MCPServer'') (ow_fetchServer (rn_out cx) (re_serverName (rn_env cx))) s1 = (Inr server, s2)"
    and fetches: "mapM (\<lambda>name. fetchM cx (J ''fetch OpenCodeAgent '' @ name) (ow_fetchAgent (rn_out cx) name)) (re_agentNames (rn_env cx)) s2 =
      (Inr agents, s3)"
    and each: "eachM (agentStep cx server agents) agents s3 = (Inr (), s4)"
    and finish: "finishRun cx (length agents) s4 = (Inr u, (rs', w'))"
    by (auto dest!: bind_return then_return)
  note inv1 = keptD [OF kept_calls(2) start, of "{}", simplified runInv_new fst_conv]
  note inv2 = keptD [OF kept_fetchM fetch, of "{}"]
  note inv3 = keptD [OF keeping.collect [OF kept_fetchM] fetches, of "{}"]
  note inv4 = keptD [OF kept_agents [OF subset_refl] each]
  have s3: "runInv (fst s3)" "\<not> er_degraded (st_report (fst s3))" "agentKeys (fst s3) = {}"
    using inv1 inv2 inv3 by auto
  have s4: "runInv (fst s4)" "\<not> er_degraded (st_report (fst s4))" "agentKeys (fst s4) \<subseteq> agentName ` set agents - {PROTO}"
    using inv4 s3 by auto
  note fin = finishRun_return [OF finish s4(1,2)]
  have "agentKeys rs' = agentName ` set agents - {PROTO}"
    using fin s4 agents_recorded [OF each] by auto
  with fin mapM_length [OF fetches] show ?thesis by (elim conjE exE) (intro exI conjI; assumption)
qed

section \<open>A sample run\<close>

text \<open>One generic agent, whose model answers with an empty object; no gate, no target.\<close>

definition runSetting :: "StatusPatch list Setting" where
  "runSetting =
     \<lparr>rn_host = sampleHost [], rn_unicode = plainUnicode,
      rn_out = scriptedOutside \<lparr>rs_status = 200, rs_text = []\<rparr> (Some (JObj [])) (sampleAgent ''helper'' ''reviewer'' ''nim'')
                 (Inl (BuiltinError (J ''Error'') (J ''down''))),
      rn_env = sampleEnv\<lparr>re_agentNames := [J ''helper'']\<rparr>, rn_vigil = None\<rparr>"

lemma askAgain_answered: "askAgain h oc q timeout n (Some v) parts w = (Inr (Some v, parts), w)"
  by (cases n) simp_all

lemma steady_answers:
  assumes "v \<noteq> JNull"
  shows "runAgentPrompt h (steadyOC (Some v)) agent kind msg env w = (Inr (v, 0), w)"
proof -
  have "extractStructuredOutput \<lparr>mg_structured = Some v, mg_structured_output = None, mg_error = None\<rparr> = Some v"
    using assms by (cases v) (simp_all add: extractStructuredOutput_def notNull_def)
  then show ?thesis
    by (simp add: runAgentPrompt_def steadyOC_def promptWork_def answerOfReply_def messageFailure_def askAgain_answered Let_def)
qed

lemma helper_kind: "kindOf [sampleAgent ''helper'' ''reviewer'' ''nim''] (sampleAgent ''helper'' ''reviewer'' ''nim'') = KGeneric"
  by code_simp

lemma sample_run: "fst (evaluate runSetting (newRunState (newReport env on port t), w)) = Inr ()"
proof -
  have out: "ow_opencode (rn_out runSetting) = steadyOC (Some (JObj []))" "re_agentNames (rn_env runSetting) = [J ''helper'']"
      "ow_terminated (rn_out runSetting) w = False" "ow_now (rn_out runSetting) w = (0, w)"
      "ow_fetchServer (rn_out runSetting) n w = (Inr plainServer, w)"
      "ow_fetchAgent (rn_out runSetting) n w = (Inr (sampleAgent ''helper'' ''reviewer'' ''nim''), w)" for n w
    by (simp_all add: runSetting_def scriptedOutside_def)
  have "agentName (sampleAgent ''helper'' ''reviewer'' ''nim'') \<noteq> J ''__proto__''" by code_simp
  then have ok: "ar_statusOk r \<Longrightarrow> okAgents (setAgent (agentName (sampleAgent ''helper'' ''reviewer'' ''nim'')) r
      (setAgent (agentName (sampleAgent ''helper'' ''reviewer'' ''nim'')) r0 (newRunState (newReport env on port t)))) = Suc 0" for r r0
    by (simp add: okAgents_def setAgent_def modReport_def newRunState_def newReport_def assignProp_def defineProp_def)
  show ?thesis
    by (simp add: ok evaluate_def comp_defs patchM_def fetchM_def runnerCall_def out agentStep_def personaM_def helper_kind genericAgent_def
        degraded_def recordAgent_def Let_def steady_answers finishRun_def deriveScore_def complete_def)
qed

section \<open>Properties\<close>



text \<open>
  A synthesis that can be read replaces the findings of the gates. What the gates had found, an
  injection in monitor mode included, is no longer among the findings of the report or of the status
  unless the model repeats it; only the record of the security gate keeps it.
\<close>

theorem synthesis_replaces_gate_findings:
  assumes "parseSynthesis (rn_host cx) v (agentName agent) = Inr synth" "finding \<in> set (er_findings (st_report rs))"
    and "finding \<notin> set (so_findings synth)"
  shows "\<exists>rs'. applySynthesis cx agent v (rs, w) =
      (Inr (), (rs', ow_patch (rn_out cx) (emptyPatch\<lparr>sp_finalScore := Some (er_finalScore (st_report rs')),
         sp_scoring := Some (er_scoring (st_report rs')), sp_findings := Some (er_findings (st_report rs'))\<rparr>) w)) \<and>
    finding \<notin> set (er_findings (st_report rs')) \<and> vrecOf rs' = vrecOf rs"
  using assms by (simp add: applySynthesis_def comp_defs patchM_def state_defs)

theorem synthesis_replaces_gate_findings_witness:
  "\<exists>rs' p. applySynthesis (gateSetting False) (sampleAgent ''syn'' ''scorer'' ''nim'') (JObj [(J ''score'', JNum (Fin 90))])
       (pushFinding (injectionFinding (sampleHost []) (J ''advertised-surface'') poison badVerdict) (gateState False), []) =
      (Inr (), (rs', ow_patch (rn_out (gateSetting False)) p [])) \<and>
    injectionFinding (sampleHost []) (J ''advertised-surface'') poison badVerdict \<notin> set (er_findings (st_report rs'))"
proof -
  let ?v = "JObj [(J ''score'', JNum (Fin 90))]" and ?a = "sampleAgent ''syn'' ''scorer'' ''nim''"
  obtain synth where synth: "parseSynthesis (rn_host (gateSetting False)) ?v (agentName ?a) = Inr synth" "so_findings synth = []"
    by (simp add: parseSynthesis_def safetyOf_def reliabilityOf_def clampScore_def scoreValue_def parseFindings_def finNum_def jint_def)
  have there: "injectionFinding (sampleHost []) (J ''advertised-surface'') poison badVerdict \<in>
      set (er_findings (st_report (pushFinding (injectionFinding (sampleHost []) (J ''advertised-surface'') poison badVerdict) (gateState False))))"
    by (simp add: pushFinding_def modReport_def)
  have gone: "injectionFinding (sampleHost []) (J ''advertised-surface'') poison badVerdict \<notin> set (so_findings synth)"
    using synth(2) by simp
  from synthesis_replaces_gate_findings [OF synth(1) there gone, of "[]"] show ?thesis by blast
qed

end
