(* ===== verification/ScanOrder.thy ===== *)
theory ScanOrder
  imports RunOutcome
begin

text \<open>
  The order in which a run scans and prompts. The outside of a run is given a log of the requests it
  makes to the scanner and of the prompts it sends; what a part of the run may add to the log is a
  preorder on worlds, and each component keeps a preorder that the operations it calls keep.
\<close>

section \<open>Preorders on the world\<close>

definition calmTarget :: "('w \<Rightarrow> 'w \<Rightarrow> bool) \<Rightarrow> 'w Target \<Rightarrow> bool" where
  "calmTarget R tg \<longleftrightarrow> (\<forall>n v ms w. R w (snd (tg_call tg n v ms w))) \<and> (\<forall>f i ms w. R w (snd (tg_raw tg f i ms w))) \<and>
     (\<forall>ms w. R w (snd (tg_recover tg ms w))) \<and> (\<forall>w. R w (snd (tg_now tg w)))"

context preorder_steps
begin

lemma thread: "R w (snd (f w)) \<Longrightarrow> (\<And>r w'. f w = (r, w') \<Longrightarrow> R w' (snd (g r w'))) \<Longrightarrow> R w (snd (case f w of (r, w') \<Rightarrow> g r w'))"
  using goes by (cases "f w") auto

lemma over_budget: "calmTarget R tg \<Longrightarrow> R w (snd (overBudget tg t0 ms w))"
  unfolding overBudget_def by (rule thread) (simp_all add: calmTarget_def stays)

lemma case_loop:
  assumes "calmTarget R tg"
  shows "(\<And>c a v. (c, a) \<in> set cs \<Longrightarrow> R v (snd (a v))) \<Longrightarrow> R w (snd (caseLoop h u tg t0 fo cs st w))"
proof (induction cs arbitrary: st w)
  case (Cons ca cs)
  obtain c a where ca: "ca = (c, a)" by force
  have rest: "R v (snd (caseLoop h u tg t0 fo cs st' v))" for st' v by (rule Cons.IH) (auto intro: Cons.prems)
  have recover: "R v (snd (tg_recover tg 30000 v))" for v using assms by (simp add: calmTarget_def)
  show ?case
    unfolding ca caseLoop.simps
    by (rule thread [OF over_budget [OF assms]])
      (auto simp: ca stays intro!: thread Cons.prems recover rest split: sum.split if_split)
qed (simp add: stays)

lemma tool_loop:
  assumes "calmTarget R tg"
  shows "R w (snd (toolLoop h u tg t0 fo tools st w))"
proof (induction tools arbitrary: st w)
  case (Cons tool tools)
  have cases_kept: "R v (snd (caseLoop h u tg t0 fo (map (toolCase tg fo) cs) st v))" for cs v
    using assms by (intro case_loop) (auto simp: toolCase_def calmTarget_def)
  show ?case
  proof (cases "generateFuzzCases h tool (fo_maxCasesPerTool fo)")
    case (Inr cs)
    show ?thesis
      unfolding toolLoop.simps Inr sum.case
      by (rule thread [OF cases_kept]) (auto intro!: Cons.IH stays split: sum.split prod.split Stop.split)
  qed (simp add: stays)
qed (simp add: stays)

lemma run_fuzz:
  assumes "calmTarget R tg"
  shows "R w (snd (runFuzz h u tg tools fo w))"
proof -
  have protocol: "R v (snd (caseLoop h u tg t0 fo (map (protocolCase tg fo) cs) st v))" for t0 cs st v
    using assms by (intro case_loop) (auto simp: protocolCase_def calmTarget_def)
  have now: "R v (snd (tg_now tg v))" for v using assms by (simp add: calmTarget_def)
  show ?thesis
    unfolding runFuzz_def
    by (rule thread [OF now], rule thread [OF tool_loop [OF assms]])
      (auto intro!: thread [OF protocol] stays split: sum.split if_split)
qed

lemma benign_loop:
  assumes "calmTarget R tg"
  shows "R w (snd (benignLoop h tg t0 po tools cs silent w))"
proof (induction tools arbitrary: cs silent w)
  case (Cons tool tools)
  have calls: "R v (snd (tg_call tg n a ms v))" "R v (snd (tg_recover tg ms v))" for n a ms v
    using assms by (simp_all add: calmTarget_def)
  show ?case
    unfolding benignLoop.simps
    by (rule thread [OF over_budget [OF assms]])
      (auto simp: stays Let_def intro!: thread calls Cons.IH split: sum.split if_split)
qed (simp add: stays)

lemma active_loop:
  assumes "calmTarget R tg"
  shows "R w (snd (activeLoop h u tg t0 po tool base plan made acc w))"
proof (induction plan arbitrary: made acc w)
  case (Cons p plan)
  obtain parameter py where p: "p = (parameter, py)" by force
  have calls: "R v (snd (tg_call tg n a ms v))" "R v (snd (tg_recover tg ms v))" for n a ms v
    using assms by (simp_all add: calmTarget_def)
  have step: "R w (snd (case overBudget tg t0 (po_budgetMs po) w of (over, w) \<Rightarrow> g over w))"
    if "\<And>over w. R w (snd (g over w))" for g using that by (intro thread over_budget assms)
  show ?case
    unfolding p activeLoop.simps Let_def
    by (auto simp: stays intro!: step thread calls Cons.IH split: sum.split if_split)
qed (simp add: stays)

lemma active_tools:
  assumes "calmTarget R tg"
  shows "R w (snd (activeTools h u tg t0 po tools acc w))"
proof (induction tools arbitrary: acc w)
  case (Cons tool tools)
  show ?case
    unfolding activeTools.simps
    by (rule thread [OF over_budget [OF assms]])
      (auto simp: stays intro!: thread [OF active_loop [OF assms]] Cons.IH split: sum.split if_split)
qed (simp add: stays)

lemma run_probes:
  assumes "calmTarget R tg"
  shows "R w (snd (runProbes h u tg tools init po w))"
proof -
  have now: "R v (snd (tg_now tg v))" for v using assms by (simp add: calmTarget_def)
  show ?thesis
    unfolding runProbes_def Let_def
    by (rule thread [OF now], rule thread [OF benign_loop [OF assms]])
      (auto intro!: thread [OF active_tools [OF assms]] stays split: sum.split)
qed

lemma all_verdicts:
  assumes "\<And>s u. R s (snd (ask s u))"
  shows "R s (snd (verdicts ask us s))"
proof (induction us arbitrary: s)
  case (Cons u us)
  show ?case
    unfolding verdicts.simps
    by (rule thread [of s "\<lambda>s. ask s u", OF assms]) (auto intro!: thread [OF Cons.IH] simp: stays split: sum.split)
qed (simp add: stays)

lemma page_loop:
  assumes "\<And>m ps v. R v (snd (ask v m ps))"
  shows "R w (snd (pageLoop ask method field n cursor w))"
proof (induction n arbitrary: cursor w)
  case (Suc n)
  show ?case
    unfolding pageLoop.simps Let_def
    by (rule thread [of w "\<lambda>w. ask w method ps" for ps, OF assms])
      (auto simp: stays Suc.IH split: option.split)
qed (simp add: stays)

lemma listings:
  assumes "\<And>m ps v. R v (snd (ask v m ps))"
  shows "R w (snd (listTools ask w))" "R w (snd (listPrompts ask w))" "R w (snd (listResources ask w))"
  using page_loop [of ask, OF assms]
  by (simp_all add: listTools_def listPrompts_def listResources_def paginate_def)

lemma attempts:
  assumes "\<And>v. R v (snd (mesh v url q))"
  shows "R w (snd (attemptLoop h mesh vc url q source n lastError w))"
proof (induction n arbitrary: lastError w)
  case (Suc n)
  show ?case
    unfolding attemptLoop.simps
    by (rule thread [of w "\<lambda>w. mesh w url q", OF assms])
      (auto simp: stays Suc.IH split: sum.split thrown.split RunnerError.split attempt.split)
qed (simp add: stays)

lemma analysis:
  assumes "\<And>v url. R v (snd (mesh v url (vigilRequest h vc (truncatePayload vc txt))))"
  shows "R w (snd (analyze h mesh vc txt source w))"
proof -
  have at: "R v (snd (analyzeAt h mesh vc url (truncatePayload vc txt) source n v))" for url n v
    unfolding analyzeAt_def by (rule attempts) (rule assms)
  then show ?thesis
    unfolding analyze_def Let_def
    by (auto intro!: thread [OF at] stays split: option.split sum.split RunnerError.split)
qed

end

section \<open>The log\<close>

datatype event = Scanned jsstring MeshRequestInit | Prompted PromptRequest

definition notePrompt :: "PromptRequest \<Rightarrow> event list \<Rightarrow> event list" where
  "notePrompt q l = l @ [Prompted q]"

definition loggedTarget :: "'s Target \<Rightarrow> ('l \<times> 's) Target" where
  "loggedTarget tg =
     \<lparr>tg_call = (\<lambda>n v ms. keepFst (tg_call tg n v ms)), tg_raw = (\<lambda>f i ms. keepFst (tg_raw tg f i ms)),
      tg_recover = (\<lambda>ms. keepFst (tg_recover tg ms)), tg_now = keepFst (tg_now tg), tg_latency = (\<lambda>lw. tg_latency tg (snd lw)),
      tg_unsolicited = (\<lambda>lw. tg_unsolicited tg (snd lw)), tg_notifications = (\<lambda>lw. tg_notifications tg (snd lw))\<rparr>"

text \<open>The outside with a log of scans and prompts, and no other change.\<close>

definition logged :: "'s Outside \<Rightarrow> (event list \<times> 's) Outside" where
  "logged ow =
     \<lparr>ow_now = keepFst (ow_now ow), ow_terminated = (\<lambda>lw. ow_terminated ow (snd lw)),
      ow_fetchServer = (\<lambda>n. keepFst (ow_fetchServer ow n)), ow_fetchAgent = (\<lambda>n. keepFst (ow_fetchAgent ow n)),
      ow_patch = (\<lambda>p. map_prod id (ow_patch ow p)), ow_flush = map_prod id (ow_flush ow),
      ow_persist = (\<lambda>r. map_prod id (ow_persist ow r)),
      ow_mesh = (\<lambda>lw url q. case keepFst (\<lambda>w. ow_mesh ow w url q) lw of (r, l, w) \<Rightarrow> (r, l @ [Scanned url q], w)),
      ow_opencode = loggedOC notePrompt (ow_opencode ow), ow_target = loggedTarget (ow_target ow),
      ow_start = keepFst (ow_start ow), ow_initialize = (\<lambda>ms. keepFst (ow_initialize ow ms)),
      ow_ask = (\<lambda>lw m ps. keepFst (\<lambda>w. ow_ask ow w m ps) lw), ow_crashes = (\<lambda>lw. ow_crashes ow (snd lw)),
      ow_malformed = (\<lambda>lw. ow_malformed ow (snd lw)), ow_closeClient = map_prod id (ow_closeClient ow),
      ow_repo = (\<lambda>lw. ow_repo ow (snd lw)), ow_localeCompare = ow_localeCompare ow\<rparr>"

definition observed :: "'s Setting \<Rightarrow> (event list \<times> 's) Setting" where
  "observed cx = \<lparr>rn_host = rn_host cx, rn_unicode = rn_unicode cx, rn_out = logged (rn_out cx), rn_env = rn_env cx,
     rn_vigil = rn_vigil cx\<rparr>"

lemma observed_simps [simp]:
  "rn_host (observed cx) = rn_host cx" "rn_unicode (observed cx) = rn_unicode cx" "rn_out (observed cx) = logged (rn_out cx)"
  "rn_env (observed cx) = rn_env cx" "rn_vigil (observed cx) = rn_vigil cx"
  by (simp_all add: observed_def)

text \<open>The log grows by events of a kind.\<close>

definition grows :: "('e \<Rightarrow> bool) \<Rightarrow> 'e list \<times> 's \<Rightarrow> 'e list \<times> 's \<Rightarrow> bool" where
  "grows P s s' \<longleftrightarrow> (\<exists>d. fst s' = fst s @ d \<and> (\<forall>e \<in> set d. P e))"

lemma grows_trans: "grows P s t \<Longrightarrow> grows P t u \<Longrightarrow> grows P s u"
  unfolding grows_def by (metis (no_types, lifting) Un_iff append.assoc set_append)

lemma grows_same: "fst s' = fst s \<Longrightarrow> grows P s s'"
  by (simp add: grows_def)

interpretation growing: preorder_steps "grows P"
  by unfold_locales (auto intro: grows_trans grows_same)

lemma grows_weaken: "grows P s s' \<Longrightarrow> (\<And>e. P e \<Longrightarrow> Q e) \<Longrightarrow> grows Q s s'"
  by (auto simp: grows_def)

lemma keepFst_grows [simp]: "grows P w (snd (keepFst f w))"
  by (simp add: keepFst_def grows_def split: prod.split)

lemma loggedTarget_calm: "calmTarget (grows P) (loggedTarget tg)"
  by (simp add: calmTarget_def loggedTarget_def)

definition isScan :: "event \<Rightarrow> bool" where
  "isScan e = (case e of Scanned _ _ \<Rightarrow> True | Prompted _ \<Rightarrow> False)"

definition says :: "jsstring set \<Rightarrow> event \<Rightarrow> bool" where
  "says T e = (case e of Scanned _ _ \<Rightarrow> False | Prompted q \<Rightarrow> pm_text q \<in> T)"

lemma says_iff: "says T e \<longleftrightarrow> (\<exists>q. e = Prompted q \<and> pm_text q \<in> T)"
  by (cases e) (simp_all add: says_def)

lemma mesh_grows: "grows isScan w (snd (ow_mesh (logged ow) w url q))"
  by (cases w) (auto simp: logged_def keepFst_def grows_def isScan_def split: prod.split)

lemma analyze_grows: "grows isScan w (snd (analyze h (ow_mesh (logged ow)) vc txt source w))"
  by (rule growing.analysis) (rule mesh_grows)

text \<open>A scanner that answers was asked about the text.\<close>

definition scannedIn :: "host \<Rightarrow> VigilClient \<Rightarrow> event list \<Rightarrow> ScanSegment \<Rightarrow> bool" where
  "scannedIn h vc l u \<longleftrightarrow> (\<exists>url. Scanned url (vigilRequest h vc (truncatePayload vc (seg_text u))) \<in> set l)"

lemma scannedIn_mono: "scannedIn h vc l u \<Longrightarrow> grows P (l, w) (l', w') \<Longrightarrow> scannedIn h vc l' u"
  by (auto simp: scannedIn_def grows_def)

lemma mesh_logs: "ow_mesh (logged ow) w url q = (r, w') \<Longrightarrow> Scanned url q \<in> set (fst w')"
  by (cases w) (auto simp: logged_def keepFst_def split: prod.splits)

lemma attempts_logged:
  "attemptLoop h (ow_mesh (logged ow)) vc url q source n lastError w = (Inr v, w') \<Longrightarrow> Scanned url q \<in> set (fst w')"
proof (induction n arbitrary: lastError w)
  case (Suc n)
  obtain r w1 where r: "ow_mesh (logged ow) w url q = (r, w1)" by (cases "ow_mesh (logged ow) w url q") simp
  with Suc show ?case
    using mesh_logs [OF r] by (auto split: sum.splits thrown.splits RunnerError.splits attempt.splits)
qed simp

lemma analyze_logged:
  assumes "analyze h (ow_mesh (logged ow)) vc txt source w = (Inr v, w')"
  shows "\<exists>url. Scanned url (vigilRequest h vc (truncatePayload vc txt)) \<in> set (fst w')"
proof -
  have at: "analyzeAt h (ow_mesh (logged ow)) vc url (truncatePayload vc txt) source n w1 = (Inr v, (l, w2)) \<Longrightarrow>
      \<exists>url. Scanned url (vigilRequest h vc (truncatePayload vc txt)) \<in> set l" for url n w1 l w2
    unfolding analyzeAt_def by (drule attempts_logged) auto
  show ?thesis
    using assms unfolding analyze_def Let_def
    by (cases w') (auto split: option.splits prod.splits sum.splits RunnerError.splits dest: at)
qed

text \<open>The prompts of one agent carry its message, or ask again for JSON.\<close>

definition agentTexts :: "host \<Rightarrow> OpenCodeAgent \<Rightarrow> jsstring \<Rightarrow> jsstring set" where
  "agentTexts h agent msg = {contractedMessage h agent msg, AGAIN_TEXT}"

lemma loggedOC_grows [simp]:
  "grows P w (snd (oc_boot (loggedOC nt oc) c p w))" "grows P w (snd (oc_session (loggedOC nt oc) t d w))"
  "grows P w (snd (oc_now (loggedOC nt oc) w))" "grows P w (oc_close (loggedOC nt oc) w)"
  by (simp_all add: loggedOC_def grows_same)

lemma prompt_grows: "pm_text q \<in> T \<Longrightarrow> grows (says T) w (snd (oc_prompt (loggedOC notePrompt oc) q w))"
  by (cases w) (auto simp: loggedOC_def keepFst_def grows_def says_def notePrompt_def split: prod.split)

lemma askAgain_grows:
  assumes "pm_text q \<in> T"
  shows "grows (says T) w (snd (askAgain h (loggedOC notePrompt oc) q timeout n structured parts w))"
proof (induction n arbitrary: structured parts w)
  case (Suc n)
  show ?case
    unfolding askAgain.simps
    by (cases structured; simp)
      (rule growing.thread [OF prompt_grows [OF assms]], auto simp: growing.stays Suc.IH split: option.split sum.split)
qed (simp add: growing.stays)

lemma answerOfReply_grows:
  assumes "pm_text q \<in> T"
  shows "grows (says T) w (snd (answerOfReply h (loggedOC notePrompt oc) agent q timeout info parts w))"
proof (cases "messageFailure h info")
  case None
  show ?thesis
    unfolding answerOfReply_def None option.case Let_def
    by (rule growing.thread [OF askAgain_grows [OF assms]]) (auto simp: growing.stays split: sum.split option.split)
qed (simp add: answerOfReply_def growing.stays)

lemma promptWork_grows: "grows (says (agentTexts h agent msg)) w (snd (promptWork h (loggedOC notePrompt oc) agent kind msg env w))"
proof -
  have texts: "pm_text (promptRequest agent sid d b f (contractedMessage h agent msg)) \<in> agentTexts h agent msg"
      "pm_text (promptRequest agent sid d b f AGAIN_TEXT) \<in> agentTexts h agent msg" for sid d b f
    by (simp_all add: promptRequest_def agentTexts_def)
  show ?thesis
    unfolding promptWork_def Let_def
    by (rule growing.thread, simp)
      (auto simp: growing.stays intro!: growing.thread [OF prompt_grows [OF texts(1)]] answerOfReply_grows texts split: option.split sum.split)
qed

lemma runAgentPrompt_grows:
  "grows (says (agentTexts h agent msg)) w (snd (runAgentPrompt h (loggedOC notePrompt oc) agent kind msg env w))"
  unfolding runAgentPrompt_def
proof (rule growing.thread, simp)
  fix t w1
  show "grows (says (agentTexts h agent msg)) w1 (snd (case oc_boot (loggedOC notePrompt oc)
      (opencodeConfig (oc_headers (loggedOC notePrompt oc) w1) agent env) (re_opencodePort env) w1 of
        (Inl e, w) \<Rightarrow> (Inl (promptError agent (J ''failed to boot OpenCode server: '' @ errorMessage h e)), w)
      | (Inr _, w) \<Rightarrow>
          (case promptWork h (loggedOC notePrompt oc) agent kind msg env w of
             (Inl e, w) \<Rightarrow> (Inl e, oc_close (loggedOC notePrompt oc) w)
           | (Inr v, w) \<Rightarrow> (case oc_now (loggedOC notePrompt oc) w of (finished, w) \<Rightarrow> (Inr (v, finished - t), oc_close (loggedOC notePrompt oc) w)))))"
    by (rule growing.thread, simp)
      (auto simp: growing.stays intro!: growing.thread [OF promptWork_grows] growing.thread split: sum.split)
qed

section \<open>What the parts of a run add to the log\<close>

text \<open>\<open>V\<close> is what of the state stays the same, \<open>P\<close> the events that may be added.\<close>

definition steady :: "(RunState \<Rightarrow> 'v) \<Rightarrow> ('e \<Rightarrow> bool) \<Rightarrow> RunState \<times> 'e list \<times> 's \<Rightarrow> RunState \<times> 'e list \<times> 's \<Rightarrow> bool" where
  "steady V P s s' \<longleftrightarrow> V (fst s') = V (fst s) \<and> grows P (snd s) (snd s')"

interpretation steadily: preorder_steps "steady V P"
  by unfold_locales (auto simp: steady_def growing.stays intro: grows_trans)

definition scanView :: "RunState \<Rightarrow> bool \<times> bool" where
  "scanView rs = (vg_enforced (vrecOf rs), st_surfaceScanned rs)"

definition surfaceView :: "RunState \<Rightarrow> bool \<times> bool \<times> bool \<times> AdvertisedSurface" where
  "surfaceView rs = (vg_enforced (vrecOf rs), st_surfaceScanned rs, st_targetStarted rs, surfaceOf (st_dynamic rs))"

definition gateView :: "RunState \<Rightarrow> bool \<times> bool \<times> bool \<times> DynamicEvidence \<times> ProbeReport option" where
  "gateView rs = (vg_enforced (vrecOf rs), st_surfaceScanned rs, st_targetStarted rs, st_dynamic rs, st_probes rs)"

lemmas surface_defs = scanView_def surfaceView_def gateView_def state_defs modDynamic_def surfaceOf_def

named_theorems calm \<open>computations that change nothing the gates depend on\<close>

lemmas calm_rules [calm] = steadily.ret steadily.throw steadily.bind steadily.sequence steadily.handle steadily.branch

lemma calm_get [calm]: "steps (steady V P) (getM f)"
  by (simp add: steps_def getM_def steadily.stays)

lemma calm_mod: "(\<And>rs. V (f rs) = V rs) \<Longrightarrow> steps (steady V P) (modM f)"
  by (simp add: steps_def modM_def steady_def growing.stays)

lemma calm_call: "(\<And>w. grows P w (snd (f w))) \<Longrightarrow> steps (steady V P) (callM f)"
  by (simp add: steps_def callM_def steady_def split: prod.split) (metis snd_conv)

lemma calm_try: "(\<And>w. grows P w (snd (f w))) \<Longrightarrow> steps (steady V P) (tryM f)"
  by (simp add: steps_def tryM_def steady_def split: prod.split) (metis snd_conv)

lemma logged_simps [simp]:
  "ow_target (logged ow) = loggedTarget (ow_target ow)" "ow_opencode (logged ow) = loggedOC notePrompt (ow_opencode ow)"
  "grows P w (snd (ow_now (logged ow) w))" "grows P w (snd (ow_start (logged ow) w))"
  "grows P w (snd (ow_initialize (logged ow) ms w))" "grows P w (snd (ow_ask (logged ow) w m ps))"
  by (simp_all add: logged_def)

lemma calm_patch [calm]: "steps (steady V P) (patchM (observed cx) p)" "steps (steady V P) (patchFrom (observed cx) f)"
proof -
  show p: "steps (steady V P) (patchM (observed cx) p)" for p
    by (auto simp: steps_def patchM_def doM_def steady_def logged_def intro: grows_same)
  show "steps (steady V P) (patchFrom (observed cx) f)" unfolding patchFrom_def by (intro calm p)
qed

lemma calm_refresh [calm]: "steps (steady surfaceView P) (refreshTelemetry cx)" "steps (steady scanView P) (refreshTelemetry cx)"
  by (auto simp: steps_def steady_def refreshTelemetry_def surface_defs growing.stays split: prod.splits)

lemma gate_surface: "steady gateView P s s' \<Longrightarrow> steady surfaceView P s s'"
  by (simp add: steady_def gateView_def surfaceView_def)

lemma steady_weaken: "steady V P s s' \<Longrightarrow> (\<And>e. P e \<Longrightarrow> Q e) \<Longrightarrow> steady V Q s s'"
  by (auto simp: steady_def intro: grows_weaken)

lemma calm_fail [calm]: "steps (steady gateView P) (fail cx stage err)"
  unfolding fail_def Let_def by (intro calm calm_mod) (simp add: surface_defs)

lemma calm_evidenceFailed [calm]: "steps (steady surfaceView P) (evidenceFailed (observed cx) err)"
proof -
  have "grows P w (snd (tg_recover (loggedTarget tg) ms w))" for tg ms w
    by (simp add: loggedTarget_def)
  then show ?thesis unfolding evidenceFailed_def by (intro calm calm_mod calm_call) (simp_all add: surface_defs)
qed

lemma calm_fuzzM [calm]: "steps (steady surfaceView P) (fuzzM (observed cx))"
  unfolding fuzzM_def
  by (rule steadily.bind, intro calm, simp split: prod.split, intro conjI impI allI calm calm_mod calm_try)
    (simp_all add: surface_defs growing.run_fuzz loggedTarget_calm)

lemma calm_probesM [calm]: "steps (steady surfaceView P) (probesM (observed cx))"
  unfolding probesM_def
  by (rule steadily.bind, intro calm, simp split: prod.split, intro conjI impI allI calm calm_mod calm_try)
    (simp_all add: surface_defs growing.run_probes loggedTarget_calm)

lemma calm_runnerCall: "(\<And>w. grows P w (snd (f w))) \<Longrightarrow> steps (steady V P) (runnerCall f)"
  unfolding runnerCall_def by (rule calm_try) (simp add: snd_map_prod)

lemma calm_enumerate [calm]: "steps (steady scanView P) (enumerateSurface (observed cx))"
  unfolding enumerateSurface_def Let_def
  by (intro calm calm_mod calm_runnerCall) (simp_all add: surface_defs growing.listings)

lemma calm_ensureTarget [calm]: "steps (steady scanView P) (ensureTarget (observed cx))"
  unfolding ensureTarget_def
  by (intro calm calm_mod calm_try) (simp_all add: surface_defs)

subsection \<open>The gates\<close>

lemma calm_warnings [calm]: "steps (steady gateView P) (recordVigilWarnings (observed cx) source warnings)"
  unfolding recordVigilWarnings_def by (intro calm calm_mod) (simp_all add: surface_defs)

lemma calm_scanFailed [calm]: "steps (steady gateView P) (scanFailed cx source err)"
  unfolding scanFailed_def Let_def
  by (simp split: thrown.split RunnerError.split) (auto intro!: calm calm_mod simp: surface_defs)

lemma calm_reportAbort [calm]: "steps (steady gateView P) (reportAbort (observed cx) source u v)"
  unfolding reportAbort_def by (intro calm calm_mod) (simp_all add: surface_defs)

lemma scanOne_steady: "steady gateView isScan s (snd (scanOne (observed cx) vigil source s u))"
proof -
  obtain rs w where s: "s = (rs, w)" by (rule prod.exhaust)
  show ?thesis
    using analyze_grows [of w "rn_host cx" "rn_out cx" vigil "seg_text u" "source @ J '': '' @ seg_label u"]
    by (auto simp: s scanOne_def steady_def surface_defs split: prod.split)
qed

lemma calm_scanUntrusted [calm]: "steps (steady gateView isScan) (scanUntrusted (observed cx) source segments)"
  unfolding scanUntrusted_def
  by (simp split: option.split, intro allI impI, intro calm steadily.gate scanOne_steady)
    (simp split: option.split prod.split, intro conjI allI impI calm)

lemma calm_gates [calm]:
  "steps (steady gateView isScan) (scanFuzz (observed cx))" "steps (steady gateView isScan) (scanProbes (observed cx))"
  unfolding scanFuzz_def scanProbes_def by (auto intro!: calm split: option.split)

text \<open>A strict gate that returns had every chunk scanned.\<close>

lemma verdicts_scanned:
  "verdicts (scanOne (observed cx) vigil source) us s = (Inr vs, s') \<Longrightarrow>
     u \<in> set us \<Longrightarrow> scannedIn (rn_host cx) vigil (fst (snd s')) u"
proof (induction us arbitrary: s vs)
  case (Cons x us)
  obtain r s1 where r: "scanOne (observed cx) vigil source s x = (r, s1)" by (rule prod.exhaust)
  then obtain v where v: "r = Inr v" using Cons.prems by (cases r) auto
  with r Cons.prems obtain vs' where rest: "verdicts (scanOne (observed cx) vigil source) us s1 = (Inr vs', s')"
    by (auto split: prod.splits sum.splits)
  show ?case
  proof (cases "u = x")
    case True
    obtain rs w where s: "s = (rs, w)" by (rule prod.exhaust)
    from r v have "scannedIn (rn_host cx) vigil (fst (snd s1)) x"
      unfolding s scanOne_def scannedIn_def
      by (auto split: prod.splits simp: map_sum_def dest!: analyze_logged split: sum.splits)
    moreover have "steady gateView isScan s1 s'"
      using steadily.all_verdicts [of gateView isScan "scanOne (observed cx) vigil source", OF scanOne_steady, of s1 us] rest by simp
    ultimately show ?thesis using True by (cases "snd s1"; cases "snd s'") (auto simp: steady_def intro: scannedIn_mono)
  next
    case False
    with Cons.IH [OF rest] Cons.prems show ?thesis by simp
  qed
qed simp

lemma catch_return:
  "catchM m f s = (Inr v, s') \<Longrightarrow> m s = (Inr v, s') \<or> (\<exists>e t. m s = (Inl e, t) \<and> f e t = (Inr v, s'))"
  by (auto simp: catchM_def split: prod.splits sum.splits)

lemma scanFailed_strict:
  assumes "vg_enforced (vrecOf (fst s))"
  shows "\<exists>e' s'. scanFailed cx source (Runner (VigilUnavailableError sr d)) s = (Inl e', s')"
  using assms by (cases s) (simp add: scanFailed_def Let_def comp_defs fail_run state_defs)

lemma warnings_total: "total (recordVigilWarnings cx source ws)"
  unfolding recordVigilWarnings_def patchFrom_def by (intro totals)

lemma scanUntrusted_scans:
  assumes "rn_vigil cx = Some vigil" "vg_enforced (vrecOf (fst s))"
    and "scanUntrusted (observed cx) source segments s = (Inr x, s')" "u \<in> set (scanUnitsD segments)"
  shows "scannedIn (rn_host cx) vigil (fst (snd s')) u"
proof -
  let ?gate = "scanGate (scanOne (observed cx) vigil source) vv_level (scanUnitsD segments)"
  let ?rest = "\<lambda>result. thenM (recordVigilWarnings (observed cx) source (gs_warnings result)) (retM (gs_abort result))"
  let ?act = "\<lambda>abort. case abort of None \<Rightarrow> retM () | Some (offending, verdict) \<Rightarrow> reportAbort (observed cx) source offending verdict"
  obtain abort s2 where first: "catchM (bindM ?gate ?rest) (scanFailed (observed cx) source) s = (Inr abort, s2)"
    and act: "?act abort s2 = (Inr x, s')"
    using assms(1,3) by (auto simp: scanUntrusted_def dest!: bind_return)
  obtain g s1 where g: "?gate s = (g, s1)" by (rule prod.exhaust)
  have s1: "steady gateView isScan s s1" using stepsD [OF steadily.gate [OF scanOne_steady] g] .
  have "g \<noteq> Inl e" for e
  proof
    assume e: "g = Inl e"
    with g gate_error obtain sr d where "e = Runner (VigilUnavailableError sr d)" by blast
    moreover have "vg_enforced (vrecOf (fst s1))" using s1 assms(2) by (simp add: steady_def gateView_def)
    ultimately obtain e' t where "scanFailed (observed cx) source e s1 = (Inl e', t)" using scanFailed_strict by blast
    then show False using first g e by (simp add: catchM_def bindM_def)
  qed
  then obtain gs where gs: "g = Inr gs" by (cases g) auto
  obtain y t where "recordVigilWarnings (observed cx) source (gs_warnings gs) s1 = (Inr y, t)"
    using warnings_total [of "observed cx" source "gs_warnings gs"] unfolding total_def by meson
  with first g gs have warned: "recordVigilWarnings (observed cx) source (gs_warnings gs) s1 = (Inr y, s2)" "abort = gs_abort gs"
    by (auto simp: catchM_def bindM_def thenM_def retM_def)
  have s2: "steady gateView isScan s1 s2" using stepsD [OF calm_warnings warned(1)] .
  have "abort = None"
  proof (rule ccontr)
    assume "abort \<noteq> None"
    then obtain o' v where "abort = Some (o', v)" by (cases abort) auto
    moreover have "vg_enforced (vrecOf (fst s2))" using s1 s2 assms(2) by (simp add: steady_def gateView_def)
    ultimately show False
      using act reportAbort_strict [of "fst s2" "observed cx" source o' v "snd s2"] by auto
  qed
  with act have s': "s' = s2" by (simp add: retM_def)
  from gate_verdicts [OF g [unfolded gs]] obtain vs where vs:
      "verdicts (scanOne (observed cx) vigil source) (take (length vs) (scanUnitsD segments)) s = (Inr vs, s1)"
      "gs_abort gs = None \<longrightarrow> length vs = length (scanUnitsD segments)"
    by (elim exE conjE) (rule that; assumption)
  with \<open>abort = None\<close> warned(2) have "verdicts (scanOne (observed cx) vigil source) (scanUnitsD segments) s = (Inr vs, s1)" by simp
  from verdicts_scanned [OF this assms(4)] s2 show ?thesis
    unfolding s' by (cases "snd s1"; cases "snd s2") (auto simp: steady_def intro: scannedIn_mono)
qed

subsection \<open>The agents\<close>

lemma patch_grows: "grows P w (ow_patch (logged ow) p w)"
  by (simp add: logged_def grows_same)

lemma recordAgent_steady:
  "steady gateView (says (agentTexts (rn_host cx) agent (message (setAgent (agentName agent) (newRecord agent kind) rs))))
     (rs, w) (snd (recordAgent (observed cx) agent kind message (rs, w)))"
proof -
  let ?P = "says (agentTexts (rn_host cx) agent (message (setAgent (agentName agent) (newRecord agent kind) rs)))"
  have "grows ?P w (snd (snd (recordAgent (observed cx) agent kind message (rs, w))))"
  proof -
    obtain t w1 where now: "ow_now (logged (rn_out cx)) w = (t, w1)" by (rule prod.exhaust)
    define w2 where "w2 = ow_patch (logged (rn_out cx)) (emptyPatch\<lparr>sp_phase := Some Evaluating, sp_currentAgent := Some (agentName agent),
           sp_message := Some (J ''running agent '' @ agentName agent)\<rparr>) w1"
    obtain r w3 where ask: "runAgentPrompt (rn_host cx) (loggedOC notePrompt (ow_opencode (rn_out cx))) agent kind
        (message (setAgent (agentName agent) (newRecord agent kind) rs)) (rn_env cx) w2 = (r, w3)" by (rule prod.exhaust)
    obtain t' w4 where late: "ow_now (logged (rn_out cx)) w3 = (t', w4)" by (rule prod.exhaust)
    have grown: "grows ?P w w1" "grows ?P w1 w2" "grows ?P w2 w3" "grows ?P w3 w4"
      using logged_simps(3) [of ?P w "rn_out cx"] now runAgentPrompt_grows [of "rn_host cx" agent _ w2 "ow_opencode (rn_out cx)" kind "rn_env cx"] ask
        logged_simps(3) [of ?P w3 "rn_out cx"] late by (simp_all add: w2_def patch_grows) (metis snd_conv)
    have end1: "grows ?P w w3" using grown by (blast intro: grows_trans)
    have "grows ?P w (ow_patch (logged (rn_out cx)) p w3)" "grows ?P w (ow_patch (logged (rn_out cx)) p w4)" for p
      using end1 grown(4) patch_grows by (blast intro: grows_trans)+
    then show ?thesis
      using now ask late by (cases r) (auto simp: recordAgent_run Let_def w2_def split: prod.split)
  qed
  moreover have "gateView (fst (snd (recordAgent (observed cx) agent kind message (rs, w)))) = gateView rs"
    by (cases rule: recordAgent_cases [of "observed cx" agent kind message rs w])
      (simp_all add: gateView_def setAgent_def failAgent_def state_defs)
  ultimately show ?thesis by (simp add: steady_def)
qed

lemma degraded_state: "snd (degraded m s) = snd (m s)"
  by (simp add: degraded_def comp_defs split: prod.split sum.split)

abbreviation anything :: "event \<Rightarrow> bool" where "anything \<equiv> \<lambda>_. True"

lemma calm_recordAgent [calm]: "steps (steady gateView anything) (recordAgent (observed cx) agent kind message)"
  unfolding steps_def by (auto intro: steady_weaken [OF recordAgent_steady])

lemma calm_degraded [calm]: "steps R m \<Longrightarrow> steps R (degraded m)"
  by (simp add: steps_def degraded_state)

lemma calm_failAgent: "steps (steady gateView P) (modM (failAgent n))"
  by (rule calm_mod) (simp add: failAgent_def surface_defs)

lemma calm_applySynthesis [calm]: "steps (steady gateView anything) (applySynthesis (observed cx) agent v)"
  unfolding applySynthesis_def
  by (simp split: sum.split, intro conjI allI impI calm calm_failAgent calm_mod) (simp add: surface_defs)

lemma calm_refresh_gate [calm]: "steps (steady gateView P) (refreshTelemetry cx)"
  by (auto simp: steps_def steady_def refreshTelemetry_def surface_defs growing.stays split: prod.splits)

lemma calm_staticEvidence [calm]: "steps (steady gateView anything) (staticEvidenceM (observed cx))"
  unfolding staticEvidenceM_def
  by (rule steadily.bind, intro calm, simp split: option.split, intro conjI impI allI calm calm_mod calm_call)
    (simp_all add: surface_defs growing.stays)

lemma calm_other_personas [calm]:
  "steps (steady gateView anything) (staticAgent (observed cx) server agent)"
  "steps (steady gateView anything) (synthesisAgent (observed cx) nt server agent)"
  "steps (steady gateView anything) (genericAgent (observed cx) server agent)"
  unfolding staticAgent_def synthesisAgent_def genericAgent_def
  by (intro calm; simp split: option.split add: calm)+

section \<open>The invariant of the gates\<close>

definition surfaceUnits :: "RunState \<Rightarrow> ScanSegment list" where
  "surfaceUnits rs = scanUnitsD (surfaceSegments (surfaceOf (st_dynamic rs)))"

text \<open>Without a handshake nothing is advertised.\<close>

definition noSurface :: "DynamicEvidence \<Rightarrow> bool" where
  "noSurface d \<longleftrightarrow> dy_tools d = [] \<and> dy_prompts d = [] \<and> dy_resources d = []"

definition auditInv :: "host \<Rightarrow> VigilClient \<Rightarrow> RunState \<times> event list \<times> 's \<Rightarrow> bool" where
  "auditInv h vigil s \<longleftrightarrow> vg_enforced (vrecOf (fst s)) \<and>
     (\<not> st_targetStarted (fst s) \<longrightarrow> \<not> st_surfaceScanned (fst s) \<and> dy_init (st_dynamic (fst s)) = None) \<and>
     (dy_init (st_dynamic (fst s)) = None \<longrightarrow> noSurface (st_dynamic (fst s))) \<and>
     (st_surfaceScanned (fst s) \<longrightarrow> (\<forall>u \<in> set (surfaceUnits (fst s)). scannedIn h vigil (fst (snd s)) u))"

lemma scanned_steady: "steady V P s s' \<Longrightarrow> scannedIn h vigil (fst (snd s)) u \<Longrightarrow> scannedIn h vigil (fst (snd s')) u"
  by (cases "snd s"; cases "snd s'") (auto simp: steady_def intro: scannedIn_mono)

lemma auditInv_steady:
  assumes "auditInv h vigil s" "steady surfaceView P s s'"
  shows "auditInv h vigil s'"
proof -
  have "surfaceView (fst s') = surfaceView (fst s)" using assms(2) by (simp add: steady_def)
  then have "vg_enforced (vrecOf (fst s')) = vg_enforced (vrecOf (fst s))" "st_surfaceScanned (fst s') = st_surfaceScanned (fst s)"
      "st_targetStarted (fst s') = st_targetStarted (fst s)" "surfaceUnits (fst s') = surfaceUnits (fst s)"
      "dy_init (st_dynamic (fst s')) = dy_init (st_dynamic (fst s))"
      "noSurface (st_dynamic (fst s')) = noSurface (st_dynamic (fst s))"
    by (simp_all add: surfaceView_def surfaceUnits_def noSurface_def surfaceOf_def)
  with assms scanned_steady [OF assms(2)] show ?thesis by (simp add: auditInv_def)
qed

lemma enumerate_init:
  "dy_init (st_dynamic (fst (snd (enumerateSurface cx s)))) = dy_init (st_dynamic (fst s))"
  "st_targetStarted (fst (snd (enumerateSurface cx s))) = st_targetStarted (fst s)"
proof -
  have "steps (\<lambda>s s'. dy_init (st_dynamic (fst s')) = dy_init (st_dynamic (fst s)) \<and> st_targetStarted (fst s') = st_targetStarted (fst s))
      (enumerateSurface cx)"
    unfolding enumerateSurface_def Let_def runnerCall_def
    by (auto simp: steps_def comp_defs modDynamic_def split: prod.split sum.split)
  then show "dy_init (st_dynamic (fst (snd (enumerateSurface cx s)))) = dy_init (st_dynamic (fst s))"
    "st_targetStarted (fst (snd (enumerateSurface cx s))) = st_targetStarted (fst s)"
    unfolding steps_def by blast+
qed

lemma ensureTarget_run:
  assumes "\<not> st_targetStarted rs"
  shows "ensureTarget cx (rs, w) =
    (let rs1 = rs\<lparr>st_targetStarted := True, st_mcp := True\<rparr>; out = rn_out cx; h = rn_host cx in
     case ow_start out w of (r1, w1) \<Rightarrow> case r1 of
       Inl e \<Rightarrow> (Inr (), (modDynamic (\<lambda>d. d\<lparr>dy_initError := J ''transport start failed: '' @ errorMessage h e\<rparr>) rs1, w1))
     | Inr _ \<Rightarrow> (case ow_initialize out TARGET_READY_TIMEOUT_MS w1 of (r2, w2) \<Rightarrow> case r2 of
         Inl e \<Rightarrow> refreshTelemetry cx (modDynamic (\<lambda>d. d\<lparr>dy_initError := errorMessage h e\<rparr>) rs1, w2)
       | Inr i \<Rightarrow> refreshTelemetry cx (snd (enumerateSurface cx (modDynamic (\<lambda>d. d\<lparr>dy_init := Some i\<rparr>) rs1, w2)))))"
proof -
  have "enumerateSurface cx s \<noteq> (Inl e, t)" for s e t
    using total_enumerate [of cx] unfolding total_def by (metis Inl_Inr_False Pair_inject)
  then show ?thesis
    using assms by (simp add: ensureTarget_def comp_defs Let_def split: prod.split sum.split)
qed

lemma refresh_keeps:
  "st_dynamic (fst (snd (refreshTelemetry cx s))) = st_dynamic (fst s)"
  "st_targetStarted (fst (snd (refreshTelemetry cx s))) = st_targetStarted (fst s)"
  by (simp_all add: refreshTelemetry_def modReport_def split: prod.split)

lemma ensureTarget_audit:
  assumes "auditInv h vigil s" "ensureTarget (observed cx) s = (r, s')"
  shows "auditInv h vigil s' \<and> grows isScan (snd s) (snd s')"
proof -
  have calm: "steady scanView isScan s s'" using stepsD [OF calm_ensureTarget assms(2)] .
  show ?thesis
  proof (cases "st_targetStarted (fst s)")
    case True
    with assms(2) have "s' = s" by (auto simp: ensureTarget_def comp_defs)
    with assms(1) show ?thesis by (simp add: growing.stays)
  next
    case False
    with assms(1) have "\<not> st_surfaceScanned (fst s)" by (simp add: auditInv_def)
    moreover have "(dy_init (st_dynamic (fst s')) = None \<longrightarrow> noSurface (st_dynamic (fst s'))) \<and> st_targetStarted (fst s')"
    proof -
      obtain rs w where s: "s = (rs, w)" by (rule prod.exhaust)
      have "noSurface (st_dynamic rs)" using assms(1) False by (simp add: auditInv_def s)
      moreover have "s' = snd (ensureTarget (observed cx) (rs, w))" using assms(2) by (simp add: s)
      ultimately show ?thesis
        using False enumerate_init [of "observed cx"]
        by (simp add: s ensureTarget_run Let_def refresh_keeps modDynamic_def noSurface_def split: prod.split sum.split)
    qed
    ultimately show ?thesis using calm assms(1) by (simp add: auditInv_def steady_def scanView_def)
  qed
qed

lemma no_segments: "dy_init d = None \<Longrightarrow> noSurface d \<Longrightarrow> surfaceSegments (surfaceOf d) = []"
  by (simp add: noSurface_def surfaceOf_def surfaceSegments_def push_def joinNonEmpty_def)

lemma scanSurface_audit:
  assumes "rn_vigil cx = Some vigil" "auditInv (rn_host cx) vigil s" "scanSurface (observed cx) s = (r, s')"
  shows "grows isScan (snd s) (snd s') \<and>
    (r = Inr () \<longrightarrow> auditInv (rn_host cx) vigil s' \<and> (\<forall>u \<in> set (surfaceUnits (fst s')). scannedIn (rn_host cx) vigil (fst (snd s')) u))"
proof (cases "dy_init (st_dynamic (fst s)) \<noteq> None \<and> \<not> st_surfaceScanned (fst s)")
  case False
  with assms(3) have "s' = s" by (auto simp: scanSurface_def comp_defs)
  with False assms(2) show ?thesis
    by (auto simp: growing.stays auditInv_def surfaceUnits_def no_segments scanUnitsD_def scanUnits_def)
next
  case True
  let ?s = "((fst s)\<lparr>st_surfaceScanned := True\<rparr>, snd s)"
  let ?segments = "surfaceSegments (surfaceOf (st_dynamic (fst s)))"
  have run: "scanUntrusted (observed cx) (J ''advertised-surface'') ?segments ?s = (r, s')"
    using assms(3) True by (simp add: scanSurface_def comp_defs)
  have calm: "steady gateView isScan ?s s'" using stepsD [OF calm_scanUntrusted run] .
  then have same: "st_dynamic (fst s') = st_dynamic (fst s)" "st_surfaceScanned (fst s')" "st_targetStarted (fst s') = st_targetStarted (fst s)"
      "vg_enforced (vrecOf (fst s')) = vg_enforced (vrecOf (fst s))" "grows isScan (snd s) (snd s')"
    by (simp_all add: steady_def gateView_def vrecOf_def)
  have "scannedIn (rn_host cx) vigil (fst (snd s')) u" if "r = Inr ()" "u \<in> set (surfaceUnits (fst s'))" for u
    using scanUntrusted_scans [OF assms(1) _ run [unfolded that(1)]] that(2) assms(2) same(1)
    by (simp add: surfaceUnits_def auditInv_def vrecOf_def)
  then show ?thesis using assms(2) True same by (auto simp: auditInv_def)
qed

definition fuzzUnits :: "RunState \<Rightarrow> ScanSegment list" where
  "fuzzUnits rs = (case dy_fuzz (st_dynamic rs) of Some z \<Rightarrow> scanUnitsD (fuzzSegments z) | None \<Rightarrow> [])"

definition probeUnits :: "RunState \<Rightarrow> ScanSegment list" where
  "probeUnits rs = (case st_probes rs of Some p \<Rightarrow> scanUnitsD (probeSegments p) | None \<Rightarrow> [])"

lemma gateView_units:
  assumes "gateView a = gateView b"
  shows "surfaceUnits a = surfaceUnits b" "fuzzUnits a = fuzzUnits b" "probeUnits a = probeUnits b"
  using assms by (simp_all add: gateView_def surfaceUnits_def fuzzUnits_def probeUnits_def)

text \<open>A gate over the units that a state holds: when it returns they were scanned.\<close>

definition gateFor :: "'s Setting \<Rightarrow> VigilClient \<Rightarrow> (event list \<times> 's, unit) run \<Rightarrow> (RunState \<Rightarrow> ScanSegment list) \<Rightarrow> bool" where
  "gateFor cx vigil gate units \<longleftrightarrow> steps (steady gateView isScan) gate \<and>
     (\<forall>a b. gateView a = gateView b \<longrightarrow> units a = units b) \<and>
     (\<forall>t t' u. vg_enforced (vrecOf (fst t)) \<longrightarrow> gate t = (Inr (), t') \<longrightarrow> u \<in> set (units (fst t)) \<longrightarrow>
        scannedIn (rn_host cx) vigil (fst (snd t')) u)"

text \<open>The shape the two personas that see the target share: two gates, then the prompt.\<close>

lemma gates_passed:
  fixes gather :: "(event list \<times> 's, unit) run"
  assumes vigil: "rn_vigil cx = Some vigil" and inv: "auditInv (rn_host cx) vigil s"
    and gather: "steps (steady surfaceView isScan) gather" and gate: "gateFor cx vigil gate units"
    and run: "thenM (ensureTarget (observed cx)) (thenM (scanSurface (observed cx)) (thenM gather (thenM gate k))) s = (r, s')"
  shows "(\<exists>e. r = Inl e) \<and> grows isScan (snd s) (snd s') \<or>
    (\<exists>t. grows isScan (snd s) (snd t) \<and> auditInv (rn_host cx) vigil t \<and> k t = (r, s') \<and>
      (\<forall>u \<in> set (surfaceUnits (fst t)) \<union> set (units (fst t)). scannedIn (rn_host cx) vigil (fst (snd t)) u))"
proof -
  obtain r1 s1 where s1: "ensureTarget (observed cx) s = (r1, s1)" by (rule prod.exhaust)
  note a1 = ensureTarget_audit [OF inv s1]
  obtain r2 s2 where s2: "scanSurface (observed cx) s1 = (r2, s2)" by (rule prod.exhaust)
  note a2 = scanSurface_audit [OF vigil conjunct1 [OF a1] s2]
  obtain r3 s3 where s3: "gather s2 = (r3, s3)" by (rule prod.exhaust)
  note a3 = stepsD [OF gather s3]
  obtain r4 s4 where s4: "gate s3 = (r4, s4)" by (rule prod.exhaust)
  have a4: "steady gateView isScan s3 s4" using gate s4 by (auto simp: gateFor_def dest: stepsD)
  have g: "grows isScan (snd s) (snd s1)" "grows isScan (snd s1) (snd s2)" "grows isScan (snd s2) (snd s3)" "grows isScan (snd s3) (snd s4)"
    using a1 a2 a3 a4 by (simp_all add: steady_def)
  have upto: "grows isScan (snd s) (snd s2)" "grows isScan (snd s) (snd s3)" "grows isScan (snd s) (snd s4)"
    using g by (blast intro: grows_trans)+
  show ?thesis
  proof (cases "\<exists>e. r1 = Inl e \<or> r2 = Inl e \<or> r3 = Inl e \<or> r4 = Inl e")
    case True
    then show ?thesis
      using run s1 s2 s3 s4 g(1) upto by (auto simp: thenM_def bindM_def split: sum.splits)
  next
    case False
    then have ok: "r1 = Inr ()" "r2 = Inr ()" "r3 = Inr ()" "r4 = Inr ()" by (metis (full_types) obj_sumE old.unit.exhaust)+
    then have k: "k s4 = (r, s')" using run s1 s2 s3 s4 by (simp add: thenM_def bindM_def)
    have inv: "auditInv (rn_host cx) vigil s3" "auditInv (rn_host cx) vigil s4"
      using a2 ok(2) auditInv_steady [OF _ a3] auditInv_steady [OF _ gate_surface [OF a4]] by blast+
    have "surfaceUnits (fst s4) = surfaceUnits (fst s2)"
      using a3 gate_surface [OF a4] by (simp add: steady_def surfaceView_def surfaceUnits_def)
    then have "scannedIn (rn_host cx) vigil (fst (snd s4)) u" if "u \<in> set (surfaceUnits (fst s4))" for u
      using that a2 ok(2) scanned_steady [OF a3] scanned_steady [OF a4] by auto
    moreover have "scannedIn (rn_host cx) vigil (fst (snd s4)) u" if "u \<in> set (units (fst s4))" for u
      using gate s4 ok(4) that inv(1) a4 unfolding gateFor_def auditInv_def steady_def by metis
    ultimately show ?thesis using upto(3) inv(2) k by blast
  qed
qed

lemma gated_prompt:
  fixes gather :: "(event list \<times> 's, unit) run"
  assumes "rn_vigil cx = Some vigil" "auditInv (rn_host cx) vigil s"
    and "steps (steady surfaceView isScan) gather" "gateFor cx vigil gate units"
    and "thenM (ensureTarget (observed cx)) (thenM (scanSurface (observed cx)) (thenM gather (thenM gate
        (degraded (recordAgent (observed cx) agent kind message))))) s = (r, s')"
  shows "\<exists>l1 l2 st. fst (snd s') = fst (snd s) @ l1 @ l2 \<and> (\<forall>e \<in> set l1. isScan e) \<and>
    (\<forall>e \<in> set l2. says (agentTexts (rn_host cx) agent (message st)) e) \<and>
    (l2 \<noteq> [] \<longrightarrow> (\<forall>u \<in> set (surfaceUnits st) \<union> set (units st). scannedIn (rn_host cx) vigil (fst (snd s) @ l1) u)) \<and>
    (r = Inr () \<longrightarrow> auditInv (rn_host cx) vigil s')"
  using gates_passed [OF assms]
proof (elim disjE exE conjE)
  fix e
  assume "r = Inl e" "grows isScan (snd s) (snd s')"
  then show ?thesis unfolding grows_def by (metis Inl_Inr_False append_Nil2 empty_iff empty_set)
next
  fix t
  assume t: "grows isScan (snd s) (snd t)" "auditInv (rn_host cx) vigil t"
      "degraded (recordAgent (observed cx) agent kind message) t = (r, s')"
      "\<forall>u \<in> set (surfaceUnits (fst t)) \<union> set (units (fst t)). scannedIn (rn_host cx) vigil (fst (snd t)) u"
  let ?st = "setAgent (agentName agent) (newRecord agent kind) (fst t)"
  have prompt: "steady gateView (says (agentTexts (rn_host cx) agent (message ?st))) t s'"
    using recordAgent_steady [of cx agent message kind "fst t" "snd t"] t(3) degraded_state [of _ t] by (metis prod.collapse snd_conv)
  have "gateView ?st = gateView (fst t)" by (simp add: gateView_def setAgent_def state_defs)
  then have "surfaceUnits ?st = surfaceUnits (fst t)" "units ?st = units (fst t)" using gateView_units(1) assms(4) unfolding gateFor_def by blast+
  moreover have "auditInv (rn_host cx) vigil s'" using auditInv_steady [OF t(2) gate_surface [OF prompt]] .
  moreover obtain l1 where "fst (snd t) = fst (snd s) @ l1" "\<forall>e \<in> set l1. isScan e" using t(1) by (auto simp: grows_def)
  moreover obtain l2 where "fst (snd s') = fst (snd t) @ l2" "\<forall>e \<in> set l2. says (agentTexts (rn_host cx) agent (message ?st)) e"
    using prompt by (auto simp: steady_def grows_def)
  ultimately show ?thesis using t(4) by (intro exI [of _ l1] exI [of _ l2] exI [of _ ?st]) auto
qed

lemma scanFuzz_scans:
  assumes "rn_vigil cx = Some vigil" "vg_enforced (vrecOf (fst t))" "scanFuzz (observed cx) t = (Inr x, t')" "u \<in> set (fuzzUnits (fst t))"
  shows "scannedIn (rn_host cx) vigil (fst (snd t')) u"
proof (cases "dy_fuzz (st_dynamic (fst t))")
  case (Some z)
  with assms(3) have run: "scanUntrusted (observed cx) (J ''fuzz-responses'') (fuzzSegments z) t = (Inr x, t')"
    by (simp add: scanFuzz_def comp_defs)
  show ?thesis by (rule scanUntrusted_scans [OF assms(1,2) run]) (use assms(4) Some in \<open>simp add: fuzzUnits_def\<close>)
qed (use assms(4) in \<open>simp add: fuzzUnits_def\<close>)

lemma scanProbes_scans:
  assumes "rn_vigil cx = Some vigil" "vg_enforced (vrecOf (fst t))" "scanProbes (observed cx) t = (Inr x, t')" "u \<in> set (probeUnits (fst t))"
  shows "scannedIn (rn_host cx) vigil (fst (snd t')) u"
proof (cases "st_probes (fst t)")
  case (Some p)
  with assms(3) have run: "scanUntrusted (observed cx) (J ''probe-responses'') (probeSegments p) t = (Inr x, t')"
    by (simp add: scanProbes_def comp_defs)
  show ?thesis by (rule scanUntrusted_scans [OF assms(1,2) run]) (use assms(4) Some in \<open>simp add: probeUnits_def\<close>)
qed (use assms(4) in \<open>simp add: probeUnits_def\<close>)

lemma gates_for:
  assumes "rn_vigil cx = Some vigil"
  shows "gateFor cx vigil (scanFuzz (observed cx)) fuzzUnits" "gateFor cx vigil (scanProbes (observed cx)) probeUnits"
  unfolding gateFor_def
  by (blast intro: calm_gates gateView_units scanFuzz_scans scanProbes_scans assms)+

section \<open>The gates along a run\<close>

lemma agentStep_persona:
  assumes "agentStep (observed cx) server agents agent s = (r, s')"
  shows "(\<exists>e. r = Inl e) \<and> snd s' = snd s \<or> personaM (observed cx) server agents agent s = (r, s')"
  using assms by (cases s) (auto simp: agentStep_def comp_defs fail_run split: if_splits)

lemma auditInv_calm: "auditInv h vigil s \<Longrightarrow> steps (steady gateView P) m \<Longrightarrow> m s = (r, s') \<Longrightarrow> auditInv h vigil s'"
  by (rule auditInv_steady, assumption, rule gate_surface, rule stepsD)

lemma persona_audit:
  assumes "rn_vigil cx = Some vigil" "auditInv (rn_host cx) vigil s" "personaM (observed cx) server agents agent s = (Inr (), s')"
  shows "auditInv (rn_host cx) vigil s'"
proof (cases "kindOf agents agent")
  case KDynamic
  with assms(3) have run: "dynamicAgent (observed cx) server agent s = (Inr (), s')" by (simp add: personaM_def)
  from gated_prompt [OF assms(1,2) calm_fuzzM gates_for(1) [OF assms(1)] run [unfolded dynamicAgent_def]] show ?thesis by blast
next
  case KAdversarial
  with assms(3) have run: "adversarialAgent (observed cx) server agent s = (Inr (), s')" by (simp add: personaM_def)
  from gated_prompt [OF assms(1,2) calm_probesM gates_for(2) [OF assms(1)] run [unfolded adversarialAgent_def]] show ?thesis by blast
next
  case KStatic
  with assms(3) show ?thesis by (auto simp: personaM_def intro: auditInv_calm [OF assms(2) calm_other_personas(1)])
next
  case KSynthesis
  with assms(3) show ?thesis by (auto simp: personaM_def intro: auditInv_calm [OF assms(2) calm_other_personas(2)])
next
  case KGeneric
  with assms(3) show ?thesis by (auto simp: personaM_def intro: auditInv_calm [OF assms(2) calm_other_personas(3)])
qed

lemma agents_audit:
  assumes "rn_vigil cx = Some vigil"
  shows "auditInv (rn_host cx) vigil s \<Longrightarrow> eachM (agentStep (observed cx) server agents) xs s = (Inr (), s') \<Longrightarrow>
    auditInv (rn_host cx) vigil s'"
proof (induction xs arbitrary: s)
  case (Cons x xs)
  then obtain t where "agentStep (observed cx) server agents x s = (Inr (), t)" "eachM (agentStep (observed cx) server agents) xs t = (Inr (), s')"
    by (auto dest!: then_return)
  with Cons persona_audit [OF assms] agentStep_persona show ?case by blast
qed (simp add: retM_def)

lemma auditInv_new: "re_vigilEnforce env \<Longrightarrow> auditInv h vigil (newRunState (newReport env on port t), lw)"
  by (simp add: auditInv_def newRunState_def newReport_def vrecOf_def noSurface_def)

text \<open>What a persona that sees the target is told, and the untrusted texts in it.\<close>

definition targetMessage :: "'s Setting \<Rightarrow> MCPServer \<Rightarrow> AgentKind \<Rightarrow> RunState \<Rightarrow> jsstring" where
  "targetMessage cx server kind = (if kind = KDynamic then dynamicMessage cx server else adversarialMessage cx server)"

definition evidenceUnits :: "AgentKind \<Rightarrow> RunState \<Rightarrow> ScanSegment list" where
  "evidenceUnits kind st = surfaceUnits st @ (if kind = KDynamic then fuzzUnits st else probeUnits st)"

lemma observed_messages:
  "dynamicMessage (observed cx) server = dynamicMessage cx server" "adversarialMessage (observed cx) server = adversarialMessage cx server"
  by (simp_all add: fun_eq_iff dynamicMessage_def adversarialMessage_def)

lemma handshake_told:
  assumes "dy_init d = None"
  shows "sublist (dy_initError d) (contractedMessage h agent (withVigilNotes h st (buildDynamicMessage h server d telemetry)))"
proof -
  have "sublist (dy_initError d) (J ''Handshake FAILED: '' @ dy_initError d)" by (rule sublist_append_leftI)
  also have "sublist \<dots> (buildDynamicMessage h server d telemetry)"
    unfolding buildDynamicMessage_def by (rule sublist_joinS) (simp add: assms)
  also have "sublist \<dots> (withVigilNotes h st (buildDynamicMessage h server d telemetry))"
    unfolding withVigilNotes_def by (rule sublist_append_rightI)
  also have "sublist \<dots> (contractedMessage h agent (withVigilNotes h st (buildDynamicMessage h server d telemetry)))"
    unfolding contractedMessage_def by (rule sublist_joinS) simp
  finally show ?thesis .
qed

section \<open>Properties\<close>





end
