(* ===== verification/Socks.thy ===== *)
theory Socks
  imports Utf8 Resources
begin

text \<open>
  The SOCKS5 client of \<^verbatim>\<open>src/runner/src/meshhttp.ts\<close>: the messages it sends and \<open>socks5Connect\<close> as a state
  machine over the events of its socket. Bytes are 8-bit words, so a length that is put into one byte
  wraps around as \<open>Buffer.from\<close> makes it.
\<close>

section \<open>Proxies and messages\<close>

type_synonym byte = "8 word"

datatype ProxyScheme = Socks5 | HttpProxy

record ProxyDescriptor =
  px_scheme :: ProxyScheme
  px_host :: jsstring
  px_port :: int
  px_username :: "jsstring option"
  px_password :: "jsstring option"

definition utf8Buffer :: "jsstring \<Rightarrow> byte list" where
  "utf8Buffer s = map of_nat (toUtf8 s)"

definition orEmpty :: "jsstring option \<Rightarrow> jsstring" where
  "orEmpty s = (case s of Some t \<Rightarrow> t | None \<Rightarrow> [])"

definition socksGreeting :: "ProxyDescriptor \<Rightarrow> byte list" where
  "socksGreeting px = (if px_username px \<noteq> None \<and> px_password px \<noteq> None then [5, 2, 0, 2] else [5, 1, 0])"

definition socksAuthRequest :: "ProxyDescriptor \<Rightarrow> byte list" where
  "socksAuthRequest px =
     (let user = utf8Buffer (orEmpty (px_username px)); pass = utf8Buffer (orEmpty (px_password px)) in
      [1, of_nat (length user)] @ user @ [of_nat (length pass)] @ pass)"

text \<open>Every caller passes a port between 0 and 65535, so \<open>writeUInt16BE\<close> does not throw.\<close>

definition socksConnectRequest :: "jsstring \<Rightarrow> nat \<Rightarrow> byte list" where
  "socksConnectRequest host port =
     (let hostBuf = utf8Buffer host in
      [5, 1, 0, 3, of_nat (length hostBuf)] @ hostBuf @ [of_nat (port div 256), of_nat (port mod 256)])"

text \<open>\<open>n.toString(16)\<close> of a byte.\<close>

definition hexDigit :: "nat \<Rightarrow> jschar" where
  "hexDigit n = (if n < 10 then of_nat (48 + n) else of_nat (87 + n))"

definition hexByte :: "byte \<Rightarrow> jsstring" where
  "hexByte b = (if unat b < 16 then [hexDigit (unat b)] else [hexDigit (unat b div 16), hexDigit (unat b mod 16)])"

definition socksDescribeReply :: "byte \<Rightarrow> jsstring" where
  "socksDescribeReply rep =
     (if rep = 1 then J ''general SOCKS server failure''
      else if rep = 2 then J ''connection not allowed by ruleset (NetBird ACL denied the destination?)''
      else if rep = 3 then J ''network unreachable''
      else if rep = 4 then J ''host unreachable''
      else if rep = 5 then J ''connection refused''
      else if rep = 6 then J ''TTL expired''
      else if rep = 7 then J ''command not supported''
      else if rep = 8 then J ''address type not supported''
      else J ''unknown reply 0x'' @ hexByte rep)"

section \<open>The handshake\<close>

datatype SocksStage = Greeting | Auth | Connect

fun stageStr :: "SocksStage \<Rightarrow> jsstring" where
  "stageStr Greeting = J ''greeting''"
| "stageStr Auth = J ''auth''"
| "stageStr Connect = J ''connect''"

text \<open>
  The local variables of \<open>socks5Connect\<close>, what was written to the socket, whether it was destroyed, and
  what the promise was settled with. A destroyed socket delivers no more data.
\<close>

record Socks =
  sx_stage :: SocksStage
  sx_buf :: "byte list"
  sx_settled :: bool
  sx_sent :: "byte list list"
  sx_destroyed :: bool
  sx_result :: "(thrown + unit) option"

definition newSocks :: Socks where
  "newSocks = \<lparr>sx_stage = Greeting, sx_buf = [], sx_settled = False, sx_sent = [], sx_destroyed = False, sx_result = None\<rparr>"

definition failSocks :: "ProxyDescriptor \<Rightarrow> jsstring \<Rightarrow> Socks \<Rightarrow> Socks" where
  "failSocks px message st =
     (if sx_settled st then st
      else st\<lparr>sx_settled := True, sx_destroyed := True,
        sx_result := Some (Inl (Runner (MeshTransportError (J ''SOCKS5 '' @ stageStr (sx_stage st) @ J '' via '' @ px_host px @
          J '':'' @ showInt (px_port px) @ J '' failed: '' @ message))))\<rparr>)"

definition writeSocks :: "byte list \<Rightarrow> Socks \<Rightarrow> Socks" where
  "writeSocks bytes st = st\<lparr>sx_sent := sx_sent st @ [bytes]\<rparr>"

text \<open>\<open>settled = true; resolve(socket)\<close>: a promise keeps what it was settled with first.\<close>

definition resolveSocks :: "Socks \<Rightarrow> Socks" where
  "resolveSocks st =
     st\<lparr>sx_settled := True, sx_result := (case sx_result st of Some r \<Rightarrow> Some r | None \<Rightarrow> Some (Inr ()))\<rparr>"

definition replyLen :: "byte list \<Rightarrow> nat option" where
  "replyLen b =
     (let atyp = b ! 3 in
      if atyp = 1 then Some (4 + 4 + 2)
      else if atyp = 4 then Some (4 + 16 + 2)
      else if atyp = 3 then Some (4 + 1 + unat (b ! 4) + 2)
      else None)"

fun stageRank :: "SocksStage \<Rightarrow> nat" where
  "stageRank Greeting = 2"
| "stageRank Auth = 1"
| "stageRank Connect = 0"

text \<open>The loop in the \<open>data\<close> handler. Every index it reads is below a length it has checked.\<close>

function socksLoop :: "ProxyDescriptor \<Rightarrow> jsstring \<Rightarrow> nat \<Rightarrow> Socks \<Rightarrow> Socks" where
  "socksLoop px host port st =
     (let b = sx_buf st in
      case sx_stage st of
        Greeting \<Rightarrow>
          if length b < 2 then st
          else let st = st\<lparr>sx_buf := drop 2 b\<rparr> in
            if b ! 0 \<noteq> 5 then failSocks px (J ''unexpected protocol version 0x'' @ hexByte (b ! 0)) st
            else if b ! 1 = 0 then
              socksLoop px host port (writeSocks (socksConnectRequest host port) (st\<lparr>sx_stage := Connect\<rparr>))
            else if b ! 1 = 2 \<and> px_username px \<noteq> None then
              socksLoop px host port (writeSocks (socksAuthRequest px) (st\<lparr>sx_stage := Auth\<rparr>))
            else failSocks px (J ''proxy requires an unsupported auth method 0x'' @ hexByte (b ! 1)) st
      | Auth \<Rightarrow>
          if length b < 2 then st
          else let st = st\<lparr>sx_buf := drop 2 b\<rparr> in
            if b ! 0 \<noteq> 1 \<or> b ! 1 \<noteq> 0 then
              failSocks px (J ''username/password authentication rejected (status 0x'' @ hexByte (b ! 1) @ J '')'') st
            else socksLoop px host port (writeSocks (socksConnectRequest host port) (st\<lparr>sx_stage := Connect\<rparr>))
      | Connect \<Rightarrow>
          if length b < 5 then st
          else if b ! 0 \<noteq> 5 then
            failSocks px (J ''unexpected protocol version 0x'' @ hexByte (b ! 0) @ J '' in CONNECT reply'') st
          else (case replyLen b of
              None \<Rightarrow> failSocks px (J ''unexpected address type 0x'' @ hexByte (b ! 3) @ J '' in CONNECT reply'') st
            | Some n \<Rightarrow>
                if length b < n then st
                else let st = st\<lparr>sx_buf := drop n b\<rparr> in
                  if b ! 1 \<noteq> 0 then failSocks px (socksDescribeReply (b ! 1)) st
                  else resolveSocks st))"
  by pat_completeness auto

termination
  by (relation "measure (\<lambda>(px, host, port, st). stageRank (sx_stage st))") (auto simp: writeSocks_def)

declare socksLoop.simps [simp del]

definition onConnect :: "ProxyDescriptor \<Rightarrow> Socks \<Rightarrow> Socks" where
  "onConnect px st = writeSocks (socksGreeting px) st"

definition onData :: "ProxyDescriptor \<Rightarrow> jsstring \<Rightarrow> nat \<Rightarrow> Socks \<Rightarrow> byte list \<Rightarrow> Socks" where
  "onData px host port st chunk =
     (if sx_destroyed st then st else socksLoop px host port (st\<lparr>sx_buf := sx_buf st @ chunk\<rparr>))"

definition onError :: "host \<Rightarrow> ProxyDescriptor \<Rightarrow> thrown \<Rightarrow> Socks \<Rightarrow> Socks" where
  "onError h px err st = failSocks px (errorMessage h err) st"

text \<open>The timeout is switched off when the socket is handed over.\<close>

definition onTimeout :: "ProxyDescriptor \<Rightarrow> int \<Rightarrow> Socks \<Rightarrow> Socks" where
  "onTimeout px timeoutMs st =
     failSocks px (J ''timed out after '' @ showInt timeoutMs @ J ''ms in stage \"'' @ stageStr (sx_stage st) @ J ''\"'') st"

definition onClose :: "ProxyDescriptor \<Rightarrow> Socks \<Rightarrow> Socks" where
  "onClose px st = failSocks px (J ''connection closed before the SOCKS5 handshake completed'') st"

text \<open>A connection that is made, then the chunks that arrive.\<close>

definition dialled :: "ProxyDescriptor \<Rightarrow> jsstring \<Rightarrow> nat \<Rightarrow> byte list list \<Rightarrow> Socks" where
  "dialled px host port chunks = foldl (onData px host port) (onConnect px newSocks) chunks"

section \<open>Lemmas\<close>

text \<open>What can be seen of a handshake from outside.\<close>

definition seen :: "Socks \<Rightarrow> (thrown + unit) option \<times> byte list list \<times> SocksStage \<times> bool" where
  "seen st = (sx_result st, sx_sent st, sx_stage st, sx_destroyed st)"

abbreviation arrive :: "byte list \<Rightarrow> Socks \<Rightarrow> Socks" where
  "arrive c st \<equiv> st\<lparr>sx_buf := sx_buf st @ c\<rparr>"

lemmas socks_defs = failSocks_def writeSocks_def resolveSocks_def

text \<open>A settled promise and its socket.\<close>

definition wfSocks :: "Socks \<Rightarrow> bool" where
  "wfSocks st \<longleftrightarrow> (sx_settled st \<longleftrightarrow> sx_result st \<noteq> None) \<and> (sx_settled st \<and> \<not> sx_destroyed st \<longrightarrow> sx_stage st = Connect) \<and>
     (sx_destroyed st \<longrightarrow> sx_settled st)"

lemma replyLen_append: "5 \<le> length b \<Longrightarrow> replyLen (b @ c) = replyLen b"
  by (simp add: replyLen_def nth_append Let_def)

lemma replyLen_ge: "replyLen b = Some n \<Longrightarrow> 5 \<le> n"
  by (auto simp: replyLen_def Let_def split: if_splits)

text \<open>The loop, stage by stage.\<close>

definition connectStep :: "ProxyDescriptor \<Rightarrow> Socks \<Rightarrow> Socks" where
  "connectStep px st =
     (let b = sx_buf st in
      if length b < 5 then st
      else if b ! 0 \<noteq> 5 then failSocks px (J ''unexpected protocol version 0x'' @ hexByte (b ! 0) @ J '' in CONNECT reply'') st
      else (case replyLen b of
          None \<Rightarrow> failSocks px (J ''unexpected address type 0x'' @ hexByte (b ! 3) @ J '' in CONNECT reply'') st
        | Some n \<Rightarrow>
            if length b < n then st
            else let st = st\<lparr>sx_buf := drop n b\<rparr> in
              if b ! 1 \<noteq> 0 then failSocks px (socksDescribeReply (b ! 1)) st else resolveSocks st))"

definition toConnect :: "jsstring \<Rightarrow> nat \<Rightarrow> Socks \<Rightarrow> Socks" where
  "toConnect host port st = writeSocks (socksConnectRequest host port) (st\<lparr>sx_buf := drop 2 (sx_buf st), sx_stage := Connect\<rparr>)"

definition toAuth :: "ProxyDescriptor \<Rightarrow> Socks \<Rightarrow> Socks" where
  "toAuth px st = writeSocks (socksAuthRequest px) (st\<lparr>sx_buf := drop 2 (sx_buf st), sx_stage := Auth\<rparr>)"

definition authStep :: "ProxyDescriptor \<Rightarrow> jsstring \<Rightarrow> nat \<Rightarrow> Socks \<Rightarrow> Socks" where
  "authStep px host port st =
     (let b = sx_buf st in
      if length b < 2 then st
      else if b ! 0 \<noteq> 1 \<or> b ! 1 \<noteq> 0 then
        failSocks px (J ''username/password authentication rejected (status 0x'' @ hexByte (b ! 1) @ J '')'') (st\<lparr>sx_buf := drop 2 b\<rparr>)
      else connectStep px (toConnect host port st))"

lemma loop_Connect: "sx_stage st = Connect \<Longrightarrow> socksLoop px host port st = connectStep px st"
  by (subst socksLoop.simps) (simp add: connectStep_def Let_def)

lemma loop_Auth: "sx_stage st = Auth \<Longrightarrow> socksLoop px host port st = authStep px host port st"
  by (subst socksLoop.simps) (simp add: authStep_def toConnect_def Let_def loop_Connect writeSocks_def)

lemma loop_Greeting:
  "sx_stage st = Greeting \<Longrightarrow> socksLoop px host port st =
     (let b = sx_buf st in
      if length b < 2 then st
      else if b ! 0 \<noteq> 5 then failSocks px (J ''unexpected protocol version 0x'' @ hexByte (b ! 0)) (st\<lparr>sx_buf := drop 2 b\<rparr>)
      else if b ! 1 = 0 then connectStep px (toConnect host port st)
      else if b ! 1 = 2 \<and> px_username px \<noteq> None then
        authStep px host port (toAuth px st)
      else failSocks px (J ''proxy requires an unsupported auth method 0x'' @ hexByte (b ! 1)) (st\<lparr>sx_buf := drop 2 b\<rparr>))"
  by (subst socksLoop.simps) (auto simp: toConnect_def toAuth_def Let_def loop_Connect loop_Auth writeSocks_def)

lemma step_fields [simp]:
  "sx_stage (toConnect host port st) = Connect" "sx_settled (toConnect host port st) = sx_settled st"
  "sx_buf (toConnect host port st) = drop 2 (sx_buf st)" "sx_result (toConnect host port st) = sx_result st"
  "sx_destroyed (toConnect host port st) = sx_destroyed st"
  "sx_sent (toConnect host port st) = sx_sent st @ [socksConnectRequest host port]"
  by (simp_all add: toConnect_def writeSocks_def)

lemma toConnect_arrive: "2 \<le> length (sx_buf st) \<Longrightarrow> toConnect host port (arrive c st) = arrive c (toConnect host port st)"
  by (simp add: toConnect_def writeSocks_def)

lemma toAuth_arrive: "2 \<le> length (sx_buf st) \<Longrightarrow> toAuth px (arrive c st) = arrive c (toAuth px st)"
  by (simp add: toAuth_def writeSocks_def)

lemma toAuth_fields [simp]:
  "sx_stage (toAuth px st) = Auth" "sx_settled (toAuth px st) = sx_settled st" "sx_buf (toAuth px st) = drop 2 (sx_buf st)"
  "sx_result (toAuth px st) = sx_result st" "sx_destroyed (toAuth px st) = sx_destroyed st"
  "sx_sent (toAuth px st) = sx_sent st @ [socksAuthRequest px]"
  by (simp_all add: toAuth_def writeSocks_def)

subsection \<open>Stopping and going on\<close>

text \<open>
  A step \<open>f\<close> from an unsettled state: if it settles, bytes that come later do not matter; if it does
  not, it goes on with them where it stopped.
\<close>

definition resumes :: "(Socks \<Rightarrow> Socks) \<Rightarrow> (Socks \<Rightarrow> Socks) \<Rightarrow> Socks \<Rightarrow> bool" where
  "resumes loop f st \<longleftrightarrow> (\<forall>c. if sx_settled (f st) then seen (f (arrive c st)) = seen (f st)
     else f (arrive c st) = loop (arrive c (f st)))"

lemma connect_stage: "sx_stage (connectStep px st) = sx_stage st"
  by (simp add: connectStep_def Let_def socks_defs split: option.split)

lemma connect_resumes:
  assumes "\<not> sx_settled st" "sx_stage st = Connect"
  shows "resumes (socksLoop px host port) (connectStep px) st"
proof -
  have wait: "\<not> sx_settled (connectStep px st) \<Longrightarrow> connectStep px st = st"
    using assms(1) by (auto simp: connectStep_def Let_def socks_defs split: option.splits if_splits)
  moreover have "seen (connectStep px (arrive c st)) = seen (connectStep px st)" if "sx_settled (connectStep px st)" for c
  proof -
    have len: "5 \<le> length (sx_buf st)" using that assms(1) by (cases "length (sx_buf st) < 5") (simp_all add: connectStep_def Let_def)
    show ?thesis
    proof (cases "replyLen (sx_buf st)")
      case None
      then show ?thesis using that assms(1) len replyLen_append [OF len, of c]
        by (auto simp: connectStep_def Let_def nth_append seen_def socks_defs split: if_splits)
    next
      case (Some n)
      then show ?thesis using that assms(1) len replyLen_append [OF len, of c]
        by (auto simp: connectStep_def Let_def nth_append seen_def socks_defs split: if_splits)
    qed
  qed
  ultimately show ?thesis using assms by (auto simp: resumes_def loop_Connect)
qed

lemma resumes_wait: "f st = st \<Longrightarrow> \<not> sx_settled st \<Longrightarrow> (\<And>c. f (arrive c st) = loop (arrive c st)) \<Longrightarrow> resumes loop f st"
  by (simp add: resumes_def)

lemma resumes_stop: "sx_settled (f st) \<Longrightarrow> (\<And>c. seen (f (arrive c st)) = seen (f st)) \<Longrightarrow> resumes loop f st"
  by (simp add: resumes_def)

lemma resumes_next:
  "resumes loop g st' \<Longrightarrow> f st = g st' \<Longrightarrow> (\<And>c. f (arrive c st) = g (arrive c st')) \<Longrightarrow> resumes loop f st"
  by (simp add: resumes_def)

lemma auth_resumes:
  assumes "\<not> sx_settled st" "sx_stage st = Auth"
  shows "resumes (socksLoop px host port) (authStep px host port) st"
proof (cases "length (sx_buf st) < 2")
  case True
  then show ?thesis using assms by (intro resumes_wait) (simp_all add: authStep_def Let_def loop_Auth)
next
  case False
  show ?thesis
  proof (cases "sx_buf st ! 0 \<noteq> 1 \<or> sx_buf st ! 1 \<noteq> 0")
    case True
    with False assms show ?thesis
      by (intro resumes_stop) (auto simp: authStep_def Let_def nth_append seen_def socks_defs)
  next
    case bad: False
    have "resumes (socksLoop px host port) (connectStep px) (toConnect host port st)"
      using assms by (intro connect_resumes) simp_all
    then show ?thesis
      by (rule resumes_next) (use False bad in \<open>auto simp: authStep_def Let_def nth_append toConnect_arrive\<close>)
  qed
qed

lemma loop_resumes:
  assumes "\<not> sx_settled st"
  shows "resumes (socksLoop px host port) (socksLoop px host port) st"
proof (cases "sx_stage st")
  case Connect
  with connect_resumes [OF assms, of px host port] show ?thesis by (simp add: resumes_def loop_Connect)
next
  case Auth
  with auth_resumes [OF assms, of px host port] show ?thesis by (simp add: resumes_def loop_Auth)
next
  case Greeting
  let ?b = "sx_buf st"
  consider (short) "length ?b < 2" | (plain) "2 \<le> length ?b" "?b ! 0 = 5" "?b ! 1 = 0"
    | (auth) "2 \<le> length ?b" "?b ! 0 = 5" "?b ! 1 = 2" "px_username px \<noteq> None"
    | (bad) "2 \<le> length ?b" "?b ! 0 \<noteq> 5 \<or> ?b ! 1 \<noteq> 0 \<and> (?b ! 1 \<noteq> 2 \<or> px_username px = None)" by linarith
  then show ?thesis
  proof cases
    case short
    then show ?thesis using assms Greeting by (intro resumes_wait) (simp_all add: loop_Greeting Let_def)
  next
    case plain
    have "resumes (socksLoop px host port) (connectStep px) (toConnect host port st)"
      using assms by (intro connect_resumes) simp_all
    then show ?thesis
      by (rule resumes_next) (use plain Greeting in \<open>auto simp: loop_Greeting Let_def nth_append toConnect_arrive\<close>)
  next
    case auth
    have "resumes (socksLoop px host port) (authStep px host port) (toAuth px st)"
      using assms by (intro auth_resumes) simp_all
    then show ?thesis
      by (rule resumes_next) (use auth Greeting in \<open>auto simp: loop_Greeting Let_def nth_append toAuth_arrive\<close>)
  next
    case bad
    then show ?thesis
      using assms Greeting by (intro resumes_stop) (auto simp: loop_Greeting Let_def nth_append seen_def socks_defs)
  qed
qed

lemma wf_basic:
  "wfSocks st \<Longrightarrow> wfSocks (failSocks px m st)" "wfSocks st \<Longrightarrow> sx_stage st = Connect \<Longrightarrow> wfSocks (resolveSocks st)"
  "wfSocks (st\<lparr>sx_buf := b\<rparr>) = wfSocks st" "\<not> sx_settled st \<Longrightarrow> wfSocks st \<Longrightarrow> wfSocks (toConnect host port st)"
  "\<not> sx_settled st \<Longrightarrow> wfSocks st \<Longrightarrow> wfSocks (toAuth px st)"
  by (auto simp: wfSocks_def failSocks_def resolveSocks_def split: option.split)

lemma connect_wf: "wfSocks st \<Longrightarrow> sx_stage st = Connect \<Longrightarrow> wfSocks (connectStep px st)"
  by (simp add: connectStep_def Let_def wf_basic split: option.split)

lemma auth_wf: "wfSocks st \<Longrightarrow> \<not> sx_settled st \<Longrightarrow> wfSocks (authStep px host port st)"
  by (simp add: authStep_def Let_def wf_basic connect_wf)

lemma loop_wf: "wfSocks st \<Longrightarrow> \<not> sx_settled st \<or> sx_stage st = Connect \<Longrightarrow> wfSocks (socksLoop px host port st)"
  by (cases "sx_stage st") (auto simp: loop_Greeting loop_Auth loop_Connect Let_def wf_basic connect_wf auth_wf)

lemma settled_data:
  assumes "wfSocks st" "sx_settled st"
  shows "seen (onData px host port st c) = seen st \<and> wfSocks (onData px host port st c) \<and> sx_settled (onData px host port st c)"
proof (cases "sx_destroyed st")
  case False
  with assms have "sx_stage st = Connect" "sx_result st \<noteq> None" by (auto simp: wfSocks_def)
  moreover from this have "wfSocks (connectStep px (arrive c st))" using assms by (intro connect_wf) (simp_all add: wf_basic)
  moreover have "seen (connectStep px (arrive c st)) = seen st" "sx_settled (connectStep px (arrive c st))"
    using assms(2) \<open>sx_result st \<noteq> None\<close> by (auto simp: connectStep_def Let_def seen_def socks_defs split: option.split)
  ultimately show ?thesis using False by (simp add: onData_def loop_Connect)
qed (use assms in \<open>simp add: onData_def\<close>)

text \<open>The state after some chunks, against the loop over all their bytes at once.\<close>

lemma chunks_at_once:
  assumes "wfSocks st0" "\<not> sx_settled st0" "\<not> sx_destroyed st0" "socksLoop px host port st0 = st0"
  shows "let S = foldl (onData px host port) st0 chunks; T = socksLoop px host port (arrive (concat chunks) st0) in
    wfSocks S \<and> wfSocks T \<and> (if sx_settled T then sx_settled S \<and> seen S = seen T else S = T)"
proof (induction chunks rule: rev_induct)
  case Nil
  then show ?case using assms by simp
next
  case (snoc c chunks)
  let ?S = "foldl (onData px host port) st0 chunks" and ?T = "socksLoop px host port (arrive (concat chunks) st0)"
  let ?T' = "socksLoop px host port (arrive c (arrive (concat chunks) st0))"
  have res: "resumes (socksLoop px host port) (socksLoop px host port) (arrive (concat chunks) st0)"
    using assms(2) by (intro loop_resumes) simp
  have wf: "wfSocks ?T'" using assms(1,2) by (intro loop_wf) (simp_all add: wf_basic)
  show ?case
  proof (cases "sx_settled ?T")
    case True
    with snoc have S: "wfSocks ?S" "sx_settled ?S" "seen ?S = seen ?T" by (simp_all add: Let_def)
    have "seen ?T' = seen ?T" using res True by (simp add: resumes_def)
    moreover from this True wf snoc have "sx_settled ?T'" by (auto simp: wfSocks_def seen_def Let_def)
    ultimately show ?thesis using settled_data [OF S(1,2), of px host port c] S(3) wf by (simp add: Let_def)
  next
    case False
    with snoc have S: "?S = ?T" "wfSocks ?T" by (simp_all add: Let_def)
    have T': "?T' = socksLoop px host port (arrive c ?T)" using res False by (simp add: resumes_def)
    have "\<not> sx_destroyed ?T" using False S(2) by (auto simp: wfSocks_def)
    then have "onData px host port ?S c = ?T'" using S(1) T' by (simp add: onData_def)
    then show ?thesis using wf by (simp add: Let_def)
  qed
qed

lemma connected: "wfSocks (onConnect px newSocks)" "\<not> sx_settled (onConnect px newSocks)" "\<not> sx_destroyed (onConnect px newSocks)"
    "socksLoop px host port (onConnect px newSocks) = onConnect px newSocks" "sx_stage (onConnect px newSocks) = Greeting"
    "sx_buf (onConnect px newSocks) = []" "sx_sent (onConnect px newSocks) = [socksGreeting px]" "sx_result (onConnect px newSocks) = None"
  by (simp_all add: onConnect_def newSocks_def writeSocks_def wfSocks_def loop_Greeting)

lemma dialled_seen: "seen (dialled px host port chunks) = seen (socksLoop px host port (arrive (concat chunks) (onConnect px newSocks)))"
  using chunks_at_once [OF connected(1,2,3,4), of px host port chunks] unfolding dialled_def Let_def by (metis (full_types))

section \<open>Accepted conversations\<close>

text \<open>A successful reply to CONNECT (RFC 1928, section 6): IPv4, IPv6 or a domain name, and a port.\<close>

definition okReply :: "byte list \<Rightarrow> bool" where
  "okReply r \<longleftrightarrow> (\<exists>rsv a p. length p = 2 \<and>
     (length a = 4 \<and> r = [5, 0, rsv, 1] @ a @ p \<or> length a = 16 \<and> r = [5, 0, rsv, 4] @ a @ p \<or>
      (\<exists>n. length a = unat n \<and> r = [5, 0, rsv, 3, n] @ a @ p)))"

definition accepts :: "ProxyDescriptor \<Rightarrow> byte list \<Rightarrow> bool" where
  "accepts px bytes \<longleftrightarrow> (\<exists>r rest. okReply r \<and>
     (bytes = [5, 0] @ r @ rest \<or> px_username px \<noteq> None \<and> bytes = [5, 2, 1, 0] @ r @ rest))"

lemma okReply_len: "okReply r \<Longrightarrow> replyLen (r @ rest) = Some (length r) \<and> 5 \<le> length r \<and> r ! 0 = 5 \<and> r ! 1 = 0"
  by (auto simp: okReply_def replyLen_def Let_def nth_append)

lemma take_reply:
  assumes "replyLen b = Some n" "n \<le> length b" "5 \<le> length b" "b ! 0 = 5" "b ! 1 = 0"
  shows "okReply (take n b)"
proof -
  obtain b0 b1 b2 b3 b4 rest where b: "b = b0 # b1 # b2 # b3 # b4 # rest"
    using assms(3) by (auto simp: numeral_eq_Suc Suc_le_length_iff)
  let ?t = "b4 # rest"
  have cut: "take (4 + (k + 2)) b = [5, 0, b2, b3] @ take k ?t @ take 2 (drop k ?t)" for k
  proof -
    have "take (4 + (k + 2)) b = [5, 0, b2, b3] @ take (k + 2) ?t"
      unfolding take_add [of 4 "k + 2"] using assms(4,5) by (simp add: b)
    also have "take (k + 2) ?t = take k ?t @ take 2 (drop k ?t)" by (rule take_add)
    finally show ?thesis .
  qed
  consider "b3 = 1" "n = 4 + (4 + 2)" | "b3 = 4" "n = 4 + (16 + 2)" | "b3 = 3" "n = 5 + (unat b4 + 2)"
    using assms(1) by (auto simp: b replyLen_def Let_def split: if_splits)
  then show ?thesis
  proof cases
    case 1
    then show ?thesis
      unfolding okReply_def 1(2) cut using assms(2) [unfolded 1(2)]
      by (rule_tac exI [of _ b2], rule_tac exI [of _ "take 4 ?t"], rule_tac exI [of _ "take 2 (drop 4 ?t)"]) (auto simp: b)
  next
    case 2
    then show ?thesis
      unfolding okReply_def 2(2) cut using assms(2) [unfolded 2(2)]
      by (rule_tac exI [of _ b2], rule_tac exI [of _ "take 16 ?t"], rule_tac exI [of _ "take 2 (drop 16 ?t)"]) (auto simp: b)
  next
    case 3
    have "take n b = [5, 0, b2, 3, b4] @ take (unat b4) rest @ take 2 (drop (unat b4) rest)"
      unfolding 3(2) take_add [of 5] using assms(4,5) 3(1) by (simp add: b take_add [of "unat b4" 2] del: add_2_eq_Suc')
    with 3 show ?thesis
      unfolding okReply_def using assms(2)
      by (rule_tac exI [of _ b2], rule_tac exI [of _ "take (unat b4) rest"], rule_tac exI [of _ "take 2 (drop (unat b4) rest)"]) (auto simp: b)
  qed
qed

lemma connect_accepts:
  assumes "\<not> sx_settled st" "sx_result st = None"
  shows "sx_result (connectStep px st) = Some (Inr ()) \<longleftrightarrow> (\<exists>r rest. okReply r \<and> sx_buf st = r @ rest)"
proof
  assume ok: "sx_result (connectStep px st) = Some (Inr ())"
  let ?b = "sx_buf st"
  have b: "5 \<le> length ?b" "?b ! 0 = 5" "?b ! 1 = 0" "replyLen ?b \<noteq> None" "the (replyLen ?b) \<le> length ?b"
    using ok assms by (auto simp: connectStep_def Let_def socks_defs not_less split: if_splits option.splits)
  then obtain n where "replyLen ?b = Some n" "n \<le> length ?b" by auto
  with b take_reply [of ?b n] show "\<exists>r rest. okReply r \<and> ?b = r @ rest" by (metis append_take_drop_id)
next
  assume "\<exists>r rest. okReply r \<and> sx_buf st = r @ rest"
  then obtain r rest where r: "okReply r" "sx_buf st = r @ rest" by blast
  with okReply_len [OF r(1), of rest] assms show "sx_result (connectStep px st) = Some (Inr ())"
    by (auto simp: connectStep_def Let_def nth_append socks_defs)
qed

lemma two_bytes: "2 \<le> length b \<Longrightarrow> b = b ! 0 # b ! 1 # drop 2 b"
  by (cases b; cases "tl b") auto

lemma failed_result: "\<not> sx_settled st \<Longrightarrow> sx_result (failSocks px m st) \<noteq> Some (Inr ())"
  by (simp add: failSocks_def)

lemma auth_accepts:
  assumes "\<not> sx_settled st" "sx_result st = None"
  shows "sx_result (authStep px host port st) = Some (Inr ()) \<longleftrightarrow> (\<exists>r rest. okReply r \<and> sx_buf st = [1, 0] @ r @ rest)"
proof (cases "2 \<le> length (sx_buf st) \<and> sx_buf st ! 0 = 1 \<and> sx_buf st ! 1 = 0")
  case True
  then have "sx_buf st = [1, 0] @ drop 2 (sx_buf st)" using two_bytes [of "sx_buf st"] by simp
  with True connect_accepts [of "toConnect host port st" px] assms show ?thesis
    by (auto simp: authStep_def Let_def)
next
  case False
  then show ?thesis using assms by (auto simp: authStep_def Let_def failed_result not_less)
qed

lemma greeting_accepts:
  assumes "\<not> sx_settled st" "sx_result st = None" "sx_stage st = Greeting"
  shows "sx_result (socksLoop px host port st) = Some (Inr ()) \<longleftrightarrow> accepts px (sx_buf st)"
proof (cases "2 \<le> length (sx_buf st) \<and> sx_buf st ! 0 = 5")
  case True
  then obtain m rest where b: "sx_buf st = 5 # m # rest" using two_bytes [of "sx_buf st"] by metis
  have "okReply r \<Longrightarrow> \<exists>r'. r = 5 # 0 # r'" for r by (auto simp: okReply_def)
  then show ?thesis
    using assms b connect_accepts [of "toConnect host port st" px] auth_accepts [of "toAuth px st" px host port]
    by (auto simp: loop_Greeting Let_def failed_result accepts_def)
next
  case False
  then show ?thesis using assms by (auto simp: loop_Greeting Let_def failed_result accepts_def not_less)
qed

section \<open>The proxy's side\<close>

text \<open>How a proxy reads a request to connect to a domain name: version, command, reserved byte, type, length, name, port.\<close>

fun readRequest :: "byte list \<Rightarrow> (byte list \<times> nat) option" where
  "readRequest (v # cmd # rsv # atyp # n # rest) =
     (if v = 5 \<and> cmd = 1 \<and> atyp = 3 \<and> unat n + 2 \<le> length rest
      then Some (take (unat n) rest, 256 * unat (rest ! unat n) + unat (rest ! (unat n + 1))) else None)"
| "readRequest _ = None"

lemma unat_byte: "n < 256 \<Longrightarrow> unat (of_nat n :: byte) = n"
  by (simp add: unat_of_nat)

lemma readRequest_connect:
  assumes "length (utf8Buffer host) \<le> 255" "port < 65536"
  shows "readRequest (socksConnectRequest host port) = Some (utf8Buffer host, port)"
  using assms by (simp add: socksConnectRequest_def Let_def unat_byte nth_append)

section \<open>Properties\<close>

text \<open>
  How the replies of a proxy are cut into TCP segments makes no difference: the outcome of the
  promise, what was written, the stage reached and whether the socket was destroyed are those of the
  whole stream in one segment.
\<close>

theorem socks_segmentation_irrelevant: "seen (dialled px host port chunks) = seen (dialled px host port [concat chunks])"
  by (simp add: dialled_seen)

text \<open>
  C26. A dial succeeds exactly when the proxy's bytes begin with an accepted conversation: the method
  without authentication, or, if the proxy has a user name, username/password with a positive status,
  and then a positive reply to CONNECT with a complete address of one of the three types. What was sent
  by then is the greeting, the credentials if they were asked for, and the CONNECT request.
\<close>

theorem socks_connects_iff:
  "(sx_result (dialled px host port chunks) = Some (Inr ()) \<longleftrightarrow> accepts px (concat chunks)) \<and>
   (accepts px (concat chunks) \<longrightarrow> sx_sent (dialled px host port chunks) =
      (if concat chunks ! 1 = 0 then [socksGreeting px, socksConnectRequest host port]
       else [socksGreeting px, socksAuthRequest px, socksConnectRequest host port]))"
proof -
  let ?st = "arrive (concat chunks) (onConnect px newSocks)"
  have st: "\<not> sx_settled ?st" "sx_result ?st = None" "sx_stage ?st = Greeting" "sx_buf ?st = concat chunks"
      "sx_sent ?st = [socksGreeting px]"
    by (simp_all add: connected)
  have sent: "sx_sent (connectStep px s) = sx_sent s" for s
    by (simp add: connectStep_def Let_def socks_defs split: option.split)
  have "sx_sent (socksLoop px host port ?st) =
      (if concat chunks ! 1 = 0 then [socksGreeting px, socksConnectRequest host port]
       else [socksGreeting px, socksAuthRequest px, socksConnectRequest host port])" if "accepts px (concat chunks)"
    using that by (auto simp: loop_Greeting connected accepts_def Let_def authStep_def sent)
  moreover have "sx_result (dialled px host port chunks) = sx_result (socksLoop px host port ?st)"
      "sx_sent (dialled px host port chunks) = sx_sent (socksLoop px host port ?st)"
    using dialled_seen [of px host port chunks] by (simp_all add: seen_def)
  ultimately show ?thesis using greeting_accepts [OF st(1,2,3), of px host port] st(4) by simp
qed

definition sampleProxy :: ProxyDescriptor where
  "sampleProxy = \<lparr>px_scheme = Socks5, px_host = J ''127.0.0.1'', px_port = 1080, px_username = None, px_password = None\<rparr>"

theorem socks_connects_iff_witness:
  "sx_result (dialled sampleProxy (J ''vigil'') 5000 [[5], [0, 5, 0, 0, 1, 10, 0], [0, 1, 19, 136]]) = Some (Inr ())"
proof -
  have "okReply [5, 0, 0, 1, 10, 0, 0, 1, 19, 136]"
    unfolding okReply_def by (intro exI [of _ 0] exI [of _ "[10, 0, 0, 1]"] exI [of _ "[19, 136]"]) simp
  then have "accepts sampleProxy (concat [[5], [0, 5, 0, 0, 1, 10, 0], [0, 1, 19, 136]])"
    unfolding accepts_def by (intro exI [of _ "[5, 0, 0, 1, 10, 0, 0, 1, 19, 136]"] exI [of _ "[]"]) simp
  with socks_connects_iff [of sampleProxy "J ''vigil''" 5000 "[[5], [0, 5, 0, 0, 1, 10, 0], [0, 1, 19, 136]]"] show ?thesis by blast
qed

text \<open>
  A proxy reads from a CONNECT request the host and the port it was made for, if the host has at
  most 255 bytes. The length is one byte that wraps around: the proxy takes the host to be the first
  \<open>n mod 256\<close> of its \<open>n\<close> bytes, whatever \<open>n\<close> is, so a longer host is another host.
\<close>

theorem socks_request_read_back:
  assumes "port < 65536"
  shows "\<exists>p. readRequest (socksConnectRequest host port) =
      Some (take (length (utf8Buffer host) mod 256) (utf8Buffer host), p) \<and>
    (length (utf8Buffer host) \<le> 255 \<longrightarrow> take (length (utf8Buffer host) mod 256) (utf8Buffer host) = utf8Buffer host \<and> p = port) \<and>
    (length (utf8Buffer host) > 255 \<longrightarrow> take (length (utf8Buffer host) mod 256) (utf8Buffer host) \<noteq> utf8Buffer host)"
proof -
  let ?n = "length (utf8Buffer host)"
  have n: "unat (of_nat ?n :: byte) = ?n mod 256" by (simp add: unat_of_nat)
  have le: "?n mod 256 \<le> ?n" by simp
  have "\<exists>p. readRequest (socksConnectRequest host port) = Some (take (?n mod 256) (utf8Buffer host), p)"
    using le by (simp add: socksConnectRequest_def Let_def n)
  moreover have "take (?n mod 256) (utf8Buffer host) \<noteq> utf8Buffer host" if "?n > 255"
  proof
    assume "take (?n mod 256) (utf8Buffer host) = utf8Buffer host"
    then have "?n \<le> ?n mod 256" by (metis length_take min.cobounded2)
    with that show False using mod_less_divisor [of 256 ?n] by linarith
  qed
  ultimately show ?thesis using readRequest_connect [OF _ assms, of host] by (cases "?n \<le> 255") auto
qed

theorem socks_request_read_back_witness:
  "\<exists>p. readRequest (socksConnectRequest (replicate 300 97) 443) = Some (replicate 44 97, p)"
proof -
  have "utf8Buffer (replicate n 97) = replicate n 97" for n
  proof -
    have "codePoints (replicate n (97 :: jschar)) = replicate n 97"
      by (induction n rule: induct_nat_012) (simp_all add: isHighU_def isLowU_def)
    then show ?thesis by (simp add: utf8Buffer_def toUtf8_def encodeCp_def)
  qed
  then show ?thesis using socks_request_read_back [of 443 "replicate 300 97"] by auto
qed

end
