(* ===== verification/Mesh.thy ===== *)
theory Mesh
  imports Socks Vigil Config Regex
begin

text \<open>
  The HTTP client over the mesh proxy and the local bridge of \<^verbatim>\<open>src/runner/src/meshhttp.ts\<close>, on top of the
  SOCKS5 client of theory Socks. The URL parser and \<open>decodeURIComponent\<close> of the platform are parameters,
  and so are the sockets and the HTTP implementation of Node.
\<close>

section \<open>Proxy and target URLs\<close>

record URL =
  ul_protocol :: jsstring
  ul_hostname :: jsstring
  ul_host :: jsstring
  ul_port :: jsstring
  ul_username :: jsstring
  ul_password :: jsstring
  ul_pathname :: jsstring
  ul_search :: jsstring
  ul_href :: jsstring

record platform =
  pl_url :: "jsstring \<Rightarrow> thrown + URL"
  pl_decode :: "jsstring \<Rightarrow> thrown + jsstring"

definition configError :: "jsstring \<Rightarrow> thrown" where
  "configError detail = Runner (ConfigurationError detail)"

definition parsedUrl :: "host \<Rightarrow> platform \<Rightarrow> string \<Rightarrow> jsstring \<Rightarrow> thrown + URL" where
  "parsedUrl h pl what raw =
     (case pl_url pl raw of Inl err \<Rightarrow> Inl (configError (J what @ errorMessage h err)) | Inr u \<Rightarrow> Inr u)"

text \<open>\<open>s.replace(/:$/, "")\<close>\<close>

definition dropColon :: "jsstring \<Rightarrow> jsstring" where
  "dropColon s = (if s \<noteq> [] \<and> last s = 58 then butlast s else s)"

text \<open>\<open>part ? decodeURIComponent(part) : undefined\<close>, an empty result counting as none.\<close>

definition decodedPart :: "platform \<Rightarrow> jsstring \<Rightarrow> thrown + jsstring option" where
  "decodedPart pl part =
     (if part = [] then Inr None else bindR (pl_decode pl part) (\<lambda>d. Inr (if d = [] then None else Some d)))"

definition validPort :: "jsnum \<Rightarrow> bool" where
  "validPort p = (case p of Fin q \<Rightarrow> 0 < q \<and> q \<le> 65535 | _ \<Rightarrow> False)"

definition portNat :: "jsnum \<Rightarrow> nat" where
  "portNat p = (case p of Fin q \<Rightarrow> nat \<lfloor>q\<rfloor> | _ \<Rightarrow> 0)"

definition parseProxyUrl :: "host \<Rightarrow> platform \<Rightarrow> jsstring \<Rightarrow> thrown + ProxyDescriptor" where
  "parseProxyUrl h pl raw =
     bindR (parsedUrl h pl ''mesh proxy URL is not parseable: '' raw) (\<lambda>u.
     let scheme = lowerS (dropColon (ul_protocol u)) in
     if scheme \<noteq> J ''socks5'' \<and> scheme \<noteq> J ''socks5h'' \<and> scheme \<noteq> J ''http'' then
       Inl (configError (J ''mesh proxy scheme must be socks5, socks5h or http, got \"'' @ scheme @ J ''\"''))
     else
       let portRaw = (if ul_port u \<noteq> [] then parseInt10 (ul_port u) else if scheme = J ''http'' then Fin 80 else Fin 1080) in
       if \<not> validPort portRaw then Inl (configError (J ''mesh proxy port is invalid in \"'' @ raw @ J ''\"''))
       else bindR (decodedPart pl (ul_username u)) (\<lambda>username.
            bindR (decodedPart pl (ul_password u)) (\<lambda>password.
            Inr \<lparr>px_scheme = (if scheme = J ''http'' then HttpProxy else Socks5), px_host = ul_hostname u,
                 px_port = int (portNat portRaw), px_username = username, px_password = password\<rparr>)))"

definition assertHttpTarget :: "host \<Rightarrow> platform \<Rightarrow> jsstring \<Rightarrow> thrown + URL" where
  "assertHttpTarget h pl url =
     bindR (parsedUrl h pl ''mesh target URL is not parseable: '' url) (\<lambda>u.
     if ul_protocol u \<noteq> J ''http:'' then
       Inl (configError (J ''mesh target must be http:// (the WireGuard tunnel provides encryption); got \"'' @ ul_protocol u @ J ''\"''))
     else if includesS (ul_hostname u) (J '':'') then
       Inl (configError (J ''mesh target host must be a name or IPv4 literal, got \"'' @ ul_hostname u @ J ''\"''))
     else Inr u)"

section \<open>Headers\<close>

datatype HeaderValue = Single jsstring | Several "jsstring list"

definition HOP_BY_HOP :: "jsstring list" where
  "HOP_BY_HOP = map J [''connection'', ''keep-alive'', ''proxy-authenticate'', ''proxy-authorization'', ''proxy-connection'',
     ''te'', ''trailer'', ''transfer-encoding'', ''upgrade'']"

fun headerText :: "HeaderValue \<Rightarrow> jsstring" where
  "headerText (Single v) = v"
| "headerText (Several vs) = joinS (J '', '') vs"

definition sanitizeRequestHeaders :: "(jsstring \<times> HeaderValue option) list \<Rightarrow> (jsstring \<times> jsstring) list" where
  "sanitizeRequestHeaders headers =
     foldl (\<lambda>out (k, v). case v of
              None \<Rightarrow> out
            | Some value \<Rightarrow> if lowerS k \<in> set HOP_BY_HOP then out else assignProp out k (headerText value)) [] headers"

text \<open>\<open>Buffer.from(s, "utf8").toString("base64")\<close>\<close>

definition b64char :: "nat \<Rightarrow> jschar" where
  "b64char n = of_nat (if n < 26 then 65 + n else if n < 52 then 71 + n else if n < 62 then n - 4 else if n = 62 then 43 else 47)"

fun b64text :: "nat list \<Rightarrow> jsstring" where
  "b64text (a # b # c # r) =
     [b64char (a div 4), b64char (a mod 4 * 16 + b div 16), b64char (b mod 16 * 4 + c div 64), b64char (c mod 64)] @ b64text r"
| "b64text [a, b] = [b64char (a div 4), b64char (a mod 4 * 16 + b div 16), b64char (b mod 16 * 4), 61]"
| "b64text [a] = [b64char (a div 4), b64char (a mod 4 * 16), 61, 61]"
| "b64text [] = []"

definition basicCredentials :: "ProxyDescriptor \<Rightarrow> jsstring option" where
  "basicCredentials px =
     map_option (\<lambda>username. J ''Basic '' @ b64text (toUtf8 (username @ J '':'' @ orEmpty (px_password px)))) (px_username px)"

section \<open>Collecting a response\<close>

definition MAX_RESPONSE_BYTES :: nat where "MAX_RESPONSE_BYTES = 8 * 1024 * 1024"
definition DEFAULT_TIMEOUT_MS :: rat where "DEFAULT_TIMEOUT_MS = 30000"

text \<open>The events of a request that \<open>collectResponse\<close> listens to.\<close>

datatype ResEvent =
    Headers int "(jsstring \<times> HeaderValue) list"
  | Chunk "byte list"
  | BodyEnd
  | StreamError thrown
  | RequestError thrown
  | TimerFires

record RawResponse =
  rr_status :: int
  rr_headers :: "(jsstring \<times> jsstring) list"
  rr_body :: "byte list"

text \<open>\<open>co_reqError\<close> and \<open>co_resError\<close> are what the request and the response were destroyed with.\<close>

record Collect =
  co_meta :: "(int \<times> (jsstring \<times> HeaderValue) list) option"
  co_size :: nat
  co_body :: "byte list"
  co_timer :: bool
  co_reqError :: "thrown option"
  co_resError :: "thrown option"
  co_result :: "(thrown + RawResponse) option"

definition newCollect :: Collect where
  "newCollect = \<lparr>co_meta = None, co_size = 0, co_body = [], co_timer = True, co_reqError = None, co_resError = None, co_result = None\<rparr>"

definition transportError :: "jsstring \<Rightarrow> thrown" where
  "transportError detail = Runner (MeshTransportError detail)"

definition settleCollect :: "thrown + RawResponse \<Rightarrow> Collect \<Rightarrow> Collect" where
  "settleCollect r st = (if co_result st = None then st\<lparr>co_result := Some r\<rparr> else st)"

definition firstError :: "thrown option \<Rightarrow> thrown \<Rightarrow> thrown option" where
  "firstError old e = (case old of Some e' \<Rightarrow> Some e' | None \<Rightarrow> Some e)"

definition wrapTransport :: "host \<Rightarrow> thrown \<Rightarrow> thrown" where
  "wrapTransport h err = (case err of Runner (MeshTransportError d) \<Rightarrow> err | _ \<Rightarrow> transportError (errorMessage h err))"

definition collectStep :: "host \<Rightarrow> rat \<Rightarrow> (rat \<Rightarrow> jsstring) \<Rightarrow> Collect \<Rightarrow> ResEvent \<Rightarrow> Collect" where
  "collectStep h timeoutMs showMs st ev =
     (case ev of
        Headers status headers \<Rightarrow> if co_meta st = None then st\<lparr>co_meta := Some (status, headers)\<rparr> else st
      | Chunk c \<Rightarrow>
          let size = co_size st + length c; st = st\<lparr>co_size := size\<rparr> in
          if size > MAX_RESPONSE_BYTES then
            st\<lparr>co_resError := firstError (co_resError st) (transportError (J ''response exceeds '' @ showNat MAX_RESPONSE_BYTES @ J '' bytes''))\<rparr>
          else st\<lparr>co_body := co_body st @ c\<rparr>
      | BodyEnd \<Rightarrow>
          (case co_meta st of
             None \<Rightarrow> st
           | Some (status, headers) \<Rightarrow>
               settleCollect (Inr \<lparr>rr_status = status,
                 rr_headers = foldl (\<lambda>out (k, v). assignProp out k (headerText v)) [] headers, rr_body = co_body st\<rparr>)
                 (st\<lparr>co_timer := False\<rparr>))
      | StreamError err \<Rightarrow>
          settleCollect (Inl (transportError (J ''response stream failed: '' @ errorMessage h err))) (st\<lparr>co_timer := False\<rparr>)
      | RequestError err \<Rightarrow> settleCollect (Inl (wrapTransport h err)) (st\<lparr>co_timer := False\<rparr>)
      | TimerFires \<Rightarrow>
          if co_timer st then
            st\<lparr>co_timer := False,
               co_reqError := firstError (co_reqError st) (transportError (J ''response timed out after '' @ showMs timeoutMs @ J ''ms''))\<rparr>
          else st)"

section \<open>Requests\<close>

text \<open>What \<open>http.request\<close> is given; \<open>hq_socket\<close> is the socket of \<open>createConnection\<close>.\<close>

record HttpRequest =
  hq_host :: jsstring
  hq_port :: nat
  hq_path :: jsstring
  hq_method :: jsstring
  hq_headers :: "(jsstring \<times> jsstring) list"
  hq_body :: jsstring
  hq_socket :: "nat option"

text \<open>
  The network: dialling through a SOCKS5 proxy gives a socket, a request gives what \<open>collectResponse\<close>
  settles with; a plain TCP dial says whether the port accepts; \<open>nt_trace\<close> are the headers of the trace.
\<close>

record 's Network =
  nt_dial :: "ProxyDescriptor \<Rightarrow> jsstring \<Rightarrow> nat \<Rightarrow> rat \<Rightarrow> 's \<Rightarrow> (thrown + nat) \<times> 's"
  nt_request :: "HttpRequest \<Rightarrow> rat \<Rightarrow> 's \<Rightarrow> (thrown + RawResponse) \<times> 's"
  nt_destroy :: "nat \<Rightarrow> 's \<Rightarrow> 's"
  nt_trace :: "'s \<Rightarrow> (jsstring \<times> jsstring) list"
  nt_probe :: "jsstring \<Rightarrow> int \<Rightarrow> int \<Rightarrow> 's \<Rightarrow> bool \<times> 's"
  nt_now :: "'s \<Rightarrow> int \<times> 's"
  nt_sleep :: "int \<Rightarrow> 's \<Rightarrow> 's"

definition targetPort :: "URL \<Rightarrow> nat" where
  "targetPort u = (if ul_port u \<noteq> [] then portNat (parseInt10 (ul_port u)) else 80)"

definition sanitized :: "(jsstring \<times> jsstring) list \<Rightarrow> (jsstring \<times> jsstring) list" where
  "sanitized headers = sanitizeRequestHeaders (map (\<lambda>(k, v). (k, Some (Single v))) headers)"

definition withHost :: "URL \<Rightarrow> (jsstring \<times> jsstring) list \<Rightarrow> (jsstring \<times> jsstring) list" where
  "withHost target headers = assignProp headers (J ''host'') (ul_host target)"

definition withCredentials :: "ProxyDescriptor \<Rightarrow> (jsstring \<times> jsstring) list \<Rightarrow> (jsstring \<times> jsstring) list" where
  "withCredentials px headers =
     (case basicCredentials px of Some cred \<Rightarrow> assignProp headers (J ''proxy-authorization'') cred | None \<Rightarrow> headers)"

definition requestViaSocks :: "'s Network \<Rightarrow> ProxyDescriptor \<Rightarrow> URL \<Rightarrow> MeshRequestInit \<Rightarrow> rat \<Rightarrow> 's \<Rightarrow> (thrown + RawResponse) \<times> 's" where
  "requestViaSocks net px target init timeoutMs w =
     (case nt_dial net px (ul_hostname target) (targetPort target) timeoutMs w of
        (Inl e, w) \<Rightarrow> (Inl e, w)
      | (Inr socket, w) \<Rightarrow>
          (case nt_request net \<lparr>hq_host = ul_hostname target, hq_port = targetPort target,
                  hq_path = ul_pathname target @ ul_search target, hq_method = rq_method init,
                  hq_headers = withHost target (sanitized (rq_headers init)), hq_body = rq_body init, hq_socket = Some socket\<rparr>
                  timeoutMs w of
             (Inl e, w) \<Rightarrow> (Inl e, nt_destroy net socket w)
           | (Inr r, w) \<Rightarrow> (Inr r, w)))"

definition requestViaHttpProxy :: "'s Network \<Rightarrow> ProxyDescriptor \<Rightarrow> URL \<Rightarrow> MeshRequestInit \<Rightarrow> rat \<Rightarrow> 's \<Rightarrow> (thrown + RawResponse) \<times> 's" where
  "requestViaHttpProxy net px target init timeoutMs =
     nt_request net \<lparr>hq_host = px_host px, hq_port = nat (px_port px), hq_path = ul_href target, hq_method = rq_method init,
       hq_headers = withCredentials px (withHost target (sanitized (rq_headers init))), hq_body = rq_body init, hq_socket = None\<rparr> timeoutMs"

definition requestDirect :: "'s Network \<Rightarrow> URL \<Rightarrow> MeshRequestInit \<Rightarrow> rat \<Rightarrow> 's \<Rightarrow> (thrown + RawResponse) \<times> 's" where
  "requestDirect net target init timeoutMs =
     nt_request net \<lparr>hq_host = ul_hostname target, hq_port = targetPort target, hq_path = ul_pathname target @ ul_search target,
       hq_method = rq_method init, hq_headers = sanitized (rq_headers init), hq_body = rq_body init, hq_socket = None\<rparr> timeoutMs"

text \<open>\<open>text()\<close> of a response.\<close>

definition meshResponse :: "RawResponse \<Rightarrow> MeshResponse" where
  "meshResponse r = \<lparr>rs_status = rr_status r, rs_text = fromUtf8 (map unat (rr_body r))\<rparr>"

definition meshFetch :: "host \<Rightarrow> platform \<Rightarrow> 's Network \<Rightarrow> ProxyDescriptor option \<Rightarrow> 's MeshFetch" where
  "meshFetch h pl net proxy w url init =
     (case assertHttpTarget h pl url of
        Inl e \<Rightarrow> (Inl e, w)
      | Inr target \<Rightarrow>
          let timeoutMs = rq_timeoutMs init;
              traced = init\<lparr>rq_headers := foldl (\<lambda>hs (k, v). defineProp hs k v) (rq_headers init) (nt_trace net w)\<rparr> in
          map_prod (map_sum id meshResponse) id
            (case proxy of
               None \<Rightarrow> requestDirect net target traced timeoutMs w
             | Some px \<Rightarrow> if px_scheme px = Socks5 then requestViaSocks net px target traced timeoutMs w
                          else requestViaHttpProxy net px target traced timeoutMs w))"

definition createMeshFetch :: "host \<Rightarrow> platform \<Rightarrow> 's Network \<Rightarrow> jsstring option \<Rightarrow> thrown + 's MeshFetch" where
  "createMeshFetch h pl net rawProxy =
     bindR (case rawProxy of Some raw \<Rightarrow> if raw \<noteq> [] then bindR (parseProxyUrl h pl raw) (\<lambda>px. Inr (Some px)) else Inr None
                           | None \<Rightarrow> Inr None) (\<lambda>proxy.
     Inr (meshFetch h pl net proxy))"

section \<open>Waiting for the proxy\<close>

text \<open>The loop of \<open>waitForSocks5Proxy\<close> with fuel; \<open>None\<close> when it is used up.\<close>

fun waitLoop :: "'s Network \<Rightarrow> ProxyDescriptor \<Rightarrow> int \<Rightarrow> int \<Rightarrow> int \<Rightarrow> nat \<Rightarrow> 's \<Rightarrow> ((thrown + unit) \<times> 's) option" where
  "waitLoop net px timeoutMs intervalMs deadline 0 w = None"
| "waitLoop net px timeoutMs intervalMs deadline (Suc n) w =
     (case nt_probe net (px_host px) (px_port px) (min intervalMs 2000) w of (up, w) \<Rightarrow>
      if up then Some (Inr (), w)
      else case nt_now net w of (now, w) \<Rightarrow>
        if now \<ge> deadline then
          Some (Inl (transportError (J ''mesh proxy '' @ px_host px @ J '':'' @ showInt (px_port px) @ J '' did not come up within '' @
            showInt timeoutMs @ J ''ms '' @ [8212] @ J '' check the netbird sidecar logs (enrollment may have failed)'')), w)
        else waitLoop net px timeoutMs intervalMs deadline n (nt_sleep net intervalMs w))"

definition waitForSocks5Proxy :: "host \<Rightarrow> platform \<Rightarrow> 's Network \<Rightarrow> jsstring \<Rightarrow> int \<Rightarrow> int \<Rightarrow> nat \<Rightarrow> 's \<Rightarrow> ((thrown + unit) \<times> 's) option" where
  "waitForSocks5Proxy h pl net rawProxy timeoutMs intervalMs fuel w =
     (case parseProxyUrl h pl rawProxy of
        Inl e \<Rightarrow> Some (Inl e, w)
      | Inr px \<Rightarrow> (case nt_now net w of (now, w) \<Rightarrow> waitLoop net px timeoutMs intervalMs (now + timeoutMs) fuel w))"

section \<open>Headers that are kept\<close>

lemma keys_defineProp: "fst ` set (defineProp ps k v) = insert k (fst ` set ps)"
  by (force simp: defineProp_def image_iff)

lemma keys_assign_subset: "fst ` set (assignProp ps k v) \<subseteq> insert k (fst ` set ps)"
  by (auto simp: assignProp_def keys_defineProp)

definition endToEnd :: "(jsstring \<times> jsstring) list \<Rightarrow> bool" where
  "endToEnd headers \<longleftrightarrow> (\<forall>k \<in> fst ` set headers. lowerS k \<notin> set HOP_BY_HOP)"

lemma endToEnd_assignProp: "endToEnd out \<Longrightarrow> lowerS k \<notin> set HOP_BY_HOP \<Longrightarrow> endToEnd (assignProp out k v)"
  using keys_assign_subset [of out k v] unfolding endToEnd_def by blast

lemma endToEnd_foldl:
  assumes "endToEnd out" "\<And>out x. endToEnd out \<Longrightarrow> endToEnd (f out x)"
  shows "endToEnd (foldl f out xs)"
  using assms(1) by (induction xs arbitrary: out) (simp_all add: assms(2))

lemma sanitize_endToEnd: "endToEnd (sanitizeRequestHeaders headers)"
  unfolding sanitizeRequestHeaders_def
  by (rule endToEnd_foldl) (auto simp: endToEnd_assignProp split: prod.split option.split, simp add: endToEnd_def)

lemma withHost_endToEnd: "endToEnd headers \<Longrightarrow> endToEnd (withHost target headers)"
  unfolding withHost_def by (rule endToEnd_assignProp) (simp_all add: HOP_BY_HOP_def J_def lowerS_def lowerChar_def)

section \<open>A network that logs what it is asked\<close>

datatype NetAct = Dial ProxyDescriptor jsstring nat "thrown + nat" | Send HttpRequest

definition loggedNet :: "'s Network \<Rightarrow> (NetAct list \<times> 's) Network" where
  "loggedNet net =
     \<lparr>nt_dial = (\<lambda>px host port t (acts, w). case nt_dial net px host port t w of (r, w) \<Rightarrow> (r, acts @ [Dial px host port r], w)),
      nt_request = (\<lambda>q t (acts, w). case nt_request net q t w of (r, w) \<Rightarrow> (r, acts @ [Send q], w)),
      nt_destroy = (\<lambda>s (acts, w). (acts, nt_destroy net s w)),
      nt_trace = (\<lambda>(acts, w). nt_trace net w),
      nt_probe = (\<lambda>host port t (acts, w). case nt_probe net host port t w of (r, w) \<Rightarrow> (r, acts, w)),
      nt_now = (\<lambda>(acts, w). case nt_now net w of (r, w) \<Rightarrow> (r, acts, w)),
      nt_sleep = (\<lambda>t (acts, w). (acts, nt_sleep net t w))\<rparr>"

text \<open>
  What one request may ask of the network when a proxy is configured: through a SOCKS5 proxy, one dial
  and then one request on the socket it gave; through an HTTP proxy, one request to the proxy in
  absolute form. \<open>plain\<close> are the headers before the proxy's credentials are added.
\<close>

fun routed :: "ProxyDescriptor \<Rightarrow> URL \<Rightarrow> NetAct list \<Rightarrow> bool" where
  "routed px u [Dial px' host port (Inl e)] \<longleftrightarrow> px_scheme px = Socks5 \<and> px' = px \<and> host = ul_hostname u \<and> port = targetPort u"
| "routed px u [Dial px' host port (Inr s), Send q] \<longleftrightarrow>
     px_scheme px = Socks5 \<and> px' = px \<and> host = ul_hostname u \<and> port = targetPort u \<and> hq_socket q = Some s \<and> endToEnd (hq_headers q)"
| "routed px u [Send q] \<longleftrightarrow>
     px_scheme px = HttpProxy \<and> hq_socket q = None \<and> hq_host q = px_host px \<and> int (hq_port q) = px_port px \<and> hq_path q = ul_href u \<and>
     (\<exists>plain. endToEnd plain \<and> hq_headers q = withCredentials px plain)"
| "routed px u _ \<longleftrightarrow> False"

lemma viaSocks_routed:
  assumes "px_scheme px = Socks5" "requestViaSocks (loggedNet net) px u init t (acts, w) = (r, acts', w')"
  shows "\<exists>new. acts' = acts @ new \<and> routed px u new"
  using assms by (force simp: requestViaSocks_def loggedNet_def withHost_endToEnd sanitized_def sanitize_endToEnd
      split: prod.splits sum.splits)

lemma viaHttp_routed:
  assumes "px_scheme px = HttpProxy" "0 \<le> px_port px" "requestViaHttpProxy (loggedNet net) px u init t (acts, w) = (r, acts', w')"
  shows "\<exists>new. acts' = acts @ new \<and> routed px u new"
  using assms by (auto simp: requestViaHttpProxy_def loggedNet_def sanitized_def split: prod.splits)
    (blast intro: withHost_endToEnd sanitize_endToEnd)

lemma portNat_range: "validPort (parseInt10 s) \<Longrightarrow> 1 \<le> portNat (parseInt10 s) \<and> portNat (parseInt10 s) \<le> 65535"
proof -
  assume valid: "validPort (parseInt10 s)"
  then obtain q where q: "parseInt10 s = Fin q" by (cases "parseInt10 s") (simp_all add: validPort_def)
  with parseInt10_integer obtain i :: int where "q = of_int i" by blast
  with valid q show ?thesis by (simp add: validPort_def portNat_def) linarith
qed

lemma parseProxyUrl_port: "parseProxyUrl h pl raw = Inr px \<Longrightarrow> 1 \<le> px_port px \<and> px_port px \<le> 65535"
  by (auto simp: parseProxyUrl_def Let_def portNat_def [of "Fin _"] dest!: portNat_range split: if_splits)

section \<open>What a response is made of\<close>

fun chunksOf :: "ResEvent list \<Rightarrow> byte list list" where
  "chunksOf [] = []"
| "chunksOf (Chunk c # evs) = c # chunksOf evs"
| "chunksOf (_ # evs) = chunksOf evs"

text \<open>
  The order Node emits events in: a stream that was destroyed, or whose request was, or that has ended
  or failed, emits neither data nor \<open>end\<close>; nothing of the body comes before the headers.
\<close>

definition emits :: "Collect \<Rightarrow> ResEvent \<Rightarrow> bool" where
  "emits st ev =
     (case ev of
        Headers _ _ \<Rightarrow> co_meta st = None
      | Chunk _ \<Rightarrow> co_meta st \<noteq> None \<and> co_resError st = None \<and> co_reqError st = None \<and> co_result st = None
      | BodyEnd \<Rightarrow> co_meta st \<noteq> None \<and> co_resError st = None \<and> co_reqError st = None \<and> co_result st = None
      | _ \<Rightarrow> True)"

fun nodeEvents :: "host \<Rightarrow> rat \<Rightarrow> (rat \<Rightarrow> jsstring) \<Rightarrow> Collect \<Rightarrow> ResEvent list \<Rightarrow> bool" where
  "nodeEvents h t sh st [] = True"
| "nodeEvents h t sh st (ev # evs) = (emits st ev \<and> nodeEvents h t sh (collectStep h t sh st ev) evs)"

definition collectInv :: "ResEvent list \<Rightarrow> Collect \<Rightarrow> bool" where
  "collectInv past st \<longleftrightarrow>
     co_size st = length (concat (chunksOf past)) \<and>
     (co_resError st = None \<longrightarrow> co_body st = concat (chunksOf past) \<and> co_size st \<le> MAX_RESPONSE_BYTES) \<and>
     (\<forall>s hs. co_meta st = Some (s, hs) \<longrightarrow> Headers s hs \<in> set past) \<and>
     (\<forall>r. co_result st = Some (Inr r) \<longrightarrow> rr_body r = concat (chunksOf past) \<and> length (rr_body r) \<le> MAX_RESPONSE_BYTES \<and>
        (\<exists>hs. Headers (rr_status r) hs \<in> set past))"

lemma chunksOf_append: "chunksOf (evs @ evs') = chunksOf evs @ chunksOf evs'"
  by (induction evs rule: chunksOf.induct) simp_all

lemma collectInv_step:
  assumes "collectInv past st" "emits st ev"
  shows "collectInv (past @ [ev]) (collectStep h t sh st ev)"
  using assms unfolding collectInv_def emits_def
  by (cases ev) (auto simp: collectStep_def settleCollect_def Let_def chunksOf_append firstError_def split: option.splits prod.splits)

lemma collectInv_run:
  "collectInv past st \<Longrightarrow> nodeEvents h t sh st evs \<Longrightarrow> collectInv (past @ evs) (foldl (collectStep h t sh) st evs)"
proof (induction evs arbitrary: past st)
  case (Cons ev evs)
  then have "collectInv (past @ [ev]) (collectStep h t sh st ev)" by (auto intro: collectInv_step)
  with Cons show ?case by fastforce
qed simp

lemma collect_chunks:
  assumes "co_size st + length (concat cs) \<le> MAX_RESPONSE_BYTES"
  shows "foldl (collectStep h t sh) st (map Chunk cs) =
    st\<lparr>co_size := co_size st + length (concat cs), co_body := co_body st @ concat cs\<rparr>"
  using assms
proof (induction cs arbitrary: st)
  case (Cons c cs)
  then show ?case by (simp add: collectStep_def Let_def not_less)
qed simp

section \<open>Waiting for the proxy to come up\<close>

text \<open>A clock that \<open>clock\<close> reads: it never goes back, and a sleep moves it on by what was asked.\<close>

definition keepsTime :: "'s Network \<Rightarrow> ('s \<Rightarrow> int) \<Rightarrow> bool" where
  "keepsTime net clock \<longleftrightarrow>
     (\<forall>w. fst (nt_now net w) = clock w \<and> clock w \<le> clock (snd (nt_now net w))) \<and>
     (\<forall>host port t w. clock w \<le> clock (snd (nt_probe net host port t w))) \<and>
     (\<forall>t w. clock w + t \<le> clock (nt_sleep net t w))"

lemma waitLoop_ends:
  assumes "keepsTime net clock" "0 < interval" "deadline \<le> clock w + int n * interval" "n < fuel"
  shows "\<exists>r w'. waitLoop net px t interval deadline fuel w = Some (r, w') \<and> (\<forall>e. r = Inl e \<longrightarrow> deadline \<le> clock w')"
  using assms(3,4)
proof (induction fuel arbitrary: n w)
  case (Suc fuel)
  obtain up w1 where p: "nt_probe net (px_host px) (px_port px) (min interval 2000) w = (up, w1)" by (rule prod.exhaust)
  obtain now w2 where c: "nt_now net w1 = (now, w2)" by (rule prod.exhaust)
  have mono: "clock w \<le> clock w1" "now = clock w1" "clock w1 \<le> clock w2"
    using assms(1) p c unfolding keepsTime_def by (metis snd_conv, metis fst_conv, metis snd_conv)
  show ?case
  proof (cases "up \<or> deadline \<le> now")
    case True
    then show ?thesis using p c mono by auto
  next
    case False
    with Suc.prems mono obtain m where m: "n = Suc m" by (cases n) auto
    have "clock w2 + interval \<le> clock (nt_sleep net interval w2)" using assms(1) by (simp add: keepsTime_def)
    with Suc.prems mono m have "deadline \<le> clock (nt_sleep net interval w2) + int m * interval" "m < fuel"
      by (simp_all add: distrib_right)
    from Suc.IH [OF this] False p c show ?thesis by auto
  qed
qed simp

lemma waitForSocks5Proxy_ends:
  assumes "keepsTime net clock" "0 < intervalMs" "0 \<le> timeoutMs" "nat (timeoutMs div intervalMs) + 2 \<le> fuel"
  shows "\<exists>r w'. waitForSocks5Proxy h pl net raw timeoutMs intervalMs fuel w = Some (r, w') \<and>
    (\<forall>px. parseProxyUrl h pl raw = Inr px \<longrightarrow> (\<forall>e. r = Inl e \<longrightarrow> clock w + timeoutMs \<le> clock w'))"
proof (cases "parseProxyUrl h pl raw")
  case (Inr px)
  obtain now w1 where c: "nt_now net w = (now, w1)" by (rule prod.exhaust)
  then have now: "now = clock w" "clock w \<le> clock w1" using assms(1) unfolding keepsTime_def by (metis fst_conv, metis snd_conv)
  let ?n = "nat (timeoutMs div intervalMs) + 1"
  have "timeoutMs \<le> (timeoutMs div intervalMs + 1) * intervalMs"
    using div_mult_mod_eq [of timeoutMs intervalMs] pos_mod_bound [OF assms(2), of timeoutMs] unfolding distrib_right by linarith
  moreover have "int ?n = timeoutMs div intervalMs + 1" using assms(2,3) by (simp add: pos_imp_zdiv_nonneg_iff)
  ultimately have "now + timeoutMs \<le> clock w1 + int ?n * intervalMs" using now by (metis add_mono)
  from waitLoop_ends [OF assms(1,2) this, of fuel px timeoutMs] assms(4) now show ?thesis
    using Inr c by (auto simp: waitForSocks5Proxy_def)
qed (simp add: waitForSocks5Proxy_def)

section \<open>Properties\<close>

text \<open>
  C7. Once a proxy is configured, nothing goes past it: whatever a request asks of the network is one
  dial through that proxy to the target's host and port and, if the dial succeeds, one request on that
  socket, or one request to the HTTP proxy itself in absolute form. No header of one hop is passed on;
  the only one that is added are the credentials for the HTTP proxy. A target that is not a plain HTTP
  URL with a name or an IPv4 address throws before anything is asked.
\<close>

theorem mesh_requests_through_proxy:
  assumes "createMeshFetch h pl (loggedNet net) (Some raw) = Inr fetch" "raw \<noteq> []" "fetch (acts, w) url init = (r, acts', w')"
  shows "\<exists>px. parseProxyUrl h pl raw = Inr px \<and>
    (case assertHttpTarget h pl url of
       Inl e \<Rightarrow> r = Inl e \<and> acts' = acts
     | Inr u \<Rightarrow> \<exists>new. acts' = acts @ new \<and> routed px u new)"
proof -
  obtain px where px: "parseProxyUrl h pl raw = Inr px"
    using assms(1,2) by (auto simp: createMeshFetch_def)
  note port = parseProxyUrl_port [OF px]
  have fetch: "meshFetch h pl (loggedNet net) (Some px) (acts, w) url init = (r, acts', w')"
    using assms px by (auto simp: createMeshFetch_def)
  show ?thesis
  proof (cases "assertHttpTarget h pl url")
    case (Inl e)
    then show ?thesis using px fetch by (simp add: meshFetch_def)
  next
    case (Inr u)
    let ?i = "init\<lparr>rq_headers := foldl (\<lambda>hs (k, v). defineProp hs k v) (rq_headers init) (nt_trace (loggedNet net) (acts, w))\<rparr>"
    have "\<exists>r'. (if px_scheme px = Socks5 then requestViaSocks (loggedNet net) px u ?i (rq_timeoutMs init) (acts, w)
        else requestViaHttpProxy (loggedNet net) px u ?i (rq_timeoutMs init) (acts, w)) = (r', acts', w')"
      using fetch Inr by (auto simp: meshFetch_def Let_def map_prod_def split: prod.splits if_splits)
    then have "\<exists>new. acts' = acts @ new \<and> routed px u new"
      using port viaSocks_routed [of px net u ?i] viaHttp_routed [of px net u ?i] by (cases "px_scheme px") auto
    then show ?thesis using px Inr by simp
  qed
qed

definition samplePlatform :: platform where
  "samplePlatform = \<lparr>pl_url = (\<lambda>s. Inr \<lparr>ul_protocol = take 5 s, ul_hostname = J ''mesh'', ul_host = J ''mesh:8080'', ul_port = J ''8080'',
     ul_username = [], ul_password = [], ul_pathname = J ''/'', ul_search = [], ul_href = s\<rparr>), pl_decode = Inr\<rparr>"

definition sampleNetwork :: "int Network" where
  "sampleNetwork = \<lparr>nt_dial = (\<lambda>px host port t w. (Inr 1, w)), nt_request = (\<lambda>q t w. (Inr \<lparr>rr_status = 200, rr_headers = [], rr_body = []\<rparr>, w)),
     nt_destroy = (\<lambda>s w. w), nt_trace = (\<lambda>w. []), nt_probe = (\<lambda>host port t w. (False, w)), nt_now = (\<lambda>w. (w, w)), nt_sleep = (\<lambda>t w. w + t)\<rparr>"

definition sampleInit :: MeshRequestInit where
  "sampleInit = \<lparr>rq_method = J ''GET'', rq_headers = [(J ''Upgrade'', J ''h2c''), (J ''accept'', J ''text'')], rq_body = [], rq_timeoutMs = 10\<rparr>"

definition sampleHttpProxy :: ProxyDescriptor where
  "sampleHttpProxy = \<lparr>px_scheme = HttpProxy, px_host = J ''mesh'', px_port = 8080, px_username = None, px_password = None\<rparr>"

lemma sample_mesh:
  "parseProxyUrl h samplePlatform (J ''http://mesh:8080'') = Inr sampleHttpProxy"
  "createMeshFetch h samplePlatform net (Some (J ''http://mesh:8080'')) = Inr (meshFetch h samplePlatform net (Some sampleHttpProxy))"
  "assertHttpTarget h samplePlatform (J ''http://vigil'') = pl_url samplePlatform (J ''http://vigil'')"
proof -
  have port: "parseInt10 (J ''8080'') = Fin 8080"
    by (simp add: parseInt10_def J_def isWs_def signOf_def isDig_def signed_def toDouble_def OVERFLOW_def)
  have scheme: "lowerS (dropColon (J ''http:'')) = J ''http''" by (simp add: dropColon_def J_def lowerS_def lowerChar_def)
  have take: "take 5 (J ''http://mesh:8080'') = J ''http:''" "take 5 (J ''http://vigil'') = J ''http:''" by (simp_all add: J_def)
  show px: "parseProxyUrl h samplePlatform (J ''http://mesh:8080'') = Inr sampleHttpProxy"
    by (simp add: parseProxyUrl_def parsedUrl_def samplePlatform_def take scheme port validPort_def portNat_def decodedPart_def sampleHttpProxy_def)
  show "createMeshFetch h samplePlatform net (Some (J ''http://mesh:8080'')) = Inr (meshFetch h samplePlatform net (Some sampleHttpProxy))"
    by (simp add: createMeshFetch_def px)
  show "assertHttpTarget h samplePlatform (J ''http://vigil'') = pl_url samplePlatform (J ''http://vigil'')"
    by (simp add: assertHttpTarget_def parsedUrl_def samplePlatform_def take) (simp add: J_def includesS_def)
qed

theorem mesh_requests_through_proxy_witness:
  "\<exists>acts w. snd (meshFetch sampleScanHost samplePlatform (loggedNet sampleNetwork) (Some sampleHttpProxy) ([], 0) (J ''http://vigil'') sampleInit) =
     (acts, w) \<and> (\<exists>u. routed sampleHttpProxy u acts)"
proof -
  let ?f = "meshFetch sampleScanHost samplePlatform (loggedNet sampleNetwork) (Some sampleHttpProxy)"
  obtain r acts w where run: "?f ([], 0) (J ''http://vigil'') sampleInit = (r, acts, w)" by (metis prod.exhaust)
  from mesh_requests_through_proxy [OF sample_mesh(2) _ run]
  have "\<exists>u new. acts = new \<and> routed sampleHttpProxy u new"
    unfolding sample_mesh by (simp add: samplePlatform_def) blast
  then show ?thesis using run by auto
qed

text \<open>
  C27. A response that is handed on is the whole response and no larger than the limit: if Node emits
  its events in order, the body is the concatenation of every chunk that came, at most 8 MiB, under the
  status of the response's head. And every response of at most that size that comes to its end is
  handed on.
\<close>

theorem response_whole_and_bounded:
  "(nodeEvents h t sh newCollect evs \<and> co_result (foldl (collectStep h t sh) newCollect evs) = Some (Inr r) \<longrightarrow>
      rr_body r = concat (chunksOf evs) \<and> length (rr_body r) \<le> MAX_RESPONSE_BYTES \<and> (\<exists>hs. Headers (rr_status r) hs \<in> set evs)) \<and>
   (length (concat cs) \<le> MAX_RESPONSE_BYTES \<longrightarrow>
      nodeEvents h t sh newCollect (Headers s hs # map Chunk cs @ [BodyEnd]) \<and>
      (\<exists>r'. co_result (foldl (collectStep h t sh) newCollect (Headers s hs # map Chunk cs @ [BodyEnd])) = Some (Inr r') \<and>
        rr_status r' = s \<and> rr_body r' = concat cs))"
proof (intro conjI impI)
  assume *: "nodeEvents h t sh newCollect evs \<and> co_result (foldl (collectStep h t sh) newCollect evs) = Some (Inr r)"
  have "collectInv [] newCollect" by (simp add: collectInv_def newCollect_def)
  with * collectInv_run [of "[]" newCollect h t sh evs] have inv: "collectInv evs (foldl (collectStep h t sh) newCollect evs)" by simp
  with * show "rr_body r = concat (chunksOf evs)" "length (rr_body r) \<le> MAX_RESPONSE_BYTES" "\<exists>hs. Headers (rr_status r) hs \<in> set evs"
    unfolding collectInv_def by blast+
next
  assume le: "length (concat cs) \<le> MAX_RESPONSE_BYTES"
  let ?st = "newCollect\<lparr>co_meta := Some (s, hs)\<rparr>"
  have emitted: "nodeEvents h t sh st (map Chunk cs @ [BodyEnd])"
    if "co_size st + length (concat cs) \<le> MAX_RESPONSE_BYTES" "co_meta st \<noteq> None" "co_resError st = None" "co_reqError st = None" "co_result st = None" for st
    using that by (induction cs arbitrary: st) (auto simp: emits_def collectStep_def Let_def)
  have first: "collectStep h t sh newCollect (Headers s hs) = ?st" by (simp add: collectStep_def newCollect_def)
  show "nodeEvents h t sh newCollect (Headers s hs # map Chunk cs @ [BodyEnd])"
    using emitted [of ?st] le first by (simp add: emits_def newCollect_def)
  show "\<exists>r'. co_result (foldl (collectStep h t sh) newCollect (Headers s hs # map Chunk cs @ [BodyEnd])) = Some (Inr r') \<and>
      rr_status r' = s \<and> rr_body r' = concat cs"
    using collect_chunks [of ?st cs h t sh] le first by (simp add: newCollect_def collectStep_def settleCollect_def)
qed

theorem response_whole_and_bounded_witness:
  "\<exists>r. co_result (foldl (collectStep sampleScanHost 10 (\<lambda>_. [])) newCollect [Headers 200 [], Chunk [1, 2], Chunk [3], BodyEnd]) = Some (Inr r) \<and>
     rr_status r = 200 \<and> rr_body r = [1, 2, 3]"
  using response_whole_and_bounded [of sampleScanHost 10 "\<lambda>_. []" "[]" undefined "[[1, 2], [3]]" 200 "[]"]
  by (simp add: MAX_RESPONSE_BYTES_def)

text \<open>
  Waiting for the proxy comes to an end: with a clock that a sleep moves on, the loop returns after
  at most \<open>timeoutMs / intervalMs + 2\<close> turns, and it gives up only at the deadline or later.
\<close>

theorem wait_for_proxy_ends:
  assumes "keepsTime net clock" "0 < intervalMs" "0 \<le> timeoutMs" "nat (timeoutMs div intervalMs) + 2 \<le> fuel"
  shows "\<exists>r w'. waitForSocks5Proxy h pl net raw timeoutMs intervalMs fuel w = Some (r, w') \<and>
    (\<forall>px. parseProxyUrl h pl raw = Inr px \<longrightarrow> (\<forall>e. r = Inl e \<longrightarrow> clock w + timeoutMs \<le> clock w'))"
  using assms by (rule waitForSocks5Proxy_ends)

theorem wait_for_proxy_ends_witness:
  "\<exists>r w'. waitForSocks5Proxy sampleScanHost samplePlatform sampleNetwork (J ''http://mesh:8080'') 3000 1000 5 0 = Some (r, w')"
  using wait_for_proxy_ends [of sampleNetwork id 1000 3000 5 sampleScanHost samplePlatform "J ''http://mesh:8080''" 0]
  by (simp add: keepsTime_def sampleNetwork_def) blast

end
