(* ===== verification/Bridge.thy ===== *)
theory Bridge
  imports Mesh
begin

text \<open>
  The local HTTP proxy of \<^verbatim>\<open>src/runner/src/meshhttp.ts\<close> that the OpenCode child process is pointed at
  (\<open>startMeshProxyBridge\<close>): requests in absolute form, CONNECT tunnels and how the server comes to listen.
  What Node reports of its sockets and requests are events; one function per handler.
\<close>

section \<open>Requests in absolute form\<close>

definition TUNNEL_IDLE_TIMEOUT_MS :: int where "TUNNEL_IDLE_TIMEOUT_MS = 10 * 60 * 1000"

text \<open>The response to the child: what was sent of it.\<close>

record ClientRes =
  cr_head :: "(int \<times> (jsstring \<times> jsstring) list) option"
  cr_body :: "byte list"
  cr_ended :: bool
  cr_destroyed :: bool

definition newRes :: ClientRes where
  "newRes = \<lparr>cr_head = None, cr_body = [], cr_ended = False, cr_destroyed = False\<rparr>"

definition respond :: "int \<Rightarrow> (jsstring \<times> jsstring) list \<Rightarrow> jsstring \<Rightarrow> ClientRes \<Rightarrow> ClientRes" where
  "respond code headers message res =
     res\<lparr>cr_head := Some (code, headers), cr_body := cr_body res @ utf8Buffer message, cr_ended := True\<rparr>"

definition plainText :: "(jsstring \<times> jsstring) list" where
  "plainText = [(J ''content-type'', J ''text/plain'')]"

definition bridgeTarget :: "platform \<Rightarrow> jsstring option \<Rightarrow> jsstring + URL" where
  "bridgeTarget pl url =
     (case pl_url pl (orEmpty url) of
        Inl _ \<Rightarrow> Inl (J ''mesh bridge: malformed absolute-form request URL'')
      | Inr u \<Rightarrow>
          if ul_protocol u \<noteq> J ''http:'' then Inl (J ''mesh bridge: only http:// absolute-form targets are supported'')
          else Inr u)"

definition sendRes :: "int \<Rightarrow> jsstring \<Rightarrow> ClientRes \<Rightarrow> ClientRes" where
  "sendRes code message res =
     (if cr_head res \<noteq> None then res\<lparr>cr_destroyed := True\<rparr>
      else respond code (plainText @ [(J ''proxy-agent'', J ''mcp-eval-mesh-bridge'')]) message res)"

text \<open>A request of the child, its headers as Node gives them.\<close>

record ClientReq =
  cq_url :: "jsstring option"
  cq_method :: "jsstring option"
  cq_headers :: "(jsstring \<times> HeaderValue) list"

definition upstreamRequest :: "ProxyDescriptor \<Rightarrow> URL \<Rightarrow> ClientReq \<Rightarrow> nat \<Rightarrow> HttpRequest" where
  "upstreamRequest px u req socket =
     (let headers = withHost u (sanitizeRequestHeaders (map (\<lambda>(k, v). (k, Some v)) (cq_headers req))) in
      \<lparr>hq_host = ul_hostname u, hq_port = targetPort u, hq_path = ul_href u,
       hq_method = (case cq_method req of Some m \<Rightarrow> m | None \<Rightarrow> J ''GET''),
       hq_headers = (if px_scheme px = HttpProxy then withCredentials px headers else headers),
       hq_body = [], hq_socket = Some socket\<rparr>)"

text \<open>What becomes of a bridged request: the dial settles, then the events of the upstream request.\<close>

datatype BridgeEvent =
    DialFailed thrown
  | Dialled nat
  | UpResponse int "(jsstring \<times> HeaderValue) list"
  | UpChunk "byte list"
  | UpEnd
  | UpError thrown
  | UpIdle

record Bridged =
  bg_res :: ClientRes
  bg_request :: "HttpRequest option"
  bg_piped :: bool
  bg_upstreamDestroyed :: bool
  bg_aborted :: "thrown option"

definition upstreamHeaders :: "(jsstring \<times> HeaderValue) list \<Rightarrow> (jsstring \<times> jsstring) list" where
  "upstreamHeaders headers =
     foldl (\<lambda>out (name, value). if lowerS name \<in> set HOP_BY_HOP then out else assignProp out name (headerText value)) [] headers"

text \<open>
  \<open>bg_aborted\<close> is the error the request was destroyed with when it was idle for too long; Node reports it
  as the next \<open>UpError\<close>. The body of the response is piped to the child as it comes.
\<close>

definition bridgeStep :: "host \<Rightarrow> ProxyDescriptor \<Rightarrow> URL \<Rightarrow> ClientReq \<Rightarrow> Bridged \<Rightarrow> BridgeEvent \<Rightarrow> Bridged" where
  "bridgeStep h px u req st ev =
     (case ev of
        DialFailed err \<Rightarrow> st\<lparr>bg_res := sendRes 502 (J ''mesh bridge dial failed: '' @ errorMessage h err) (bg_res st)\<rparr>
      | Dialled socket \<Rightarrow> st\<lparr>bg_request := Some (upstreamRequest px u req socket)\<rparr>
      | UpResponse status headers \<Rightarrow>
          if cr_head (bg_res st) \<noteq> None then st
          else st\<lparr>bg_res := (bg_res st)\<lparr>cr_head := Some (status, upstreamHeaders headers)\<rparr>, bg_piped := True\<rparr>
      | UpChunk c \<Rightarrow> if bg_piped st then st\<lparr>bg_res := (bg_res st)\<lparr>cr_body := cr_body (bg_res st) @ c\<rparr>\<rparr> else st
      | UpEnd \<Rightarrow> if bg_piped st then st\<lparr>bg_res := (bg_res st)\<lparr>cr_ended := True\<rparr>\<rparr> else st
      | UpError err \<Rightarrow>
          st\<lparr>bg_res := sendRes 502 (J ''mesh bridge upstream error: '' @ errorMessage h err) (bg_res st), bg_upstreamDestroyed := True\<rparr>
      | UpIdle \<Rightarrow> st\<lparr>bg_aborted := firstError (bg_aborted st) (transportError (J ''upstream inactivity timeout after '' @
          showInt TUNNEL_IDLE_TIMEOUT_MS @ J ''ms''))\<rparr>)"

definition newBridged :: Bridged where
  "newBridged = \<lparr>bg_res = newRes, bg_request = None, bg_piped = False, bg_upstreamDestroyed = False, bg_aborted = None\<rparr>"

definition bridgeRequest :: "host \<Rightarrow> platform \<Rightarrow> ProxyDescriptor \<Rightarrow> ClientReq \<Rightarrow> BridgeEvent list \<Rightarrow> Bridged" where
  "bridgeRequest h pl px req evs =
     (case bridgeTarget pl (cq_url req) of
        Inl message \<Rightarrow> newBridged\<lparr>bg_res := respond 400 plainText message newRes\<rparr>
      | Inr u \<Rightarrow> foldl (bridgeStep h px u req) newBridged evs)"

section \<open>CONNECT tunnels\<close>

text \<open>\<open>s.lastIndexOf(":")\<close>\<close>

definition lastColon :: "jsstring \<Rightarrow> nat option" where
  "lastColon s = map_option (\<lambda>i. length s - Suc i) (indexOf (rev s) [58])"

definition connectTarget :: "jsstring option \<Rightarrow> (jsstring \<times> nat) option" where
  "connectTarget url =
     (let target = orEmpty url in
      case lastColon target of
        None \<Rightarrow> None
      | Some sep \<Rightarrow>
          if sep = 0 then None
          else let port = parseInt10 (drop (sep + 1) target) in
            if validPort port then Some (take sep target, portNat port) else None)"

definition connectText :: "ProxyDescriptor \<Rightarrow> jsstring \<Rightarrow> nat \<Rightarrow> jsstring" where
  "connectText px hostname port =
     (let hp = hostname @ J '':'' @ showNat port; crlf = [13, 10] in
      J ''CONNECT '' @ hp @ J '' HTTP/1.1'' @ crlf @ J ''host: '' @ hp @ crlf @
      (case basicCredentials px of Some cred \<Rightarrow> J ''proxy-authorization: '' @ cred @ crlf | None \<Rightarrow> []) @ crlf)"

text \<open>\<open>/\s2\d\d(\s|$)/\<close>\<close>

definition okStatus :: pattern where
  "okStatus = rx (Cat [Space, Lits ''2'', Digit, Digit, Grp (Alts [Space, Eol])])"

text \<open>What is written to the two ends of a tunnel, in order, and what ends it.\<close>

record Tunnel =
  tu_client :: "byte list"
  tu_clientEnded :: bool
  tu_remote :: "byte list"
  tu_buf :: "byte list"
  tu_listening :: bool
  tu_dial :: "(thrown + unit) option"
  tu_piped :: bool

definition settleDial :: "thrown + unit \<Rightarrow> Tunnel \<Rightarrow> Tunnel" where
  "settleDial r st = (case tu_dial st of Some _ \<Rightarrow> st | None \<Rightarrow> st\<lparr>tu_dial := Some r\<rparr>)"

definition toClient :: "byte list \<Rightarrow> Tunnel \<Rightarrow> Tunnel" where
  "toClient bytes st = st\<lparr>tu_client := tu_client st @ bytes\<rparr>"

definition newTunnel :: Tunnel where
  "newTunnel = \<lparr>tu_client = [], tu_clientEnded = False, tu_remote = [], tu_buf = [], tu_listening = True, tu_dial = None, tu_piped = False\<rparr>"

text \<open>The dial through an HTTP proxy: CONNECT is sent, and the answer read up to its empty line.\<close>

definition chainConnect :: "ProxyDescriptor \<Rightarrow> jsstring \<Rightarrow> nat \<Rightarrow> Tunnel \<Rightarrow> Tunnel" where
  "chainConnect px hostname port st = st\<lparr>tu_remote := tu_remote st @ utf8Buffer (connectText px hostname port)\<rparr>"

definition chainData :: "byte list \<Rightarrow> Tunnel \<Rightarrow> Tunnel" where
  "chainData chunk st =
     (if \<not> tu_listening st then st else
      let buf = tu_buf st @ chunk; st = st\<lparr>tu_buf := buf\<rparr> in
        case indexOf buf [13, 10, 13, 10] of
          None \<Rightarrow> st
        | Some fin \<Rightarrow>
            let st = st\<lparr>tu_listening := False\<rparr>;
                statusLine = (case indexOf buf [13, 10] of Some i \<Rightarrow> fromUtf8 (map unat (take i buf)) | None \<Rightarrow> []) in
            if test okStatus statusLine then
              let surplus = drop (fin + 4) buf; st = settleDial (Inr ()) st in
              if surplus \<noteq> [] then toClient surplus st else st
            else settleDial (Inl (transportError (J ''upstream HTTP proxy refused CONNECT: '' @ statusLine))) st)"

definition chainError :: "host \<Rightarrow> thrown \<Rightarrow> Tunnel \<Rightarrow> Tunnel" where
  "chainError h err st = settleDial (Inl (transportError (errorMessage h err))) st"

text \<open>What happens once the dial has settled.\<close>

definition tunnelSettled :: "host \<Rightarrow> byte list \<Rightarrow> Tunnel \<Rightarrow> Tunnel" where
  "tunnelSettled h head st =
     (case tu_dial st of
        None \<Rightarrow> st
      | Some (Inr _) \<Rightarrow>
          let st = toClient (utf8Buffer (J ''HTTP/1.1 200 Connection established'' @ [13, 10, 13, 10])) st in
          st\<lparr>tu_remote := tu_remote st @ head, tu_piped := True\<rparr>
      | Some (Inl err) \<Rightarrow>
          (toClient (utf8Buffer (J ''HTTP/1.1 502 Bad Gateway'' @ [13, 10, 13, 10] @ errorMessage h err)) st)\<lparr>tu_clientEnded := True\<rparr>)"

definition badRequest :: "byte list" where
  "badRequest = utf8Buffer (J ''HTTP/1.1 400 Bad Request'' @ [13, 10, 13, 10])"

text \<open>What the connection to the proxy does: data, or an error (a timeout destroys it with one).\<close>

datatype ChainEvent = Arrives "byte list" | Breaks thrown

text \<open>The continuation of the dial runs when the handler that settled it has returned.\<close>

definition chainStep :: "host \<Rightarrow> byte list \<Rightarrow> Tunnel \<Rightarrow> ChainEvent \<Rightarrow> Tunnel" where
  "chainStep h head st ev =
     (let st' = (case ev of Arrives c \<Rightarrow> if tu_piped st then toClient c st else chainData c st | Breaks err \<Rightarrow> chainError h err st) in
      if tu_dial st = None \<and> tu_dial st' \<noteq> None then tunnelSettled h head st' else st')"

definition refuseTunnel :: Tunnel where
  "refuseTunnel = (toClient badRequest newTunnel)\<lparr>tu_clientEnded := True\<rparr>"

definition connectViaHttp :: "host \<Rightarrow> ProxyDescriptor \<Rightarrow> jsstring option \<Rightarrow> byte list \<Rightarrow> ChainEvent list \<Rightarrow> Tunnel" where
  "connectViaHttp h px url head evs =
     (case connectTarget url of
        None \<Rightarrow> refuseTunnel
      | Some (hostname, port) \<Rightarrow> foldl (chainStep h head) (chainConnect px hostname port newTunnel) evs)"

text \<open>Through a SOCKS5 proxy the handler of \<open>socks5Connect\<close> stays on the socket after the handover.\<close>

definition socksStep :: "host \<Rightarrow> ProxyDescriptor \<Rightarrow> jsstring \<Rightarrow> nat \<Rightarrow> byte list \<Rightarrow> Socks \<times> Tunnel \<Rightarrow> ChainEvent \<Rightarrow> Socks \<times> Tunnel" where
  "socksStep h px hostname port head st ev =
     (case st of (sx, tu) \<Rightarrow>
        let sx' = (case ev of Arrives c \<Rightarrow> onData px hostname port sx c | Breaks err \<Rightarrow> onError h px err sx);
            tu' = (case ev of Arrives c \<Rightarrow> if tu_piped tu then toClient c tu else tu | Breaks err \<Rightarrow> tu) in
        (sx', if tu_dial tu = None \<and> sx_result sx' \<noteq> None then tunnelSettled h head (tu'\<lparr>tu_dial := sx_result sx'\<rparr>) else tu'))"

definition connectViaSocks :: "host \<Rightarrow> ProxyDescriptor \<Rightarrow> jsstring option \<Rightarrow> byte list \<Rightarrow> ChainEvent list \<Rightarrow> Tunnel" where
  "connectViaSocks h px url head evs =
     (case connectTarget url of
        None \<Rightarrow> refuseTunnel
      | Some (hostname, port) \<Rightarrow> snd (foldl (socksStep h px hostname port head) (onConnect px newSocks, newTunnel) evs))"

text \<open>A connection that does not speak HTTP: what is sent before it is ended, if it can be written to.\<close>

definition clientError :: "bool \<Rightarrow> byte list" where
  "clientError writable = (if writable then badRequest else [])"

section \<open>An open tunnel\<close>

text \<open>
  \<open>pipeSockets\<close>: data in either direction, the idle timer's tick, and an end or error of either socket,
  each at the time it happens.
\<close>

datatype PipeEvent = PData | PTick | PDone

record Pipe =
  pi_lastActivity :: int
  pi_timer :: bool
  pi_open :: bool

definition newPipe :: "int \<Rightarrow> Pipe" where
  "newPipe now = \<lparr>pi_lastActivity = now, pi_timer = True, pi_open = True\<rparr>"

definition teardown :: "Pipe \<Rightarrow> Pipe" where
  "teardown st = st\<lparr>pi_open := False\<rparr>"

definition pipeStep :: "Pipe \<Rightarrow> int \<times> PipeEvent \<Rightarrow> Pipe" where
  "pipeStep st te =
     (case te of (now, ev) \<Rightarrow> case ev of
        PData \<Rightarrow> st\<lparr>pi_lastActivity := now\<rparr>
      | PTick \<Rightarrow> if pi_timer st \<and> now - pi_lastActivity st \<ge> TUNNEL_IDLE_TIMEOUT_MS then teardown st else st
      | PDone \<Rightarrow> teardown (st\<lparr>pi_timer := False\<rparr>))"

section \<open>Listening\<close>

text \<open>
  The handler of \<open>error\<close> is installed with \<open>once\<close>; \<open>ls_uncaught\<close> is an \<open>error\<close> event that no handler takes,
  which Node throws.
\<close>

record MeshBridge =
  mb_url :: jsstring
  mb_port :: int

record Listening =
  ls_asked :: "int list"
  ls_handler :: bool
  ls_result :: "(thrown + MeshBridge) option"
  ls_uncaught :: "thrown option"

datatype ListenEvent = ListenOk "int option" | ListenError jsstring thrown

definition listenStep :: "host \<Rightarrow> jsstring \<Rightarrow> int \<Rightarrow> Listening \<Rightarrow> ListenEvent \<Rightarrow> Listening" where
  "listenStep h host requestedPort st ev =
     (case ev of
        ListenError code err \<Rightarrow>
          if \<not> ls_handler st then st\<lparr>ls_uncaught := firstError (ls_uncaught st) err\<rparr>
          else let st = st\<lparr>ls_handler := False\<rparr> in
            if code = J ''EADDRINUSE'' \<and> requestedPort \<noteq> 0 then st\<lparr>ls_asked := ls_asked st @ [0]\<rparr>
            else (case ls_result st of
                    Some _ \<Rightarrow> st
                  | None \<Rightarrow> st\<lparr>ls_result := Some (Inl (configError (J ''mesh bridge failed to listen: '' @ errorMessage h err)))\<rparr>)
      | ListenOk address \<Rightarrow>
          let port = (case address of Some p \<Rightarrow> p | None \<Rightarrow> requestedPort) in
          (case ls_result st of
             Some _ \<Rightarrow> st
           | None \<Rightarrow> st\<lparr>ls_result := Some (Inr \<lparr>mb_url = J ''http://'' @ host @ J '':'' @ showInt port, mb_port = port\<rparr>)\<rparr>))"

definition startMeshProxyBridge :: "host \<Rightarrow> platform \<Rightarrow> jsstring \<Rightarrow> jsstring option \<Rightarrow> int option \<Rightarrow> ListenEvent list \<Rightarrow> thrown + (ProxyDescriptor \<times> Listening)" where
  "startMeshProxyBridge h pl rawProxy hostOpt portOpt evs =
     bindR (parseProxyUrl h pl rawProxy) (\<lambda>px.
     let host = (case hostOpt of Some s \<Rightarrow> s | None \<Rightarrow> J ''127.0.0.1''); requestedPort = (case portOpt of Some p \<Rightarrow> p | None \<Rightarrow> 18080) in
     Inr (px, foldl (listenStep h host requestedPort)
       \<lparr>ls_asked = [requestedPort], ls_handler = True, ls_result = None, ls_uncaught = None\<rparr> evs))"

section \<open>Targets of tunnels\<close>

lemma indexOf_single: "indexOf s [c] = (if c \<in> set s then Some (length (takeWhile (\<lambda>x. x \<noteq> c) s)) else None)"
  by (induction s) (auto simp: startsWith_Nil)

lemma lastColon_split: "58 \<notin> set t \<Longrightarrow> lastColon (s @ 58 # t) = Some (length s)"
  by (simp add: lastColon_def indexOf_single takeWhile_append2 [where P = "\<lambda>x. x \<noteq> 58" and xs = "rev t"])
    (subst takeWhile_append2, auto)

lemma digits_showNat: "c \<in> set (showNat n) \<Longrightarrow> isDig c"
  using set_showNat [of n] by (auto simp: isDig_def)

lemma parseInt10_showNat: "n \<le> 65535 \<Longrightarrow> parseInt10 (showNat n) = Fin (of_nat n)"
proof -
  assume n: "n \<le> 65535"
  obtain c s where cs: "showNat n = c # s" by (cases "showNat n") simp_all
  then have c: "isDig c" using digits_showNat [of c n] by simp
  then have "\<not> isWs c" "c \<noteq> 45" "c \<noteq> 43" by (auto simp: isDig_def isWs_def word_le_nat_alt)
  then have "signOf (dropWhile isWs (showNat n)) = (False, showNat n)" by (simp add: cs signOf_def)
  moreover have digits: "takeWhile isDig (showNat n) = showNat n" using digits_showNat by (simp add: takeWhile_eq_all_conv)
  moreover have "(of_nat n :: rat) \<le> 65535" using n by (metis of_nat_le_iff of_nat_numeral)
  then have "toDouble (of_nat n) = Fin (of_nat n)"
    unfolding toDouble_def by (simp add: OVERFLOW_def)
  ultimately show ?thesis by (simp add: parseInt10_def Config.signed_def digitsVal_showNat digits)
qed

lemma connectTarget_showNat:
  assumes "n \<le> 65535"
  shows "connectTarget (Some (s @ J '':'' @ showNat n)) = (if s \<noteq> [] \<and> 0 < n then Some (s, n) else None)"
proof -
  have "58 \<notin> set (showNat n)" using set_showNat [of n] by (auto simp: word_le_nat_alt)
  then have "lastColon (s @ J '':'' @ showNat n) = Some (length s)" using lastColon_split [of "showNat n" s] by (simp add: J_def)
  moreover have "validPort (Fin (of_nat n)) \<longleftrightarrow> 0 < n" "portNat (Fin (of_nat n)) = n"
    using assms by (simp_all add: validPort_def portNat_def of_nat_le_iff [of n 65535, where 'a = rat, simplified])
  ultimately show ?thesis using assms
    by (cases "n = 0") (simp_all add: connectTarget_def orEmpty_def parseInt10_showNat Let_def J_def validPort_def)
qed

section \<open>Open tunnels\<close>

definition lastData :: "int \<Rightarrow> (int \<times> PipeEvent) list \<Rightarrow> int" where
  "lastData t0 evs = last (t0 # map fst (filter (\<lambda>e. snd e = PData) evs))"

text \<open>The event that ends a tunnel after the events before it.\<close>

definition endsTunnel :: "int \<Rightarrow> (int \<times> PipeEvent) list \<Rightarrow> int \<times> PipeEvent \<Rightarrow> bool" where
  "endsTunnel t0 before e \<longleftrightarrow> snd e = PDone \<or> snd e = PTick \<and> fst e - lastData t0 before \<ge> TUNNEL_IDLE_TIMEOUT_MS"

lemma pipe_activity: "pi_lastActivity (foldl pipeStep (newPipe t0) evs) = lastData t0 evs"
  by (induction evs rule: rev_induct)
    (auto simp: newPipe_def lastData_def pipeStep_def teardown_def split: PipeEvent.split prod.split)

lemma pipe_timer: "pi_open (foldl pipeStep (newPipe t0) evs) \<Longrightarrow> pi_timer (foldl pipeStep (newPipe t0) evs)"
  by (induction evs rule: rev_induct) (auto simp: newPipe_def pipeStep_def teardown_def split: PipeEvent.splits prod.splits if_splits)

lemma pipe_step_open:
  "pi_open (foldl pipeStep (newPipe t0) (evs @ [e])) \<longleftrightarrow> pi_open (foldl pipeStep (newPipe t0) evs) \<and> \<not> endsTunnel t0 evs e"
  using pipe_timer [of t0 evs] pipe_activity [of t0 evs]
  by (cases e; cases "snd e") (auto simp: pipeStep_def teardown_def endsTunnel_def)

section \<open>The answer of a proxy\<close>

definition established :: "byte list" where
  "established = utf8Buffer (J ''HTTP/1.1 200 Connection established'' @ [13, 10, 13, 10])"

definition okAnswer :: "byte list" where
  "okAnswer = utf8Buffer (J ''HTTP/1.1 200 OK'' @ [13, 10, 13, 10])"

lemma okAnswer_bytes: "okAnswer = [72, 84, 84, 80, 47, 49, 46, 49, 32, 50, 48, 48, 32, 79, 75, 13, 10, 13, 10]"
  by (simp add: okAnswer_def utf8Buffer_def toUtf8_def J_def encodeCp_def isHighU_def isLowU_def)

lemma okAnswer_read:
  "indexOf (okAnswer @ surplus) [13, 10, 13, 10] = Some 15" "indexOf (okAnswer @ surplus) [13, 10] = Some 15"
  "take 15 (okAnswer @ surplus) = [72, 84, 84, 80, 47, 49, 46, 49, 32, 50, 48, 48, 32, 79, 75]" "drop 19 (okAnswer @ surplus) = surplus"
  by (simp_all add: okAnswer_bytes)

lemma okAnswer_status: "test okStatus (fromUtf8 (map unat [72 :: byte, 84, 84, 80, 47, 49, 46, 49, 32, 50, 48, 48, 32, 79, 75]))"
proof -
  have line: "fromUtf8 (map unat [72 :: byte, 84, 84, 80, 47, 49, 46, 49, 32, 50, 48, 48, 32, 79, 75]) = J ''HTTP/1.1 200 OK''"
    by (simp add: fromUtf8_def fromCodePoints_def unitsOfCp_def leadByte_def J_def)
  have "ends (rx_icase okStatus) (rx_multiline okStatus) (J ''HTTP/1.1 200 OK'') (rx_body okStatus) 8 \<noteq> []"
    by (simp add: okStatus_def rx_def unitIs_def litAt_J_exact isDigitU_def isWs_def J_def)
  moreover have "8 \<le> length (J ''HTTP/1.1 200 OK'')" by simp
  ultimately show ?thesis unfolding line test_iff by blast
qed

lemma chainData_ok:
  assumes "tu_listening st" "tu_buf st = []" "tu_dial st = None"
  shows "chainData (okAnswer @ surplus) st =
    st\<lparr>tu_buf := okAnswer @ surplus, tu_listening := False, tu_dial := Some (Inr ()), tu_client := tu_client st @ surplus\<rparr>"
  using assms okAnswer_status
  by (simp add: chainData_def okAnswer_read settleDial_def toClient_def Let_def del: take_append drop_append map_append list.map)

lemma dialled_ok: "accepts px bytes \<Longrightarrow> sx_result (onData px host port (onConnect px newSocks) bytes) = Some (Inr ())"
  using greeting_accepts [of "arrive bytes (onConnect px newSocks)" px host port]
  by (simp add: connected onData_def)

lemma settled_tunnel: "tu_dial st = Some (Inr ()) \<Longrightarrow>
    tunnelSettled h head st = st\<lparr>tu_client := tu_client st @ established, tu_remote := tu_remote st @ head, tu_piped := True\<rparr>"
  by (simp add: tunnelSettled_def toClient_def established_def)

section \<open>Requests that are relayed\<close>

lemma upstreamHeaders_endToEnd: "endToEnd (upstreamHeaders headers)"
  unfolding upstreamHeaders_def
  by (rule endToEnd_foldl) (auto simp: endToEnd_assignProp split: prod.split, simp add: endToEnd_def)

lemma relay_chunks:
  "bg_piped st \<Longrightarrow> foldl (bridgeStep h px u req) st (map UpChunk cs) =
     st\<lparr>bg_res := (bg_res st)\<lparr>cr_body := cr_body (bg_res st) @ concat cs\<rparr>\<rparr>"
  by (induction cs arbitrary: st) (simp_all add: bridgeStep_def)

lemma head_kept: "cr_head (bg_res st) = Some first \<Longrightarrow> cr_head (bg_res (foldl (bridgeStep h px u req) st evs)) = Some first"
proof (induction evs arbitrary: st)
  case (Cons ev evs)
  then have "cr_head (bg_res (bridgeStep h px u req st ev)) = Some first"
    by (cases ev) (auto simp: bridgeStep_def sendRes_def)
  with Cons.IH show ?case by simp
qed simp

section \<open>Properties\<close>



text \<open>
  The target of a CONNECT request is read back from \<open>host:port\<close>, also when the host contains colons
  itself, exactly when the host is not empty and the port is between 1 and 65535.
\<close>

theorem connect_target_read_back:
  assumes "port \<le> 65535"
  shows "connectTarget (Some (hostname @ J '':'' @ showNat port)) = (if hostname \<noteq> [] \<and> 0 < port then Some (hostname, port) else None)"
  using assms by (rule connectTarget_showNat)

theorem connect_target_read_back_witness: "connectTarget (Some (J ''::1'' @ J '':'' @ showNat 443)) = Some (J ''::1'', 443)"
  using connect_target_read_back [of 443 "J ''::1''"] by simp


text \<open>
  What the child receives through a tunnel depends on how the proxy's answer is cut into segments.
  Bytes of the target that come in one segment with the answer of an HTTP proxy are written to the
  child before the line that says the connection is established, and after it when they come in a
  segment of their own; those that come in one segment with the reply of a SOCKS5 proxy never reach it.
\<close>

theorem tunnel_depends_on_segments:
  assumes "connectTarget url = Some (hostname, port)" "accepts px reply" "surplus \<noteq> []"
  shows "tu_client (connectViaHttp h px url head [Arrives (okAnswer @ surplus)]) = surplus @ established \<and>
    tu_client (connectViaHttp h px url head [Arrives okAnswer, Arrives surplus]) = established @ surplus \<and>
    tu_client (connectViaSocks h px url head [Arrives (reply @ surplus)]) = established \<and>
    tu_client (connectViaSocks h px url head [Arrives reply, Arrives surplus]) = established @ surplus"
proof (intro conjI)
  let ?st = "chainConnect px hostname port newTunnel"
  have st: "tu_listening ?st" "tu_buf ?st = []" "tu_dial ?st = None" "tu_client ?st = []" "\<not> tu_piped ?st"
    by (simp_all add: chainConnect_def newTunnel_def)
  show "tu_client (connectViaHttp h px url head [Arrives (okAnswer @ surplus)]) = surplus @ established"
    using st by (simp add: connectViaHttp_def assms(1) chainStep_def chainData_ok settled_tunnel Let_def)
  show "tu_client (connectViaHttp h px url head [Arrives okAnswer, Arrives surplus]) = established @ surplus"
    using st chainData_ok [OF st(1,2,3), of "[]"]
    by (simp add: connectViaHttp_def assms(1) chainStep_def settled_tunnel Let_def toClient_def)
  have more: "accepts px (reply @ surplus)" using assms(2) unfolding accepts_def by (metis append.assoc)
  have tu: "tu_dial newTunnel = None" "\<not> tu_piped newTunnel" "tu_client newTunnel = []" by (simp_all add: newTunnel_def)
  show "tu_client (connectViaSocks h px url head [Arrives (reply @ surplus)]) = established"
    using tu dialled_ok [OF more, of hostname port] by (simp add: connectViaSocks_def assms(1) socksStep_def settled_tunnel Let_def)
  show "tu_client (connectViaSocks h px url head [Arrives reply, Arrives surplus]) = established @ surplus"
    using tu dialled_ok [OF assms(2), of hostname port]
    by (simp add: connectViaSocks_def assms(1) socksStep_def settled_tunnel Let_def toClient_def)
qed

theorem tunnel_depends_on_segments_witness:
  "tu_client (connectViaHttp sampleScanHost sampleProxy (Some (J ''vigil:443'')) [] [Arrives (okAnswer @ [1, 2])]) = [1, 2] @ established"
proof -
  have "okReply [5, 0, 0, 1, 10, 0, 0, 1, 19, 136]"
    unfolding okReply_def by (intro exI [of _ 0] exI [of _ "[10, 0, 0, 1]"] exI [of _ "[19, 136]"]) simp
  then have "accepts sampleProxy [5, 0, 5, 0, 0, 1, 10, 0, 0, 1, 19, 136]"
    unfolding accepts_def by (intro exI [of _ "[5, 0, 0, 1, 10, 0, 0, 1, 19, 136]"] exI [of _ "[]"]) simp
  moreover have "connectTarget (Some (J ''vigil:443'')) = Some (J ''vigil'', 443)"
    using connectTarget_showNat [of 443 "J ''vigil''"] by (simp add: showNat.simps J_def)
  ultimately show ?thesis using tunnel_depends_on_segments by blast
qed

text \<open>
  When its port is taken the bridge listens on one the system chooses and reports that port. The
  handler of errors is used up by then: an error of the second attempt settles nothing and is thrown
  by Node as an uncaught exception.
\<close>

theorem busy_port_falls_back:
  assumes "parseProxyUrl h pl rawProxy = Inr px" "requestedPort \<noteq> 0"
  shows "(\<exists>st. startMeshProxyBridge h pl rawProxy None (Some requestedPort) [ListenError (J ''EADDRINUSE'') e, ListenOk (Some p)] = Inr (px, st) \<and>
      ls_asked st = [requestedPort, 0] \<and> ls_uncaught st = None \<and>
      ls_result st = Some (Inr \<lparr>mb_url = J ''http://127.0.0.1:'' @ showInt p, mb_port = p\<rparr>)) \<and>
    (\<exists>st. startMeshProxyBridge h pl rawProxy None (Some requestedPort) [ListenError (J ''EADDRINUSE'') e, ListenError code e'] = Inr (px, st) \<and>
      ls_result st = None \<and> ls_uncaught st = Some e')"
  using assms by (simp add: startMeshProxyBridge_def listenStep_def firstError_def Let_def J_def)

theorem busy_port_falls_back_witness:
  "\<exists>st. startMeshProxyBridge sampleScanHost samplePlatform (J ''http://mesh:8080'') None (Some 18080)
     [ListenError (J ''EADDRINUSE'') (BuiltinError [] []), ListenOk (Some 40000)] = Inr (sampleHttpProxy, st) \<and> ls_asked st = [18080, 0]"
  using busy_port_falls_back [OF sample_mesh(1), of 18080 sampleScanHost "BuiltinError [] []" 40000] by auto

end
