(* ===== verification/Entrypoint.thy ===== *)
theory Entrypoint
  imports RunOutcome Bridge
begin

text \<open>
  The entry point of the evaluator container (\<open>main\<close> and what follows it in \<^verbatim>\<open>src/runner/src/evaluator.ts\<close>):
  the environment, the status writer, the mesh, the scanner, the run itself and what is left behind.
  Here the parts meet: the mesh fetch of theory Mesh carries the scanner's requests, the bridge of theory
  Bridge is started, and \<open>evaluate\<close> of theory Evaluator is run.
\<close>

section \<open>The process\<close>

text \<open>
  What the process reaches beyond what a run reaches: files, the events of the bridge's server, its own
  environment. \<open>pc_writer\<close> is what creating the status writer does (outside a cluster it throws).
\<close>

record 's Process =
  pc_host :: host
  pc_unicode :: unicode
  pc_platform :: platform
  pc_net :: "'s Network"
  pc_out :: "'s Outside"
  pc_environ :: environ
  pc_writer :: "thrown + unit"
  pc_listening :: "'s \<Rightarrow> ListenEvent list \<times> 's"
  pc_closeBridge :: "'s \<Rightarrow> 's"
  pc_setEnviron :: "environ \<Rightarrow> 's \<Rightarrow> 's"
  pc_mkdir :: "jsstring \<Rightarrow> 's \<Rightarrow> (thrown + unit) \<times> 's"
  pc_writeFile :: "jsstring \<Rightarrow> jsstring \<Rightarrow> 's \<Rightarrow> (thrown + unit) \<times> 's"
  pc_join :: "jsstring \<Rightarrow> jsstring \<Rightarrow> jsstring"
  pc_reportText :: "EvaluationReport \<Rightarrow> jsstring"
  pc_messageText :: "TerminationMessage \<Rightarrow> jsstring"
  pc_iso :: "int \<Rightarrow> jsstring"

section \<open>Output\<close>

definition TERMINATION_LOG :: jsstring where "TERMINATION_LOG = J ''/dev/termination-log''"

text \<open>\<open>try { fs.mkdirSync(dir); fs.writeFileSync(...) } catch { ... }\<close>: a failure is logged and forgotten.\<close>

definition writeInto :: "'s Process \<Rightarrow> jsstring \<Rightarrow> string \<Rightarrow> jsstring \<Rightarrow> 's \<Rightarrow> 's" where
  "writeInto pc dir name text w =
     (case pc_mkdir pc dir w of
        (Inl _, w) \<Rightarrow> w
      | (Inr _, w) \<Rightarrow> snd (pc_writeFile pc (pc_join pc dir (J name)) text w))"

definition writeReport :: "'s Process \<Rightarrow> RunnerEnv \<Rightarrow> EvaluationReport \<Rightarrow> 's \<Rightarrow> 's" where
  "writeReport pc env report = writeInto pc (re_outputDir env) ''evaluation-report.json'' (pc_reportText pc report)"

definition writeTerminationMessage :: "'s Process \<Rightarrow> TerminationMessage \<Rightarrow> 's \<Rightarrow> 's" where
  "writeTerminationMessage pc msg w = snd (pc_writeFile pc TERMINATION_LOG (pc_messageText pc msg) w)"

definition touchDone :: "'s Process \<Rightarrow> RunnerEnv \<Rightarrow> 's \<Rightarrow> 's" where
  "touchDone pc env w = (case ow_now (pc_out pc) w of (now, w) \<Rightarrow> writeInto pc (re_ipcDir env) ''done'' (pc_iso pc now) w)"

definition earlyMessage :: "jsstring \<Rightarrow> TerminationMessage" where
  "earlyMessage message = \<lparr>tm_phase = Failed, tm_finalScore = 0, tm_riskCategory = UnknownRisk, tm_message = message\<rparr>"

section \<open>The mesh\<close>

text \<open>
  How the process may end before a run: an exit with a message, or an \<open>error\<close> event without a handler, for
  which no handler of uncaught exceptions is installed yet.
\<close>

datatype 'a Boot = Booted 'a | EarlyExit jsstring | Dies thrown

definition NO_PROXY :: jsstring where
  "NO_PROXY = J ''localhost,127.0.0.1,::1,.svc,.svc.cluster.local,.cluster.local,kubernetes.default''"

definition proxyEnviron :: "jsstring \<Rightarrow> environ \<Rightarrow> environ" where
  "proxyEnviron url env =
     foldl (\<lambda>e (k, v). defineProp e (J k) v) env
       [(''HTTP_PROXY'', url), (''HTTPS_PROXY'', url), (''http_proxy'', url), (''https_proxy'', url),
        (''NO_PROXY'', NO_PROXY), (''no_proxy'', NO_PROXY)]"

text \<open>\<open>None\<close>: the fuel of the waiting loop is used up, or the server never says how listening went.\<close>

definition awaitMesh :: "'s Process \<Rightarrow> RunnerEnv \<Rightarrow> jsstring \<Rightarrow> nat \<Rightarrow> 's \<Rightarrow> (unit Boot \<times> 's) option" where
  "awaitMesh pc env proxy fuel w =
     (if re_dryRun env then Some (Booted (), w)
      else case waitForSocks5Proxy (pc_host pc) (pc_platform pc) (pc_net pc) proxy (re_meshReadyTimeoutMs env) 1000 fuel w of
        None \<Rightarrow> None
      | Some (Inl err, w) \<Rightarrow> Some (EarlyExit (take 2048 (errorMessage (pc_host pc) err)), w)
      | Some (Inr _, w) \<Rightarrow> Some (Booted (), w))"

definition bridgeOutcome :: "host \<Rightarrow> thrown + (ProxyDescriptor \<times> Listening) \<Rightarrow> (MeshBridge Boot) option" where
  "bridgeOutcome h r =
     (let failed = (\<lambda>err. EarlyExit (J ''mesh bridge bootstrap failed: '' @ errorMessage h err)) in
      case r of
        Inl err \<Rightarrow> Some (failed err)
      | Inr (_, st) \<Rightarrow>
          (case ls_result st of
             Some (Inl err) \<Rightarrow> Some (failed err)
           | Some (Inr bridge) \<Rightarrow> Some (Booted bridge)
           | None \<Rightarrow> map_option Dies (ls_uncaught st)))"

definition bootBridge :: "'s Process \<Rightarrow> RunnerEnv \<Rightarrow> jsstring \<Rightarrow> 's \<Rightarrow> (MeshBridge Boot \<times> 's) option" where
  "bootBridge pc env proxy w =
     (case pc_listening pc w of (evs, w) \<Rightarrow>
        case bridgeOutcome (pc_host pc)
               (startMeshProxyBridge (pc_host pc) (pc_platform pc) proxy None (Some (re_meshBridgePort env)) evs) of
          None \<Rightarrow> None
        | Some (Booted bridge) \<Rightarrow> Some (Booted bridge, pc_setEnviron pc (proxyEnviron (mb_url bridge) (pc_environ pc)) w)
        | Some (EarlyExit m) \<Rightarrow> Some (EarlyExit m, w)
        | Some (Dies err) \<Rightarrow> Some (Dies err, w))"

definition bootMesh :: "'s Process \<Rightarrow> RunnerEnv \<Rightarrow> nat \<Rightarrow> 's \<Rightarrow> (MeshBridge option Boot \<times> 's) option" where
  "bootMesh pc env fuel w =
     (case re_meshProxyUrl env of
        None \<Rightarrow> Some (Booted None, w)
      | Some proxy \<Rightarrow>
          (case awaitMesh pc env proxy fuel w of
             None \<Rightarrow> None
           | Some (EarlyExit m, w) \<Rightarrow> Some (EarlyExit m, w)
           | Some (Dies err, w) \<Rightarrow> Some (Dies err, w)
           | Some (Booted _, w) \<Rightarrow>
               (case bootBridge pc env proxy w of
                  None \<Rightarrow> None
                | Some (Booted bridge, w) \<Rightarrow> Some (Booted (Some bridge), w)
                | Some (EarlyExit m, w) \<Rightarrow> Some (EarlyExit m, w)
                | Some (Dies err, w) \<Rightarrow> Some (Dies err, w))))"

section \<open>The run and its end\<close>

definition vigilOptions :: "RunnerEnv \<Rightarrow> VigilClientOptions" where
  "vigilOptions env = \<lparr>vo_timeoutMs = of_int (re_vigilTimeoutMs env), vo_maxPayloadBytes = nat (re_vigilMaxPayloadBytes env),
     vo_retries = None, vo_preferredUrl = re_vigilGpuUrl env, vo_transformerThreshold = Some (re_vigilTransformerThreshold env)\<rparr>"

definition buildVigil :: "RunnerEnv \<Rightarrow> thrown + VigilClient option" where
  "buildVigil env =
     (if re_vigilEnabled env then bindR (newVigilClient (re_vigilUrl env) (vigilOptions env)) (\<lambda>c. Inr (Some c)) else Inr None)"

text \<open>The handler around \<open>evaluate\<close>: the exit code, and the state it leaves.\<close>

definition failureMessage :: "host \<Rightarrow> bool \<Rightarrow> thrown \<Rightarrow> jsstring" where
  "failureMessage h terminated err =
     (let stage = (case err of Runner e \<Rightarrow> runnerStage e | _ \<Rightarrow> J ''unknown'') in
      if terminated then J ''run terminated by signal during '' @ stage @ J '': '' @ errorMessage h err
      else errorName err @ J '' at '' @ stage @ J '': '' @ errorMessage h err)"

definition failedStatus :: "jsstring \<Rightarrow> StatusPatch" where
  "failedStatus message = emptyPatch\<lparr>sp_phase := Some Failed, sp_currentAgent := Some [], sp_message := Some message\<rparr>"

definition guardedRun :: "'s Setting \<Rightarrow> RunState \<times> 's \<Rightarrow> int \<times> RunState \<times> 's" where
  "guardedRun cx s =
     (case evaluate cx s of
        (Inr _, s) \<Rightarrow> (0, s)
      | (Inl err, (rs, w)) \<Rightarrow>
          let message = failureMessage (rn_host cx) (ow_terminated (rn_out cx) w) err in
          (1, modReport (\<lambda>r. r\<lparr>er_phase := Failed, er_message := message\<rparr>) rs, ow_patch (rn_out cx) (failedStatus message) w))"

definition finalMessage :: "EvaluationReport \<Rightarrow> TerminationMessage" where
  "finalMessage report =
     \<lparr>tm_phase = (if er_phase report = Completed then Completed else Failed), tm_finalScore = er_finalScore report,
      tm_riskCategory = sc_riskCategory (er_scoring report), tm_message = take 2048 (er_message report)\<rparr>"

text \<open>\<open>finally\<close>: the client and the bridge are closed, then everything is written, the message last.\<close>

definition closeAll :: "'s Process \<Rightarrow> bool \<Rightarrow> bool \<Rightarrow> 's \<Rightarrow> 's" where
  "closeAll pc client bridge w =
     (let w = (if client then ow_closeClient (pc_out pc) w else w) in if bridge then pc_closeBridge pc w else w)"

definition publish :: "'s Process \<Rightarrow> RunnerEnv \<Rightarrow> EvaluationReport \<Rightarrow> 's \<Rightarrow> 's" where
  "publish pc env report w =
     writeTerminationMessage pc (finalMessage report) (ow_persist (pc_out pc) report (ow_flush (pc_out pc)
       (writeReport pc env report (touchDone pc env w))))"

definition finalise :: "'s Process \<Rightarrow> RunnerEnv \<Rightarrow> bool \<Rightarrow> RunState \<Rightarrow> 's \<Rightarrow> 's" where
  "finalise pc env bridge rs w =
     (case ow_now (pc_out pc) w of (now, w) \<Rightarrow>
        publish pc env ((st_report rs)\<lparr>er_finishedAt := pc_iso pc now\<rparr>) (closeAll pc (st_mcp rs) bridge w))"

definition settingOf :: "'s Process \<Rightarrow> RunnerEnv \<Rightarrow> 's MeshFetch \<Rightarrow> VigilClient option \<Rightarrow> 's Setting" where
  "settingOf pc env fetch vigil =
     \<lparr>rn_host = pc_host pc, rn_unicode = pc_unicode pc, rn_out = (pc_out pc)\<lparr>ow_mesh := fetch\<rparr>, rn_env = env, rn_vigil = vigil\<rparr>"

definition runOnce :: "'s Process \<Rightarrow> RunnerEnv \<Rightarrow> MeshBridge option \<Rightarrow> 's MeshFetch \<Rightarrow> VigilClient option \<Rightarrow> 's \<Rightarrow> int \<times> 's" where
  "runOnce pc env bridge fetch vigil w =
     (case ow_now (pc_out pc) w of (now, w) \<Rightarrow>
        case guardedRun (settingOf pc env fetch vigil)
               (newRunState (newReport env (vigil \<noteq> None) (map_option mb_port bridge) (pc_iso pc now)), w) of
          (code, rs, w) \<Rightarrow> (code, finalise pc env (bridge \<noteq> None) rs w))"

section \<open>The entry point\<close>

text \<open>What \<open>main\<close> does: it returns a code, throws, or the process dies under it.\<close>

datatype MainResult = Code int | Throws thrown | Killed thrown

definition main :: "'s Process \<Rightarrow> nat \<Rightarrow> 's \<Rightarrow> (MainResult \<times> 's) option" where
  "main pc fuel w =
     (let early = (\<lambda>m w. Some (Code 1, writeTerminationMessage pc (earlyMessage m) w)) in
      case readEnv (pc_environ pc) of
        Inl err \<Rightarrow> early (errorMessage (pc_host pc) (Runner err)) w
      | Inr env \<Rightarrow>
          (case pc_writer pc of
             Inl err \<Rightarrow> early (errorMessage (pc_host pc) err) w
           | Inr _ \<Rightarrow>
               (case bootMesh pc env fuel w of
                  None \<Rightarrow> None
                | Some (EarlyExit m, w) \<Rightarrow> early m w
                | Some (Dies err, w) \<Rightarrow> Some (Killed err, w)
                | Some (Booted bridge, w) \<Rightarrow>
                    (case createMeshFetch (pc_host pc) (pc_platform pc) (pc_net pc) (re_meshProxyUrl env) of
                       Inl err \<Rightarrow> Some (Throws err, w)
                     | Inr fetch \<Rightarrow>
                         (case buildVigil env of
                            Inl err \<Rightarrow> Some (Throws err, w)
                          | Inr vigil \<Rightarrow> Some (map_prod Code id (runOnce pc env bridge fetch vigil w)))))))"

text \<open>The exit code of the process.\<close>

definition entrypoint :: "'s Process \<Rightarrow> nat \<Rightarrow> 's \<Rightarrow> (int \<times> 's) option" where
  "entrypoint pc fuel w =
     (case main pc fuel w of
        None \<Rightarrow> None
      | Some (Code c, w) \<Rightarrow> Some (c, w)
      | Some (Throws err, w) \<Rightarrow> Some (1, writeTerminationMessage pc (earlyMessage (errorMessage (pc_host pc) err)) w)
      | Some (Killed err, w) \<Rightarrow> Some (1, w))"

text \<open>
  The handler of uncaught exceptions and rejections while a run is under way: \<open>crashHandled\<close>, the report
  and the world. It ends the process with code 1 once the status is patched.
\<close>

definition fatalCrash :: "'s Process \<Rightarrow> string \<Rightarrow> thrown \<Rightarrow> bool \<times> EvaluationReport \<times> 's \<Rightarrow> bool \<times> EvaluationReport \<times> 's" where
  "fatalCrash pc kind err st =
     (case st of (crashHandled, report, w) \<Rightarrow>
        if crashHandled then st
        else
          let message = take 2048 (J kind @ J '': '' @ errorName err @ J '': '' @ errorMessage (pc_host pc) err);
              report = report\<lparr>er_phase := Failed, er_message := message\<rparr> in
          (True, report, ow_patch (pc_out pc) (failedStatus message)
             (writeTerminationMessage pc (finalMessage report) w)))"

section \<open>The end of a run\<close>

text \<open>
  What a run leaves: a code that says whether the report is of a completed run; the status patch of the
  same phase and message came last; scores in range if it completed; an injection keeps its verdict.
\<close>

definition ended :: "'s Outside \<Rightarrow> int \<Rightarrow> EvaluationReport \<Rightarrow> 's \<Rightarrow> bool" where
  "ended out code report w \<longleftrightarrow>
     er_phase report = (if code = 0 then Completed else Failed) \<and> (code = 0 \<or> code = 1) \<and> (code = 0 \<longrightarrow> scoresOk report) \<and>
     (\<exists>w0. w = ow_patch out (emptyPatch\<lparr>sp_phase := Some (er_phase report), sp_currentAgent := Some [], sp_message := Some (er_message report)\<rparr>) w0)"

lemma guardedRun_ended:
  assumes "guardedRun cx (newRunState (newReport env on port t), w) = (code, rs, w')"
  shows "ended (rn_out cx) code (st_report rs) w'"
proof -
  obtain r rs1 w1 where run: "evaluate cx (newRunState (newReport env on port t), w) = (r, (rs1, w1))" by (metis prod_cases3)
  show ?thesis
  proof (cases r)
    case (Inl err)
    then show ?thesis using assms run by (auto simp: guardedRun_def Let_def ended_def modReport_def failedStatus_def)
  next
    case (Inr u)
    then have eq: "code = 0" "rs = rs1" "w' = w1" using assms run by (simp_all add: guardedRun_def)
    from evaluate_return [OF run [unfolded Inr]] show ?thesis
      unfolding ended_def eq by (elim exE conjE) (auto simp: runInv_def)
  qed
qed

lemma ended_out: "ended (out\<lparr>ow_mesh := fetch\<rparr>) code report w \<longleftrightarrow> ended out code report w"
  by (simp add: ended_def)

lemma finalMessage_phase: "ended out code report w \<Longrightarrow> tm_phase (finalMessage report) = Completed \<longleftrightarrow> code = 0"
  by (auto simp: ended_def finalMessage_def)

lemma runOnce_ended:
  assumes "runOnce pc env bridge fetch vigil w = (code, w')"
  shows "\<exists>(rs :: RunState) now w1 w2. ended (pc_out pc) code (st_report rs) w1 \<and> ow_now (pc_out pc) w1 = (now, w2) \<and>
    w' = publish pc env ((st_report rs)\<lparr>er_finishedAt := pc_iso pc now\<rparr>) (closeAll pc (st_mcp rs) (bridge \<noteq> None) w2)"
proof -
  obtain now0 w0 where n0: "ow_now (pc_out pc) w = (now0, w0)" by (rule prod.exhaust)
  obtain rs w1 where g: "guardedRun (settingOf pc env fetch vigil)
      (newRunState (newReport env (vigil \<noteq> None) (map_option mb_port bridge) (pc_iso pc now0)), w0) = (code, rs, w1)"
    and fin: "w' = finalise pc env (bridge \<noteq> None) rs w1"
    using assms n0 by (auto simp: runOnce_def split: prod.splits)
  obtain now w2 where n: "ow_now (pc_out pc) w1 = (now, w2)" by (rule prod.exhaust)
  have "ended (pc_out pc) code (st_report rs) w1"
    using guardedRun_ended [OF g] by (simp add: settingOf_def ended_out)
  moreover have "w' = publish pc env ((st_report rs)\<lparr>er_finishedAt := pc_iso pc now\<rparr>) (closeAll pc (st_mcp rs) (bridge \<noteq> None) w2)"
    using fin n by (simp add: finalise_def)
  ultimately show ?thesis using n by blast
qed

section \<open>How the process can end\<close>

lemma main_Code:
  fixes w :: 'a
  assumes "main pc fuel w = Some (Code c, w')"
  shows "(\<exists>m w0. c = 1 \<and> w' = writeTerminationMessage pc (earlyMessage m) w0) \<or>
    (\<exists>env bridge fetch vigil w0. readEnv (pc_environ pc) = Inr env \<and> runOnce pc env bridge fetch vigil w0 = (c, w'))"
proof -
  have code: "map_prod Code id p = (Code c, w') \<longleftrightarrow> p = (c, w')" for p :: "int \<times> 'a" by (cases p) simp
  show ?thesis using assms unfolding main_def Let_def
    by (auto simp: code split: sum.splits option.splits prod.splits Boot.splits)
qed

text \<open>The server says how listening went: its promise settles, or an error escapes.\<close>

definition saysListening :: "'s Process \<Rightarrow> bool" where
  "saysListening pc \<longleftrightarrow> (\<forall>port proxy w px st. startMeshProxyBridge (pc_host pc) (pc_platform pc) proxy None (Some port)
      (fst (pc_listening pc w)) = Inr (px, st) \<longrightarrow> ls_result st \<noteq> None \<or> ls_uncaught st \<noteq> None)"

lemma bootBridge_ends: "saysListening pc \<Longrightarrow> bootBridge pc env proxy w \<noteq> None"
proof -
  assume "saysListening pc"
  then have "startMeshProxyBridge (pc_host pc) (pc_platform pc) proxy None (Some (re_meshBridgePort env)) evs = Inr (px, st) \<Longrightarrow>
      pc_listening pc w = (evs, w1) \<Longrightarrow> ls_result st \<noteq> None \<or> ls_uncaught st \<noteq> None" for evs w1 px st
    unfolding saysListening_def by (metis fst_conv)
  then show ?thesis
    by (fastforce simp: bootBridge_def bridgeOutcome_def Let_def split: prod.splits sum.splits option.splits Boot.splits)
qed

lemma awaitMesh_ends:
  assumes "keepsTime (pc_net pc) clock" "0 \<le> re_meshReadyTimeoutMs env" "nat (re_meshReadyTimeoutMs env div 1000) + 2 \<le> fuel"
  shows "awaitMesh pc env proxy fuel w \<noteq> None"
  using waitForSocks5Proxy_ends [OF assms(1) _ assms(2,3), of "pc_host pc" "pc_platform pc" proxy w]
  by (auto simp: awaitMesh_def split: sum.splits)

lemma bootMesh_ends:
  assumes "keepsTime (pc_net pc) clock" "saysListening pc" "0 \<le> re_meshReadyTimeoutMs env"
    "nat (re_meshReadyTimeoutMs env div 1000) + 2 \<le> fuel"
  shows "bootMesh pc env fuel w \<noteq> None"
proof (cases "re_meshProxyUrl env")
  case (Some proxy)
  have "awaitMesh pc env proxy fuel w \<noteq> None" by (rule awaitMesh_ends [OF assms(1,3,4)])
  then obtain b w1 where "awaitMesh pc env proxy fuel w = Some (b, w1)" by auto
  moreover obtain b2 w2 where "bootBridge pc env proxy w1 = Some (b2, w2)"
    using bootBridge_ends [OF assms(2), of env proxy w1] by auto
  ultimately show ?thesis using Some by (cases b; cases b2) (simp_all add: bootMesh_def)
qed (simp add: bootMesh_def)

lemma early_phase [simp]: "tm_phase (earlyMessage m) = Failed"
  by (simp add: earlyMessage_def)

lemma publish_message: "\<exists>w0. publish pc env report w = writeTerminationMessage pc (finalMessage report) w0"
  unfolding publish_def by blast

section \<open>A sample process\<close>

text \<open>The run of theory RunOutcome in a process whose time passes only when it sleeps.\<close>

definition tickingNet :: "StatusPatch list Network" where
  "tickingNet = \<lparr>nt_dial = (\<lambda>px host port t w. (Inr 1, w)), nt_request = (\<lambda>q t w. (Inr \<lparr>rr_status = 200, rr_headers = [], rr_body = []\<rparr>, w)),
     nt_destroy = (\<lambda>s w. w), nt_trace = (\<lambda>w. []), nt_probe = (\<lambda>host port t w. (True, w)), nt_now = (\<lambda>w. (int (length w), w)),
     nt_sleep = (\<lambda>t w. w @ replicate (nat t) emptyPatch)\<rparr>"

definition sampleProcess :: "environ \<Rightarrow> StatusPatch list Process" where
  "sampleProcess env =
     \<lparr>pc_host = sampleHost [], pc_unicode = plainUnicode, pc_platform = samplePlatform, pc_net = tickingNet, pc_out = rn_out runSetting,
      pc_environ = env, pc_writer = Inr (), pc_listening = (\<lambda>w. ([ListenOk None], w)), pc_closeBridge = (\<lambda>w. w),
      pc_setEnviron = (\<lambda>e w. w), pc_mkdir = (\<lambda>d w. (Inr (), w)), pc_writeFile = (\<lambda>f t w. (Inr (), w)),
      pc_join = (\<lambda>a b. a @ J ''/'' @ b), pc_reportText = (\<lambda>r. []), pc_messageText = (\<lambda>m. tm_message m), pc_iso = (\<lambda>t. [])\<rparr>"

definition strandedEnviron :: environ where
  "strandedEnviron = sampleEnviron @ [(J ''MESH_PROXY'', []), (J ''VIGIL_URL'', J ''vigil:5000'')]"

lemma stranded_env:
  "\<exists>env. readEnv strandedEnviron = Inr env \<and> re_meshProxyUrl env = None \<and> re_vigilEnabled env \<and> \<not> isHttpUrl (re_vigilUrl env) \<and>
     re_meshReadyTimeoutMs env = 60000"
proof -
  have "(case readEnv strandedEnviron of Inl _ \<Rightarrow> False | Inr r \<Rightarrow> re_meshProxyUrl r = None \<and> re_vigilEnabled r \<and> \<not> isHttpUrl (re_vigilUrl r) \<and>
      re_meshReadyTimeoutMs r = 60000)"
    by code_simp
  then show ?thesis by (auto split: sum.splits)
qed

lemma tickingNet_time: "keepsTime tickingNet (\<lambda>w. int (length w))"
  by (simp add: keepsTime_def tickingNet_def)

lemma sampleProcess_listens: "saysListening (sampleProcess env)"
  by (auto simp: saysListening_def sampleProcess_def startMeshProxyBridge_def listenStep_def Let_def)

section \<open>Properties\<close>





text \<open>
  A configuration that passes every check of \<open>readEnv\<close> can still end the process before the run, in
  a call of \<open>main\<close> that nothing guards: with a scanner URL that is not absolute the process exits with 1 and all it has
  done is to write the termination message. The status of the run was not patched, and the sentinel that
  the target waits for was not written.
\<close>

theorem unusable_scanner_url_strands_run:
  assumes "readEnv (pc_environ pc) = Inr env" "pc_writer pc = Inr ()" "re_meshProxyUrl env = None"
    "re_vigilEnabled env" "\<not> isHttpUrl (re_vigilUrl env)"
  shows "\<exists>m. entrypoint pc fuel w = Some (1, writeTerminationMessage pc (earlyMessage m) w)"
  by (rule exI, insert assms) (simp add: entrypoint_def main_def bootMesh_def createMeshFetch_def buildVigil_def newVigilClient_def Let_def)

theorem unusable_scanner_url_strands_run_witness:
  "\<exists>m. entrypoint (sampleProcess strandedEnviron) 0 [] = Some (1, writeTerminationMessage (sampleProcess strandedEnviron) (earlyMessage m) [])"
proof -
  obtain env where env: "readEnv strandedEnviron = Inr env" "re_meshProxyUrl env = None" "re_vigilEnabled env" "\<not> isHttpUrl (re_vigilUrl env)"
    using stranded_env by blast
  then show ?thesis using unusable_scanner_url_strands_run [of "sampleProcess strandedEnviron" env] by (simp add: sampleProcess_def)
qed

end
