(* ===== verification/Patterns.thy ===== *)
theory Patterns
  imports Regex
begin

text \<open>
  Which texts the anchored patterns of the dashboard accept. Backtracking only decides which match is found
  first; a pattern \<open>^...$\<close> accepts a text when any match from its start reaches its end.
\<close>

section \<open>Texts an anchored pattern accepts\<close>

text \<open>A pattern \<open>^...$\<close> accepts a text when a match from its start reaches its end.\<close>

lemma endsCat_append:
  "set (endsCat ic ml s (rs @ rs') i) = (\<Union>k \<in> set (endsCat ic ml s rs i). set (endsCat ic ml s rs' k))"
  by (induction rs arbitrary: i) auto

lemma test_anchored:
  "test (rx (Cat (Bol # rs @ [Eol]))) s \<longleftrightarrow> length s \<in> set (endsCat False False s rs 0)"
proof -
  have "test (rx (Cat (Bol # rs @ [Eol]))) s \<longleftrightarrow> endsCat False False s (rs @ [Eol]) 0 \<noteq> []"
    by (auto simp: test_iff rx_def)
  also have "\<dots> \<longleftrightarrow> set (endsCat False False s (rs @ [Eol]) 0) \<noteq> {}" by simp
  also have "\<dots> \<longleftrightarrow> length s \<in> set (endsCat False False s rs 0)"
    by (auto simp: endsCat_append split: if_splits)
  finally show ?thesis .
qed

text \<open>A repeated class: the matches are the runs of units of the class, within the bounds of the quantifier.\<close>

definition runIn :: "(jschar \<Rightarrow> bool) \<Rightarrow> jsstring \<Rightarrow> nat \<Rightarrow> nat \<Rightarrow> bool" where
  "runIn P s i j \<longleftrightarrow> i \<le> j \<and> (\<forall>k. i \<le> k \<and> k < j \<longrightarrow> k < length s \<and> P (s ! k))"

lemma runIn_le: "runIn P s i j \<Longrightarrow> i \<le> j"
  by (simp add: runIn_def)

lemma runIn_step: "runIn P s i j \<longleftrightarrow> j = i \<or> i < length s \<and> P (s ! i) \<and> runIn P s (Suc i) j"
proof
  assume r: "runIn P s i j"
  show "j = i \<or> i < length s \<and> P (s ! i) \<and> runIn P s (Suc i) j"
  proof (cases "j = i")
    case False
    with r show ?thesis by (simp add: runIn_def)
  qed simp
next
  assume "j = i \<or> i < length s \<and> P (s ! i) \<and> runIn P s (Suc i) j"
  then show "runIn P s i j" unfolding runIn_def by (metis Suc_leD le_neq_implies_less not_less order_refl Suc_leI)
qed

lemma set_repMax_unit: "set (repMax (unitIs P s) g n i) = {j. runIn P s i j \<and> j \<le> i + n}"
proof (induction n arbitrary: i)
  case 0
  then show ?case by (auto simp: runIn_def)
next
  case (Suc n)
  have "set (repMax (unitIs P s) g (Suc n) i) =
    insert i (if i < length s \<and> P (s ! i) then {j. runIn P s (Suc i) j \<and> j \<le> Suc i + n} else {})"
    by (cases g; cases "i < length s \<and> P (s ! i)") (use Suc.IH [of "Suc i"] in \<open>auto simp: unitIs_def [of P s i] Let_def\<close>)
  also have "\<dots> = {j. runIn P s i j \<and> j \<le> i + Suc n}"
    unfolding runIn_step [of P s i] set_eq_iff by (auto dest: runIn_le)
  finally show ?case .
qed

lemma set_repMin_unit: "set (repMin (unitIs P s) n i) = {j. runIn P s i j \<and> j = i + n}"
proof (induction n arbitrary: i)
  case 0
  then show ?case by (auto simp: runIn_def)
next
  case (Suc n)
  have "set (repMin (unitIs P s) (Suc n) i) = (if i < length s \<and> P (s ! i) then {j. runIn P s (Suc i) j \<and> j = Suc i + n} else {})"
    using Suc.IH [of "Suc i"] by (auto simp: unitIs_def)
  also have "\<dots> = {j. runIn P s i j \<and> j = i + Suc n}"
    unfolding runIn_step [of P s i] set_eq_iff by (auto dest: runIn_le)
  finally show ?case .
qed

lemma runIn_trans: "runIn P s i k \<Longrightarrow> runIn P s k j \<Longrightarrow> runIn P s i j"
  unfolding runIn_def by (metis le_trans not_less)

lemma runIn_split: "runIn P s i j \<Longrightarrow> i \<le> k \<Longrightarrow> k \<le> j \<Longrightarrow> runIn P s i k \<and> runIn P s k j"
  unfolding runIn_def by auto

lemma runIn_all: "runIn P s 0 (length s) \<longleftrightarrow> list_all P s"
  by (auto simp: runIn_def list_all_length)

lemma set_ends_between:
  assumes "lo \<le> hi" "\<And>i. ends False False s r i = unitIs P s i"
  shows "set (ends False False s (betweenR lo hi r) i) = {j. runIn P s i j \<and> i + lo \<le> j \<and> j \<le> i + hi}"
proof -
  have e: "ends False False s r = unitIs P s" using assms(2) by auto
  have "set (ends False False s (betweenR lo hi r) i) = {j. \<exists>k. runIn P s i k \<and> k = i + lo \<and> runIn P s k j \<and> j \<le> k + (hi - lo)}"
    by (auto simp: betweenR_def e set_repMin_unit set_repMax_unit)
  also have "\<dots> = {j. runIn P s i j \<and> i + lo \<le> j \<and> j \<le> i + hi}"
  proof (rule Collect_cong)
    fix j
    show "(\<exists>k. runIn P s i k \<and> k = i + lo \<and> runIn P s k j \<and> j \<le> k + (hi - lo)) \<longleftrightarrow> runIn P s i j \<and> i + lo \<le> j \<and> j \<le> i + hi"
      using assms(1) runIn_trans [of P s i "i + lo" j] runIn_split [of P s i j "i + lo"] runIn_le [of P s "i + lo" j]
      by auto
  qed
  finally show ?thesis .
qed

lemma runIn_bound: "runIn P s i j \<Longrightarrow> i \<le> length s \<Longrightarrow> j \<le> length s"
  unfolding runIn_def by (metis Suc_leI diff_Suc_1 lessI less_eq_Suc_le not_less_eq_eq le_antisym nat_le_linear)

lemma set_ends_many:
  assumes "i \<le> length s" "\<And>i. ends False False s r i = unitIs P s i"
  shows "set (ends False False s (manyR r) i) = {j. runIn P s i j \<and> j \<le> i + length s}"
proof -
  have e: "ends False False s r = unitIs P s" using assms(2) by auto
  show ?thesis
    using assms(1) runIn_bound [of P s i] by (auto simp: manyR_def e set_repMax_unit intro: trans_le_add2)
qed

text \<open>A bounded run of a class, \<open>^[...]{lo,hi}$\<close>.\<close>

lemma test_bounded_run:
  assumes "lo \<le> hi" "\<And>i. ends False False s r i = unitIs P s i"
  shows "test (rx (Cat [Bol, betweenR lo hi r, Eol])) s \<longleftrightarrow> lo \<le> length s \<and> length s \<le> hi \<and> list_all P s"
  using test_anchored [of "[betweenR lo hi r]" s] by (auto simp: set_ends_between [OF assms] runIn_all)

text \<open>The shape of the names, \<open>^a(m a)?$\<close>: \<open>a\<close> at both edges, \<open>m\<close> a run of a wider class between them.\<close>

definition edged :: "regex \<Rightarrow> regex \<Rightarrow> pattern" where
  "edged a m = rx (Cat [Bol, a, optR (Grp (Cat [m, a])), Eol])"

lemma test_edged:
  assumes a: "\<And>i. ends False False s a i = unitIs P s i"
    and m: "\<And>i. i \<le> length s \<Longrightarrow> set (ends False False s m i) = {j. runIn Q s i j \<and> j \<le> i + n}"
    and PQ: "\<And>c. P c \<Longrightarrow> Q c"
  shows "test (edged a m) s \<longleftrightarrow> s \<noteq> [] \<and> length s \<le> n + 2 \<and> list_all Q s \<and> P (hd s) \<and> P (last s)"
proof (cases s)
  case Nil
  then show ?thesis
    unfolding edged_def using test_anchored [of "[a, optR (Grp (Cat [m, a]))]" s] a [of 0] by (simp add: unitIs_def)
next
  case (Cons c t)
  let ?N = "length s"
  have opt: "set (ends False False s (optR (Grp (Cat [m, a]))) 1) =
    insert 1 {Suc k | k. runIn Q s 1 k \<and> k \<le> 1 + n \<and> k < ?N \<and> P (s ! k)}"
  proof -
    have one: "1 \<le> length s" using Cons by simp
    show ?thesis
      using runIn_le [of Q s 1] by (auto simp: optR_def a unitIs_def m [OF one, simplified] Let_def split: if_splits)
  qed
  have "test (edged a m) s \<longleftrightarrow> P (hd s) \<and> ?N \<in> set (ends False False s (optR (Grp (Cat [m, a]))) 1)"
    unfolding edged_def using test_anchored [of "[a, optR (Grp (Cat [m, a]))]" s] a [of 0] Cons by (auto simp: unitIs_def)
  also have "\<dots> \<longleftrightarrow> P (hd s) \<and> (t = [] \<or> t \<noteq> [] \<and> ?N \<le> n + 2 \<and> list_all Q (butlast t) \<and> P (last s))"
  proof (cases t rule: rev_cases)
    case (snoc u d)
    have r: "runIn Q s 1 (Suc (length u)) \<longleftrightarrow> list_all Q u"
    proof -
      have "runIn Q s 1 (Suc (length u)) \<longleftrightarrow> (\<forall>k < length u. Q (u ! k))"
        unfolding runIn_def Cons snoc
        by (auto simp: nth_append less_Suc_eq_le Suc_le_eq split: nat.splits)
      then show ?thesis by (simp add: list_all_length)
    qed
    then show ?thesis unfolding opt by (auto simp: Cons snoc nth_append)
  next
    case Nil
    then show ?thesis unfolding opt by (simp add: Cons)
  qed
  also have "\<dots> \<longleftrightarrow> s \<noteq> [] \<and> ?N \<le> n + 2 \<and> list_all Q s \<and> P (hd s) \<and> P (last s)"
    using PQ by (cases t rule: rev_cases) (auto simp: Cons)
  finally show ?thesis .
qed

text \<open>A pattern that only writes units of a class matches only runs of it.\<close>

fun writesOnly :: "(jschar \<Rightarrow> bool) \<Rightarrow> regex \<Rightarrow> bool" where
  "writesOnly P (Lits cs) = list_all P (J cs)"
| "writesOnly P (Items neg items) = (\<forall>c. list_ex (inItem False c) items \<noteq> neg \<longrightarrow> P c)"
| "writesOnly P (Cat rs) = list_all (writesOnly P) rs"
| "writesOnly P (Alts rs) = list_all (writesOnly P) rs"
| "writesOnly P (Grp r) = writesOnly P r"
| "writesOnly P (Rep r lo hi greedy) = writesOnly P r"
| "writesOnly P Bol = True"
| "writesOnly P Eol = True"
| "writesOnly P WordB = True"
| "writesOnly P Digit = (\<forall>c. isDigitU c \<longrightarrow> P c)"
| "writesOnly P _ = False"

lemma runIn_refl: "runIn P s i i"
  by (auto simp: runIn_def)

lemma runIn_unit: "j \<in> set (unitIs Q s i) \<Longrightarrow> (\<And>c. Q c \<Longrightarrow> P c) \<Longrightarrow> runIn P s i j"
  by (auto simp: unitIs_def runIn_def less_Suc_eq_le le_antisym split: if_splits)

lemma runIn_repMin:
  assumes "\<And>i j. j \<in> set (f i) \<Longrightarrow> runIn P s i j"
  shows "j \<in> set (repMin f n i) \<Longrightarrow> runIn P s i j"
  by (induction n arbitrary: i) (auto intro: runIn_refl runIn_trans assms)

lemma runIn_repMax:
  assumes "\<And>i j. j \<in> set (f i) \<Longrightarrow> runIn P s i j"
  shows "j \<in> set (repMax f g n i) \<Longrightarrow> runIn P s i j"
  by (induction n arbitrary: i) (auto simp: Let_def intro: runIn_refl runIn_trans assms split: if_splits)

lemma runIn_lits:
  assumes "litAt False s (J cs) i" "list_all P (J cs)"
  shows "runIn P s i (i + length cs)"
  unfolding runIn_def
proof (intro conjI allI impI)
  from assms(1) obtain z where z: "drop i s = J cs @ z" by (auto simp: litAt_J_exact prefix_def)
  have len: "length cs + length z = length s - i" using arg_cong [OF z, of length] by simp
  fix k assume k: "i \<le> k \<and> k < i + length cs"
  with len show l: "k < length s" by arith
  with k have "drop i s ! (k - i) = s ! k" by (subst nth_drop) simp_all
  then have "s ! k = J cs ! (k - i)" using arg_cong [OF z, of "\<lambda>l. l ! (k - i)"] k len by (simp add: nth_append less_diff_conv2)
  with assms(2) k show "P (s ! k)" by (simp add: list_all_length less_diff_conv2)
qed simp

lemma ends_runIn:
  "j \<in> set (ends False False s r i) \<Longrightarrow> writesOnly P r \<Longrightarrow> runIn P s i j"
  "j \<in> set (endsCat False False s rs i) \<Longrightarrow> list_all (writesOnly P) rs \<Longrightarrow> runIn P s i j"
  "j \<in> set (endsAlt False False s rs i) \<Longrightarrow> list_all (writesOnly P) rs \<Longrightarrow> runIn P s i j"
proof (induction False False s r i and False False s rs i and False False s rs i arbitrary: j and j and j rule: ends_endsCat_endsAlt.induct)
  case (11 s r lo hi greedy i)
  then obtain k where k: "k \<in> set (repMin (ends False False s r) lo i)"
    and j: "j \<in> set (repMax (ends False False s r) greedy (case hi of None \<Rightarrow> length s - k | Some h \<Rightarrow> h - lo) k)" by auto
  have step: "\<And>i j. j \<in> set (ends False False s r i) \<Longrightarrow> runIn P s i j"
    using "11.hyps" "11.prems"(2) by auto
  from runIn_trans [OF runIn_repMin [OF step k] runIn_repMax [OF step j]] show ?case .
qed (auto intro: runIn_lits runIn_unit runIn_refl runIn_trans split: if_splits)

end
