(* ===== verification/Logs.thy ===== *)
theory Logs
  imports Utf8 Json Regex
begin

text \<open>
  The evaluator's log as the dashboard reads it (\<^verbatim>\<open>src/frontend/src/model/logs.ts\<close>) and the follower that
  streams it to a browser (\<open>LogFollower\<close> of \<^verbatim>\<open>src/frontend/server/live.ts\<close>).
\<close>

section \<open>Lines\<close>

text \<open>A line is the object it was parsed from, with the four fields every line has.\<close>

type_synonym LogLine = jsobj

definition lineField :: "LogLine \<Rightarrow> string \<Rightarrow> jsval option" where
  "lineField l k = fld l (J k)"

definition lineStr :: "LogLine \<Rightarrow> string \<Rightarrow> jsstring" where
  "lineStr l k = (case asStr (lineField l k) of Some s \<Rightarrow> s | None \<Rightarrow> [])"

definition RESERVED :: "jsstring list" where
  "RESERVED = map J [''ts'', ''level'', ''component'', ''msg'', ''run'', ''namespace'', ''trace_id'', ''span_id'']"

definition levelOf :: "jsval option \<Rightarrow> jsstring" where
  "levelOf v = (case asStr v of
     Some s \<Rightarrow> if s = J ''debug'' \<or> s = J ''warn'' \<or> s = J ''error'' then s else J ''info''
   | None \<Rightarrow> J ''info'')"

definition componentOf :: "jsval option \<Rightarrow> jsstring" where
  "componentOf v = (case asStr v of Some s \<Rightarrow> s | None \<Rightarrow> J ''evaluator'')"

definition lineOf :: "jsobj \<Rightarrow> jsstring \<Rightarrow> jsstring \<Rightarrow> LogLine" where
  "lineOf r ts msg =
     foldl (\<lambda>l (k, v). defineProp l (J k) (JStr v)) r
       [(''ts'', ts), (''msg'', msg), (''component'', componentOf (fld r (J ''component''))), (''level'', levelOf (fld r (J ''level'')))]"

text \<open>An array has no \<open>ts\<close>, so it is dropped like everything else that is not an object.\<close>

definition parseLogLine :: "host \<Rightarrow> jsstring \<Rightarrow> LogLine option" where
  "parseLogLine h raw =
     (let text = trimS raw in
      if \<not> startsWith text (J ''{'') then None
      else case hParse h text of
        Some (JObj r) \<Rightarrow>
          (case (asStr (fld r (J ''ts'')), asStr (fld r (J ''msg''))) of
             (Some ts, Some msg) \<Rightarrow> Some (lineOf r ts msg)
           | _ \<Rightarrow> None)
      | _ \<Rightarrow> None)"

definition extraFields :: "LogLine \<Rightarrow> jsobj" where
  "extraFields l = filter (\<lambda>(k, v). k \<notin> set RESERVED) l"

definition formatValue :: "host \<Rightarrow> jsval \<Rightarrow> jsstring" where
  "formatValue h v = (case v of JStr s \<Rightarrow> if test (rx Space) s then hStringify h v else s | _ \<Rightarrow> hStringify h v)"

definition RESET :: jsstring where "RESET = 27 # J ''[0m''"
definition DIM :: jsstring where "DIM = 27 # J ''[2m''"
definition BOLD :: jsstring where "BOLD = 27 # J ''[1m''"

definition LEVEL_STYLE :: "jsstring \<Rightarrow> jsstring" where
  "LEVEL_STYLE level = 27 #
     (if level = J ''debug'' then J ''[90m'' else if level = J ''warn'' then J ''[33m''
      else if level = J ''error'' then J ''[1;31m'' else J ''[36m'')"

text \<open>\<open>level.toUpperCase().padEnd(5)\<close> of the four levels.\<close>

definition levelTag :: "jsstring \<Rightarrow> jsstring" where
  "levelTag level =
     (if level = J ''debug'' then J ''DEBUG'' else if level = J ''warn'' then J ''WARN ''
      else if level = J ''error'' then J ''ERROR'' else J ''INFO '')"

text \<open>\<open>localTime\<close> is what \<open>Date\<close> makes of a time stamp, \<open>None\<close> for one it cannot read.\<close>

definition formatForTerminal :: "host \<Rightarrow> (jsstring \<Rightarrow> jsstring option) \<Rightarrow> LogLine \<Rightarrow> jsstring" where
  "formatForTerminal h localTime l =
     (let ts = lineStr l ''ts'';
          time = (case localTime ts of None \<Rightarrow> ts | Some t \<Rightarrow> t);
          level = lineStr l ''level'';
          fields = joinS (J '' '') (map (\<lambda>(k, v). DIM @ k @ J ''='' @ RESET @ formatValue h v) (extraFields l)) in
      DIM @ time @ RESET @ J '' '' @ LEVEL_STYLE level @ levelTag level @ RESET @ J '' '' @ DIM @ lineStr l ''component'' @ RESET @
      J '' '' @ BOLD @ lineStr l ''msg'' @ RESET @ (if fields \<noteq> [] then J ''  '' @ fields else []))"

section \<open>Following a run\<close>

text \<open>
  The part of a follower that handles one attachment: \<open>lf_sent\<close> are the batches the client was sent,
  each with its \<open>reset\<close> flag. \<open>chunk.toString("utf8")\<close> decodes every chunk by itself.
\<close>

record Follower =
  lf_buffer :: jsstring
  lf_pending :: "LogLine list"
  lf_timer :: bool
  lf_reset :: bool
  lf_sent :: "(LogLine list \<times> bool) list"

definition newFollower :: Follower where
  "newFollower = \<lparr>lf_buffer = [], lf_pending = [], lf_timer = False, lf_reset = False, lf_sent = []\<rparr>"

text \<open>Attaching replays the log from its start.\<close>

definition attachStream :: "Follower \<Rightarrow> Follower" where
  "attachStream st = st\<lparr>lf_buffer := [], lf_reset := True\<rparr>"

definition pushLine :: "LogLine \<Rightarrow> Follower \<Rightarrow> Follower" where
  "pushLine l st = st\<lparr>lf_pending := lf_pending st @ [l], lf_timer := True\<rparr>"

definition flushLines :: "Follower \<Rightarrow> Follower" where
  "flushLines st =
     (let st = st\<lparr>lf_timer := False\<rparr> in
      if lf_pending st = [] then st
      else st\<lparr>lf_sent := lf_sent st @ [(lf_pending st, lf_reset st)], lf_reset := False, lf_pending := []\<rparr>)"

definition streamData :: "host \<Rightarrow> nat list \<Rightarrow> Follower \<Rightarrow> Follower" where
  "streamData h chunk st =
     (let parts = splitS (lf_buffer st @ fromUtf8 chunk) [10] in
      foldl (\<lambda>st p. case parseLogLine h p of Some l \<Rightarrow> pushLine l st | None \<Rightarrow> st)
        (st\<lparr>lf_buffer := last parts\<rparr>) (butlast parts))"

definition streamEnd :: "Follower \<Rightarrow> Follower" where
  "streamEnd st = flushLines st"

datatype StreamEvent = Data "nat list" | FlushTimer

definition streamStep :: "host \<Rightarrow> Follower \<Rightarrow> StreamEvent \<Rightarrow> Follower" where
  "streamStep h st ev =
     (case ev of Data c \<Rightarrow> streamData h c st | FlushTimer \<Rightarrow> if lf_timer st then flushLines st else st)"

definition followed :: "host \<Rightarrow> StreamEvent list \<Rightarrow> Follower" where
  "followed h evs = streamEnd (foldl (streamStep h) (attachStream newFollower) evs)"

text \<open>What the browser makes of the batches (the case \<open>log\<close> of \<open>LiveSource.handle\<close>).\<close>

definition receiveLog :: "LogLine list \<Rightarrow> LogLine list \<times> bool \<Rightarrow> LogLine list" where
  "receiveLog prev batch = (case batch of (lines, reset) \<Rightarrow> (if reset then [] else prev) @ lines)"

section \<open>Lines do not depend on chunks\<close>

lemma splitS_single:
  "splitS s [c] = (if c \<in> set s then takeWhile (\<lambda>x. x \<noteq> c) s # splitS (tl (dropWhile (\<lambda>x. x \<noteq> c) s)) [c] else [s])"
proof -
  have idx: "indexOf s [c] = (if c \<in> set s then Some (length (takeWhile (\<lambda>x. x \<noteq> c) s)) else None)"
    by (induction s) (auto simp: startsWith_Nil)
  have drop: "drop (Suc (length (takeWhile (\<lambda>x. x \<noteq> c) s))) s = tl (dropWhile (\<lambda>x. x \<noteq> c) s)"
    by (simp add: dropWhile_eq_drop drop_Suc tl_drop)
  show ?thesis
    by (subst splitS.simps) (simp add: idx drop takeWhile_eq_take [symmetric])
qed

lemma splitS_append:
  "splitS (s @ t) [c] = butlast (splitS s [c]) @ splitS (last (splitS s [c]) @ t) [c]"
proof (induction "length s" arbitrary: s rule: less_induct)
  case less
  show ?case
  proof (cases "c \<in> set s")
    case True
    let ?r = "tl (dropWhile (\<lambda>x. x \<noteq> c) s)"
    have d: "dropWhile (\<lambda>x. x \<noteq> c) s \<noteq> []" using True by (auto simp: dropWhile_eq_Nil_conv)
    have "length ?r < length s"
      using d length_dropWhile_le [of "\<lambda>x. x \<noteq> c" s] by (cases "dropWhile (\<lambda>x. x \<noteq> c) s") auto
    note IH = less [OF this]
    have tw: "takeWhile (\<lambda>x. x \<noteq> c) (s @ t) = takeWhile (\<lambda>x. x \<noteq> c) s" "tl (dropWhile (\<lambda>x. x \<noteq> c) (s @ t)) = ?r @ t"
      using True d by (auto simp: takeWhile_append dropWhile_append)
    have ne: "splitS ?r [c] \<noteq> []" by (rule splitS_not_Nil) simp
    show ?thesis
      using True IH ne by (simp add: splitS_single [of "s @ t"] splitS_single [of s] tw)
  next
    case False
    then show ?thesis by (simp add: splitS_single [of s])
  qed
qed

definition linesOf :: "host \<Rightarrow> jsstring \<Rightarrow> LogLine list" where
  "linesOf h str = List.map_filter (parseLogLine h) (butlast (splitS str [10]))"

fun decoded :: "StreamEvent list \<Rightarrow> jsstring" where
  "decoded [] = []"
| "decoded (Data c # evs) = fromUtf8 c @ decoded evs"
| "decoded (FlushTimer # evs) = decoded evs"

definition received :: "LogLine list \<Rightarrow> Follower \<Rightarrow> LogLine list" where
  "received old st = foldl receiveLog old (lf_sent st)"

text \<open>What was sent and what waits are the lines so far; the first batch clears the browser's copy.\<close>

definition followInv :: "host \<Rightarrow> jsstring \<Rightarrow> Follower \<Rightarrow> bool" where
  "followInv h str st \<longleftrightarrow>
     received [] st @ lf_pending st = linesOf h str \<and> lf_buffer st = last (splitS str [10]) \<and>
     (lf_reset st \<longleftrightarrow> lf_sent st = []) \<and> (lf_sent st \<noteq> [] \<longrightarrow> snd (hd (lf_sent st))) \<and>
     (lf_sent st \<noteq> [] \<longrightarrow> received [] st \<noteq> []) \<and> (lf_pending st \<noteq> [] \<longrightarrow> lf_timer st)"

lemma decoded_append: "decoded (evs @ evs') = decoded evs @ decoded evs'"
  by (induction evs rule: decoded.induct) simp_all

lemma splitS_ne [simp]: "splitS s [c] \<noteq> []"
  by (rule splitS_not_Nil) simp

lemma linesOf_append: "linesOf h (s @ t) = linesOf h s @ linesOf h (last (splitS s [10]) @ t)"
  by (simp add: linesOf_def splitS_append [of s t] butlast_append map_filter_def)

lemma last_splitS_append: "last (splitS (s @ t) [c]) = last (splitS (last (splitS s [c]) @ t) [c])"
  by (simp add: splitS_append [of s t])

lemma pushed_lines:
  "foldl (\<lambda>st p. case parseLogLine h p of Some l \<Rightarrow> pushLine l st | None \<Rightarrow> st) st ps =
     st\<lparr>lf_pending := lf_pending st @ List.map_filter (parseLogLine h) ps,
        lf_timer := lf_timer st \<or> List.map_filter (parseLogLine h) ps \<noteq> []\<rparr>"
proof (induction ps arbitrary: st)
  case (Cons p ps)
  then show ?case by (simp add: pushLine_def map_filter_simps split: option.split)
qed (simp add: map_filter_simps)

lemma streamData_inv:
  assumes "followInv h str st"
  shows "followInv h (str @ fromUtf8 c) (streamData h c st)"
  using assms
  by (simp add: streamData_def pushed_lines Let_def followInv_def received_def linesOf_append [of h str] last_splitS_append [of str]
      linesOf_def [of h "last (splitS str [10]) @ fromUtf8 c"]) blast

lemma flush_inv: "followInv h str st \<Longrightarrow> followInv h str (flushLines st)"
  by (cases "lf_sent st") (auto simp: flushLines_def followInv_def received_def receiveLog_def Let_def)

lemma first_resets: "lf_sent st \<noteq> [] \<Longrightarrow> snd (hd (lf_sent st)) \<Longrightarrow> received old st = received [] st"
  by (cases "lf_sent st") (auto simp: received_def receiveLog_def)

lemma stream_inv: "followInv h (decoded evs) (foldl (streamStep h) (attachStream newFollower) evs)"
proof (induction evs rule: rev_induct)
  case Nil
  show ?case
    by (simp add: followInv_def received_def newFollower_def attachStream_def linesOf_def splitS_single map_filter_simps)
next
  case (snoc ev evs)
  then show ?case
    by (cases ev) (simp_all add: streamStep_def streamData_inv flush_inv decoded_append)
qed

lemma flush_pending: "lf_pending (flushLines st) = []"
  by (simp add: flushLines_def Let_def)

lemma received_lines:
  "received old (followed h evs) = (if linesOf h (decoded evs) = [] then old else linesOf h (decoded evs))"
  (is "?l = ?r")
proof -
  let ?st = "followed h evs"
  have inv: "followInv h (decoded evs) ?st" unfolding followed_def streamEnd_def by (rule flush_inv) (rule stream_inv)
  then have eq: "received [] ?st = linesOf h (decoded evs)"
    by (simp add: followInv_def followed_def streamEnd_def flush_pending)
  show ?thesis
  proof (cases "lf_sent ?st = []")
    case True
    then show ?thesis using eq by (auto simp: received_def)
  next
    case False
    with inv have "received old ?st = received [] ?st" "received [] ?st \<noteq> []"
      unfolding followInv_def by (blast intro: first_resets)+
    with eq show ?thesis by simp
  qed
qed

section \<open>Properties\<close>


text \<open>
  A character whose bytes come in two chunks is lost: each half is decoded by itself. The same log
  then gives the browser other lines.
\<close>

theorem split_character_garbled:
  "\<exists>h c1 c2. received [] (followed h [Data (c1 @ c2)]) \<noteq> received [] (followed h [Data c1, Data c2])"
proof -
  let ?l = "[123, 233, 125] :: jsstring" and ?o = "[(J ''ts'', JStr []), (J ''msg'', JStr [])]"
  let ?h = "sampleHost [(?l, JObj ?o)]"
  have whole: "decoded [Data ([123, 195] @ [169, 125, 10])] = ?l @ [10]"
    and parts: "decoded [Data [123, 195], Data [169, 125, 10]] = [123, 65533, 65533, 125, 10]"
    by (simp_all add: fromUtf8_def fromCodePoints_def unitsOfCp_def leadByte_def REPLACEMENT_def)
  have "parseLogLine ?h ?l = Some (lineOf ?o [] [])"
    by (simp add: parseLogLine_def trimS_def isWs_def J_def sampleHost_def)
  moreover have "parseLogLine ?h [123, 65533, 65533, 125] = None"
    by (simp add: parseLogLine_def trimS_def isWs_def J_def sampleHost_def)
  ultimately have "linesOf ?h (?l @ [10]) = [lineOf ?o [] []]" "linesOf ?h [123, 65533, 65533, 125, 10] = []"
    by (simp_all add: linesOf_def splitS_single map_filter_simps)
  then have "received [] (followed ?h [Data ([123, 195] @ [169, 125, 10])]) \<noteq> received [] (followed ?h [Data [123, 195], Data [169, 125, 10]])"
    unfolding received_lines whole parts by simp
  then show ?thesis by blast
qed

end
