(* ===== verification/LiveStore.thy ===== *)
theory LiveStore
  imports Logs StatusWriter
begin

text \<open>
  The live backend of the dashboard (\<^verbatim>\<open>src/frontend/server/live.ts\<close>): what it keeps of the cluster, what it
  sends to the browsers, and how it fetches reports; and what a browser makes of the messages
  (\<open>LiveSource\<close> of \<^verbatim>\<open>src/frontend/src/data/live.ts\<close>, \<open>Snapshot\<close> of \<^verbatim>\<open>src/frontend/src/data/source.ts\<close>).
\<close>

section \<open>Objects and messages\<close>

text \<open>An object of the cluster: its name, the rest of its metadata and its other fields.\<close>

record Obj =
  ob_name :: jsstring
  ob_meta :: jsobj
  ob_body :: jsobj

datatype Resource = Servers | Runs | Agents

datatype ServerMessage =
    SnapshotMsg "Obj list" "Obj list" "Obj list"
  | Upsert Resource Obj
  | Delete Resource jsstring
  | ReportMsg jsstring jsval
  | LogMsg jsstring "LogLine list" bool
  | GatewayMsg "(jsstring \<times> int) list"
  | ErrorMsg jsstring

definition isTerminalPhase :: "jsstring option \<Rightarrow> bool" where
  "isTerminalPhase phase \<longleftrightarrow> phase = Some (J ''Completed'') \<or> phase = Some (J ''Failed'')"

definition phaseOf :: "Obj \<Rightarrow> jsstring option" where
  "phaseOf o' = Option.bind (asRec (fld (ob_body o') (J ''status''))) (\<lambda>s. asStr (fld s (J ''phase'')))"

text \<open>\<open>Map.set\<close> and \<open>Map.delete\<close>: entries in the order of insertion.\<close>

fun mapSet :: "'k \<Rightarrow> 'v \<Rightarrow> ('k \<times> 'v) list \<Rightarrow> ('k \<times> 'v) list" where
  "mapSet k v [] = [(k, v)]"
| "mapSet k v ((k', v') # m) = (if k' = k then (k, v) # m else (k', v') # mapSet k v m)"

definition mapDelete :: "'k \<Rightarrow> ('k \<times> 'v) list \<Rightarrow> ('k \<times> 'v) list" where
  "mapDelete k m = filter (\<lambda>(k', _). k' \<noteq> k) m"

section \<open>The backend\<close>

text \<open>\<open>sv_clients\<close>: for every open connection, what it was sent. \<open>sv_retries\<close>: fetches that a timer will repeat.\<close>

record Backend =
  sv_servers :: "(jsstring \<times> Obj) list"
  sv_runs :: "(jsstring \<times> Obj) list"
  sv_agents :: "(jsstring \<times> Obj) list"
  sv_reports :: "(jsstring \<times> jsval) list"
  sv_pending :: "jsstring list"
  sv_lastError :: "jsstring option"
  sv_clients :: "(nat \<times> ServerMessage list) list"

definition newBackend :: Backend where
  "newBackend = \<lparr>sv_servers = [], sv_runs = [], sv_agents = [], sv_reports = [], sv_pending = [], sv_lastError = None, sv_clients = []\<rparr>"

fun storeOf :: "Resource \<Rightarrow> Backend \<Rightarrow> (jsstring \<times> Obj) list" where
  "storeOf Servers st = sv_servers st"
| "storeOf Runs st = sv_runs st"
| "storeOf Agents st = sv_agents st"

fun modStore :: "Resource \<Rightarrow> ((jsstring \<times> Obj) list \<Rightarrow> (jsstring \<times> Obj) list) \<Rightarrow> Backend \<Rightarrow> Backend" where
  "modStore Servers f st = st\<lparr>sv_servers := f (sv_servers st)\<rparr>"
| "modStore Runs f st = st\<lparr>sv_runs := f (sv_runs st)\<rparr>"
| "modStore Agents f st = st\<lparr>sv_agents := f (sv_agents st)\<rparr>"

definition slim :: "Obj \<Rightarrow> Obj" where
  "slim o' = o'\<lparr>ob_meta := deleteProp (ob_meta o') (J ''managedFields'')\<rparr>"

definition broadcast :: "ServerMessage \<Rightarrow> Backend \<Rightarrow> Backend" where
  "broadcast msg st = st\<lparr>sv_clients := map (\<lambda>(c, sent). (c, sent @ [msg])) (sv_clients st)\<rparr>"

definition snapshotMessage :: "Backend \<Rightarrow> ServerMessage" where
  "snapshotMessage st = SnapshotMsg (map snd (sv_servers st)) (map snd (sv_runs st)) (map snd (sv_agents st))"

section \<open>Reports\<close>

definition REPORT_ATTEMPTS :: nat where "REPORT_ATTEMPTS = 6"

text \<open>
  \<open>maybeFetchReport\<close> up to the request for the ConfigMap, and from its answer on: \<open>Inl\<close> is a request that
  failed. The first result says whether there is a request, the second whether a timer repeats the attempt.
\<close>

definition startFetch :: "jsstring \<Rightarrow> bool \<Rightarrow> nat \<Rightarrow> Backend \<Rightarrow> bool \<times> Backend" where
  "startFetch name terminal attempt st =
     (if \<not> terminal \<or> name \<in> fst ` set (sv_reports st) then (False, st)
      else if attempt = 1 then
        if name \<in> set (sv_pending st) then (False, st) else (True, st\<lparr>sv_pending := sv_pending st @ [name]\<rparr>)
      else (True, st))"

definition unpend :: "jsstring \<Rightarrow> Backend \<Rightarrow> Backend" where
  "unpend name st = st\<lparr>sv_pending := filter (\<lambda>n. n \<noteq> name) (sv_pending st)\<rparr>"

definition fetchFailed :: "jsstring \<Rightarrow> nat \<Rightarrow> Backend \<Rightarrow> bool \<times> Backend" where
  "fetchFailed name attempt st = (if attempt < REPORT_ATTEMPTS then (True, st) else (False, unpend name st))"

definition reportText :: "(jsstring \<times> jsstring) list \<Rightarrow> jsstring option" where
  "reportText data =
     (case fld data (J ''report.json'') of Some t \<Rightarrow> Some t | None \<Rightarrow> fld data (J ''report.truncated.json''))"

definition finishFetch :: "host \<Rightarrow> jsstring \<Rightarrow> nat \<Rightarrow> thrown + (jsstring \<times> jsstring) list \<Rightarrow> Backend \<Rightarrow> bool \<times> Backend" where
  "finishFetch h name attempt answer st =
     (case answer of
        Inl _ \<Rightarrow> fetchFailed name attempt st
      | Inr data \<Rightarrow>
          (case reportText data of
             None \<Rightarrow> (False, st)
           | Some raw \<Rightarrow>
               if raw = [] then (False, st)
               else case hParse h raw of
                 None \<Rightarrow> fetchFailed name attempt st
               | Some report \<Rightarrow>
                   (False, broadcast (ReportMsg name report)
                      (unpend name (st\<lparr>sv_reports := mapSet name report (sv_reports st)\<rparr>)))))"

text \<open>All attempts for a run that has ended, with the answers of the cluster in order.\<close>

fun fetchLoop :: "host \<Rightarrow> jsstring \<Rightarrow> nat \<Rightarrow> (thrown + (jsstring \<times> jsstring) list) list \<Rightarrow> Backend \<Rightarrow> Backend" where
  "fetchLoop h name attempt [] st = st"
| "fetchLoop h name attempt (answer # answers) st =
     (case startFetch name True attempt st of
        (False, st) \<Rightarrow> st
      | (True, st) \<Rightarrow>
          (case finishFetch h name attempt answer st of
             (False, st) \<Rightarrow> st
           | (True, st) \<Rightarrow> fetchLoop h name (Suc attempt) answers st))"

section \<open>Events\<close>

text \<open>
  The events of the informers, of connections, and of a fetched report. A browser's \<open>follow\<close> starts a log
  follower (theory Logs), whose batches it is sent.
\<close>

datatype BackendEvent =
    Added Resource Obj
  | Removed Resource jsstring
  | WatchFailed jsstring
  | WatchStartFailed jsstring
  | WatchConnected
  | Connects nat
  | Closes nat
  | Fetched jsstring nat "thrown + (jsstring \<times> jsstring) list"
  | Batch nat jsstring "LogLine list" bool
  | Polled "(jsstring \<times> int) list"

definition sendTo :: "nat \<Rightarrow> ServerMessage \<Rightarrow> Backend \<Rightarrow> Backend" where
  "sendTo c msg st = st\<lparr>sv_clients := map (\<lambda>(d, sent). (d, if d = c then sent @ [msg] else sent)) (sv_clients st)\<rparr>"

definition upsert :: "Resource \<Rightarrow> Obj \<Rightarrow> Backend \<Rightarrow> Backend" where
  "upsert r o' st =
     (let obj = slim o'; st = broadcast (Upsert r obj) (modStore r (mapSet (ob_name obj) obj) st) in
      if r = Runs then snd (startFetch (ob_name obj) (isTerminalPhase (phaseOf obj)) 1 st) else st)"

definition removeObj :: "Resource \<Rightarrow> jsstring \<Rightarrow> Backend \<Rightarrow> Backend" where
  "removeObj r name st = broadcast (Delete r name) (modStore r (mapDelete name) st)"

text \<open>A new connection is sent the snapshot, the reports and the last error before anything else happens.\<close>

definition greeting :: "Backend \<Rightarrow> ServerMessage list" where
  "greeting st =
     snapshotMessage st # map (\<lambda>(run, report). ReportMsg run report) (sv_reports st) @
     (case sv_lastError st of Some m \<Rightarrow> if m = [] then [] else [ErrorMsg m] | None \<Rightarrow> [])"

definition backendStep :: "host \<Rightarrow> Backend \<Rightarrow> BackendEvent \<Rightarrow> Backend" where
  "backendStep h st ev =
     (case ev of
        Added r o' \<Rightarrow> upsert r o' st
      | Removed r name \<Rightarrow> removeObj r name st
      | WatchFailed m \<Rightarrow> broadcast (ErrorMsg m) (st\<lparr>sv_lastError := Some m\<rparr>)
      | WatchStartFailed m \<Rightarrow> st\<lparr>sv_lastError := Some m\<rparr>
      | WatchConnected \<Rightarrow>
          (case sv_lastError st of
             Some m \<Rightarrow> if m = [] then st else let st = st\<lparr>sv_lastError := None\<rparr> in broadcast (snapshotMessage st) st
           | None \<Rightarrow> st)
      | Connects c \<Rightarrow> st\<lparr>sv_clients := sv_clients st @ [(c, greeting st)]\<rparr>
      | Closes c \<Rightarrow> st\<lparr>sv_clients := filter (\<lambda>(d, _). d \<noteq> c) (sv_clients st)\<rparr>
      | Fetched run attempt answer \<Rightarrow> snd (finishFetch h run attempt answer st)
      | Batch c run ls reset \<Rightarrow> sendTo c (LogMsg run ls reset) st
      | Polled counts \<Rightarrow> broadcast (GatewayMsg counts) st)"

section \<open>The browser\<close>

record Snapshot =
  sn_servers :: "(jsstring \<times> Obj) list"
  sn_runs :: "(jsstring \<times> Obj) list"
  sn_agents :: "(jsstring \<times> Obj) list"
  sn_reports :: "(jsstring \<times> jsval) list"
  sn_logs :: "(jsstring \<times> LogLine list) list"
  sn_gateway :: "(jsstring \<times> int) list option"
  sn_error :: "jsstring option"

definition emptySnapshot :: Snapshot where
  "emptySnapshot = \<lparr>sn_servers = [], sn_runs = [], sn_agents = [], sn_reports = [], sn_logs = [], sn_gateway = None, sn_error = None\<rparr>"

definition byName :: "Obj list \<Rightarrow> (jsstring \<times> Obj) list" where
  "byName items = foldl (\<lambda>m o'. defineProp m (ob_name o') o') [] items"

fun snapOf :: "Resource \<Rightarrow> Snapshot \<Rightarrow> (jsstring \<times> Obj) list" where
  "snapOf Servers s = sn_servers s"
| "snapOf Runs s = sn_runs s"
| "snapOf Agents s = sn_agents s"

fun modSnap :: "Resource \<Rightarrow> ((jsstring \<times> Obj) list \<Rightarrow> (jsstring \<times> Obj) list) \<Rightarrow> Snapshot \<Rightarrow> Snapshot" where
  "modSnap Servers f s = s\<lparr>sn_servers := f (sn_servers s)\<rparr>"
| "modSnap Runs f s = s\<lparr>sn_runs := f (sn_runs s)\<rparr>"
| "modSnap Agents f s = s\<lparr>sn_agents := f (sn_agents s)\<rparr>"

definition handle :: "Snapshot \<Rightarrow> ServerMessage \<Rightarrow> Snapshot" where
  "handle s msg =
     (case msg of
        SnapshotMsg servers runs agents \<Rightarrow>
          s\<lparr>sn_servers := byName servers, sn_runs := byName runs, sn_agents := byName agents, sn_error := None\<rparr>
      | Upsert r o' \<Rightarrow> modSnap r (\<lambda>m. defineProp m (ob_name o') o') s
      | Delete r name \<Rightarrow> modSnap r (\<lambda>m. deleteProp m name) s
      | ReportMsg run report \<Rightarrow> s\<lparr>sn_reports := defineProp (sn_reports s) run report\<rparr>
      | LogMsg run ls reset \<Rightarrow>
          s\<lparr>sn_logs := defineProp (sn_logs s) run
              (receiveLog (case fld (sn_logs s) run of Some prev \<Rightarrow> prev | None \<Rightarrow> []) (ls, reset))\<rparr>
      | GatewayMsg counts \<Rightarrow> s\<lparr>sn_gateway := Some counts\<rparr>
      | ErrorMsg m \<Rightarrow> s\<lparr>sn_error := Some m\<rparr>)"

text \<open>\<open>mergeRunStatus\<close>: a merge patch on the status as the runner sends it.\<close>

definition spread :: "jsobj \<Rightarrow> jsobj \<Rightarrow> jsobj" where
  "spread a b = foldl (\<lambda>m (k, v). defineProp m k v) a b"

definition mergeRunStatus :: "jsobj \<Rightarrow> jsobj \<Rightarrow> jsobj" where
  "mergeRunStatus prev patch =
     (let next = spread prev patch in
      case asRec (fld patch (J ''agentResults'')) of
        None \<Rightarrow> next
      | Some results \<Rightarrow>
          let old = (case asRec (fld prev (J ''agentResults'')) of Some r \<Rightarrow> r | None \<Rightarrow> []) in
          defineProp next (J ''agentResults'') (JObj (spread old results)))"

text \<open>The runs of a server, newest first; \<open>newer\<close> compares two time stamps as \<open>localeCompare\<close> does.\<close>

definition serverRef :: "Obj \<Rightarrow> jsstring option" where
  "serverRef o' = Option.bind (asRec (fld (ob_body o') (J ''spec''))) (\<lambda>s. asStr (fld s (J ''serverRef'')))"

definition created :: "Obj \<Rightarrow> jsstring" where
  "created o' = (case asStr (fld (ob_meta o') (J ''creationTimestamp'')) of Some t \<Rightarrow> t | None \<Rightarrow> [])"

fun insertRun :: "(jsstring \<Rightarrow> jsstring \<Rightarrow> int) \<Rightarrow> Obj \<Rightarrow> Obj list \<Rightarrow> Obj list" where
  "insertRun cmp x [] = [x]"
| "insertRun cmp x (y # ys) = (if cmp (created y) (created x) < 0 then x # y # ys else y # insertRun cmp x ys)"

text \<open>\<open>sort\<close> is stable: an element goes after those it is not before.\<close>

definition sortRuns :: "(jsstring \<Rightarrow> jsstring \<Rightarrow> int) \<Rightarrow> Obj list \<Rightarrow> Obj list" where
  "sortRuns cmp xs = foldl (\<lambda>ys x. insertRun cmp x ys) [] xs"

definition runsOf :: "(jsstring \<Rightarrow> jsstring \<Rightarrow> int) \<Rightarrow> Snapshot \<Rightarrow> jsstring \<Rightarrow> Obj list" where
  "runsOf cmp s server = sortRuns cmp (filter (\<lambda>r. serverRef r = Some server) (map snd (sn_runs s)))"

section \<open>A browser follows the backend\<close>

lemma fld_mapSet: "fld (mapSet k v m) = (fld m)(k \<mapsto> v)"
  by (induction m) (auto simp: fun_eq_iff)

lemma fld_mapDelete: "fld (mapDelete k m) = (fld m)(k := None)"
  by (induction m) (auto simp: mapDelete_def fun_eq_iff)

lemma keys_mapSet: "k' \<in> fst ` set (mapSet k v m) \<longleftrightarrow> k' = k \<or> k' \<in> fst ` set m"
  using fld_None_iff [of "mapSet k v m" k'] fld_None_iff [of m k'] by (simp add: fld_mapSet split: if_splits)

lemma mapSet_distinct: "distinct (map fst m) \<Longrightarrow> distinct (map fst (mapSet k v m))"
proof (induction m)
  case (Cons p m)
  then show ?case using keys_mapSet [of "fst p" k v m] by (cases p) auto
qed simp

lemma mapSet_named:
  "\<forall>(n, x) \<in> set m. ob_name x = n \<Longrightarrow> ob_name o' = k \<Longrightarrow> \<forall>(n, x) \<in> set (mapSet k o' m). ob_name x = n"
  by (induction m) (auto split: if_splits)

lemma mapDelete_wf: "distinct (map fst m) \<Longrightarrow> distinct (map fst (mapDelete k m))" "set (mapDelete k m) \<subseteq> set m"
  by (auto simp: mapDelete_def distinct_map inj_on_def)

text \<open>Every store has one entry per name, under the name of its object.\<close>

definition wfStore :: "(jsstring \<times> Obj) list \<Rightarrow> bool" where
  "wfStore m \<longleftrightarrow> distinct (map fst m) \<and> (\<forall>(n, x) \<in> set m. ob_name x = n)"

lemma fld_byName:
  assumes "wfStore m"
  shows "fld (byName (map snd m)) = fld m"
proof -
  have "fld (foldl (\<lambda>m o'. defineProp m (ob_name o') o') acc (map snd m)) = fld acc ++ fld m" if "wfStore m" for acc
    using that
  proof (induction m arbitrary: acc)
    case (Cons p m)
    obtain n x where p: "p = (n, x)" by (rule prod.exhaust)
    with Cons.prems have x: "ob_name x = n" "n \<notin> fst ` set m" "wfStore m" by (auto simp: wfStore_def)
    then have "fld m n = None" by (simp add: fld_None_iff)
    with Cons.IH [OF x(3)] x p show ?case by (auto simp: fld_defineProp fun_eq_iff map_add_def split: option.split)
  qed (simp add: fun_eq_iff map_add_def)
  from this [OF assms, of "[]"] show ?thesis by (simp add: byName_def fun_eq_iff map_add_def split: option.split)
qed

text \<open>What a browser shows agrees with what the backend keeps.\<close>

definition inSync :: "Backend \<Rightarrow> Snapshot \<Rightarrow> bool" where
  "inSync st s \<longleftrightarrow> (\<forall>r. fld (snapOf r s) = fld (storeOf r st)) \<and> fld (sn_reports s) = fld (sv_reports st)"

definition wfBackend :: "Backend \<Rightarrow> bool" where
  "wfBackend st \<longleftrightarrow> (\<forall>r. wfStore (storeOf r st)) \<and> distinct (map fst (sv_reports st))"

definition allSynced :: "Backend \<Rightarrow> bool" where
  "allSynced st \<longleftrightarrow> (\<forall>(c, sent) \<in> set (sv_clients st). inSync st (foldl handle emptySnapshot sent))"

lemma wfStore_steps:
  "wfStore m \<Longrightarrow> ob_name o' = k \<Longrightarrow> wfStore (mapSet k o' m)" "wfStore m \<Longrightarrow> wfStore (mapDelete k m)" "wfStore []"
  using mapSet_distinct [of m k o'] mapSet_named [of m o' k] mapDelete_wf [where m = m and k = k] by (auto simp: wfStore_def)

lemma storeOf_modStore: "storeOf q (modStore r f st) = (if q = r then f (storeOf q st) else storeOf q st)"
    "sv_reports (modStore r f st) = sv_reports st" "sv_clients (modStore r f st) = sv_clients st"
  by (cases q; cases r; simp)+

lemma snapOf_modSnap: "snapOf q (modSnap r f s) = (if q = r then f (snapOf q s) else snapOf q s)"
    "sn_reports (modSnap r f s) = sn_reports s"
  by (cases q; cases r; simp)+

lemma storeOf_other [simp]:
  "storeOf r (st\<lparr>sv_clients := cs\<rparr>) = storeOf r st" "storeOf r (st\<lparr>sv_lastError := e\<rparr>) = storeOf r st"
  "storeOf r (st\<lparr>sv_pending := p\<rparr>) = storeOf r st" "storeOf r (st\<lparr>sv_reports := q\<rparr>) = storeOf r st"
  "storeOf r (broadcast m st) = storeOf r st" "storeOf r (unpend n st) = storeOf r st"
  by (cases r; simp add: broadcast_def unpend_def)+

lemma sync_same: "(\<And>r. storeOf r st' = storeOf r st) \<Longrightarrow> sv_reports st' = sv_reports st \<Longrightarrow> inSync st' s = inSync st s"
  by (simp add: inSync_def)

lemma wf_same: "(\<And>r. storeOf r st' = storeOf r st) \<Longrightarrow> sv_reports st' = sv_reports st \<Longrightarrow> wfBackend st' = wfBackend st"
  by (simp add: wfBackend_def)

text \<open>Each message does to the browser's copy what its event did to the store.\<close>

lemma sync_messages:
  "inSync st s \<Longrightarrow> inSync (modStore r (mapSet (ob_name o') o') st) (handle s (Upsert r o'))"
  "inSync st s \<Longrightarrow> inSync (modStore r (mapDelete n) st) (handle s (Delete r n))"
  "inSync st s \<Longrightarrow> inSync (st\<lparr>sv_reports := mapSet run v (sv_reports st)\<rparr>) (handle s (ReportMsg run v))"
  "wfBackend st \<Longrightarrow> fld (sn_reports s) = fld (sv_reports st) \<Longrightarrow> inSync st (handle s (snapshotMessage st))"
  "inSync st s \<Longrightarrow> inSync st (handle s (ErrorMsg m))" "inSync st s \<Longrightarrow> inSync st (handle s (GatewayMsg g))"
  "inSync st s \<Longrightarrow> inSync st (handle s (LogMsg run ls reset))"
proof -
  have snap: "snapOf q (s\<lparr>sn_reports := x\<rparr>) = snapOf q s" "snapOf q (s\<lparr>sn_error := e\<rparr>) = snapOf q s"
    "snapOf q (s\<lparr>sn_gateway := g'\<rparr>) = snapOf q s" "snapOf q (s\<lparr>sn_logs := l\<rparr>) = snapOf q s" for q x e g' l
    by (cases q; simp)+
  show "inSync st s \<Longrightarrow> inSync (modStore r (mapSet (ob_name o') o') st) (handle s (Upsert r o'))"
    "inSync st s \<Longrightarrow> inSync (modStore r (mapDelete n) st) (handle s (Delete r n))"
    by (auto simp: inSync_def handle_def storeOf_modStore snapOf_modSnap fld_mapSet fld_defineProp fld_mapDelete fld_deleteProp)
  show "inSync st s \<Longrightarrow> inSync (st\<lparr>sv_reports := mapSet run v (sv_reports st)\<rparr>) (handle s (ReportMsg run v))"
    "inSync st s \<Longrightarrow> inSync st (handle s (ErrorMsg m))" "inSync st s \<Longrightarrow> inSync st (handle s (GatewayMsg g))"
    "inSync st s \<Longrightarrow> inSync st (handle s (LogMsg run ls reset))"
    by (auto simp: inSync_def handle_def snap fld_mapSet fld_defineProp)
  assume wf: "wfBackend st" and rep: "fld (sn_reports s) = fld (sv_reports st)"
  have "fld (snapOf q (handle s (snapshotMessage st))) = fld (storeOf q st)" for q
    using fld_byName [of "storeOf q st"] wf [unfolded wfBackend_def, THEN conjunct1, THEN spec, of q] by (cases q) (simp_all add: handle_def snapshotMessage_def)
  with rep show "inSync st (handle s (snapshotMessage st))"
    by (simp add: inSync_def) (simp add: handle_def snapshotMessage_def)
qed

lemma synced_broadcast:
  assumes "sv_clients st' = sv_clients st" "allSynced st" "\<And>s. inSync st s \<Longrightarrow> inSync st' (handle s msg)"
  shows "allSynced (broadcast msg st')"
proof -
  have "inSync (broadcast msg st') s = inSync st' s" for s by (rule sync_same) (simp_all add: broadcast_def)
  then show ?thesis using assms by (fastforce simp: allSynced_def broadcast_def)
qed

lemma synced_same:
  assumes "allSynced st" "sv_clients st' = sv_clients st" "\<And>r. storeOf r st' = storeOf r st" "sv_reports st' = sv_reports st"
  shows "allSynced st'"
  using assms sync_same [of st' st] by (simp add: allSynced_def)

lemma startFetch_same:
  "storeOf r (snd (startFetch n t a st)) = storeOf r st" "sv_reports (snd (startFetch n t a st)) = sv_reports st"
  "sv_clients (snd (startFetch n t a st)) = sv_clients st"
  by (simp_all add: startFetch_def)

lemma greeting_synced: "wfBackend st \<Longrightarrow> inSync st (foldl handle emptySnapshot (greeting st))"
proof -
  assume wf: "wfBackend st"
  have reports: "fld (sn_reports (foldl handle s (map (\<lambda>(run, report). ReportMsg run report) rs))) = fld (sn_reports s) ++ fld rs \<and>
      (\<forall>q. snapOf q (foldl handle s (map (\<lambda>(run, report). ReportMsg run report) rs)) = snapOf q s)" if "distinct (map fst rs)" for s rs
    using that
  proof (induction rs arbitrary: s)
    case (Cons p rs)
    obtain run v where p: "p = (run, v)" by (rule prod.exhaust)
    with Cons.prems have new: "fld rs run = None" by (simp add: fld_None_iff)
    have "snapOf q (handle s (ReportMsg run v)) = snapOf q s" for q by (cases q) (simp_all add: handle_def)
    with Cons p new show ?case by (auto simp: handle_def fld_defineProp fun_eq_iff map_add_def split: option.split)
  qed (simp add: fun_eq_iff map_add_def)
  let ?s1 = "handle emptySnapshot (snapshotMessage st)"
  let ?s2 = "foldl handle ?s1 (map (\<lambda>(run, report). ReportMsg run report) (sv_reports st))"
  have "fld (snapOf q ?s1) = fld (storeOf q st)" for q
    using fld_byName [of "storeOf q st"] wf [unfolded wfBackend_def, THEN conjunct1, THEN spec, of q]
    by (cases q) (simp_all add: handle_def snapshotMessage_def)
  moreover have "sn_reports ?s1 = []" by (simp add: handle_def snapshotMessage_def emptySnapshot_def)
  ultimately have "inSync st ?s2"
    using reports [of "sv_reports st" ?s1] wf by (simp add: inSync_def wfBackend_def fun_eq_iff map_add_def split: option.split)
  then show ?thesis by (auto simp: greeting_def sync_messages split: option.split)
qed

lemma finishFetch_synced:
  assumes "allSynced st" "wfBackend st"
  shows "allSynced (snd (finishFetch h run a answer st)) \<and> wfBackend (snd (finishFetch h run a answer st))"
proof -
  have quiet: "allSynced (unpend run st)" "wfBackend (unpend run st)"
    using assms synced_same [of st "unpend run st"] wf_same [of "unpend run st" st] by (simp_all add: unpend_def)
  have failed: "allSynced (snd (fetchFailed run a st))" "wfBackend (snd (fetchFailed run a st))"
    using quiet assms by (simp_all add: fetchFailed_def)
  let ?st' = "\<lambda>v. unpend run (st\<lparr>sv_reports := mapSet run v (sv_reports st)\<rparr>)"
  have "inSync (?st' v) s = inSync (st\<lparr>sv_reports := mapSet run v (sv_reports st)\<rparr>) s" for v s
    by (rule sync_same) (simp_all add: unpend_def)
  then have sent: "allSynced (broadcast (ReportMsg run v) (?st' v))" for v
    using assms(1) sync_messages(3) [of st] by (intro synced_broadcast) (auto simp: unpend_def)
  have wf: "wfBackend (broadcast m (?st' v))" for m v
    using assms(2) by (simp add: wfBackend_def) (simp add: broadcast_def unpend_def mapSet_distinct)
  show ?thesis
    using assms failed sent wf by (auto simp: finishFetch_def split: sum.split option.split)
qed

lemma upsert_synced:
  assumes "allSynced st" "wfBackend st"
  shows "allSynced (upsert r o' st) \<and> wfBackend (upsert r o' st)"
proof -
  let ?o = "slim o'"
  let ?st = "broadcast (Upsert r ?o) (modStore r (mapSet (ob_name ?o) ?o) st)"
  have sync: "allSynced ?st"
    using assms(1) sync_messages(1) [of st] by (intro synced_broadcast) (simp_all add: storeOf_modStore)
  have wf: "wfBackend ?st"
    using assms(2) wfStore_steps(1) by (auto simp: wfBackend_def storeOf_modStore) (simp add: broadcast_def storeOf_modStore)
  have "allSynced (snd (startFetch n t a ?st))" "wfBackend (snd (startFetch n t a ?st))" for n t a
    using sync wf synced_same [of ?st "snd (startFetch n t a ?st)"] wf_same [of "snd (startFetch n t a ?st)" ?st]
    by (simp_all add: startFetch_same)
  with sync wf show ?thesis unfolding upsert_def Let_def by presburger
qed

lemma remove_synced:
  assumes "allSynced st" "wfBackend st"
  shows "allSynced (removeObj r n st) \<and> wfBackend (removeObj r n st)"
proof
  show "allSynced (removeObj r n st)"
    unfolding removeObj_def using assms(1) sync_messages(2) [of st] by (intro synced_broadcast) (simp_all add: storeOf_modStore)
  show "wfBackend (removeObj r n st)"
    unfolding removeObj_def using assms(2) wfStore_steps(2) by (auto simp: wfBackend_def storeOf_modStore) (simp add: broadcast_def storeOf_modStore)
qed

lemma backend_step_synced:
  assumes "allSynced st" "wfBackend st"
  shows "allSynced (backendStep h st ev) \<and> wfBackend (backendStep h st ev)"
proof -
  have same: "allSynced st' \<and> wfBackend st'"
    if "sv_clients st' = sv_clients st" "\<And>r. storeOf r st' = storeOf r st" "sv_reports st' = sv_reports st" for st'
    using that assms synced_same [of st st'] wf_same [of st' st] by simp
  have told: "allSynced (broadcast m st') \<and> wfBackend (broadcast m st')"
    if st': "sv_clients st' = sv_clients st" "\<And>r. storeOf r st' = storeOf r st" "sv_reports st' = sv_reports st"
      and m: "\<And>s. inSync st s \<Longrightarrow> inSync st (handle s m)" for st' m
  proof
    have "inSync st' s = inSync st s" for s using st' by (intro sync_same)
    then show "allSynced (broadcast m st')" using st' m assms(1) by (intro synced_broadcast) auto
    show "wfBackend (broadcast m st')" using same [OF st'] wf_same [of "broadcast m st'" st'] by (simp add: broadcast_def)
  qed
  show ?thesis
  proof (cases ev)
    case (Added r o')
    then show ?thesis using upsert_synced [OF assms] by (simp add: backendStep_def)
  next
    case (Removed r n)
    then show ?thesis using remove_synced [OF assms] by (simp add: backendStep_def)
  next
    case (WatchFailed m)
    then show ?thesis by (simp add: backendStep_def told sync_messages)
  next
    case (WatchStartFailed m)
    then show ?thesis by (simp add: backendStep_def same)
  next
    case WatchConnected
    have "inSync st (handle s (snapshotMessage st))" if "inSync st s" for s
      using sync_messages(4) [OF assms(2)] that by (simp add: inSync_def)
    moreover have "snapshotMessage (st\<lparr>sv_lastError := None\<rparr>) = snapshotMessage st" by (simp add: snapshotMessage_def)
    ultimately have "allSynced (broadcast (snapshotMessage st) (st\<lparr>sv_lastError := None\<rparr>)) \<and> wfBackend (broadcast (snapshotMessage st) (st\<lparr>sv_lastError := None\<rparr>))"
      by (intro told) simp_all
    then show ?thesis using WatchConnected assms \<open>snapshotMessage _ = _\<close> by (simp add: backendStep_def Let_def split: option.split)
  next
    case (Connects c)
    let ?st = "st\<lparr>sv_clients := sv_clients st @ [(c, greeting st)]\<rparr>"
    have eq: "inSync ?st s = inSync st s" for s by (rule sync_same) simp_all
    have "allSynced ?st" using assms greeting_synced by (auto simp: allSynced_def eq)
    moreover have "wfBackend ?st" using assms(2) wf_same [of ?st st] by simp
    ultimately show ?thesis using Connects by (simp add: backendStep_def)
  next
    case (Closes c)
    let ?st = "st\<lparr>sv_clients := filter (\<lambda>(d, _). d \<noteq> c) (sv_clients st)\<rparr>"
    have eq: "inSync ?st s = inSync st s" for s by (rule sync_same) simp_all
    have "allSynced ?st" using assms by (auto simp: allSynced_def eq)
    moreover have "wfBackend ?st" using assms(2) wf_same [of ?st st] by simp
    ultimately show ?thesis using Closes by (simp add: backendStep_def)
  next
    case (Fetched run a answer)
    then show ?thesis using finishFetch_synced [OF assms] by (simp add: backendStep_def)
  next
    case (Batch c run ls reset)
    let ?st = "sendTo c (LogMsg run ls reset) st"
    have eq: "inSync ?st s = inSync st s" for s by (rule sync_same) (simp_all add: sendTo_def)
    have "\<forall>(d, sent) \<in> set (sv_clients ?st). inSync st (foldl handle emptySnapshot sent)"
      using assms(1) sync_messages(7) by (fastforce simp: sendTo_def allSynced_def)
    then have "allSynced ?st" unfolding allSynced_def eq .
    moreover have "wfBackend ?st" using assms(2) wf_same [of ?st st] by (simp add: sendTo_def)
    ultimately show ?thesis using Batch by (simp add: backendStep_def)
  next
    case (Polled counts)
    then show ?thesis by (simp add: backendStep_def told sync_messages)
  qed
qed

lemma backend_synced: "allSynced (foldl (backendStep h) newBackend evs) \<and> wfBackend (foldl (backendStep h) newBackend evs)"
proof (induction evs rule: rev_induct)
  case Nil
  have "storeOf r newBackend = []" for r by (cases r) (simp_all add: newBackend_def)
  then show ?case by (simp add: allSynced_def wfBackend_def wfStore_steps(3)) (simp add: newBackend_def)
qed (simp add: backend_step_synced)

section \<open>Fetching a report\<close>

lemma startFetch_goes:
  assumes "name \<notin> fst ` set (sv_reports st)" "a = 1 \<longrightarrow> name \<notin> set (sv_pending st)"
  shows "\<exists>st1. startFetch name True a st = (True, st1) \<and> sv_reports st1 = sv_reports st"
  using assms by (simp add: startFetch_def)

lemma fetch_succeeds:
  assumes "hParse h raw = Some v" "raw \<noteq> []"
  shows "\<lbrakk>name \<notin> fst ` set (sv_reports st); a = 1 \<longrightarrow> name \<notin> set (sv_pending st); 1 \<le> a; a + length fails \<le> REPORT_ATTEMPTS;
      \<forall>x \<in> set fails. \<exists>e. x = Inl e\<rbrakk> \<Longrightarrow>
    fld (sv_reports (fetchLoop h name a (fails @ [Inr [(J ''report.json'', raw)]]) st)) name = Some v"
proof (induction fails arbitrary: a st)
  case Nil
  obtain st1 where "startFetch name True a st = (True, st1)" using startFetch_goes [OF Nil(1,2)] by blast
  then show ?case using assms by (simp add: finishFetch_def reportText_def broadcast_def unpend_def fld_mapSet)
next
  case (Cons x fails)
  obtain st1 where st1: "startFetch name True a st = (True, st1)" "sv_reports st1 = sv_reports st"
    using startFetch_goes [OF Cons.prems(1,2)] by blast
  obtain e where x: "x = Inl e" using Cons.prems(5) by auto
  have "finishFetch h name a x st1 = (True, st1)" using Cons.prems(4) x by (simp add: finishFetch_def fetchFailed_def)
  then show ?case using Cons.IH [of st1 "Suc a"] Cons.prems st1 by simp
qed

lemma fetch_gives_up:
  "\<lbrakk>name \<notin> fst ` set (sv_reports st); a = 1 \<longrightarrow> name \<notin> set (sv_pending st); 1 \<le> a; a \<le> REPORT_ATTEMPTS; REPORT_ATTEMPTS < a + length answers;
    \<forall>x \<in> set answers. \<exists>raw. x = Inr [(J ''report.truncated.json'', raw)] \<and> hParse h raw = None \<and> raw \<noteq> []\<rbrakk> \<Longrightarrow>
   sv_reports (fetchLoop h name a answers st) = sv_reports st \<and> name \<notin> set (sv_pending (fetchLoop h name a answers st))"
proof (induction answers arbitrary: a st)
  case (Cons x answers)
  obtain st1 where st1: "startFetch name True a st = (True, st1)" "sv_reports st1 = sv_reports st"
    using startFetch_goes [OF Cons.prems(1,2)] by blast
  obtain raw where x: "x = Inr [(J ''report.truncated.json'', raw)]" "hParse h raw = None" "raw \<noteq> []" using Cons.prems(6) by auto
  have fin: "finishFetch h name a x st1 = fetchFailed name a st1" using x by (simp add: finishFetch_def reportText_def)
  show ?case
  proof (cases "a < REPORT_ATTEMPTS")
    case True
    then have "finishFetch h name a x st1 = (True, st1)" by (simp add: fin fetchFailed_def)
    then show ?thesis using Cons.IH [of st1 "Suc a"] Cons.prems st1 True by simp
  next
    case False
    then have "finishFetch h name a x st1 = (False, unpend name st1)" by (simp add: fin fetchFailed_def)
    then show ?thesis using st1 by (simp add: unpend_def)
  qed
qed simp

lemma nothing_to_read:
  assumes "name \<notin> fst ` set (sv_reports st)" "name \<notin> set (sv_pending st)" "reportText data = None"
  shows "startFetch name True 1 (fetchLoop h name 1 [Inr data] st) = (False, fetchLoop h name 1 [Inr data] st)"
  using assms by (simp add: startFetch_def finishFetch_def)

section \<open>Properties\<close>

text \<open>
  C31. A browser shows what the backend keeps. Whatever the informers report, whenever it connects and
  whatever reports are fetched in between, the copy of servers, runs, agents and reports that a
  connected browser builds from its messages is the backend's.
\<close>

theorem browser_refines_backend:
  "let st = foldl (backendStep h) newBackend evs in
   \<forall>(c, sent) \<in> set (sv_clients st). let s = foldl handle emptySnapshot sent in
     (\<forall>r. fld (snapOf r s) = fld (storeOf r st)) \<and> fld (sn_reports s) = fld (sv_reports st)"
  using backend_synced [of h evs] by (simp add: Let_def allSynced_def inSync_def)

theorem browser_refines_backend_witness:
  "\<exists>sent. sv_clients (foldl (backendStep (sampleHost [])) newBackend [Connects 1, Added Servers \<lparr>ob_name = J ''s'', ob_meta = [], ob_body = []\<rparr>]) =
      [(1, sent)] \<and> fld (sn_servers (foldl handle emptySnapshot sent)) (J ''s'') = Some \<lparr>ob_name = J ''s'', ob_meta = [], ob_body = []\<rparr>"
proof -
  let ?o = "\<lparr>ob_name = J ''s'', ob_meta = [], ob_body = []\<rparr>"
  let ?evs = "[Connects 1, Added Servers ?o]"
  let ?st = "foldl (backendStep (sampleHost [])) newBackend ?evs"
  have slim: "slim ?o = ?o" by (simp add: slim_def deleteProp_def)
  have store: "storeOf Servers ?st = [(J ''s'', ?o)]"
    and clients: "\<exists>sent. sv_clients ?st = [(1, sent)]"
    by (simp_all add: backendStep_def upsert_def slim newBackend_def broadcast_def Let_def)
  from clients obtain sent where sent: "sv_clients ?st = [(1, sent)]" by blast
  have "\<forall>r. fld (snapOf r (foldl handle emptySnapshot sent)) = fld (storeOf r ?st)"
    using browser_refines_backend [of "sampleHost []" ?evs] unfolding Let_def sent by simp
  from this [rule_format, of Servers] have "fld (snapOf Servers (foldl handle emptySnapshot sent)) = fld (storeOf Servers ?st)" .
  then show ?thesis using sent unfolding store by auto
qed

text \<open>
  The report of a run. Each try to fetch it is followed by another one unless it succeeds, there
  is nothing to read or it was the sixth; an answer that parses is kept and every browser is told. A report that was too large for
  its ConfigMap is there only as a cut copy: if no cut copy parses it is asked for six times
  and never shown. A ConfigMap without a report stops the run from ever being asked for again.
\<close>

theorem report_fetching:
  assumes "name \<notin> fst ` set (sv_reports st)" "name \<notin> set (sv_pending st)"
  shows "(hParse h raw = Some v \<and> raw \<noteq> [] \<and> length fails < REPORT_ATTEMPTS \<and> (\<forall>a \<in> set fails. \<exists>e. a = Inl e) \<longrightarrow>
      fld (sv_reports (fetchLoop h name 1 (fails @ [Inr [(J ''report.json'', raw)]]) st)) name = Some v) \<and>
    (REPORT_ATTEMPTS \<le> length answers \<and>
      (\<forall>a \<in> set answers. \<exists>raw. a = Inr [(J ''report.truncated.json'', raw)] \<and> hParse h raw = None \<and> raw \<noteq> []) \<longrightarrow>
      sv_reports (fetchLoop h name 1 answers st) = sv_reports st \<and> name \<notin> set (sv_pending (fetchLoop h name 1 answers st))) \<and>
    (reportText data = None \<longrightarrow> startFetch name True 1 (fetchLoop h name 1 [Inr data] st) = (False, fetchLoop h name 1 [Inr data] st))"
  using assms fetch_succeeds [of h raw v name st 1 fails] fetch_gives_up [of name st 1 answers h] nothing_to_read [OF assms, of data h]
  by (auto simp: REPORT_ATTEMPTS_def simp del: fetchLoop.simps)

theorem report_fetching_witness:
  "fld (sv_reports (fetchLoop (sampleHost [(J ''{}'', JObj [])]) (J ''run'') 1 [Inl (BuiltinError [] []), Inr [(J ''report.json'', J ''{}'')]] newBackend))
     (J ''run'') = Some (JObj [])"
  using report_fetching [of "J ''run''" newBackend "sampleHost [(J ''{}'', JObj [])]" "J ''{}''" "JObj []" "[Inl (BuiltinError [] [])]"]
  by (simp add: newBackend_def sampleHost_def REPORT_ATTEMPTS_def del: fetchLoop.simps)

end
