(* ===== verification/ServerForm.thy ===== *)
theory ServerForm
  imports Patterns LiveStore Config
begin

text \<open>
  The form that creates a server (\<^verbatim>\<open>src/frontend/src/model/serverForm.ts\<close>): the rules for its fields, the
  \<open>MCPServer\<close> it makes, and the suggested name. The patterns are those of the source, run by the matcher of
  theory Regex. A server is an \<open>Obj\<close> of theory LiveStore, as the dashboard backend keeps it.
\<close>

section \<open>The form\<close>

record ServerForm =
  sf_name :: jsstring
  sf_repositoryUrl :: jsstring
  sf_ref :: jsstring
  sf_path :: jsstring
  sf_transport :: jsstring
  sf_targetPort :: jsstring
  sf_schedule :: jsstring

definition EMPTY_FORM :: ServerForm where
  "EMPTY_FORM = \<lparr>sf_name = [], sf_repositoryUrl = [], sf_ref = J ''main'', sf_path = [], sf_transport = J ''stdio'',
     sf_targetPort = J ''8080'', sf_schedule = J ''daily''\<rparr>"

text \<open>The presets: id, label, cron expression.\<close>

definition SCHEDULES :: "(jsstring \<times> jsstring \<times> jsstring) list" where
  "SCHEDULES =
     [(J ''6h'', (J ''Cada 6 horas''), J ''0 */6 * * *''),
      (J ''daily'', (J ''Todos los d'' @ [237] @ J ''as, 3:00 UTC''), J ''0 3 * * *''),
      (J ''weekly'', (J ''Los lunes, 3:00 UTC''), J ''0 3 * * 1'')]"

definition LABEL_MANAGED_BY :: jsstring where "LABEL_MANAGED_BY = J ''app.kubernetes.io/managed-by''"
definition MANAGED_BY_UI :: jsstring where "MANAGED_BY_UI = J ''mcp-eval-ui''"
definition LABEL_FLUX :: jsstring where "LABEL_FLUX = J ''kustomize.toolkit.fluxcd.io/name''"

definition DEFAULT_SUITE :: "jsstring list" where
  "DEFAULT_SUITE = map J [''mcp-sast-auditor'', ''mcp-fuzz-tester'', ''mcp-rogue-detector'', ''mcp-synthesizer'']"

definition MAX_UI_SERVERS :: nat where "MAX_UI_SERVERS = 20"
definition FORM_API_VERSION :: jsstring where "FORM_API_VERSION = J ''security.eval.io/v1alpha1''"

section \<open>Patterns of the fields\<close>

abbreviation alnumLow :: regex where "alnumLow \<equiv> Items False [Rng CHR ''a'' CHR ''z'', Rng CHR ''0'' CHR ''9'']"
abbreviation dashAlnumLow :: regex where
  "dashAlnumLow \<equiv> Items False [One CHR ''-'', Rng CHR ''a'' CHR ''z'', Rng CHR ''0'' CHR ''9'']"

definition FORM_NAME :: pattern where
  "FORM_NAME = edged alnumLow (betweenR 0 38 dashAlnumLow)"

abbreviation repoHost :: regex where
  "repoHost \<equiv> someR (Items False [Rng CHR ''A'' CHR ''Z'', Rng CHR ''a'' CHR ''z'', Rng CHR ''0'' CHR ''9'', One CHR ''.'', One CHR ''-''])"
abbreviation repoPort :: regex where
  "repoPort \<equiv> optR (Grp (Cat [Lits '':'', betweenR 1 5 (Items False [Rng CHR ''0'' CHR ''9''])]))"
abbreviation repoTail :: regex where
  "repoTail \<equiv> someR (Items False [Rng CHR ''A'' CHR ''Z'', Rng CHR ''a'' CHR ''z'', Rng CHR ''0'' CHR ''9'', One CHR ''.'', One CHR ''_'',
     One CHR ''~'', Esc CHR ''-'', One CHR ''/''])"

definition REPO :: pattern where
  "REPO = rx (Cat [Bol, Lits ''https://'', repoHost, repoPort, Lits ''/'', repoTail, Eol])"

abbreviation refUnit :: regex where
  "refUnit \<equiv> Items False [Rng CHR ''A'' CHR ''Z'', Rng CHR ''a'' CHR ''z'', Rng CHR ''0'' CHR ''9'', One CHR ''.'', One CHR ''_'',
     Esc CHR ''-'', One CHR ''/'']"

definition REF :: pattern where "REF = rx (Cat [Bol, betweenR 1 100 refUnit, Eol])"
definition PATH :: pattern where "PATH = rx (Cat [Bol, betweenR 0 200 refUnit, Eol])"

section \<open>The suggested name\<close>

text \<open>\<open>s.replace(/c+$/, "")\<close> and \<open>s.replace(/\.git$/, "")\<close>\<close>

definition dropTrailing :: "jschar \<Rightarrow> jsstring \<Rightarrow> jsstring" where
  "dropTrailing c s = rev (dropWhile (\<lambda>d. d = c) (rev s))"

definition dropGit :: "jsstring \<Rightarrow> jsstring" where
  "dropGit s = (if endsWith s (J ''.git'') then take (length s - 4) s else s)"

definition nameUnit :: "jschar \<Rightarrow> bool" where
  "nameUnit c \<longleftrightarrow> 97 \<le> c \<and> c \<le> 122 \<or> 48 \<le> c \<and> c \<le> 57 \<or> c = 45"

text \<open>\<open>s.replace(/[^a-z0-9-]+/g, "-")\<close>: each longest run of other units becomes one dash.\<close>

fun dashRuns :: "bool \<Rightarrow> jsstring \<Rightarrow> jsstring" where
  "dashRuns inRun [] = []"
| "dashRuns inRun (c # s) =
     (if nameUnit c then c # dashRuns False s else if inRun then dashRuns True s else 45 # dashRuns True s)"

definition suggestName :: "jsstring \<Rightarrow> jsstring" where
  "suggestName repositoryUrl =
     (let lst = last (splitS (dropTrailing 47 (dropGit repositoryUrl)) (J ''/''));
          dashed = dashRuns False (lowerS lst);
          stripped = dropTrailing 45 (dropWhile (\<lambda>c. c = 45) dashed) in
      dropTrailing 45 (take 40 stripped))"

section \<open>Validation and the server\<close>

definition isIntegerN :: "jsnum \<Rightarrow> bool" where
  "isIntegerN n = (case n of Fin q \<Rightarrow> q = of_int \<lfloor>q\<rfloor> | _ \<Rightarrow> False)"

definition portOk :: "jsstring \<Rightarrow> bool" where
  "portOk t = (let port = jsNumber (trimS t) in isIntegerN port \<and> \<not> ltN port (Fin 1024) \<and> \<not> ltN (Fin 65535) port)"

type_synonym FormErrors = "(string \<times> jsstring) list"

definition validateServerForm :: "ServerForm \<Rightarrow> jsstring list \<Rightarrow> FormErrors" where
  "validateServerForm form existing =
     (if \<not> test FORM_NAME (sf_name form)
      then [(''name'', (J ''Us'' @ [225] @ J '' min'' @ [250] @ J ''sculas, n'' @ [250] @ J ''meros y guiones (hasta 40 caracteres), sin guion al principio ni al final.''))]
      else if sf_name form \<in> set existing then [(''name'', (J ''Ya hay un servidor con ese nombre.''))] else []) @
     (if \<not> test REPO (sf_repositoryUrl form) \<or> 300 < length (sf_repositoryUrl form)
      then [(''repositoryUrl'', (J ''Peg'' @ [225] @ J '' la direcci'' @ [243] @ J ''n https del repositorio, por ejemplo https://github.com/org/servidor.''))] else []) @
     (if \<not> test REF (sf_ref form) then [(''ref'', (J ''Escrib'' @ [237] @ J '' una rama, tag o commit (por ejemplo main).''))] else []) @
     (if \<not> test PATH (sf_path form) \<or> J ''..'' \<in> set (splitS (sf_path form) (J ''/'')) \<or> startsWith (sf_path form) (J ''/'')
      then [(''path'', (J ''Una carpeta dentro del repositorio, sin .. ni / al principio. Dejalo vac'' @ [237] @ J ''o si el servidor est'' @ [225] @ J '' en la ra'' @ [237] @ J ''z.''))]
      else []) @
     (if sf_transport form \<noteq> J ''stdio'' \<and> sf_transport form \<noteq> J ''sse'' then [(''transport'', (J ''Eleg'' @ [237] @ J '' stdio o SSE.''))] else []) @
     (if sf_transport form = J ''sse'' \<and> \<not> portOk (sf_targetPort form)
      then [(''targetPort'', (J ''Un puerto entre 1024 y 65535.''))] else []) @
     (if \<not> list_ex (\<lambda>p. fst p = sf_schedule form) SCHEDULES then [(''schedule'', (J ''Eleg'' @ [237] @ J '' cada cu'' @ [225] @ J ''nto evaluarlo.''))] else [])"

text \<open>
  \<open>serverFromForm\<close>; \<open>None\<close> is the \<open>TypeError\<close> of \<open>find(...)!.cron\<close> for a schedule that is no preset.
\<close>

definition serverFromForm :: "ServerForm \<Rightarrow> jsstring \<Rightarrow> jsstring list \<Rightarrow> Obj option" where
  "serverFromForm form namespace suite =
     map_option (\<lambda>(_, _, cron).
       \<lparr>ob_name = sf_name form,
        ob_meta = [(J ''name'', JStr (sf_name form)), (J ''namespace'', JStr namespace),
                   (J ''labels'', JObj [(LABEL_MANAGED_BY, JStr MANAGED_BY_UI)]),
                   (J ''annotations'', JObj [(J ''security.eval.io/trigger-now'', JStr (J ''true''))])],
        ob_body = [(J ''apiVersion'', JStr FORM_API_VERSION), (J ''kind'', JStr (J ''MCPServer'')),
                   (J ''spec'', JObj (
                      [(J ''repositoryUrl'', JStr (sf_repositoryUrl form)), (J ''ref'', JStr (sf_ref form))] @
                      (if sf_path form \<noteq> [] then [(J ''path'', JStr (sf_path form))] else []) @
                      [(J ''transport'', JStr (sf_transport form))] @
                      (if sf_transport form = J ''sse'' then [(J ''targetPort'', JNum (jsNumber (trimS (sf_targetPort form))))] else []) @
                      [(J ''schedule'', JStr cron), (J ''active'', JBool True),
                       (J ''agentSuite'', JArr (map (\<lambda>n. JObj [(J ''name'', JStr n)]) suite)),
                       (J ''timeoutSeconds'', JNum (Fin 1800)), (J ''runHistoryLimit'', JNum (Fin 5))]))]\<rparr>)
       (find (\<lambda>p. fst p = sf_schedule form) SCHEDULES)"

text \<open>\<open>labels?.[key]\<close>; a label that is not text cannot equal one.\<close>

definition labelOf :: "Obj \<Rightarrow> jsstring \<Rightarrow> jsstring option" where
  "labelOf s key = Option.bind (asRec (fld (ob_meta s) (J ''labels''))) (\<lambda>l. asStr (fld l key))"

definition isGitManaged :: "Obj \<Rightarrow> bool" where
  "isGitManaged s \<longleftrightarrow> (case labelOf s LABEL_FLUX of Some l \<Rightarrow> l \<noteq> [] | None \<Rightarrow> False) \<and> labelOf s LABEL_MANAGED_BY \<noteq> Some MANAGED_BY_UI"

section \<open>Describing a schedule\<close>

definition EVERY_MINUTES :: pattern where
  "EVERY_MINUTES = rx (Cat [Bol, Lits ''*/'', Grp (someR Digit), Lits '' * * * *'', Eol])"

definition EVERY_HOURS :: pattern where
  "EVERY_HOURS = rx (Cat [Bol, Lits ''0 */'', Grp (someR Digit), Lits '' * * *'', Eol])"

text \<open>The group of a match is what lies between the literals around it.\<close>

definition describeSchedule :: "jsstring option \<Rightarrow> jsstring" where
  "describeSchedule cron =
     (case cron of
        None \<Rightarrow> J ''Sin programar''
      | Some c \<Rightarrow>
          if c = [] then J ''Sin programar''
          else case find (\<lambda>p. snd (snd p) = c) SCHEDULES of
            Some (_, label, _) \<Rightarrow> label
          | None \<Rightarrow>
              if test EVERY_MINUTES c then J ''Cada '' @ sliceS c 2 (length c - 8) @ J '' minutos''
              else if test EVERY_HOURS c then J ''Cada '' @ sliceS c 4 (length c - 6) @ J '' horas''
              else J ''Programado: '' @ c)"

section \<open>What the patterns accept\<close>

lemma of_char_units [simp]:
  "of_char CHR ''a'' = (97 :: jschar)" "of_char CHR ''z'' = (122 :: jschar)" "of_char CHR ''A'' = (65 :: jschar)"
  "of_char CHR ''Z'' = (90 :: jschar)" "of_char CHR ''0'' = (48 :: jschar)" "of_char CHR ''9'' = (57 :: jschar)"
  "of_char CHR ''-'' = (45 :: jschar)" "of_char CHR ''.'' = (46 :: jschar)" "of_char CHR ''_'' = (95 :: jschar)"
  "of_char CHR ''/'' = (47 :: jschar)" "of_char CHR ''~'' = (126 :: jschar)" "of_char CHR '':'' = (58 :: jschar)"
  by (simp_all add: of_char_def)

lemma name_shape:
  "test (edged alnumLow (betweenR 0 n dashAlnumLow)) s \<longleftrightarrow>
     s \<noteq> [] \<and> length s \<le> n + 2 \<and> list_all nameUnit s \<and> hd s \<noteq> 45 \<and> last s \<noteq> 45"
proof -
  let ?P = "\<lambda>c :: jschar. 97 \<le> c \<and> c \<le> 122 \<or> 48 \<le> c \<and> c \<le> 57"
  have a: "ends False False s alnumLow i = unitIs ?P s i" for i
    by (simp add: inRange_def)
  have b: "ends False False s dashAlnumLow i = unitIs nameUnit s i" for i
    by (simp add: inRange_def sameU_def nameUnit_def unitIs_def)
  have m: "set (ends False False s (betweenR 0 n dashAlnumLow) i) = {j. runIn nameUnit s i j \<and> j \<le> i + n}" for i
    using set_ends_between [of 0 n s dashAlnumLow nameUnit i, OF _ b] runIn_le [of nameUnit s i] by auto
  have "test (edged alnumLow (betweenR 0 n dashAlnumLow)) s \<longleftrightarrow>
    s \<noteq> [] \<and> length s \<le> n + 2 \<and> list_all nameUnit s \<and> ?P (hd s) \<and> ?P (last s)"
    by (rule test_edged [OF a m]) (auto simp: nameUnit_def)
  also have "\<dots> \<longleftrightarrow> s \<noteq> [] \<and> length s \<le> n + 2 \<and> list_all nameUnit s \<and> hd s \<noteq> 45 \<and> last s \<noteq> 45"
    by (auto simp: list_all_iff nameUnit_def dest: hd_in_set last_in_set)
  finally show ?thesis .
qed

lemma name_pattern:
  "test FORM_NAME s \<longleftrightarrow>
     s \<noteq> [] \<and> length s \<le> 40 \<and> list_all nameUnit s \<and> hd s \<noteq> 45 \<and> last s \<noteq> 45"
  unfolding FORM_NAME_def by (simp add: name_shape)

text \<open>Units of a reference or a path, and of a repository address.\<close>

definition refUnitOk :: "jschar \<Rightarrow> bool" where
  "refUnitOk c \<longleftrightarrow> 65 \<le> c \<and> c \<le> 90 \<or> 97 \<le> c \<and> c \<le> 122 \<or> 48 \<le> c \<and> c \<le> 57 \<or> c = 46 \<or> c = 95 \<or> c = 45 \<or> c = 47"

lemma refUnit_ends: "ends False False s refUnit i = unitIs refUnitOk s i"
  by (simp add: inRange_def sameU_def refUnitOk_def unitIs_def)

lemma ref_pattern: "test REF s \<longleftrightarrow> 1 \<le> length s \<and> length s \<le> 100 \<and> list_all refUnitOk s"
  unfolding REF_def by (rule test_bounded_run [OF _ refUnit_ends]) simp

lemma path_pattern: "test PATH s \<longleftrightarrow> length s \<le> 200 \<and> list_all refUnitOk s"
  unfolding PATH_def using test_bounded_run [of 0 200 s refUnit refUnitOk, OF _ refUnit_ends] by simp

definition repoUnitOk :: "jschar \<Rightarrow> bool" where
  "repoUnitOk c \<longleftrightarrow> refUnitOk c \<or> c = 58 \<or> c = 126"

lemma repo_pattern:
  assumes "test REPO s"
  shows "startsWith s (J ''https://'') \<and> list_all repoUnitOk s"
proof -
  let ?rs = "[repoHost, repoPort, Lits ''/'', repoTail]"
  have ok: "list_all (writesOnly repoUnitOk) (Lits ''https://'' # ?rs)"
    by (auto simp: J_def quantifier_defs repoUnitOk_def refUnitOk_def inRange_def sameU_def)
  from assms have e: "length s \<in> set (endsCat False False s (Lits ''https://'' # ?rs) 0)"
    using test_anchored [of "Lits ''https://'' # ?rs" s] by (simp add: REPO_def)
  then have "litAt False s (J ''https://'') 0" by (simp split: if_splits)
  moreover have "runIn repoUnitOk s 0 (length s)" using ends_runIn(2) [OF e ok] .
  ultimately show ?thesis by (simp add: litAt_J_exact startsWith_prefix runIn_all)
qed

section \<open>The suggested name is valid\<close>

lemma dropTrailing_last: "dropTrailing c s \<noteq> [] \<Longrightarrow> last (dropTrailing c s) \<noteq> c"
  unfolding dropTrailing_def by (metis (full_types) hd_dropWhile last_rev rev_is_Nil_conv)

lemma dropTrailing_prefix: "\<exists>t. s = dropTrailing c s @ t"
  unfolding dropTrailing_def by (metis rev_append rev_rev_ident takeWhile_dropWhile_id)

lemma dropTrailing_length: "length (dropTrailing c s) \<le> length s"
  unfolding dropTrailing_def using length_dropWhile_le [of _ "rev s"] by simp

lemma dashRuns_units: "list_all nameUnit (dashRuns r s)"
  by (induction r s rule: dashRuns.induct) (auto simp: nameUnit_def)

lemma suggestName_valid: "suggestName url = [] \<or> test FORM_NAME (suggestName url)"
proof (cases "suggestName url = []")
  case False
  define d where "d = dropWhile (\<lambda>c. c = 45) (dashRuns False (lowerS (last (splitS (dropTrailing 47 (dropGit url)) (J ''/'')))))"
  have sug: "suggestName url = dropTrailing 45 (take 40 (dropTrailing 45 d))"
    by (simp add: suggestName_def d_def)
  obtain t where t: "dropTrailing 45 d = suggestName url @ t"
    using dropTrailing_prefix [of "take 40 (dropTrailing 45 d)" 45] unfolding sug
    by (metis append.assoc append_take_drop_id)
  obtain u where u: "d = suggestName url @ u"
    using dropTrailing_prefix [of d 45] t by (metis append.assoc)
  have "set d \<subseteq> {c. nameUnit c}"
    using dashRuns_units set_dropWhileD unfolding d_def list_all_iff by fastforce
  with u have "list_all nameUnit (suggestName url)" by (auto simp: list_all_iff)
  moreover have "hd (suggestName url) \<noteq> 45"
  proof -
    have ne: "d \<noteq> []" and h: "hd (suggestName url) = hd d" using u False by simp_all
    from ne have "hd d \<noteq> 45" unfolding d_def by (rule hd_dropWhile)
    then show ?thesis by (simp add: h)
  qed
  moreover have "last (suggestName url) \<noteq> 45" using False dropTrailing_last unfolding sug by blast
  moreover have "length (suggestName url) \<le> 40"
    unfolding sug by (rule order_trans [OF dropTrailing_length]) simp
  ultimately show ?thesis using False by (simp add: name_pattern)
qed simp

text \<open>
  The name suggested for a repository is empty or one the form accepts.
\<close>

theorem suggested_name_accepted:
  "suggestName url = [] \<or> test FORM_NAME (suggestName url)"
  by (rule suggestName_valid)

section \<open>What an accepted form creates\<close>

lemma portOk_range: "portOk t \<Longrightarrow> \<exists>n. jsNumber (trimS t) = Fin (of_int n) \<and> 1024 \<le> n \<and> n \<le> 65535"
proof -
  assume p: "portOk t"
  then obtain q where q: "jsNumber (trimS t) = Fin q" "q = of_int \<lfloor>q\<rfloor>"
    by (auto simp: portOk_def isIntegerN_def Let_def split: jsnum.splits)
  with p have "1024 \<le> q" "q \<le> 65535" by (auto simp: portOk_def Let_def)
  then have "1024 \<le> \<lfloor>q\<rfloor>" "\<lfloor>q\<rfloor> \<le> 65535" using q(2) by linarith+
  with q show ?thesis by (intro exI [of _ "\<lfloor>q\<rfloor>"]) simp
qed

lemma validate_Nil:
  "validateServerForm form existing = [] \<longleftrightarrow>
     test FORM_NAME (sf_name form) \<and> sf_name form \<notin> set existing \<and>
     test REPO (sf_repositoryUrl form) \<and> length (sf_repositoryUrl form) \<le> 300 \<and> test REF (sf_ref form) \<and>
     test PATH (sf_path form) \<and> J ''..'' \<notin> set (splitS (sf_path form) (J ''/'')) \<and> \<not> startsWith (sf_path form) (J ''/'') \<and>
     (sf_transport form = J ''stdio'' \<or> sf_transport form = J ''sse'') \<and>
     (sf_transport form = J ''sse'' \<longrightarrow> portOk (sf_targetPort form)) \<and>
     list_ex (\<lambda>p. fst p = sf_schedule form) SCHEDULES"
  unfolding validateServerForm_def append_is_Nil_conv by (auto simp: not_less)

lemma find_list_ex: "list_ex P xs \<Longrightarrow> \<exists>x. find P xs = Some x \<and> P x \<and> x \<in> set xs"
  by (induction xs) auto

lemma accepted_form:
  assumes "validateServerForm form existing = []"
  shows "\<exists>s. serverFromForm form namespace suite = Some s \<and> ob_name s = sf_name form \<and> \<not> isGitManaged s \<and>
    labelOf s LABEL_MANAGED_BY = Some MANAGED_BY_UI"
proof -
  from assms obtain p where "find (\<lambda>p. fst p = sf_schedule form) SCHEDULES = Some p"
    unfolding validate_Nil using find_list_ex by blast
  then show ?thesis
    by (cases p) (simp add: serverFromForm_def isGitManaged_def labelOf_def LABEL_FLUX_def LABEL_MANAGED_BY_def)
qed


definition sampleForm :: ServerForm where
  "sampleForm = EMPTY_FORM\<lparr>sf_name := J ''weather'', sf_repositoryUrl := J ''https://a/b'', sf_transport := J ''sse''\<rparr>"

lemma sampleForm_repo: "test REPO (sf_repositoryUrl sampleForm)"
proof -
  have "length (J ''https://a/b'') \<in> set (endsCat False False (J ''https://a/b'') [Lits ''https://'', repoHost, repoPort, Lits ''/'', repoTail] 0)"
    by (simp add: J_def quantifier_defs unitIs_def litAt_def sameU_def inRange_def Let_def)
  then show ?thesis
    using test_anchored [of "[Lits ''https://'', repoHost, repoPort, Lits ''/'', repoTail]"]
    by (simp add: REPO_def sampleForm_def EMPTY_FORM_def)
qed

lemma sampleForm_valid: "validateServerForm sampleForm [] = []"
  unfolding validate_Nil name_pattern ref_pattern path_pattern
  using sampleForm_repo
  by (simp add: sampleForm_def EMPTY_FORM_def J_def nameUnit_def refUnitOk_def splitS.simps portOk_def SCHEDULES_def
      jsNumber_def radixPrefix_def lowerS_def lowerChar_def signOf_def unsignedDecimal_def isDig_def toDouble_def signed_def
      isIntegerN_def trimS_def isWs_def Let_def OVERFLOW_def)


end
