(* ===== verification/Actions.thy ===== *)
theory Actions
  imports ServerForm Utf8
begin

text \<open>
  The write routes of the dashboard (\<^verbatim>\<open>src/frontend/server/actions.ts\<close>) and the same-origin check
  (\<^verbatim>\<open>src/frontend/server/origin.ts\<close>). A handler returns its reply and the calls it made to the cluster, in
  order. Parameters are the URL parser of the platform and the answers of the cluster.
\<close>

section \<open>Origins\<close>

text \<open>
  \<open>wu_host\<close> is \<open>new URL(s).host\<close> and \<open>wu_path\<close> is \<open>new URL(s, "http://x").pathname\<close>; \<open>None\<close>: the constructor throws.
\<close>

record webUrl =
  wu_host :: "jsstring \<Rightarrow> jsstring option"
  wu_path :: "jsstring \<Rightarrow> jsstring option"

definition isSameOrigin :: "webUrl \<Rightarrow> jsstring option \<Rightarrow> jsstring option \<Rightarrow> bool" where
  "isSameOrigin w origin hst =
     (case origin of
        None \<Rightarrow> True
      | Some org \<Rightarrow>
          (case hst of
             None \<Rightarrow> False
           | Some h \<Rightarrow> h \<noteq> [] \<and> (case wu_host w org of None \<Rightarrow> False | Some oh \<Rightarrow> oh = lowerS h)))"

section \<open>Requests, replies and the cluster\<close>

record ActionReq =
  aq_method :: jsstring
  aq_url :: "jsstring option"
  aq_origin :: "jsstring option"
  aq_host :: "jsstring option"
  aq_contentType :: "jsstring option"
  aq_chunks :: "nat list list"

record Reply =
  rp_status :: nat
  rp_body :: jsval

text \<open>A thrown value, as far as the handlers look at it.\<close>

record Failure =
  fa_isError :: bool
  fa_isSyntax :: bool
  fa_message :: "jsstring option"
  fa_body :: "jsval option"
  fa_string :: jsstring

datatype StoreCall = CreateCall Obj | PatchCall jsstring jsobj | RemoveCall jsstring

record ServerStore =
  ss_namespace :: jsstring
  ss_servers :: "Obj list"
  ss_agentNames :: "jsstring list"
  ss_call :: "StoreCall \<Rightarrow> Failure option"

definition mergePatchBody :: "jsstring \<Rightarrow> jsstring \<Rightarrow> jsstring \<Rightarrow> jsstring \<Rightarrow> jsobj \<Rightarrow> jsobj" where
  "mergePatchBody apiVersion kind namespace name patch =
     (let metadata = (case asRec (fld patch (J ''metadata'')) of Some m \<Rightarrow> m | None \<Rightarrow> []);
          rest = deleteProp patch (J ''metadata'') in
      defineProp (spread [(J ''apiVersion'', JStr apiVersion), (J ''kind'', JStr kind)] rest) (J ''metadata'')
        (JObj (spread (spread [] metadata) [(J ''name'', JStr name), (J ''namespace'', JStr namespace)])))"

definition ACTION_NAME :: pattern where
  "ACTION_NAME = edged alnumLow (betweenR 0 61 dashAlnumLow)"

definition errReply :: "nat \<Rightarrow> jsstring \<Rightarrow> Reply" where
  "errReply status msg = \<lparr>rp_status = status, rp_body = JObj [(J ''error'', JStr msg)]\<rparr>"

definition okReply :: "nat \<Rightarrow> Reply" where
  "okReply status = \<lparr>rp_status = status, rp_body = JObj [(J ''ok'', JBool True)]\<rparr>"

definition plainError :: "string \<Rightarrow> Failure" where
  "plainError msg = \<lparr>fa_isError = True, fa_isSyntax = False, fa_message = Some (J msg), fa_body = None, fa_string = J ''Error: '' @ J msg\<rparr>"

definition syntaxError :: "host \<Rightarrow> jsstring \<Rightarrow> Failure" where
  "syntaxError h text = \<lparr>fa_isError = True, fa_isSyntax = True, fa_message = Some (hParseErr h text), fa_body = None,
     fa_string = J ''SyntaxError: '' @ hParseErr h text\<rparr>"

definition MAX_BODY :: nat where "MAX_BODY = 8 * 1024"

fun readChunks :: "nat \<Rightarrow> string \<Rightarrow> nat list list \<Rightarrow> nat \<Rightarrow> Failure + nat list" where
  "readChunks limit msg [] n = Inr []"
| "readChunks limit msg (c # cs) n =
     (if limit < n + length c then Inl (plainError msg)
      else bindR (readChunks limit msg cs (n + length c)) (\<lambda>bs. Inr (c @ bs)))"

definition readReqJson :: "host \<Rightarrow> ActionReq \<Rightarrow> Failure + jsobj" where
  "readReqJson h req =
     bindR (readChunks MAX_BODY ''too large'' (aq_chunks req) 0) (\<lambda>bs.
       let t = fromUtf8 bs in
       if t = [] then Inr []
       else case hParse h t of
         None \<Rightarrow> Inl (syntaxError h t)
       | Some (JObj o') \<Rightarrow> Inr o'
       | Some _ \<Rightarrow> Inl (plainError ''not an object''))"

definition API_MESSAGE :: pattern where
  "API_MESSAGE = rx (Cat [Items False [Unit 34], Lits ''message'', Items False [Unit 34], Lits '':'', Items False [Unit 34],
     Grp (someR (Items True [Unit 34])), Items False [Unit 34]])"

definition apiError :: "host \<Rightarrow> Failure \<Rightarrow> jsstring" where
  "apiError h err =
     (let body = (case fa_body err of Some (JStr s) \<Rightarrow> s | Some JNull \<Rightarrow> hStringify h (JStr []) | Some v \<Rightarrow> hStringify h v
                  | None \<Rightarrow> hStringify h (JStr []));
          msg = (case exec API_MESSAGE body of
                   Some (i, j) \<Rightarrow> sliceS body (i + 11) (j - 1)
                 | None \<Rightarrow> (case fa_message err of Some m \<Rightarrow> m | None \<Rightarrow> fa_string err)) in
      take 300 msg)"

definition isActionRoute :: "jsstring option \<Rightarrow> bool" where
  "isActionRoute url = (case url of None \<Rightarrow> False | Some u \<Rightarrow> u = J ''/api/servers'' \<or> startsWith u (J ''/api/servers/''))"

definition BAD_BODY :: pattern where
  "BAD_BODY = rx (Alts [Lits ''too large'', Lits ''not an object''])"

text \<open>The \<open>catch\<close> of \<open>handleAction\<close>.\<close>

definition failReply :: "host \<Rightarrow> Failure \<Rightarrow> Reply" where
  "failReply h err =
     (if fa_isSyntax err \<or> fa_isError err \<and> (case fa_message err of Some m \<Rightarrow> test BAD_BODY m | None \<Rightarrow> False)
      then errReply 400 (J ''El pedido no es JSON v'' @ [225] @ J ''lido.'')
      else errReply 502 ((J ''El cluster rechaz'' @ [243] @ J '' la acci'' @ [243] @ J ''n: '') @ apiError h err))"

section \<open>The handlers\<close>

definition runCall :: "host \<Rightarrow> ServerStore \<Rightarrow> StoreCall \<Rightarrow> Reply \<Rightarrow> Reply \<times> StoreCall list" where
  "runCall h store c reply = (case ss_call store c of None \<Rightarrow> (reply, [c]) | Some err \<Rightarrow> (failReply h err, [c]))"

definition JSON_TYPE :: pattern where
  "JSON_TYPE = rx (Cat [Bol, Lits ''application/json'', WordB])"

definition field :: "jsobj \<Rightarrow> string \<Rightarrow> jsstring \<Rightarrow> jsstring" where
  "field body key dflt = (case asStr (fld body (J key)) of Some v \<Rightarrow> trimS v | None \<Rightarrow> dflt)"

definition formOf :: "jsobj \<Rightarrow> ServerForm" where
  "formOf body =
     \<lparr>sf_name = field body ''name'' (sf_name EMPTY_FORM),
      sf_repositoryUrl = field body ''repositoryUrl'' (sf_repositoryUrl EMPTY_FORM),
      sf_ref = field body ''ref'' (sf_ref EMPTY_FORM),
      sf_path = field body ''path'' (sf_path EMPTY_FORM),
      sf_transport = field body ''transport'' (sf_transport EMPTY_FORM),
      sf_targetPort = field body ''targetPort'' (sf_targetPort EMPTY_FORM),
      sf_schedule = field body ''schedule'' (sf_schedule EMPTY_FORM)\<rparr>"

definition uiServers :: "Obj list \<Rightarrow> nat" where
  "uiServers servers = length (filter (\<lambda>s. labelOf s LABEL_MANAGED_BY = Some MANAGED_BY_UI) servers)"

definition noPreset :: Failure where
  "noPreset = \<lparr>fa_isError = True, fa_isSyntax = False, fa_message = Some (J ''Cannot read properties of undefined (reading '' @ [39] @ J ''cron'' @ [39] @ J '')''),
     fa_body = None, fa_string = (J ''TypeError: Cannot read properties of undefined (reading '' @ [39] @ J ''cron'' @ [39] @ J '')'')\<rparr>"

definition createServer :: "host \<Rightarrow> ServerStore \<Rightarrow> ActionReq \<Rightarrow> Reply \<times> StoreCall list" where
  "createServer h store req =
     (if \<not> test JSON_TYPE (case aq_contentType req of Some t \<Rightarrow> t | None \<Rightarrow> []) then (errReply 415 (J ''Mand'' @ [225] @ J '' JSON.''), [])
      else case readReqJson h req of
        Inl err \<Rightarrow> (failReply h err, [])
      | Inr body \<Rightarrow>
          let form = formOf body; errors = validateServerForm form (map ob_name (ss_servers store));
              suite = filter (\<lambda>a. a \<in> set (ss_agentNames store)) DEFAULT_SUITE in
          if errors \<noteq> [] then
            (\<lparr>rp_status = 400, rp_body = JObj [(J ''error'', JStr (J ''Revis'' @ [225] @ J '' los campos marcados.'')),
               (J ''fields'', JObj (map (\<lambda>(k, m). (J k, JStr m)) errors))]\<rparr>, [])
          else if MAX_UI_SERVERS \<le> uiServers (ss_servers store) then
            (errReply 429 ((J ''Ya hay '') @ showNat MAX_UI_SERVERS @ (J '' servidores creados desde la UI. Borr'' @ [225] @ J '' alguno antes de agregar otro.'')), [])
          else if suite = [] then (errReply 503 (J ''No hay agentes de evaluaci'' @ [243] @ J ''n instalados en el cluster.''), [])
          else case serverFromForm form (ss_namespace store) suite of
            None \<Rightarrow> (failReply h noPreset, [])
          | Some s \<Rightarrow> runCall h store (CreateCall s) \<lparr>rp_status = 201, rp_body = JObj [(J ''name'', JStr (sf_name form))]\<rparr>)"

text \<open>\<open>server.spec.active === false\<close>\<close>

definition isPaused :: "Obj \<Rightarrow> bool" where
  "isPaused s \<longleftrightarrow> Option.bind (asRec (fld (ob_body s) (J ''spec''))) (\<lambda>sp. fld sp (J ''active'')) = Some (JBool False)"

definition triggerPatch :: jsobj where
  "triggerPatch = [(J ''metadata'', JObj [(J ''annotations'', JObj [(J ''security.eval.io/trigger-now'', JStr (J ''true''))])])]"

definition activePatch :: "bool \<Rightarrow> jsobj" where
  "activePatch active = [(J ''spec'', JObj [(J ''active'', JBool active)])]"

definition serverAction :: "host \<Rightarrow> ServerStore \<Rightarrow> ActionReq \<Rightarrow> jsstring list \<Rightarrow> Reply \<times> StoreCall list" where
  "serverAction h store req parts =
     (let name = (if 2 < length parts then parts ! 2 else []) in
      if \<not> test ACTION_NAME name then (errReply 404 (J ''No existe ese servidor.''), [])
      else case find (\<lambda>s. ob_name s = name) (ss_servers store) of
        None \<Rightarrow> (errReply 404 (J ''No existe ese servidor.''), [])
      | Some server \<Rightarrow>
          if length parts = 4 \<and> parts ! 3 = J ''evaluate'' \<and> aq_method req = J ''POST'' then
            (if isPaused server then (errReply 409 (J ''El servidor est'' @ [225] @ J '' pausado: reanudalo para evaluarlo.''), [])
             else runCall h store (PatchCall name triggerPatch) (okReply 202))
          else if length parts = 4 \<and> parts ! 3 = J ''pause'' \<and> aq_method req = J ''POST'' then
            (if isGitManaged server then (errReply 409 (J ''Este servidor se gestiona desde git: pausalo ah'' @ [237] @ J ''.''), [])
             else case readReqJson h req of
               Inl err \<Rightarrow> (failReply h err, [])
             | Inr body \<Rightarrow>
                 (case fld body (J ''paused'') of
                    Some (JBool paused) \<Rightarrow> runCall h store (PatchCall name (activePatch (\<not> paused))) (okReply 200)
                  | _ \<Rightarrow> (errReply 400 (J ''Mand'' @ [225] @ J '' {'' @ [34] @ J ''paused'' @ [34] @ J '': true} o {'' @ [34] @ J ''paused'' @ [34] @ J '': false}.''), [])))
          else if length parts = 3 \<and> aq_method req = J ''DELETE'' then
            (if isGitManaged server then (errReply 409 (J ''Este servidor se gestiona desde git: borralo ah'' @ [237] @ J ''.''), [])
             else runCall h store (RemoveCall name) (okReply 200))
          else (errReply 405 (J ''Acci'' @ [243] @ J ''n no soportada.''), []))"

definition originAllowed :: "webUrl \<Rightarrow> ActionReq \<Rightarrow> bool" where
  "originAllowed w req \<longleftrightarrow> (case aq_origin req of None \<Rightarrow> False | Some org \<Rightarrow> org \<noteq> [] \<and> isSameOrigin w (Some org) (aq_host req))"

text \<open>\<open>None\<close>: the URL constructor threw, outside the \<open>try\<close>.\<close>

definition handleAction :: "webUrl \<Rightarrow> host \<Rightarrow> ServerStore \<Rightarrow> ActionReq \<Rightarrow> (Reply \<times> StoreCall list) option" where
  "handleAction w h store req =
     (if \<not> originAllowed w req then Some (errReply 403 (J ''Origen no permitido.''), [])
      else case wu_path w (case aq_url req of Some u \<Rightarrow> u | None \<Rightarrow> J ''/'') of
        None \<Rightarrow> None
      | Some path \<Rightarrow>
          let parts = filter (\<lambda>p. p \<noteq> []) (splitS path (J ''/'')) in
          Some (if length parts = 2 \<and> aq_method req = J ''POST'' then createServer h store req
                else serverAction h store req parts))"

section \<open>What the handlers may do\<close>

text \<open>The calls that a store allows: which server they are for, and what the server must be.\<close>

definition allowedCall :: "ServerStore \<Rightarrow> StoreCall \<Rightarrow> bool" where
  "allowedCall store c =
     (case c of
        CreateCall s \<Rightarrow>
          (\<exists>form suite. validateServerForm form (map ob_name (ss_servers store)) = [] \<and>
             serverFromForm form (ss_namespace store) suite = Some s \<and> suite \<noteq> [] \<and> set suite \<subseteq> set (ss_agentNames store)) \<and>
          uiServers (ss_servers store) < MAX_UI_SERVERS
      | PatchCall name patch \<Rightarrow>
          (\<exists>s \<in> set (ss_servers store). ob_name s = name \<and>
             (patch = triggerPatch \<and> \<not> isPaused s \<or> (\<exists>b. patch = activePatch b) \<and> \<not> isGitManaged s))
      | RemoveCall name \<Rightarrow> (\<exists>s \<in> set (ss_servers store). ob_name s = name \<and> \<not> isGitManaged s))"

definition succeeded :: "Reply \<Rightarrow> bool" where
  "succeeded r \<longleftrightarrow> rp_status r \<in> {200, 201, 202}"

text \<open>A reply with its calls: none and no success, or one allowed call whose acceptance is the success.\<close>

definition soundReply :: "ServerStore \<Rightarrow> Reply \<times> StoreCall list \<Rightarrow> bool" where
  "soundReply store rc \<longleftrightarrow>
     (snd rc = [] \<and> \<not> succeeded (fst rc)) \<or>
     (\<exists>c. snd rc = [c] \<and> allowedCall store c \<and> (succeeded (fst rc) \<longleftrightarrow> ss_call store c = None))"

lemma soundReply_none: "\<not> succeeded r \<Longrightarrow> soundReply store (r, [])"
  by (simp add: soundReply_def)

lemma failReply_fails [simp]: "\<not> succeeded (failReply h err)"
  by (simp add: failReply_def succeeded_def errReply_def)

lemma errReply_fails: "status \<notin> {200, 201, 202} \<Longrightarrow> \<not> succeeded (errReply status msg)"
  by (simp add: succeeded_def errReply_def)

lemma succeededI:
  "status \<in> {200, 201, 202} \<Longrightarrow> succeeded \<lparr>rp_status = status, rp_body = v\<rparr>"
  "status \<notin> {200, 201, 202} \<Longrightarrow> \<not> succeeded \<lparr>rp_status = status, rp_body = v\<rparr>"
  by (simp_all add: succeeded_def)

lemma soundReply_runCall: "allowedCall store c \<Longrightarrow> succeeded r \<Longrightarrow> soundReply store (runCall h store c r)"
  by (auto simp: soundReply_def runCall_def split: option.split)

lemma createServer_sound: "soundReply store (createServer h store req)"
proof (cases "readReqJson h req")
  case (Inr body)
  let ?form = "formOf body" and ?suite = "filter (\<lambda>a. a \<in> set (ss_agentNames store)) DEFAULT_SUITE"
  have "allowedCall store (CreateCall s)"
    if "validateServerForm ?form (map ob_name (ss_servers store)) = []" "\<not> MAX_UI_SERVERS \<le> uiServers (ss_servers store)"
      "?suite \<noteq> []" "serverFromForm ?form (ss_namespace store) ?suite = Some s" for s
    using that unfolding allowedCall_def by (auto intro!: exI [of _ ?form] exI [of _ ?suite])
  then show ?thesis
    unfolding createServer_def Inr Let_def sum.case
    by (auto intro!: soundReply_none errReply_fails soundReply_runCall succeededI split: option.split)
qed (auto simp: createServer_def intro!: soundReply_none errReply_fails)

lemma soundReply_if:
  "(b \<Longrightarrow> soundReply store x) \<Longrightarrow> (\<not> b \<Longrightarrow> soundReply store y) \<Longrightarrow> soundReply store (if b then x else y)"
  by simp

lemma okReply_succeeds: "status \<in> {200, 201, 202} \<Longrightarrow> succeeded (okReply status)"
  by (simp add: succeeded_def okReply_def)

lemma serverAction_sound: "soundReply store (serverAction h store req parts)"
proof -
  define name where "name = (if 2 < length parts then parts ! 2 else [])"
  show ?thesis
  proof (cases "find (\<lambda>s. ob_name s = name) (ss_servers store)")
    case None
    show ?thesis
      unfolding serverAction_def Let_def name_def [symmetric] None option.case
      by (intro soundReply_if soundReply_none errReply_fails) simp_all
  next
    case (Some server)
    then have mem: "server \<in> set (ss_servers store)" "ob_name server = name" by (auto simp: find_Some_iff)
    have allowed: "allowedCall store (PatchCall name (activePatch b))" "allowedCall store (RemoveCall name)" if "\<not> isGitManaged server" for b
      using mem that unfolding allowedCall_def by auto
    have trigger: "allowedCall store (PatchCall name triggerPatch)" if "\<not> isPaused server"
      using mem that unfolding allowedCall_def by auto
    show ?thesis
      unfolding serverAction_def Let_def name_def [symmetric] Some option.case
      by (intro soundReply_if soundReply_none soundReply_runCall okReply_succeeds errReply_fails allowed trigger)
        (auto split: sum.split option.split jsval.split
          intro!: soundReply_none soundReply_runCall okReply_succeeds errReply_fails allowed)
  qed
qed

text \<open>
  C36. Whatever request arrives, the handler calls the cluster at most once, only for a request of the same origin, and only
  with an allowed call: a server made of an accepted form while fewer than twenty exist, the trigger
  annotation on a known server that is not paused, or a pause or a removal of a known server that git does not manage. It reports success
  exactly when it made a call and the cluster accepted it.
\<close>

theorem actions_guarded:
  assumes "handleAction w h store req = Some (reply, calls)"
  shows "length calls \<le> 1 \<and> (\<forall>c \<in> set calls. originAllowed w req \<and> allowedCall store c) \<and>
    (succeeded reply \<longleftrightarrow> (\<exists>c. calls = [c] \<and> ss_call store c = None))"
proof (cases "originAllowed w req")
  case True
  with assms have "soundReply store (reply, calls)"
    by (auto simp: handleAction_def Let_def createServer_sound serverAction_sound
        dest!: arg_cong [of _ "(reply, calls)" "soundReply store"] split: option.splits if_splits)
  with True show ?thesis by (auto simp: soundReply_def)
next
  case False
  with assms show ?thesis by (auto simp: handleAction_def errReply_def succeeded_def)
qed

definition sampleStore :: ServerStore where
  "sampleStore = \<lparr>ss_namespace = J ''ns'',
     ss_servers = [\<lparr>ob_name = J ''ab'', ob_meta = [], ob_body = []\<rparr>], ss_agentNames = [], ss_call = (\<lambda>_. None)\<rparr>"

definition sampleUrls :: webUrl where
  "sampleUrls = \<lparr>wu_host = (\<lambda>_. Some (J ''h'')), wu_path = Some\<rparr>"

definition sampleDelete :: ActionReq where
  "sampleDelete = \<lparr>aq_method = J ''DELETE'', aq_url = Some (J ''/api/servers/ab''), aq_origin = Some (J ''http://h''), aq_host = Some (J ''H''),
     aq_contentType = None, aq_chunks = []\<rparr>"

lemma action_name_pattern:
  "test ACTION_NAME s \<longleftrightarrow> s \<noteq> [] \<and> length s \<le> 63 \<and> list_all nameUnit s \<and> hd s \<noteq> 45 \<and> last s \<noteq> 45"
  unfolding ACTION_NAME_def by (simp add: name_shape)

lemma sampleDelete_runs: "handleAction sampleUrls h sampleStore sampleDelete = Some (okReply 200, [RemoveCall (J ''ab'')])"
proof -
  have n: "test ACTION_NAME [97, 98]" by (simp add: action_name_pattern nameUnit_def)
  have parts: "filter (\<lambda>p. p \<noteq> []) (splitS (J ''/api/servers/ab'') (J ''/'')) = [J ''api'', J ''servers'', J ''ab'']"
    by (simp add: J_def splitS.simps)
  show ?thesis
    using n unfolding handleAction_def
    by (simp add: sampleUrls_def sampleDelete_def originAllowed_def isSameOrigin_def parts)
      (simp add: J_def lowerS_def lowerChar_def serverAction_def sampleStore_def isGitManaged_def labelOf_def runCall_def)
qed

theorem actions_guarded_witness:
  "succeeded (okReply 200) \<longleftrightarrow> (\<exists>c. [RemoveCall (J ''ab'')] = [c] \<and> ss_call sampleStore c = None)"
  using actions_guarded [OF sampleDelete_runs [of "sampleHost []"]] by blast

section \<open>Merge patches and bodies\<close>

lemma fld_spread: "fld (spread a b) k = (case fld (rev b) k of Some v \<Rightarrow> Some v | None \<Rightarrow> fld a k)"
  unfolding spread_def
  by (induction b rule: rev_induct) (auto simp: fld_defineProp)

text \<open>
  A merge patch is sent with the identity of its target, whatever metadata the patch itself has, and
  keeps the rest of that metadata.
\<close>

theorem merge_patch_keeps_identity:
  "\<exists>m. fld (mergePatchBody v kind ns name patch) (J ''metadata'') = Some (JObj m) \<and>
     fld m (J ''name'') = Some (JStr name) \<and> fld m (J ''namespace'') = Some (JStr ns) \<and>
     (\<forall>meta. fld patch (J ''metadata'') = Some (JObj meta) \<and> distinct (map fst meta) \<longrightarrow>
        (\<forall>k. k \<noteq> J ''name'' \<and> k \<noteq> J ''namespace'' \<longrightarrow> fld m k = fld meta k))"
proof -
  have rev_fld: "fld (rev meta) k = fld meta k" if "distinct (map fst meta)" for meta :: jsobj and k
    using that map_of_inject_set [of "rev meta" meta] by (simp add: fld_def rev_map [symmetric])
  show ?thesis
    unfolding mergePatchBody_def Let_def fld_defineProp
    by (auto simp: fld_spread rev_fld split: option.split)
qed

lemma readChunks_limit:
  "readChunks limit msg cs n = (if cs \<noteq> [] \<and> limit < n + length (concat cs) then Inl (plainError msg) else Inr (concat cs))"
  by (induction limit msg cs n rule: readChunks.induct) (auto simp: add.assoc)

lemma bad_body_message: "test BAD_BODY (J ''too large'')"
  unfolding test_iff BAD_BODY_def by (rule exI [of _ 0]) (simp add: rx_def litAt_J_exact)

text \<open>A body of more than 8 KiB, however it is cut into chunks, is answered with 400 and nothing is called.\<close>

theorem oversized_body_refused:
  assumes "MAX_BODY < length (concat (aq_chunks req))" "aq_contentType req = Some t" "test JSON_TYPE t"
  shows "rp_status (fst (createServer h store req)) = 400 \<and> snd (createServer h store req) = []"
proof -
  have "readReqJson h req = Inl (plainError ''too large'')"
    using assms(1) by (cases "aq_chunks req") (auto simp: readReqJson_def readChunks_limit)
  with assms(2,3) bad_body_message show ?thesis
    by (simp add: createServer_def failReply_def plainError_def errReply_def)
qed

end
