(* ===== verification/WebServer.thy ===== *)
theory WebServer
  imports Actions Static
begin

text \<open>
  The HTTP side of the dashboard backend (\<^verbatim>\<open>src/frontend/server/live.ts\<close>): static files with the POSIX path
  functions of Node they rest on, the routing of requests and WebSocket upgrades, and the life of a log
  follower from \<open>follow\<close> to \<open>stop\<close>. The URL parser, \<open>decodeURIComponent\<close>, the file system and the cluster are parameters.
\<close>

section \<open>Paths\<close>

text \<open>\<open>normalizeString\<close> of Node on the segments of a path; the result is a stack, its top the last segment.\<close>

fun resolveSegs :: "bool \<Rightarrow> jsstring list \<Rightarrow> jsstring list \<Rightarrow> jsstring list" where
  "resolveSegs up acc [] = acc"
| "resolveSegs up acc (s # ss) =
     (if s = [] \<or> s = J ''.'' then resolveSegs up acc ss
      else if s = J ''..'' then
        (case acc of
           a # acc' \<Rightarrow> if a = J ''..'' then resolveSegs up (if up then s # acc else acc) ss else resolveSegs up acc' ss
         | [] \<Rightarrow> resolveSegs up (if up then [s] else []) ss)
      else resolveSegs up (s # acc) ss)"

definition segsOf :: "bool \<Rightarrow> jsstring \<Rightarrow> jsstring list" where
  "segsOf up p = rev (resolveSegs up [] (splitS p [47]))"

definition normalizeP :: "jsstring \<Rightarrow> jsstring" where
  "normalizeP p =
     (if p = [] then J ''.''
      else let isAbs = startsWith p [47]; trail = (last p = 47); q = joinS [47] (segsOf (\<not> isAbs) p) in
           if q = [] then (if isAbs then [47] else if trail then J ''./'' else J ''.'')
           else (if isAbs then [47] else []) @ q @ (if trail then [47] else []))"

text \<open>\<open>resolve(join(dir, rel))\<close> for an absolute \<open>dir\<close>.\<close>

definition joinP :: "jsstring \<Rightarrow> jsstring \<Rightarrow> jsstring" where
  "joinP dir rel = normalizeP (if rel = [] then dir else dir @ [47] @ rel)"

definition resolveP :: "jsstring \<Rightarrow> jsstring" where
  "resolveP p = 47 # joinS [47] (segsOf False p)"

section \<open>Static files\<close>

record Files =
  fl_exists :: "jsstring \<Rightarrow> bool"
  fl_isDir :: "jsstring \<Rightarrow> bool"

definition TYPES :: "(jsstring \<times> jsstring) list" where
  "TYPES = map (\<lambda>(e, t). (J e, J t))
     [(''.html'', ''text/html; charset=utf-8''), (''.js'', ''text/javascript''), (''.css'', ''text/css''), (''.woff2'', ''font/woff2''),
      (''.woff'', ''font/woff''), (''.svg'', ''image/svg+xml''), (''.json'', ''application/json'')]"

text \<open>\<open>Thrown\<close>: an exception leaves the request listener, and with it the process.\<close>

datatype Served =
    Forbidden
  | FileReply jsstring "(jsstring \<times> jsstring) list"
  | Thrown

definition staticHeaders :: "jsstring \<Rightarrow> jsstring \<Rightarrow> (jsstring \<times> jsstring) list" where
  "staticHeaders csp file =
     [(J ''cache-control'', if endsWith file (J ''index.html'') then J ''no-cache'' else J ''public, max-age=31536000, immutable''),
      (J ''content-type'', case fld TYPES (extname file) of Some t \<Rightarrow> t | None \<Rightarrow> J ''application/octet-stream''),
      (J ''x-content-type-options'', J ''nosniff''),
      (J ''content-security-policy'', csp)]"

definition serveStatic ::
  "webUrl \<Rightarrow> (jsstring \<Rightarrow> jsstring option) \<Rightarrow> Files \<Rightarrow> jsstring \<Rightarrow> jsstring \<Rightarrow> jsstring option \<Rightarrow> Served" where
  "serveStatic w decode fls dir csp url =
     (case Option.bind (wu_path w (case url of Some u \<Rightarrow> u | None \<Rightarrow> [47])) decode of
        None \<Rightarrow> Thrown
      | Some pathname \<Rightarrow>
          let rel = dropWhile (\<lambda>c. c = 47 \<or> c = 92) (normalizeP pathname);
              file = resolveP (joinP dir rel) in
          if file \<noteq> dir \<and> \<not> startsWith file (dir @ [47]) then Forbidden
          else let file = (if \<not> fl_exists fls file \<or> fl_isDir fls file then joinP dir (J ''index.html'') else file) in
               FileReply file (staticHeaders csp file))"

section \<open>Routes\<close>

datatype Route = Health | ChatRoute | ActionRoute | StaticRoute Served | NotFound

definition route ::
  "webUrl \<Rightarrow> (jsstring \<Rightarrow> jsstring option) \<Rightarrow> Files \<Rightarrow> jsstring \<Rightarrow> jsstring \<Rightarrow> bool \<Rightarrow> jsstring option \<Rightarrow> Route" where
  "route w decode fls dir csp production url =
     (if url = Some (J ''/healthz'') then Health
      else if url = Some (J ''/api/chat'') then ChatRoute
      else if isActionRoute url then ActionRoute
      else if production then StaticRoute (serveStatic w decode fls dir csp url)
      else NotFound)"

datatype Upgrade = Destroyed | Refused | Upgraded

definition upgrade :: "webUrl \<Rightarrow> jsstring option \<Rightarrow> jsstring option \<Rightarrow> jsstring option \<Rightarrow> Upgrade" where
  "upgrade w url origin hst =
     (if \<not> (case url of Some u \<Rightarrow> startsWith u (J ''/api/stream'') | None \<Rightarrow> False) then Destroyed
      else if \<not> isSameOrigin w origin hst then Refused else Upgraded)"

section \<open>Following a log\<close>

definition RUN_PATTERN :: pattern where
  "RUN_PATTERN = edged alnumLow (manyR (Items False [One CHR ''-'', Rng CHR ''a'' CHR ''z'', Rng CHR ''0'' CHR ''9'', One CHR ''.'']))"

text \<open>
  A message of a browser: it starts a follower for a run, or ends the current one, or does nothing; the
  property of \<open>null\<close> throws in the listener of the socket.
\<close>

datatype FollowMessage = FollowThrows | Ignored | Follow "jsstring option"

definition followMessage :: "jsval option \<Rightarrow> FollowMessage" where
  "followMessage msg =
     (case msg of
        None \<Rightarrow> Ignored
      | Some JNull \<Rightarrow> FollowThrows
      | Some (JObj o') \<Rightarrow>
          if fld o' (J ''type'') = Some (JStr (J ''follow'')) then
            Follow (case asStr (fld o' (J ''run'')) of Some run \<Rightarrow> if run \<noteq> [] \<and> test RUN_PATTERN run then Some run else None | None \<Rightarrow> None)
          else Ignored
      | _ \<Rightarrow> Ignored)"

definition labelSelector :: "jsstring \<Rightarrow> jsstring" where
  "labelSelector run = J ''security.eval.io/run='' @ run"

text \<open>
  The pod whose log is read: the newest of the run, once its evaluator container has left the waiting
  state. \<open>cmp\<close> is \<open>localeCompare\<close>.
\<close>

record Pod =
  pd_name :: "jsstring option"
  pd_created :: jsstring
  pd_waiting :: "bool option"

fun newestPod :: "(jsstring \<Rightarrow> jsstring \<Rightarrow> int) \<Rightarrow> Pod list \<Rightarrow> Pod option" where
  "newestPod cmp [] = None"
| "newestPod cmp (p # ps) =
     (case newestPod cmp ps of
        None \<Rightarrow> Some p
      | Some q \<Rightarrow> if cmp (pd_created q) (pd_created p) > 0 then Some q else Some p)"

definition podToRead :: "(jsstring \<Rightarrow> jsstring \<Rightarrow> int) \<Rightarrow> Pod list \<Rightarrow> jsstring option" where
  "podToRead cmp pods =
     Option.bind (newestPod cmp pods) (\<lambda>p.
       case (pd_name p, pd_waiting p) of (Some n, Some False) \<Rightarrow> if n = [] then None else Some n | _ \<Rightarrow> None)"

text \<open>
  The life of a follower. \<open>fw_lookup\<close> and \<open>fw_opening\<close>: \<open>attach\<close> waits for the pods or for the log stream;
  \<open>fw_streams\<close> are the open streams, \<open>fw_abort\<close> the one \<open>stop\<close> can abort, \<open>fw_next\<close> the number of the next one.
\<close>

record Following =
  fw_stopped :: bool
  fw_first :: bool
  fw_lookup :: bool
  fw_opening :: bool
  fw_timer :: bool
  fw_streams :: "nat list"
  fw_abort :: "nat option"
  fw_next :: nat

definition attach :: "Following \<Rightarrow> Following" where
  "attach st = (if fw_stopped st then st else st\<lparr>fw_lookup := True\<rparr>)"

definition newFollowing :: Following where
  "newFollowing = attach \<lparr>fw_stopped = False, fw_first = True, fw_lookup = False, fw_opening = False, fw_timer = False,
     fw_streams = [], fw_abort = None, fw_next = 0\<rparr>"

definition retry :: "bool \<Rightarrow> Following \<Rightarrow> Following" where
  "retry terminal st =
     (if fw_stopped st then st else if terminal \<and> \<not> fw_first st then st else st\<lparr>fw_timer := True\<rparr>)"

definition stopFollowing :: "Following \<Rightarrow> Following" where
  "stopFollowing st =
     st\<lparr>fw_stopped := True, fw_timer := False,
        fw_streams := (case fw_abort st of Some k \<Rightarrow> filter (\<lambda>j. j \<noteq> k) (fw_streams st) | None \<Rightarrow> fw_streams st)\<rparr>"

datatype FollowEvent =
    PodsListed "jsstring option"
  | LogOpened
  | LogFailed
  | StreamEnded nat
  | RetryTimer
  | Stop

text \<open>\<open>terminal\<close>: the run is known to the store and its phase is final when the event happens.\<close>

definition followStep :: "Following \<Rightarrow> FollowEvent \<times> bool \<Rightarrow> Following" where
  "followStep st et =
     (case et of (ev, terminal) \<Rightarrow>
      (case ev of
         PodsListed pod \<Rightarrow>
           if \<not> fw_lookup st then st
           else let st = st\<lparr>fw_lookup := False\<rparr> in
                (case pod of None \<Rightarrow> retry terminal st | Some _ \<Rightarrow> st\<lparr>fw_opening := True\<rparr>)
       | LogOpened \<Rightarrow>
           if \<not> fw_opening st then st
           else st\<lparr>fw_opening := False, fw_first := False, fw_streams := fw_next st # fw_streams st,
                   fw_abort := Some (fw_next st), fw_next := Suc (fw_next st)\<rparr>
       | LogFailed \<Rightarrow> if \<not> fw_opening st then st else retry terminal (st\<lparr>fw_opening := False\<rparr>)
       | StreamEnded k \<Rightarrow>
           if k \<notin> set (fw_streams st) then st
           else retry terminal (st\<lparr>fw_streams := filter (\<lambda>j. j \<noteq> k) (fw_streams st)\<rparr>)
       | RetryTimer \<Rightarrow> if fw_timer st then attach (st\<lparr>fw_timer := False\<rparr>) else st
       | Stop \<Rightarrow> stopFollowing st))"

definition followedBy :: "(FollowEvent \<times> bool) list \<Rightarrow> Following" where
  "followedBy evs = foldl followStep newFollowing evs"

section \<open>Served files lie in the directory\<close>

definition cleanSeg :: "jsstring \<Rightarrow> bool" where
  "cleanSeg s \<longleftrightarrow> s \<noteq> [] \<and> s \<noteq> J ''.'' \<and> s \<noteq> J ''..'' \<and> 47 \<notin> set s"

lemma splitS_no_sep: "x \<in> set (splitS p [c]) \<Longrightarrow> c \<notin> set x"
proof (induction "length p" arbitrary: p rule: less_induct)
  case less
  show ?case
  proof (cases "c \<in> set p")
    case True
    let ?r = "tl (dropWhile (\<lambda>x. x \<noteq> c) p)"
    have "length ?r < length p"
      using True length_dropWhile_le [of "\<lambda>x. x \<noteq> c" p] by (cases p) auto
    note IH = less(1) [OF this]
    from less(2) True have "x = takeWhile (\<lambda>x. x \<noteq> c) p \<or> x \<in> set (splitS ?r [c])" by (simp add: splitS_single [of p])
    then show ?thesis using IH set_takeWhileD by fastforce
  next
    case False
    with less(2) show ?thesis by (simp add: splitS_single [of p])
  qed
qed

lemma splitS_cons: "c \<notin> set x \<Longrightarrow> splitS (x @ c # t) [c] = x # splitS t [c]"
proof -
  assume "c \<notin> set x"
  then have "takeWhile (\<lambda>y. y \<noteq> c) (x @ c # t) = x" "dropWhile (\<lambda>y. y \<noteq> c) (x @ c # t) = c # t"
    by (induction x) auto
  then show ?thesis by (simp add: splitS_single [of "x @ c # t"])
qed

lemma splitS_joinS: "segs \<noteq> [] \<Longrightarrow> \<forall>x \<in> set segs. c \<notin> set x \<Longrightarrow> splitS (joinS [c] segs) [c] = segs"
proof (induction segs)
  case (Cons x segs)
  then show ?case
    by (cases segs) (simp_all add: splitS_cons splitS_single [of x])
qed simp

lemma resolveSegs_clean:
  "list_all cleanSeg acc \<Longrightarrow> \<forall>s \<in> set ss. 47 \<notin> set s \<Longrightarrow> list_all cleanSeg (resolveSegs False acc ss)"
proof (induction ss arbitrary: acc)
  case (Cons s ss)
  then show ?case by (cases acc) (auto simp: cleanSeg_def)
qed simp

lemma resolveSegs_id: "list_all cleanSeg ss \<Longrightarrow> resolveSegs up acc ss = rev ss @ acc"
  by (induction ss arbitrary: acc) (auto simp: cleanSeg_def)

lemma segsOf_clean: "list_all cleanSeg (segsOf False p)"
  using resolveSegs_clean [of "[]" "splitS p [47]"] splitS_no_sep [of _ p 47] by (simp add: segsOf_def)

lemma segsOf_joinS: "list_all cleanSeg segs \<Longrightarrow> segs \<noteq> [] \<Longrightarrow> segsOf False (47 # joinS [47] segs) = segs"
  using splitS_cons [of 47 "[]" "joinS [47] segs"] splitS_joinS [of segs 47]
  by (simp add: segsOf_def resolveSegs_id list_all_iff cleanSeg_def)

lemma joinS_append: "xs \<noteq> [] \<Longrightarrow> ys \<noteq> [] \<Longrightarrow> joinS sep (xs @ ys) = joinS sep xs @ sep @ joinS sep ys"
proof (induction xs)
  case (Cons x xs)
  then show ?case by (cases xs) (simp_all add: joinS_Cons)
qed simp

lemma joinS_clean_ends: "list_all cleanSeg segs \<Longrightarrow> segs \<noteq> [] \<Longrightarrow> joinS [47] segs \<noteq> [] \<and> last (joinS [47] segs) \<noteq> 47"
proof (induction segs)
  case (Cons x segs)
  then show ?case by (cases segs) (auto simp: cleanSeg_def dest: last_in_set)
qed simp

lemma normalizeP_clean:
  "list_all cleanSeg segs \<Longrightarrow> segs \<noteq> [] \<Longrightarrow> normalizeP (47 # joinS [47] segs) = 47 # joinS [47] segs"
  using joinS_clean_ends [of segs] segsOf_joinS [of segs] by (simp add: normalizeP_def)

lemma joinP_index:
  assumes "list_all cleanSeg ds" "ds \<noteq> []"
  shows "joinP (47 # joinS [47] ds) (J ''index.html'') = 47 # joinS [47] ds @ [47] @ J ''index.html''"
proof -
  have "47 # joinS [47] ds @ [47] @ J ''index.html'' = 47 # joinS [47] (ds @ [J ''index.html''])"
    using assms by (simp add: joinS_append)
  moreover have "list_all cleanSeg (ds @ [J ''index.html''])" using assms by (simp add: cleanSeg_def J_def)
  ultimately show ?thesis using normalizeP_clean [of "ds @ [J ''index.html'']"] by (simp add: joinP_def)
qed

lemma under_directory:
  assumes ds: "list_all cleanSeg ds" "ds \<noteq> []" and S: "list_all cleanSeg S"
    and pre: "startsWith (47 # joinS [47] S) ((47 # joinS [47] ds) @ [47])"
  shows "\<exists>R. R \<noteq> [] \<and> list_all cleanSeg R \<and> 47 # joinS [47] S = (47 # joinS [47] ds) @ [47] @ joinS [47] R"
proof -
  from pre obtain rest where rest: "joinS [47] S = joinS [47] ds @ 47 # rest" by (auto simp: startsWith_prefix prefix_def)
  then have ne: "S \<noteq> []" by auto
  have no: "\<forall>x \<in> set xs. 47 \<notin> set x" if "list_all cleanSeg xs" for xs using that by (auto simp: list_all_iff cleanSeg_def)
  have l: "47 \<notin> set (last ds)" using no [OF ds(1)] ds(2) by auto
  have "S = butlast ds @ splitS (last ds @ 47 # rest) [47]"
    using splitS_joinS [OF ne no [OF S]] splitS_append [of "joinS [47] ds" "47 # rest" 47] splitS_joinS [OF ds(2) no [OF ds(1)]]
    unfolding rest by simp
  also have "\<dots> = ds @ splitS rest [47]" using ds(2) by (simp add: splitS_cons [OF l])
  finally have SR: "S = ds @ splitS rest [47]" .
  then have "list_all cleanSeg (splitS rest [47])" using S by simp
  moreover have "rest = joinS [47] (splitS rest [47])" using joinS_splitS [of "[47]" rest] by simp
  ultimately show ?thesis using rest by (intro exI [of _ "splitS rest [47]"]) simp
qed

text \<open>
  C38. Every file served lies in the directory of the built pages: its path is the directory, a slash and
  segments none of which is empty, \<open>.\<close> or \<open>..\<close>, whatever the request path decodes to.
\<close>

theorem served_files_contained:
  assumes "list_all cleanSeg ds" "ds \<noteq> []"
    and "serveStatic w decode fls (47 # joinS [47] ds) csp url = FileReply file headers"
  shows "file = 47 # joinS [47] ds \<or>
    (\<exists>segs. segs \<noteq> [] \<and> list_all cleanSeg segs \<and> file = 47 # joinS [47] ds @ [47] @ joinS [47] segs)"
proof -
  let ?dir = "47 # joinS [47] ds"
  from assms(3) obtain rel where
    ok: "resolveP (joinP ?dir rel) = ?dir \<or> startsWith (resolveP (joinP ?dir rel)) (?dir @ [47])"
    and f: "file = resolveP (joinP ?dir rel) \<or> file = joinP ?dir (J ''index.html'')"
    unfolding serveStatic_def Let_def by (auto split: option.splits if_splits)
  from f show ?thesis
  proof
    assume "file = resolveP (joinP ?dir rel)"
    then show ?thesis
      using ok under_directory [OF assms(1,2) segsOf_clean, of "joinP ?dir rel"] unfolding resolveP_def by auto
  next
    assume "file = joinP ?dir (J ''index.html'')"
    then show ?thesis
      using joinP_index [OF assms(1,2)] by (intro disjI2 exI [of _ "[J ''index.html'']"]) (simp add: cleanSeg_def J_def)
  qed
qed

section \<open>The life of a follower\<close>

lemma run_pattern:
  "test RUN_PATTERN s \<longleftrightarrow>
     s \<noteq> [] \<and> list_all (\<lambda>c. nameUnit c \<or> c = 46) s \<and> hd s \<notin> {45, 46} \<and> last s \<notin> {45, 46}"
proof -
  let ?P = "\<lambda>c :: jschar. 97 \<le> c \<and> c \<le> 122 \<or> 48 \<le> c \<and> c \<le> 57" and ?Q = "\<lambda>c. nameUnit c \<or> c = 46"
  let ?m = "Items False [One CHR ''-'', Rng CHR ''a'' CHR ''z'', Rng CHR ''0'' CHR ''9'', One CHR ''.'']"
  have a: "ends False False s alnumLow i = unitIs ?P s i" for i by (simp add: inRange_def)
  have b: "ends False False s ?m i = unitIs ?Q s i" for i
    by (auto simp: inRange_def sameU_def nameUnit_def unitIs_def)
  have "test RUN_PATTERN s \<longleftrightarrow> s \<noteq> [] \<and> length s \<le> length s + 2 \<and> list_all ?Q s \<and> ?P (hd s) \<and> ?P (last s)"
    unfolding RUN_PATTERN_def by (rule test_edged [OF a set_ends_many [OF _ b]]) (auto simp: nameUnit_def)
  also have "\<dots> \<longleftrightarrow> s \<noteq> [] \<and> list_all ?Q s \<and> hd s \<notin> {45, 46} \<and> last s \<notin> {45, 46}"
    by (auto simp: list_all_iff nameUnit_def dest: hd_in_set last_in_set)
  finally show ?thesis .
qed

text \<open>A follower does one thing at a time, and the stream it reads is the one that it can abort.\<close>

definition followInvariant :: "Following \<Rightarrow> bool" where
  "followInvariant st \<longleftrightarrow>
     \<not> (fw_lookup st \<and> fw_opening st) \<and> \<not> (fw_lookup st \<and> fw_timer st) \<and> \<not> (fw_opening st \<and> fw_timer st) \<and>
     (fw_streams st = [] \<or>
      (\<exists>k. fw_streams st = [k] \<and> fw_abort st = Some k) \<and> \<not> fw_lookup st \<and> \<not> fw_opening st \<and> \<not> fw_timer st)"

lemmas follow_defs = followStep_def retry_def attach_def stopFollowing_def

lemma followInvariant_step: "followInvariant st \<Longrightarrow> followInvariant (followStep st et)"
proof (cases et)
  case (Pair ev terminal)
  assume "followInvariant st"
  then show ?thesis
    unfolding Pair
    by (cases ev) (auto simp: followInvariant_def follow_defs Let_def split: option.split)
qed

lemma followInvariant_run: "followInvariant (followedBy evs)"
proof (induction evs rule: rev_induct)
  case Nil
  show ?case by (simp add: followedBy_def newFollowing_def attach_def followInvariant_def)
next
  case (snoc et evs)
  then show ?case by (simp add: followedBy_def followInvariant_step)
qed

text \<open>A stopped follower that waits for nothing does nothing any more.\<close>

definition atRest :: "Following \<Rightarrow> bool" where
  "atRest st \<longleftrightarrow> fw_stopped st \<and> \<not> fw_lookup st \<and> \<not> fw_opening st \<and> \<not> fw_timer st \<and> fw_streams st = []"

lemma atRest_step: "atRest st \<Longrightarrow> atRest (followStep st et)"
proof (cases et)
  case (Pair ev terminal)
  assume "atRest st"
  then show ?thesis unfolding Pair by (cases ev) (auto simp: atRest_def follow_defs split: option.split)
qed

lemma atRest_run: "atRest st \<Longrightarrow> atRest (foldl followStep st evs)"
  by (induction evs arbitrary: st) (simp_all add: atRest_step)

lemma stop_atRest: "followInvariant st \<Longrightarrow> \<not> fw_lookup st \<Longrightarrow> \<not> fw_opening st \<Longrightarrow> atRest (stopFollowing st)"
  by (auto simp: followInvariant_def atRest_def stopFollowing_def split: option.split)

lemma stop_leaks:
  assumes "followInvariant st" "fw_lookup st \<or> fw_opening st"
  shows "fw_streams (foldl followStep (stopFollowing st) [(PodsListed (Some pod), False), (LogOpened, False)]) \<noteq> []"
  using assms by (auto simp: followInvariant_def follow_defs Let_def)

text \<open>
  A follower has at most one stream open. Stopping it ends its work for good exactly when it is not
  waiting for the list of pods or for the log to open at that moment; otherwise the answer still opens a stream, which nothing
  aborts any more.
\<close>

theorem follower_stops_iff:
  "length (fw_streams (followedBy evs)) \<le> 1 \<and>
   ((\<forall>later. fw_streams (foldl followStep (stopFollowing (followedBy evs)) later) = []) \<longleftrightarrow>
    \<not> fw_lookup (followedBy evs) \<and> \<not> fw_opening (followedBy evs))"
proof
  have inv: "followInvariant (followedBy evs)" by (rule followInvariant_run)
  then show "length (fw_streams (followedBy evs)) \<le> 1" by (auto simp: followInvariant_def)
  show "(\<forall>later. fw_streams (foldl followStep (stopFollowing (followedBy evs)) later) = []) \<longleftrightarrow>
    \<not> fw_lookup (followedBy evs) \<and> \<not> fw_opening (followedBy evs)"
  proof
    assume "\<forall>later. fw_streams (foldl followStep (stopFollowing (followedBy evs)) later) = []"
    with stop_leaks [OF inv] show "\<not> fw_lookup (followedBy evs) \<and> \<not> fw_opening (followedBy evs)" by blast
  next
    assume "\<not> fw_lookup (followedBy evs) \<and> \<not> fw_opening (followedBy evs)"
    then show "\<forall>later. fw_streams (foldl followStep (stopFollowing (followedBy evs)) later) = []"
      using atRest_run [OF stop_atRest [OF inv]] by (simp add: atRest_def)
  qed
qed

text \<open>The text of a label selector is the name of a label, \<open>=\<close> and a run name of plain characters.\<close>

theorem follow_selector_plain:
  assumes "followMessage msg = Follow (Some run)"
  shows "run \<noteq> [] \<and> list_all (\<lambda>c. nameUnit c \<or> c = 46) run \<and> labelSelector run = J ''security.eval.io/run='' @ run"
  using assms by (auto simp: followMessage_def run_pattern labelSelector_def split: jsval.splits option.splits if_splits)

text \<open>
  In production a request whose path has a malformed escape makes the listener throw.
\<close>

theorem malformed_escape_throws:
  assumes "wu_path w u = Some p" "decode p = None" "\<not> isActionRoute (Some u)" "u \<noteq> J ''/healthz''" "u \<noteq> J ''/api/chat''"
  shows "route w decode fls dir csp True (Some u) = StaticRoute Thrown"
  using assms by (simp add: route_def serveStatic_def)

definition noFiles :: Files where "noFiles = \<lparr>fl_exists = (\<lambda>_. False), fl_isDir = (\<lambda>_. False)\<rparr>"

lemma sample_served:
  "serveStatic sampleUrls Some noFiles (47 # joinS [47] [J ''d'']) [] (Some [47]) =
     FileReply (joinP (47 # joinS [47] [J ''d'']) (J ''index.html'')) (staticHeaders [] (joinP (47 # joinS [47] [J ''d'']) (J ''index.html'')))"
  unfolding serveStatic_def
  by (simp add: sampleUrls_def noFiles_def Let_def normalizeP_def joinP_def resolveP_def segsOf_def splitS_single J_def)

theorem served_files_contained_witness:
  "\<exists>segs. joinP (47 # joinS [47] [J ''d'']) (J ''index.html'') = 47 # joinS [47] [J ''d''] @ [47] @ joinS [47] segs"
proof -
  have c: "list_all cleanSeg [J ''d'']" by (simp add: cleanSeg_def J_def)
  show ?thesis using served_files_contained [OF c _ sample_served] joinP_index [OF c] by auto
qed

theorem malformed_escape_throws_witness:
  "route sampleUrls (\<lambda>_. None) noFiles [] [] True (Some (J ''/%'')) = StaticRoute Thrown"
  by (rule malformed_escape_throws) (simp_all add: sampleUrls_def isActionRoute_def J_def)

end
