(* ===== verification/Chat.thy ===== *)
theory Chat
  imports Actions
begin

text \<open>
  The analysis chat of the dashboard (\<^verbatim>\<open>src/frontend/server/chat.ts\<close>): a question goes to one OpenCode
  session, one question at a time for everyone. The handler waits three times, for the body, for the session
  and for the answer; each part between two waits is one step, and questions of several browsers interleave
  between them. OpenCode, the journal of the gateway and the lookup of a run's context are parameters.
\<close>

section \<open>Configuration and patterns\<close>

record ChatConfig =
  cc_url :: jsstring
  cc_model :: jsstring
  cc_inspect :: jsstring
  cc_password :: jsstring

text \<open>\<open>s.replace(/\/$/, "")\<close>\<close>

definition dropSlash :: "jsstring \<Rightarrow> jsstring" where
  "dropSlash s = (if s \<noteq> [] \<and> last s = 47 then butlast s else s)"

definition chatConfig :: "environ \<Rightarrow> ChatConfig" where
  "chatConfig env =
     \<lparr>cc_url = dropSlash (envOr env ''CHAT_URL'' ''''), cc_model = envOr env ''CHAT_MODEL'' ''local/lfm2.5-24b-a2b'',
      cc_inspect = dropSlash (envOr env ''OCCLUDRA_INSPECT_URL'' ''''), cc_password = envOr env ''OPENCODE_SERVER_PASSWORD'' ''''\<rparr>"

definition chatEnabled :: "ChatConfig \<Rightarrow> bool" where "chatEnabled cfg \<longleftrightarrow> cc_url cfg \<noteq> []"

definition CLIENT :: jsstring where "CLIENT = J ''ui-chat''"
definition MAX_TEXT :: nat where "MAX_TEXT = 4000"
definition CHAT_MAX_BODY :: nat where "CHAT_MAX_BODY = 16 * 1024"
definition MAX_SESSIONS :: nat where "MAX_SESSIONS = 200"

definition SESSION_ID :: pattern where
  "SESSION_ID = rx (Cat [Bol, Lits ''ses_'', betweenR 8 64 (Items False [Rng CHR ''A'' CHR ''Z'', Rng CHR ''a'' CHR ''z'', Rng CHR ''0'' CHR ''9'']), Eol])"

definition RUN_NAME :: pattern where
  "RUN_NAME = edged alnumLow (betweenR 0 251 (Items False [One CHR ''-'', Rng CHR ''a'' CHR ''z'', Rng CHR ''0'' CHR ''9'', One CHR ''.'']))"

section \<open>Sessions\<close>

text \<open>\<open>sessionRun\<close>, a \<open>Map\<close>: entries in the order of insertion.\<close>

type_synonym SessionRun = "(jsstring \<times> jsstring) list"

definition rememberSession :: "jsstring \<Rightarrow> jsstring \<Rightarrow> SessionRun \<Rightarrow> SessionRun" where
  "rememberSession session run m =
     (let m = mapSet session run m in if MAX_SESSIONS < length m then mapDelete (fst (hd m)) m else m)"

section \<open>From the request to the lock\<close>

record Question =
  qu_text :: jsstring
  qu_requested :: "jsstring option"
  qu_run :: "jsstring option"
  qu_context :: "jsstring option"

definition readBody :: "ActionReq \<Rightarrow> Failure + jsstring" where
  "readBody req = bindR (readChunks CHAT_MAX_BODY ''body too large'' (aq_chunks req) 0) (\<lambda>bs. Inr (fromUtf8 bs))"

definition matching :: "pattern \<Rightarrow> jsval option \<Rightarrow> jsstring option" where
  "matching p v = (case asStr v of Some s \<Rightarrow> if test p s then Some s else None | None \<Rightarrow> None)"

text \<open>
  A session belongs to one run: asking about another run, or without a session, starts a new one with
  the context of the run.
\<close>

definition freshQuestion :: "(jsstring \<Rightarrow> jsstring option) \<Rightarrow> jsstring \<Rightarrow> jsstring \<Rightarrow> Reply + Question" where
  "freshQuestion runContext text r =
     (case runContext r of
        None \<Rightarrow> Inl (errReply 404 (J ''No encuentro ese an'' @ [225] @ J ''lisis.''))
      | Some c \<Rightarrow>
          if c = [] then Inl (errReply 404 (J ''No encuentro ese an'' @ [225] @ J ''lisis.''))
          else Inr \<lparr>qu_text = text, qu_requested = None, qu_run = Some r, qu_context = Some c\<rparr>)"

definition sessionFor ::
  "(jsstring \<Rightarrow> jsstring option) \<Rightarrow> SessionRun \<Rightarrow> jsstring \<Rightarrow> jsstring option \<Rightarrow> jsstring option \<Rightarrow> Reply + Question" where
  "sessionFor runContext sessions text requested run =
     (case run of
        None \<Rightarrow> Inr \<lparr>qu_text = text, qu_requested = requested, qu_run = None, qu_context = None\<rparr>
      | Some r \<Rightarrow>
          (case requested of
             Some s \<Rightarrow>
               if fld sessions s = Some r then Inr \<lparr>qu_text = text, qu_requested = Some s, qu_run = Some r, qu_context = None\<rparr>
               else freshQuestion runContext text r
           | None \<Rightarrow> freshQuestion runContext text r))"

text \<open>
  The checks before the lock. \<open>Inl\<close> is a reply; an \<open>input\<close> that is not an object has none of the three
  properties, and \<open>null\<close> makes the handler throw (\<open>None\<close>).
\<close>

definition question ::
  "webUrl \<Rightarrow> host \<Rightarrow> ChatConfig \<Rightarrow> (jsstring \<Rightarrow> jsstring option) \<Rightarrow> SessionRun \<Rightarrow> ActionReq \<Rightarrow> (Reply + Question) option" where
  "question w h cfg runContext sessions req =
     (if \<not> chatEnabled cfg then Some (Inl (errReply 503 (J ''El chat no est'' @ [225] @ J '' configurado en este servidor (falta CHAT_URL).'')))
      else if aq_method req \<noteq> J ''POST'' then Some (Inl (errReply 405 (J ''Us'' @ [225] @ J '' POST.'')))
      else if \<not> isSameOrigin w (aq_origin req) (aq_host req) then Some (Inl (errReply 403 (J ''Origen no permitido.'')))
      else if \<not> test JSON_TYPE (case aq_contentType req of Some t \<Rightarrow> t | None \<Rightarrow> []) then Some (Inl (errReply 415 (J ''Mand'' @ [225] @ J '' JSON.'')))
      else case (case readBody req of Inl _ \<Rightarrow> None | Inr t \<Rightarrow> hParse h t) of
        None \<Rightarrow> Some (Inl (errReply 400 (J ''El pedido no es JSON v'' @ [225] @ J ''lido.'')))
      | Some JNull \<Rightarrow> None
      | Some v \<Rightarrow>
          let input = (case v of JObj o' \<Rightarrow> o' | _ \<Rightarrow> []);
              text = (case asStr (fld input (J ''text'')) of Some s \<Rightarrow> trimS s | None \<Rightarrow> []) in
          if text = [] \<or> MAX_TEXT < length text then
            Some (Inl (errReply 400 ((J ''Escrib'' @ [237] @ J '' entre 1 y '') @ showNat MAX_TEXT @ (J '' caracteres.''))))
          else
            let requested = matching SESSION_ID (fld input (J ''session'')); run = matching RUN_NAME (fld input (J ''run'')) in
            Some (sessionFor runContext sessions text requested run))"

section \<open>Session, prompt and answer\<close>

text \<open>The answer to \<open>POST /session\<close>: a failed request with its message, or a status with the \<open>id\<close> of the body.\<close>

definition isOk :: "nat \<Rightarrow> bool" where "isOk status \<longleftrightarrow> 200 \<le> status \<and> status < 300"

definition newSession :: "jsstring + nat \<times> jsstring option \<Rightarrow> jsstring + jsstring" where
  "newSession answer =
     (case answer of
        Inl message \<Rightarrow> Inl message
      | Inr (status, sid) \<Rightarrow>
          if \<not> isOk status then Inl ((J ''OpenCode no cre'' @ [243] @ J '' la sesi'' @ [243] @ J ''n (HTTP '') @ showNat status @ J '')'')
          else case sid of
            None \<Rightarrow> Inl (J ''OpenCode devolvi'' @ [243] @ J '' una sesi'' @ [243] @ J ''n inv'' @ [225] @ J ''lida'')
          | Some s \<Rightarrow> if s = [] \<or> \<not> test SESSION_ID s then Inl (J ''OpenCode devolvi'' @ [243] @ J '' una sesi'' @ [243] @ J ''n inv'' @ [225] @ J ''lida'') else Inr s)"

definition promptOf :: "Question \<Rightarrow> jsstring" where
  "promptOf q = (case qu_context q of Some c \<Rightarrow> c @ [10, 10] @ J ''Pregunta: '' @ qu_text q | None \<Rightarrow> qu_text q)"

definition messageUrl :: "ChatConfig \<Rightarrow> jsstring \<Rightarrow> jsstring" where
  "messageUrl cfg session = cc_url cfg @ J ''/session/'' @ session @ J ''/message''"

definition modelParts :: "ChatConfig \<Rightarrow> jsstring \<times> jsstring" where
  "modelParts cfg = (let ps = splitS (cc_model cfg) (J ''/'') in (hd ps, joinS (J ''/'') (tl ps)))"

record OpencodeAnswer =
  oa_parts :: "(jsstring \<times> jsstring option) list"
  oa_modelID :: "jsstring option"
  oa_providerID :: "jsstring option"
  oa_input :: "jsnum option"
  oa_output :: "jsnum option"
  oa_error :: "(jsstring option \<times> jsstring option) option"

definition chatText :: "OpencodeAnswer \<Rightarrow> jsstring" where
  "chatText a =
     trimS (joinS [10] (List.map_filter (\<lambda>(ty, t). if ty = J ''text'' then (case t of Some s \<Rightarrow> if s = [] then None else Some s | None \<Rightarrow> None) else None)
       (oa_parts a)))"

definition answerModel :: "ChatConfig \<Rightarrow> OpencodeAnswer \<Rightarrow> jsstring" where
  "answerModel cfg a =
     (case (oa_providerID a, oa_modelID a) of
        (Some p, Some m) \<Rightarrow> if p \<noteq> [] \<and> m \<noteq> [] then p @ J ''/'' @ m else cc_model cfg
      | _ \<Rightarrow> cc_model cfg)"

definition answerError :: "OpencodeAnswer \<Rightarrow> jsstring option" where
  "answerError a =
     map_option (\<lambda>(name, message). case message of Some m \<Rightarrow> m | None \<Rightarrow> (case name of Some n \<Rightarrow> n | None \<Rightarrow> J ''error'')) (oa_error a)"

definition DOWN :: pattern where
  "DOWN = rxI (Alts [Lits ''fetch failed'', Lits ''ECONNREFUSED'', Lits ''ENOTFOUND'', Lits ''timeout''])"

definition chatFailure :: "jsstring \<Rightarrow> Reply" where
  "chatFailure message =
     errReply 502 (if test DOWN message then (J ''No se pudo hablar con OpenCode o con el modelo. '' @ [191] @ J ''Est'' @ [225] @ J '' prendido el LFM en la PC?'')
                   else (J ''Fall'' @ [243] @ J '' la consulta: '') @ message)"

definition orZero :: "jsnum option \<Rightarrow> jsnum" where "orZero v = (case v of Some n \<Rightarrow> n | None \<Rightarrow> Fin 0)"

text \<open>
  The reply once OpenCode has answered. \<open>Inl\<close> is the message of a request that failed or of a body that is not JSON; 
  the timings and the hops of the gateway are measured values.
\<close>

definition chatReply :: "ChatConfig \<Rightarrow> jsstring \<Rightarrow> OpencodeAnswer \<Rightarrow> jsobj \<Rightarrow> Reply" where
  "chatReply cfg session a measured =
     \<lparr>rp_status = 200,
      rp_body = JObj ([(J ''session'', JStr session), (J ''text'', JStr (chatText a))] @
        (case answerError a of Some e \<Rightarrow> [(J ''error'', JStr e)] | None \<Rightarrow> []) @
        [(J ''model'', JStr (answerModel cfg a)),
         (J ''tokens'', JObj [(J ''input'', JNum (orZero (oa_input a))), (J ''output'', JNum (orZero (oa_output a)))])] @ measured)\<rparr>"

definition finishChat :: "ChatConfig \<Rightarrow> Question \<Rightarrow> jsstring \<Rightarrow> jsstring + nat \<times> OpencodeAnswer \<Rightarrow> jsobj \<Rightarrow> Reply" where
  "finishChat cfg q session answer measured =
     (case answer of
        Inl message \<Rightarrow> chatFailure message
      | Inr (status, a) \<Rightarrow>
          if status = 404 \<and> qu_requested q \<noteq> None then
            \<lparr>rp_status = 409, rp_body = JObj [(J ''error'', JStr (J ''La conversaci'' @ [243] @ J ''n se reinici'' @ [243] @ J '' del lado del servidor. Volv'' @ [233] @ J '' a mandar el mensaje.'')),
               (J ''resetSession'', JBool True)]\<rparr>
          else if \<not> isOk status then chatFailure ((J ''OpenCode respondi'' @ [243] @ J '' HTTP '') @ showNat status)
          else chatReply cfg session a measured)"

section \<open>Interleaving\<close>

text \<open>
  Questions in flight: after the lock, and after the session is known. \<open>ch_prompts\<close> are the prompts sent, newest
  last: the session and the question. \<open>ch_replies\<close> are the
  replies by request. \<open>ch_crashed\<close>: the handler threw outside its \<open>try\<close>, and the rejection that nobody handles ends
  the process.
\<close>

record Chat =
  ch_busy :: bool
  ch_sessions :: SessionRun
  ch_waiting :: "(nat \<times> Question) list"
  ch_asking :: "(nat \<times> Question \<times> jsstring) list"
  ch_prompts :: "(jsstring \<times> Question) list"
  ch_replies :: "(nat \<times> Reply) list"
  ch_crashed :: bool

definition newChat :: Chat where
  "newChat = \<lparr>ch_busy = False, ch_sessions = [], ch_waiting = [], ch_asking = [], ch_prompts = [], ch_replies = [], ch_crashed = False\<rparr>"

datatype ChatEvent =
    Asked nat ActionReq
  | SessionReady nat "jsstring + nat \<times> jsstring option"
  | Answered nat "jsstring + nat \<times> OpencodeAnswer" jsobj

definition say :: "nat \<Rightarrow> Reply \<Rightarrow> Chat \<Rightarrow> Chat" where
  "say k r st = st\<lparr>ch_replies := ch_replies st @ [(k, r)]\<rparr>"

definition busyReply :: Reply where
  "busyReply = errReply 429 (J ''El modelo est'' @ [225] @ J '' respondiendo otra pregunta. Prob'' @ [225] @ J '' en unos segundos.'')"

definition chatStep :: "webUrl \<Rightarrow> host \<Rightarrow> ChatConfig \<Rightarrow> (jsstring \<Rightarrow> jsstring option) \<Rightarrow> Chat \<Rightarrow> ChatEvent \<Rightarrow> Chat" where
  "chatStep w h cfg runContext st ev =
     (if ch_crashed st then st
      else case ev of
        Asked k req \<Rightarrow>
          (case question w h cfg runContext (ch_sessions st) req of
             None \<Rightarrow> st\<lparr>ch_crashed := True\<rparr>
           | Some (Inl r) \<Rightarrow> say k r st
           | Some (Inr q) \<Rightarrow>
               if ch_busy st then say k busyReply st
               else st\<lparr>ch_busy := True, ch_waiting := ch_waiting st @ [(k, q)]\<rparr>)
      | SessionReady k answer \<Rightarrow>
          (case fld (ch_waiting st) k of
             None \<Rightarrow> st
           | Some q \<Rightarrow>
               let st = st\<lparr>ch_waiting := filter (\<lambda>(j, _). j \<noteq> k) (ch_waiting st)\<rparr> in
               (case (case qu_requested q of Some s \<Rightarrow> Inr s | None \<Rightarrow> newSession answer) of
                  Inl message \<Rightarrow> (say k (chatFailure message) st)\<lparr>ch_busy := False\<rparr>
                | Inr session \<Rightarrow>
                    st\<lparr>ch_sessions := (case qu_run q of Some r \<Rightarrow> rememberSession session r (ch_sessions st) | None \<Rightarrow> ch_sessions st),
                       ch_prompts := ch_prompts st @ [(session, q)],
                       ch_asking := ch_asking st @ [(k, q, session)]\<rparr>))
      | Answered k answer measured \<Rightarrow>
          (case fld (ch_asking st) k of
             None \<Rightarrow> st
           | Some (q, session) \<Rightarrow>
               (say k (finishChat cfg q session answer measured)
                 (st\<lparr>ch_asking := filter (\<lambda>(j, _). j \<noteq> k) (ch_asking st)\<rparr>))\<lparr>ch_busy := False\<rparr>))"

definition chatRun :: "webUrl \<Rightarrow> host \<Rightarrow> ChatConfig \<Rightarrow> (jsstring \<Rightarrow> jsstring option) \<Rightarrow> ChatEvent list \<Rightarrow> Chat" where
  "chatRun w h cfg runContext evs = foldl (chatStep w h cfg runContext) newChat evs"

section \<open>One question at a time\<close>

lemma fld_filter_ne: "fld (filter (\<lambda>(j, _). j \<noteq> k) m) k = None"
  by (induction m) auto

lemma length_mapSet: "length (mapSet k v m) = (if k \<in> fst ` set m then length m else Suc (length m))"
  by (induction k v m rule: mapSet.induct) auto

lemma hd_mapSet_new: "k \<notin> fst ` set m \<Longrightarrow> m \<noteq> [] \<Longrightarrow> fst (hd (mapSet k v m)) = fst (hd m)"
  by (cases m) auto

lemma length_mapDelete_hd: "distinct (map fst m) \<Longrightarrow> m \<noteq> [] \<Longrightarrow> length (mapDelete (fst (hd m)) m) = length m - 1"
  by (cases m) (force simp: mapDelete_def intro!: arg_cong [of _ _ length] filter_True)+

lemma rememberSession_bound:
  assumes "distinct (map fst m)" "length m \<le> MAX_SESSIONS"
  shows "distinct (map fst (rememberSession s r m)) \<and> length (rememberSession s r m) \<le> MAX_SESSIONS"
proof (cases "MAX_SESSIONS < length (mapSet s r m)")
  case True
  then have "mapSet s r m \<noteq> []" by auto
  moreover have "length (mapSet s r m) \<le> Suc MAX_SESSIONS" using assms(2) by (simp add: length_mapSet)
  ultimately show ?thesis
    using True length_mapDelete_hd [OF mapSet_distinct [OF assms(1)], of s r] mapSet_distinct [OF assms(1), of s r]
    by (auto simp: rememberSession_def Let_def mapDelete_def distinct_map_filter)
qed (use assms mapSet_distinct in \<open>auto simp: rememberSession_def Let_def\<close>)

text \<open>What is remembered last is not what is forgotten.\<close>

lemma rememberSession_kept:
  assumes "length m \<le> MAX_SESSIONS"
  shows "fld (rememberSession s r m) s = Some r"
proof (cases "MAX_SESSIONS < length (mapSet s r m)")
  case True
  with assms have new: "s \<notin> fst ` set m" by (auto simp: length_mapSet split: if_splits)
  moreover have "m \<noteq> []" using True by (auto simp: MAX_SESSIONS_def)
  ultimately have "fst (hd (mapSet s r m)) \<noteq> s" by (simp add: hd_mapSet_new) (metis image_eqI list.set_sel(1))
  with True show ?thesis by (simp add: rememberSession_def Let_def fld_mapDelete fld_mapSet)
qed (simp add: rememberSession_def Let_def fld_mapSet)

text \<open>What the checks before the lock guarantee of a question.\<close>

definition questionOk :: "(jsstring \<Rightarrow> jsstring option) \<Rightarrow> Question \<Rightarrow> bool" where
  "questionOk runContext q \<longleftrightarrow>
     qu_text q \<noteq> [] \<and> length (qu_text q) \<le> MAX_TEXT \<and>
     (\<forall>s. qu_requested q = Some s \<longrightarrow> test SESSION_ID s) \<and>
     (\<forall>c. qu_context q = Some c \<longrightarrow> (\<exists>r. runContext r = Some c)) \<and>
     (\<forall>r. qu_run q = Some r \<and> qu_requested q = None \<longrightarrow>
        (\<exists>c. runContext r = Some c \<and> promptOf q = c @ [10, 10] @ J ''Pregunta: '' @ qu_text q))"

definition inItsSession :: "SessionRun \<Rightarrow> Question \<Rightarrow> bool" where
  "inItsSession sessions q \<longleftrightarrow> (\<forall>s r. qu_requested q = Some s \<and> qu_run q = Some r \<longrightarrow> fld sessions s = Some r)"

lemma matching_test: "matching p v = Some s \<Longrightarrow> test p s"
  by (auto simp: matching_def split: option.splits if_splits)

lemma sessionFor_ok:
  assumes "sessionFor runContext sessions text requested run = Inr q" "text \<noteq> []" "length text \<le> MAX_TEXT"
    and "\<And>s. requested = Some s \<Longrightarrow> test SESSION_ID s"
  shows "questionOk runContext q \<and> inItsSession sessions q"
  using assms
  by (auto simp: sessionFor_def freshQuestion_def questionOk_def inItsSession_def promptOf_def split: option.splits if_splits)

lemma question_ok:
  assumes "question w h cfg runContext sessions req = Some (Inr q)"
  shows "questionOk runContext q \<and> inItsSession sessions q"
  using assms unfolding question_def Let_def
  by (auto split: if_splits option.splits jsval.splits dest!: sessionFor_ok dest: matching_test simp: not_less)

definition chatInv :: "(jsstring \<Rightarrow> jsstring option) \<Rightarrow> Chat \<Rightarrow> bool" where
  "chatInv runContext st \<longleftrightarrow>
     length (ch_waiting st) + length (ch_asking st) = of_bool (ch_busy st) \<and>
     distinct (map fst (ch_sessions st)) \<and> length (ch_sessions st) \<le> MAX_SESSIONS \<and>
     (\<forall>(k, q) \<in> set (ch_waiting st). questionOk runContext q \<and> inItsSession (ch_sessions st) q) \<and>
     (\<forall>(s, q) \<in> set (ch_prompts st). questionOk runContext q \<and> test SESSION_ID s)"

lemma newSession_ok: "newSession answer = Inr s \<Longrightarrow> test SESSION_ID s"
  by (auto simp: newSession_def split: sum.splits option.splits if_splits)

lemma chatInv_asked:
  assumes "chatInv runContext st"
  shows "chatInv runContext (chatStep w h cfg runContext st (Asked k req))"
proof (cases "question w h cfg runContext (ch_sessions st) req")
  case (Some r)
  then show ?thesis
    using assms question_ok [of w h cfg runContext "ch_sessions st" req]
    by (cases r) (auto simp: chatInv_def chatStep_def say_def)
qed (use assms in \<open>simp add: chatInv_def chatStep_def\<close>)

lemma one_entry: "length m + n \<le> 1 \<Longrightarrow> fld m k = Some v \<Longrightarrow> m = [(k, v)] \<and> n = 0"
  by (cases m) (auto split: if_splits)

lemma chatInv_session:
  assumes inv: "chatInv runContext st"
  shows "chatInv runContext (chatStep w h cfg runContext st (SessionReady k answer))"
proof (cases "ch_crashed st \<or> fld (ch_waiting st) k = None")
  case False
  then obtain q where q: "fld (ch_waiting st) k = Some q" and nc: "\<not> ch_crashed st" by auto
  have one: "ch_waiting st = [(k, q)]" "ch_asking st = []"
    using one_entry [of "ch_waiting st" "length (ch_asking st)" k q] q inv by (auto simp: chatInv_def of_bool_def split: if_splits)
  have ok: "questionOk runContext q" using inv one by (simp add: chatInv_def)
  have ses: "test SESSION_ID s" if "(case qu_requested q of Some s \<Rightarrow> Inr s | None \<Rightarrow> newSession answer) = Inr s" for s
    using that ok newSession_ok by (auto simp: questionOk_def split: option.splits)
  have rem: "distinct (map fst (rememberSession s r (ch_sessions st))) \<and> length (rememberSession s r (ch_sessions st)) \<le> MAX_SESSIONS" for s r
    using inv by (intro rememberSession_bound) (auto simp: chatInv_def)
  show ?thesis
  proof (cases "case qu_requested q of Some s \<Rightarrow> Inr s | None \<Rightarrow> newSession answer")
    case (Inl message)
    then show ?thesis using inv one nc q by (auto simp: chatStep_def chatInv_def say_def Let_def)
  next
    case (Inr s)
    then show ?thesis
      using inv one nc q ok ses [OF Inr] rem
      by (cases "qu_run q") (auto simp: chatStep_def chatInv_def Let_def)
  qed
qed (use inv in \<open>auto simp: chatStep_def\<close>)

lemma chatInv_answered:
  assumes inv: "chatInv runContext st"
  shows "chatInv runContext (chatStep w h cfg runContext st (Answered k answer measured))"
proof (cases "ch_crashed st \<or> fld (ch_asking st) k = None")
  case False
  then obtain v where v: "fld (ch_asking st) k = Some v" and nc: "\<not> ch_crashed st" by auto
  have one: "ch_asking st = [(k, v)]" "ch_waiting st = []"
    using one_entry [of "ch_asking st" "length (ch_waiting st)" k v] v inv by (auto simp: chatInv_def of_bool_def split: if_splits)
  then show ?thesis using inv nc v by (cases v) (auto simp: chatStep_def chatInv_def say_def)
qed (use inv in \<open>auto simp: chatStep_def\<close>)

lemma chatInv_run: "chatInv runContext (chatRun w h cfg runContext evs)"
proof (induction evs rule: rev_induct)
  case Nil
  show ?case by (simp add: chatRun_def newChat_def chatInv_def)
next
  case (snoc ev evs)
  then show ?case
    by (cases ev) (simp_all add: chatRun_def chatInv_asked chatInv_session chatInv_answered)
qed

text \<open>
  C39. However the questions of the browsers interleave, at most one is with the model, and the lock is held exactly while one is;
  at most 200 sessions are remembered; and a waiting question about a run in an old session still finds that
  session remembered for that run.
\<close>

theorem chat_one_at_a_time:
  "length (ch_waiting (chatRun w h cfg runContext evs)) + length (ch_asking (chatRun w h cfg runContext evs)) =
     of_bool (ch_busy (chatRun w h cfg runContext evs)) \<and>
   length (ch_sessions (chatRun w h cfg runContext evs)) \<le> 200 \<and>
   list_all (\<lambda>(k, q). inItsSession (ch_sessions (chatRun w h cfg runContext evs)) q) (ch_waiting (chatRun w h cfg runContext evs))"
  using chatInv_run [of runContext w h cfg evs] by (auto simp: chatInv_def MAX_SESSIONS_def list_all_iff)

lemma session_pattern: "test SESSION_ID s \<Longrightarrow> list_all isWordU s \<and> s \<noteq> []"
proof -
  let ?rs = "[Lits ''ses_'', betweenR 8 64 (Items False [Rng CHR ''A'' CHR ''Z'', Rng CHR ''a'' CHR ''z'', Rng CHR ''0'' CHR ''9''])]"
  assume "test SESSION_ID s"
  then have e: "length s \<in> set (endsCat False False s ?rs 0)"
    using test_anchored [of ?rs s] by (simp add: SESSION_ID_def)
  have "list_all (writesOnly isWordU) ?rs"
    by (auto simp: J_def quantifier_defs isWordU_def isDigitU_def inRange_def)
  from ends_runIn(2) [OF e this] have "list_all isWordU s" by (simp add: runIn_all)
  moreover from e have "s \<noteq> []" by (auto simp: litAt_J_exact J_def split: if_splits)
  ultimately show ?thesis by simp
qed

lemma prompt_question: "(s, q) \<in> set (ch_prompts (chatRun w h cfg runContext evs)) \<Longrightarrow> questionOk runContext q \<and> test SESSION_ID s"
  using chatInv_run [of runContext w h cfg evs] by (auto simp: chatInv_def)

text \<open>
  Every prompt sent has between 1 and 4000 characters of the person, goes to a session whose id is a plain word, so that
  the path of the request is the one intended, and in a new session about a run starts with the context of that
  run.
\<close>

theorem prompts_carry_context:
  assumes "(s, q) \<in> set (ch_prompts (chatRun w h cfg runContext evs))"
  shows "list_all isWordU s \<and> s \<noteq> [] \<and> qu_text q \<noteq> [] \<and> length (qu_text q) \<le> 4000 \<and>
    (\<forall>r. qu_run q = Some r \<and> qu_requested q = None \<longrightarrow>
       (\<exists>c. runContext r = Some c \<and> promptOf q = c @ [10, 10] @ J ''Pregunta: '' @ qu_text q))"
  using prompt_question [OF assms] session_pattern [of s] by (simp add: questionOk_def MAX_TEXT_def)

section \<open>A body that ends the process\<close>

lemma sample_json_type: "test JSON_TYPE (J ''application/json'')"
  unfolding test_iff JSON_TYPE_def
  by (rule exI [of _ 0]) (simp add: rx_def litAt_J_exact isBoundary_def wordAt_def J_def isWordU_def isDigitU_def)

text \<open>
  A question whose body is the JSON text \<open>null\<close> makes the handler throw where nothing catches it.
\<close>

theorem null_body_crashes:
  assumes "chatEnabled cfg" "aq_method req = J ''POST''" "aq_origin req = None" "aq_contentType req = Some (J ''application/json'')"
    and "readBody req = Inr t" "hParse h t = Some JNull" "\<not> ch_crashed st"
  shows "ch_crashed (chatStep w h cfg runContext st (Asked k req))"
  using assms sample_json_type by (simp add: chatStep_def question_def isSameOrigin_def)

definition sampleQuestion :: ActionReq where
  "sampleQuestion = \<lparr>aq_method = J ''POST'', aq_url = None, aq_origin = None, aq_host = None,
     aq_contentType = Some (J ''application/json''), aq_chunks = []\<rparr>"

definition sampleChat :: ChatConfig where
  "sampleChat = \<lparr>cc_url = J ''u'', cc_model = [], cc_inspect = [], cc_password = []\<rparr>"

lemma fromUtf8_Nil: "fromUtf8 [] = []"
  by (simp add: fromUtf8_def fromCodePoints_def)

theorem null_body_crashes_witness:
  "ch_crashed (chatStep sampleUrls (sampleHost [([], JNull)]) sampleChat (\<lambda>_. None) newChat (Asked 0 sampleQuestion))"
  by (rule null_body_crashes [where t = "[]"])
    (simp_all add: sampleChat_def chatEnabled_def sampleQuestion_def readBody_def fromUtf8_Nil sampleHost_def newChat_def)

text \<open>A conversation: one question without a run, asked in a new session.\<close>

definition sampleTalk :: "ChatEvent list" where
  "sampleTalk = [Asked 0 sampleQuestion, SessionReady 0 (Inr (200, Some (J ''ses_abcdefgh'')))]"

lemma sample_session: "test SESSION_ID (J ''ses_abcdefgh'')"
proof -
  let ?r = "Items False [Rng CHR ''A'' CHR ''Z'', Rng CHR ''a'' CHR ''z'', Rng CHR ''0'' CHR ''9'']"
  have r: "ends False False s ?r i = unitIs (\<lambda>c. list_ex (inItem False c) [Rng CHR ''A'' CHR ''Z'', Rng CHR ''a'' CHR ''z'', Rng CHR ''0'' CHR ''9'']) s i" for s i
    by simp
  show ?thesis
    using test_anchored [of "[Lits ''ses_'', betweenR 8 64 ?r]" "J ''ses_abcdefgh''"]
    by (simp add: SESSION_ID_def set_ends_between [OF _ r] litAt_J_exact runIn_def)
      (auto simp: J_def inRange_def nth_Cons' less_Suc_eq)
qed

lemma sample_prompt:
  "ch_prompts (chatRun sampleUrls (sampleHost [([], JObj [(J ''text'', JStr (J ''x''))])]) sampleChat (\<lambda>_. None) sampleTalk) =
     [(J ''ses_abcdefgh'', \<lparr>qu_text = J ''x'', qu_requested = None, qu_run = None, qu_context = None\<rparr>)]"
proof -
  have tr: "trimS (J ''x'') = J ''x''" by (simp add: J_def trimS_def isWs_def)
  show ?thesis
    using sample_json_type sample_session
    by (simp add: chatRun_def sampleTalk_def chatStep_def newChat_def question_def sampleChat_def chatEnabled_def sampleQuestion_def
        isSameOrigin_def readBody_def fromUtf8_Nil sampleHost_def sessionFor_def matching_def tr MAX_TEXT_def newSession_def isOk_def)
qed

theorem prompts_carry_context_witness:
  "list_all isWordU (J ''ses_abcdefgh'') \<and> J ''x'' \<noteq> []"
  using prompts_carry_context [of "J ''ses_abcdefgh''" "\<lparr>qu_text = J ''x'', qu_requested = None, qu_run = None, qu_context = None\<rparr>"
      sampleUrls "sampleHost [([], JObj [(J ''text'', JStr (J ''x''))])]" sampleChat "\<lambda>_. None" sampleTalk]
  by (simp add: sample_prompt)

end
