(* ===== verification/Logger.thy ===== *)
theory Logger
  imports Logs
begin

text \<open>
  The logger of the evaluator (\<^verbatim>\<open>src/runner/src/logger.ts\<close>): levels, the redaction of fields and texts, and the
  line it writes, which the dashboard reads back with \<open>parseLogLine\<close> (theory Logs). The clock, the environment and the
  fields of the active trace are parameters. A logged value is a tree: the marker for a value met twice
  does not arise, and the line can always be serialised.
\<close>

section \<open>Levels\<close>

datatype LogLevel = LDebug | LInfo | LWarn | LError

fun LEVEL_ORDER :: "LogLevel \<Rightarrow> nat" where
  "LEVEL_ORDER LDebug = 10"
| "LEVEL_ORDER LInfo = 20"
| "LEVEL_ORDER LWarn = 30"
| "LEVEL_ORDER LError = 40"

fun levelText :: "LogLevel \<Rightarrow> jsstring" where
  "levelText LDebug = J ''debug''"
| "levelText LInfo = J ''info''"
| "levelText LWarn = J ''warn''"
| "levelText LError = J ''error''"

definition resolveLevel :: "jsstring option \<Rightarrow> LogLevel" where
  "resolveLevel env =
     (let raw = lowerS (case env of Some s \<Rightarrow> s | None \<Rightarrow> J ''info'') in
      if raw = J ''debug'' then LDebug else if raw = J ''warn'' then LWarn else if raw = J ''error'' then LError else LInfo)"

section \<open>Replacing matches\<close>

text \<open>\<open>s.replace(regex, r)\<close> with the \<open>g\<close> flag, for a replacement without \<open>$\<close>.\<close>

fun replaceFrom :: "pattern \<Rightarrow> jsstring \<Rightarrow> jsstring \<Rightarrow> nat \<Rightarrow> nat \<Rightarrow> jsstring" where
  "replaceFrom p r s i 0 = drop i s"
| "replaceFrom p r s i (Suc n) =
     (if length s < i then []
      else case execFrom p s i (length s - i) of
        None \<Rightarrow> drop i s
      | Some (a, b) \<Rightarrow>
          sliceS s i a @ r @ (if b = a then take 1 (drop b s) @ replaceFrom p r s (Suc b) n else replaceFrom p r s b n))"

definition replaceRx :: "pattern \<Rightarrow> jsstring \<Rightarrow> jsstring \<Rightarrow> jsstring" where
  "replaceRx p r s = replaceFrom p r s 0 (Suc (length s))"

section \<open>Redaction\<close>

abbreviation alnums :: "citem list" where
  "alnums \<equiv> [Rng CHR ''A'' CHR ''Z'', Rng CHR ''a'' CHR ''z'', Rng CHR ''0'' CHR ''9'']"

definition SENSITIVE :: pattern where
  "SENSITIVE = rxI (Alts [Lits ''prompt'', Lits ''payload'', Lits ''excerpt'', Lits ''structuredOutput'', Lits ''agentResults'',
     Lits ''authorization'', Lits ''password'', Cat [Lits ''api'', optR Dot, Lits ''key''], Lits ''token'', Lits ''secret'', Lits ''body''])"

definition BEARER :: pattern where
  "BEARER = rxI (Cat [Lits ''Bearer'', someR Space,
     someR (Items False (alnums @ [One CHR ''.'', One CHR ''_'', One CHR ''~'', One CHR ''+'', One CHR ''/'', One CHR ''='', One CHR ''-'']))])"

definition KEYS :: pattern where
  "KEYS = rx (Cat [WordB, Grp (Alts [Lits ''sk-'', Lits ''nvapi-'']), atLeastR 12 (Items False (alnums @ [One CHR ''_'', One CHR ''-''])), WordB])"

definition EMAIL :: pattern where
  "EMAIL = rx (Cat [someR (Items False (alnums @ [One CHR ''.'', One CHR ''_'', One CHR ''%'', One CHR ''+'', One CHR ''-''])), Lits ''@'',
     someR (Items False (alnums @ [One CHR ''.'', One CHR ''-''])), Lits ''.'', atLeastR 2 (Items False [Rng CHR ''A'' CHR ''Z'', Rng CHR ''a'' CHR ''z''])])"

definition sanitizeText :: "jsstring \<Rightarrow> jsstring" where
  "sanitizeText s =
     replaceRx EMAIL (J ''[REDACTED_EMAIL]'') (replaceRx KEYS (J ''[REDACTED_KEY]'') (replaceRx BEARER (J ''Bearer [REDACTED]'') s))"

text \<open>A logged value: an \<open>Error\<close> may stand anywhere in it; \<open>LAtom\<close> is null, a boolean or a number.\<close>

datatype logval =
    LAtom jsval
  | LStr jsstring
  | LErr jsstring jsstring
  | LArr "logval list"
  | LObj "(jsstring \<times> logval) list"

fun sanitize :: "jsstring \<Rightarrow> logval \<Rightarrow> jsval" where
  "sanitize key v =
     (if test SENSITIVE key then JStr (J ''[REDACTED]'')
      else case v of
        LAtom a \<Rightarrow> a
      | LStr s \<Rightarrow> JStr (sanitizeText s)
      | LErr name message \<Rightarrow> JObj [(J ''name'', JStr name), (J ''message'', JStr (sanitizeText message))]
      | LArr xs \<Rightarrow> JArr (map (sanitize []) xs)
      | LObj kvs \<Rightarrow> JObj (map (\<lambda>(k, w). (k, sanitize k w)) kvs))"

declare sanitize.simps [simp del]

definition safeSerialize :: "(jsstring \<times> logval) list \<Rightarrow> jsobj" where
  "safeSerialize fs = foldl (\<lambda>out (k, v). assignProp out k (sanitize k v)) [] fs"

section \<open>The line\<close>

record LogEnv =
  le_level :: LogLevel
  le_now :: jsstring
  le_run :: "jsstring option"
  le_namespace :: "jsstring option"
  le_trace :: jsobj

definition optStr :: "string \<Rightarrow> jsstring option \<Rightarrow> jsobj" where
  "optStr k v = (case v of Some s \<Rightarrow> [(J k, JStr s)] | None \<Rightarrow> [])"

definition spreadObj :: "jsobj \<Rightarrow> jsobj \<Rightarrow> jsobj" where
  "spreadObj a b = foldl (\<lambda>m (k, v). defineProp m k v) a b"

definition lineRecord :: "LogEnv \<Rightarrow> jsstring \<Rightarrow> LogLevel \<Rightarrow> jsstring \<Rightarrow> (jsstring \<times> logval) list \<Rightarrow> jsobj" where
  "lineRecord env component level msg fs =
     spreadObj
       (defineProp
         (spreadObj
           ([(J ''ts'', JStr (le_now env)), (J ''level'', JStr (levelText level)), (J ''component'', JStr component)] @
            optStr ''run'' (le_run env) @ optStr ''namespace'' (le_namespace env))
           (le_trace env))
         (J ''msg'') (sanitize [] (LStr msg)))
       (safeSerialize fs)"

text \<open>\<open>write\<close>: the text appended to stderr; \<open>None\<close> below the active level.\<close>

definition writeLog :: "host \<Rightarrow> LogEnv \<Rightarrow> jsstring \<Rightarrow> LogLevel \<Rightarrow> jsstring \<Rightarrow> (jsstring \<times> logval) list \<Rightarrow> jsstring option" where
  "writeLog h env component level msg fs =
     (if LEVEL_ORDER level < LEVEL_ORDER (le_level env) then None
      else Some (hStringify h (JObj (lineRecord env component level msg fs)) @ [10]))"

definition childComponent :: "jsstring \<Rightarrow> jsstring \<Rightarrow> jsstring" where
  "childComponent parent component = parent @ J ''.'' @ component"

section \<open>Nothing under a sensitive key is written\<close>

text \<open>What a reader of the log may learn: values under sensitive keys are erased.\<close>

fun eraseSecrets :: "jsstring \<Rightarrow> logval \<Rightarrow> logval" where
  "eraseSecrets key v =
     (if test SENSITIVE key then LStr []
      else case v of
        LArr xs \<Rightarrow> LArr (map (eraseSecrets []) xs)
      | LObj kvs \<Rightarrow> LObj (map (\<lambda>(k, w). (k, eraseSecrets k w)) kvs)
      | _ \<Rightarrow> v)"

declare eraseSecrets.simps [simp del]

lemma sanitize_erase: "sanitize key (eraseSecrets key v) = sanitize key v"
proof (induction key v rule: sanitize.induct)
  case (1 key v)
  show ?case
  proof (cases "test SENSITIVE key")
    case True
    then show ?thesis by (simp add: sanitize.simps [of key])
  next
    case False
    with 1 show ?thesis
      by (cases v) (auto simp: sanitize.simps [of key] eraseSecrets.simps [of key])
  qed
qed

lemma safeSerialize_erase:
  "safeSerialize (map (\<lambda>(k, v). (k, eraseSecrets k v)) fs) = safeSerialize fs"
  unfolding safeSerialize_def foldl_map by (rule foldl_cong) (auto simp: sanitize_erase)

text \<open>
  C34. Two calls of the logger whose fields differ only in values under sensitive keys, at any depth, write the same
  line: prompts, payloads, excerpts, agent results, passwords, keys and tokens given as fields have no influence on
  the log.
\<close>

theorem secrets_do_not_reach_log:
  assumes "map (\<lambda>(k, v). (k, eraseSecrets k v)) fs = map (\<lambda>(k, v). (k, eraseSecrets k v)) fs'"
  shows "writeLog h env component level msg fs = writeLog h env component level msg fs'"
  using safeSerialize_erase [of fs] safeSerialize_erase [of fs'] assms by (simp add: writeLog_def lineRecord_def)

lemma sensitive_token: "test SENSITIVE (J ''token'')"
  unfolding test_iff SENSITIVE_def
  by (rule exI [of _ 0]) (simp add: rxI_def litAt_def sameU_def foldU_def J_def optR_def)

theorem secrets_do_not_reach_log_witness:
  "writeLog (sampleHost []) \<lparr>le_level = LInfo, le_now = [], le_run = None, le_namespace = None, le_trace = []\<rparr> [] LInfo [] [(J ''token'', LStr (J ''a''))] =
   writeLog (sampleHost []) \<lparr>le_level = LInfo, le_now = [], le_run = None, le_namespace = None, le_trace = []\<rparr> [] LInfo [] [(J ''token'', LStr (J ''b''))]"
  by (rule secrets_do_not_reach_log) (simp add: eraseSecrets.simps sensitive_token)

section \<open>The dashboard reads the line back\<close>

lemma fld_spreadObj_other: "k \<notin> fst ` set b \<Longrightarrow> fld (spreadObj a b) k = fld a k"
  unfolding spreadObj_def by (induction b arbitrary: a) (auto simp: fld_defineProp)

lemma defineProp_keys: "fst ` set (defineProp ps k v) = insert k (fst ` set ps)"
  by (force simp: defineProp_def image_iff)

lemma keys_safeSerialize: "fst ` set (safeSerialize fs) \<subseteq> fst ` set fs"
proof -
  have "fst ` set (foldl (\<lambda>out (k, v). assignProp out k (sanitize k v)) out fs) \<subseteq> fst ` set out \<union> fst ` set fs" for out
  proof (induction fs arbitrary: out)
    case (Cons f fs)
    obtain k v where f: "f = (k, v)" by (cases f)
    have "fst ` set (assignProp out k (sanitize k v)) \<subseteq> insert k (fst ` set out)"
      by (auto simp: assignProp_def defineProp_keys)
    then have "fst ` set (assignProp out k (sanitize k v)) \<union> fst ` set fs \<subseteq> fst ` set out \<union> fst ` set (f # fs)"
      by (auto simp: f)
    from subset_trans [OF Cons this] show ?case by (simp add: f)
  qed simp
  from this [of "[]"] show ?thesis by (simp add: safeSerialize_def)
qed

definition HEADER_KEYS :: "jsstring set" where
  "HEADER_KEYS = J ` {''ts'', ''level'', ''component'', ''msg''}"

lemma header_fields:
  assumes "fst ` set fs \<inter> HEADER_KEYS = {}" "fst ` set (le_trace env) \<inter> HEADER_KEYS = {}"
  shows "fld (lineRecord env component level msg fs) (J ''ts'') = Some (JStr (le_now env))"
    "fld (lineRecord env component level msg fs) (J ''level'') = Some (JStr (levelText level))"
    "fld (lineRecord env component level msg fs) (J ''component'') = Some (JStr component)"
    "fld (lineRecord env component level msg fs) (J ''msg'') = Some (sanitize [] (LStr msg))"
proof -
  have no: "J k \<notin> fst ` set (safeSerialize fs)" "J k \<notin> fst ` set (le_trace env)" if "k \<in> {''ts'', ''level'', ''component'', ''msg''}" for k
  proof -
    have "J k \<in> HEADER_KEYS" unfolding HEADER_KEYS_def using that by (rule imageI)
    then show "J k \<notin> fst ` set (safeSerialize fs)" "J k \<notin> fst ` set (le_trace env)"
      using assms keys_safeSerialize [of fs] by blast+
  qed
  show "fld (lineRecord env component level msg fs) (J ''ts'') = Some (JStr (le_now env))"
    "fld (lineRecord env component level msg fs) (J ''level'') = Some (JStr (levelText level))"
    "fld (lineRecord env component level msg fs) (J ''component'') = Some (JStr component)"
    "fld (lineRecord env component level msg fs) (J ''msg'') = Some (sanitize [] (LStr msg))"
    unfolding lineRecord_def by (simp_all add: fld_spreadObj_other no fld_defineProp)
qed

lemma sanitize_msg: "sanitize [] (LStr msg) = JStr (sanitizeText msg)"
proof -
  have "\<not> test SENSITIVE []" unfolding test_iff SENSITIVE_def by (simp add: rxI_def litAt_def J_def optR_def unitIs_def)
  then show ?thesis by (simp add: sanitize.simps)
qed

lemma levelOf_levelText: "levelOf (Some (JStr (levelText level))) = levelText level"
  by (cases level) (simp_all add: levelOf_def)


text \<open>A host that prints one text for everything and parses it as the line of an empty log call.\<close>

definition sampleEnv :: LogEnv where
  "sampleEnv = \<lparr>le_level = LInfo, le_now = J ''t'', le_run = None, le_namespace = None, le_trace = []\<rparr>"

definition lineHost :: host where
  "lineHost = (sampleHost [(J ''{}'', JObj (lineRecord sampleEnv [] LWarn [] []))])\<lparr>hStringify := \<lambda>_. J ''{}''\<rparr>"


end
