(* ===== verification/Flow.thy ===== *)
theory Flow
  imports LiveStore Types
begin

text \<open>
  The path of each model call as the dashboard draws it (\<^verbatim>\<open>src/frontend/src/model/flow.ts\<close>): trips are
  reconstructed from the log lines of theory Logs and enriched with the report of theory Types. Every message the
  reconstruction knows is one the evaluator logs.
\<close>

section \<open>Scans and trips\<close>

datatype ScanStatus = ScanPass | ScanWarn | ScanBlock | ScanUnavailable

record VigilScan =
  vs_source :: jsstring
  vs_at :: jsstring
  vs_status :: ScanStatus
  vs_units :: "jsnum option"
  vs_warnings :: jsnum
  vs_confidence :: "jsnum option"
  vs_scanners :: "jsstring list"
  vs_warningRecords :: "VigilWarningRecord list option"
  vs_detection :: "VigilDetectionRecord option"

datatype TripStatus = TripRunning | TripOk | TripFailed | TripBlocked

record Trip =
  tr_id :: jsstring
  tr_agent :: jsstring
  tr_kind :: "jsstring option"
  tr_model :: "jsstring option"
  tr_startedAt :: jsstring
  tr_endedAt :: "jsstring option"
  tr_durationMs :: "jsnum option"
  tr_status :: TripStatus
  tr_error :: "jsstring option"
  tr_scans :: "VigilScan list"
  tr_extras :: "jsval option"

definition strs :: "jsval option \<Rightarrow> jsstring list" where
  "strs v = (case asArr v of Some xs \<Rightarrow> List.map_filter (\<lambda>x. asStr (Some x)) xs | None \<Rightarrow> [])"

definition newTrip :: "jsstring \<Rightarrow> jsstring \<Rightarrow> jsstring option \<Rightarrow> jsstring option \<Rightarrow> jsstring \<Rightarrow> jsval option \<Rightarrow> Trip" where
  "newTrip tid agent kind model startedAt extras =
     \<lparr>tr_id = tid, tr_agent = agent, tr_kind = kind, tr_model = model, tr_startedAt = startedAt, tr_endedAt = None,
      tr_durationMs = None, tr_status = TripRunning, tr_error = None, tr_scans = [], tr_extras = extras\<rparr>"

text \<open>\<open>current\<close> is the last trip while it runs; \<open>holder\<close> makes one for a scan that has none.\<close>

definition hasCurrent :: "Trip list \<Rightarrow> bool" where
  "hasCurrent trips \<longleftrightarrow> trips \<noteq> [] \<and> tr_status (last trips) = TripRunning"

definition updLast :: "(Trip \<Rightarrow> Trip) \<Rightarrow> Trip list \<Rightarrow> Trip list" where
  "updLast f trips = butlast trips @ [f (last trips)]"

definition withHolder :: "jsstring \<Rightarrow> Trip list \<Rightarrow> Trip list" where
  "withHolder ts0 trips =
     (if hasCurrent trips then trips
      else trips @ [newTrip (J ''scan-'' @ showNat (length trips)) (J ''evaluator'') None None ts0 None])"

definition addScan :: "VigilScan \<Rightarrow> Trip list \<Rightarrow> Trip list" where
  "addScan sc trips = updLast (\<lambda>t. t\<lparr>tr_scans := tr_scans t @ [sc]\<rparr>) (withHolder (vs_at sc) trips)"

definition sourceOf :: "LogLine \<Rightarrow> jsstring" where
  "sourceOf l = (case asStr (lineField l ''source'') of Some s \<Rightarrow> s | None \<Rightarrow> J ''?'')"

definition baseScan :: "LogLine \<Rightarrow> ScanStatus \<Rightarrow> VigilScan" where
  "baseScan l st =
     \<lparr>vs_source = sourceOf l, vs_at = lineStr l ''ts'', vs_status = st, vs_units = None, vs_warnings = Fin 0, vs_confidence = None,
      vs_scanners = [], vs_warningRecords = None, vs_detection = None\<rparr>"

section \<open>The messages\<close>

definition AGENT_START :: jsstring where "AGENT_START = J ''agent start''"
definition AGENT_DONE :: jsstring where "AGENT_DONE = J ''agent done''"
definition AGENT_FAILED :: "jsstring list" where
  "AGENT_FAILED = [J ''agent failed; continuing degraded'', J ''synthesis agent failed; falling back to conservative scoring'']"
definition SCAN_DONE :: jsstring where "SCAN_DONE = J ''vigil scan without abort''"
definition DETECT_MONITOR :: jsstring where "DETECT_MONITOR = (J ''vigil detection '' @ [8212] @ J '' monitor mode, evaluation continues'')"
definition DETECT_ABORT :: jsstring where "DETECT_ABORT = (J ''vigil detection '' @ [8212] @ J '' aborting evaluation, marking Malicious'')"
definition UNAVAILABLE :: jsstring where "UNAVAILABLE = (J ''vigil unavailable '' @ [8212] @ J '' continuing in monitor mode'')"

text \<open>The scan that a line reports, if it reports one.\<close>

definition scanOf :: "LogLine \<Rightarrow> VigilScan option" where
  "scanOf l =
     (let msg = lineStr l ''msg'' in
      if msg = SCAN_DONE then
        (let warnings = (case asNum (lineField l ''warnings'') of Some n \<Rightarrow> n | None \<Rightarrow> Fin 0) in
         Some ((baseScan l (if ltN (Fin 0) warnings then ScanWarn else ScanPass))\<lparr>vs_units := asNum (lineField l ''units''), vs_warnings := warnings\<rparr>))
      else if msg = DETECT_MONITOR \<or> msg = DETECT_ABORT then
        Some ((baseScan l (if msg = DETECT_ABORT then ScanBlock else ScanWarn))\<lparr>vs_confidence := asNum (lineField l ''confidence''),
                vs_scanners := strs (lineField l ''scanners'')\<rparr>)
      else if msg = UNAVAILABLE then Some (baseScan l ScanUnavailable)
      else None)"

definition tripStep :: "(jsstring \<Rightarrow> jsval option) \<Rightarrow> Trip list \<Rightarrow> LogLine \<Rightarrow> Trip list" where
  "tripStep extras trips l =
     (let msg = lineStr l ''msg''; ts = lineStr l ''ts'' in
      if msg = AGENT_START then
        (let agent = (case asStr (lineField l ''agent'') of Some a \<Rightarrow> a | None \<Rightarrow> J ''agent'') in
         trips @ [newTrip (agent @ J ''-'' @ showNat (length trips)) agent (asStr (lineField l ''kind'')) (asStr (lineField l ''model'')) ts (extras agent)])
      else if msg = AGENT_DONE then
        (if hasCurrent trips
         then updLast (\<lambda>t. t\<lparr>tr_status := TripOk, tr_endedAt := Some ts, tr_durationMs := asNum (lineField l ''durationMs'')\<rparr>) trips
         else trips)
      else if msg \<in> set AGENT_FAILED then
        (if hasCurrent trips
         then updLast (\<lambda>t. t\<lparr>tr_status := TripFailed, tr_endedAt := Some ts,
                 tr_error := Some (case asStr (lineField l ''error'') of Some e \<Rightarrow> e | None \<Rightarrow> J ''error'')\<rparr>) trips
         else trips)
      else case scanOf l of
        None \<Rightarrow> trips
      | Some sc \<Rightarrow>
          let trips = addScan sc trips in
          if vs_status sc = ScanBlock then updLast (\<lambda>t. t\<lparr>tr_status := TripBlocked, tr_endedAt := Some ts\<rparr>) trips else trips)"

section \<open>Enrichment from the report\<close>

fun kindText :: "AgentKind \<Rightarrow> jsstring" where
  "kindText KStatic = J ''static''"
| "kindText KDynamic = J ''dynamic''"
| "kindText KAdversarial = J ''adversarial''"
| "kindText KSynthesis = J ''synthesis''"
| "kindText KGeneric = J ''generic''"

definition orElse :: "'a option \<Rightarrow> 'a option \<Rightarrow> 'a option" where
  "orElse a b = (case a of Some x \<Rightarrow> Some x | None \<Rightarrow> b)"

definition enrichScan :: "VigilGateRecord \<Rightarrow> VigilScan \<Rightarrow> VigilScan" where
  "enrichScan gate sc =
     (let sc = (if vs_status sc = ScanWarn
                then sc\<lparr>vs_warningRecords := Some (filter (\<lambda>w. vw_source w = vs_source sc) (vg_warnings gate))\<rparr> else sc) in
      if vs_status sc = ScanBlock \<or> vs_confidence sc \<noteq> None
      then sc\<lparr>vs_detection := find (\<lambda>d. vd_source d = vs_source sc) (vg_detections gate)\<rparr> else sc)"

definition enrichTrip :: "EvaluationReport \<Rightarrow> Trip \<Rightarrow> Trip" where
  "enrichTrip report trip =
     (let trip = (case fld (er_agents report) (tr_agent trip) of
                    None \<Rightarrow> trip
                  | Some r \<Rightarrow>
                      trip\<lparr>tr_durationMs := orElse (tr_durationMs trip) (Some (Fin (of_int (ar_durationMs r)))),
                           tr_kind := orElse (tr_kind trip) (Some (kindText (ar_kind r))),
                           tr_model := orElse (tr_model trip) (Some (ar_model r)),
                           tr_status := (if \<not> ar_statusOk r \<and> tr_status trip = TripOk then TripFailed else tr_status trip),
                           tr_error := (case ar_error r of Some e \<Rightarrow> if e = [] then tr_error trip else orElse (tr_error trip) (Some e)
                                        | None \<Rightarrow> tr_error trip)\<rparr>) in
      trip\<lparr>tr_scans := map (enrichScan (sg_vigil (er_securityGate report))) (tr_scans trip)\<rparr>)"

definition deriveTrips :: "LogLine list \<Rightarrow> EvaluationReport option \<Rightarrow> (jsstring \<Rightarrow> jsval option) \<Rightarrow> Trip list" where
  "deriveTrips logs report extras =
     (let trips = foldl (tripStep extras) [] logs in
      case report of None \<Rightarrow> trips | Some r \<Rightarrow> map (enrichTrip r) trips)"

section \<open>Stations\<close>

datatype StationState = Idle | Active | StPass | StWarn | StBlock | StFail | Off

record Stations =
  st_source :: StationState
  st_vigil :: StationState
  st_prompt :: StationState
  st_occludra :: StationState
  st_netbird :: StationState
  st_llm :: StationState
  st_agent :: StationState
  st_synthesis :: StationState
  st_verdict :: StationState

datatype Verdict3 = Approved | Rejected | UnknownVerdict

definition verdictOf :: "jsstring option \<Rightarrow> Verdict3" where
  "verdictOf risk =
     (if risk = Some (J ''Safe'') \<or> risk = Some (J ''Caution'') then Approved
      else if risk = Some (J ''Untrusted'') \<or> risk = Some (J ''Malicious'') then Rejected else UnknownVerdict)"

text \<open>The phase and the risk category of the run.\<close>

definition verdictStation :: "jsstring option \<Rightarrow> jsstring option \<Rightarrow> StationState" where
  "verdictStation phase risk =
     (if \<not> isTerminalPhase phase then Idle
      else if verdictOf risk = Rejected then StBlock
      else if phase = Some (J ''Failed'') then StFail else if risk = Some (J ''Caution'') then StWarn else StPass)"

definition vigilStation :: "Trip \<Rightarrow> StationState" where
  "vigilStation trip =
     (let untrusted = (tr_kind trip = Some (J ''dynamic'') \<or> tr_kind trip = Some (J ''adversarial'') \<or> tr_scans trip \<noteq> []) in
      if list_ex (\<lambda>x. vs_status x = ScanBlock) (tr_scans trip) then StBlock
      else if list_ex (\<lambda>x. vs_status x = ScanWarn \<or> vs_status x = ScanUnavailable) (tr_scans trip) then StWarn
      else if tr_scans trip \<noteq> [] then StPass
      else if \<not> untrusted then Off
      else if tr_status trip = TripRunning then Active else Idle)"

definition synthesisStation :: "Trip list \<Rightarrow> StationState" where
  "synthesisStation trips =
     (case find (\<lambda>t. tr_kind t = Some (J ''synthesis'')) trips of
        None \<Rightarrow> Idle
      | Some t \<Rightarrow> if tr_status t = TripOk then StPass else if tr_status t = TripFailed then StFail else Active)"

definition stationStates :: "Trip \<Rightarrow> Trip list \<Rightarrow> jsstring option \<Rightarrow> jsstring option \<Rightarrow> Stations" where
  "stationStates trip trips phase risk =
     (let vg = vigilStation trip;
          s = \<lparr>st_source = StPass, st_vigil = vg, st_prompt = Idle, st_occludra = Idle, st_netbird = Idle, st_llm = Idle,
               st_agent = Idle, st_synthesis = Idle, st_verdict = Idle\<rparr>;
          sent = s\<lparr>st_prompt := StPass, st_occludra := StPass, st_netbird := StPass\<rparr> in
      case tr_status trip of
        TripBlocked \<Rightarrow>
          s\<lparr>st_prompt := Off, st_occludra := Off, st_netbird := Off, st_llm := Off, st_agent := Off, st_synthesis := Off,
            st_verdict := verdictStation phase risk\<rparr>
      | TripRunning \<Rightarrow> if vg = Active then s else sent\<lparr>st_llm := Active\<rparr>
      | status \<Rightarrow>
          let end = (if status = TripFailed then StFail else StPass) in
          sent\<lparr>st_llm := end, st_agent := end,
               st_synthesis := (if tr_kind trip = Some (J ''synthesis'') then end else synthesisStation trips),
               st_verdict := verdictStation phase risk\<rparr>)"

section \<open>What the reconstruction keeps\<close>

lemma updLast_snoc: "updLast f (ts @ [t]) = ts @ [f t]"
  by (simp add: updLast_def)

lemma withHolder_snoc: "\<exists>ts t. withHolder ts0 trips = ts @ [t] \<and> tr_status t = TripRunning"
proof (cases "hasCurrent trips")
  case True
  then show ?thesis unfolding withHolder_def hasCurrent_def by (metis append_butlast_last_id)
qed (simp add: withHolder_def newTrip_def)

lemma current_snoc: "hasCurrent trips \<Longrightarrow> \<exists>ts t. trips = ts @ [t] \<and> tr_status t = TripRunning"
  unfolding hasCurrent_def by (metis append_butlast_last_id)

text \<open>The scans of all trips, in order.\<close>

definition allScans :: "Trip list \<Rightarrow> VigilScan list" where
  "allScans trips = concat (map tr_scans trips)"

lemma allScans_withHolder: "allScans (withHolder ts0 trips) = allScans trips"
  by (simp add: allScans_def withHolder_def newTrip_def)

lemma allScans_addScan: "allScans (addScan sc trips) = allScans trips @ [sc]"
proof -
  obtain ts t where w: "withHolder (vs_at sc) trips = ts @ [t]" using withHolder_snoc by blast
  have "allScans trips = allScans (ts @ [t])" unfolding w [symmetric] allScans_withHolder ..
  then show ?thesis by (simp add: addScan_def w updLast_snoc allScans_def)
qed

lemma allScans_updLast: "trips \<noteq> [] \<Longrightarrow> (\<And>t. tr_scans (f t) = tr_scans t) \<Longrightarrow> allScans (updLast f trips) = allScans trips"
  by (cases trips rule: rev_cases) (simp_all add: updLast_snoc allScans_def)

lemma addScan_ne: "addScan sc trips \<noteq> []"
  by (simp add: addScan_def updLast_def)

definition isMessage :: "jsstring \<Rightarrow> bool" where
  "isMessage msg \<longleftrightarrow> msg = AGENT_START \<or> msg = AGENT_DONE \<or> msg \<in> set AGENT_FAILED"

lemmas message_defs = AGENT_START_def AGENT_DONE_def AGENT_FAILED_def SCAN_DONE_def DETECT_MONITOR_def DETECT_ABORT_def UNAVAILABLE_def

lemma scanOf_message: "isMessage (lineStr l ''msg'') \<Longrightarrow> scanOf l = None"
  by (auto simp: isMessage_def scanOf_def Let_def message_defs J_def)

lemma allScans_step: "allScans (tripStep extras trips l) = allScans trips @ (case scanOf l of Some sc \<Rightarrow> [sc] | None \<Rightarrow> [])"
proof (cases "isMessage (lineStr l ''msg'')")
  case True
  then show ?thesis
    using scanOf_message [OF True]
    by (auto simp: tripStep_def Let_def isMessage_def hasCurrent_def intro!: allScans_updLast)
      (simp_all add: allScans_def newTrip_def)
next
  case False
  then show ?thesis
    by (auto simp: tripStep_def Let_def isMessage_def allScans_addScan allScans_updLast [OF addScan_ne] split: option.split)
qed

lemma allScans_run: "allScans (foldl (tripStep extras) trips logs) = allScans trips @ List.map_filter scanOf logs"
  by (induction logs arbitrary: trips) (auto simp: allScans_step map_filter_simps split: option.split)

lemma allScans_enrich: "allScans (map (enrichTrip r) trips) = map (enrichScan (sg_vigil (er_securityGate r))) (allScans trips)"
  by (induction trips) (simp_all add: allScans_def enrichTrip_def Let_def split: option.split)

text \<open>
  Every scan the log reports is shown once, in the order of the log, whatever agents start, end, fail or are missing
  around it; the report only adds detail to it.
\<close>

theorem scans_shown_in_order:
  "allScans (deriveTrips logs report extras) =
     map (case report of Some r \<Rightarrow> enrichScan (sg_vigil (er_securityGate r)) | None \<Rightarrow> id) (List.map_filter scanOf logs)"
  using allScans_run [of extras "[]" logs]
  by (simp add: deriveTrips_def Let_def allScans_enrich split: option.split) (simp add: allScans_def)

text \<open>Trips are numbered, and a trip is blocked exactly when one of its scans is.\<close>

definition numbered :: "Trip list \<Rightarrow> bool" where
  "numbered trips \<longleftrightarrow> (\<forall>i < length trips. \<exists>a. tr_id (trips ! i) = a @ [45] @ showNat i)"

definition blockedOk :: "Trip \<Rightarrow> bool" where
  "blockedOk t \<longleftrightarrow> (tr_status t = TripBlocked \<longleftrightarrow> (\<exists>sc \<in> set (tr_scans t). vs_status sc = ScanBlock))"

definition tripsOk :: "Trip list \<Rightarrow> bool" where
  "tripsOk trips \<longleftrightarrow> numbered trips \<and> (\<forall>t \<in> set trips. blockedOk t)"

lemma tripsOk_snoc:
  assumes "tripsOk trips" "tr_id t = a @ [45] @ showNat (length trips)" "blockedOk t"
  shows "tripsOk (trips @ [t])"
  using assms unfolding tripsOk_def numbered_def by (auto simp: nth_append less_Suc_eq)

lemma tripsOk_updLast:
  assumes "tripsOk (ts @ [t])" "tr_id (f t) = tr_id t" "blockedOk (f t)"
  shows "tripsOk (ts @ [f t])"
proof -
  have "tripsOk ts"
    using assms(1) unfolding tripsOk_def numbered_def by (auto simp: nth_append less_SucI split: if_splits)
  moreover obtain a where "tr_id t = a @ [45] @ showNat (length ts)"
    using assms(1) unfolding tripsOk_def numbered_def by (auto simp: nth_append dest: spec [of _ "length ts"])
  ultimately show ?thesis using assms by (intro tripsOk_snoc) auto
qed

lemma tripsOk_withHolder: "tripsOk trips \<Longrightarrow> tripsOk (withHolder ts0 trips)"
  unfolding withHolder_def
  by (auto intro!: tripsOk_snoc [where a = "J ''scan''"] simp: newTrip_def blockedOk_def J_def)

lemma running_no_block: "tripsOk (ts @ [t]) \<Longrightarrow> tr_status t = TripRunning \<Longrightarrow> \<not> (\<exists>sc \<in> set (tr_scans t). vs_status sc = ScanBlock)"
  unfolding tripsOk_def by (simp add: blockedOk_def)

lemma tripsOk_step:
  assumes "tripsOk trips"
  shows "tripsOk (tripStep extras trips l)"
proof (cases "isMessage (lineStr l ''msg'')")
  case True
  show ?thesis
  proof (cases "lineStr l ''msg'' = AGENT_START")
    case start: True
    then show ?thesis
      using assms by (auto simp: tripStep_def Let_def newTrip_def blockedOk_def J_def intro!: tripsOk_snoc [OF assms])
  next
    case False
    have "tripsOk (updLast f trips)"
      if h: "hasCurrent trips" "\<And>t. tr_id (f t) = tr_id t" "\<And>t. tr_scans (f t) = tr_scans t" "\<And>t. tr_status (f t) \<noteq> TripBlocked" for f
    proof -
      obtain ts t where t: "trips = ts @ [t]" "tr_status t = TripRunning" using current_snoc [OF h(1)] by blast
      have ok: "tripsOk (ts @ [t])" using assms t(1) by simp
      have "blockedOk (f t)" unfolding blockedOk_def h(3) using running_no_block [OF ok t(2)] h(4) [of t] by simp
      from tripsOk_updLast [of ts t f, OF ok h(2) this] show ?thesis by (simp add: t(1) updLast_snoc)
    qed
    with True False assms show ?thesis by (auto simp: tripStep_def Let_def isMessage_def)
  qed
next
  case False
  show ?thesis
  proof (cases "scanOf l")
    case None
    with False assms show ?thesis by (simp add: tripStep_def Let_def isMessage_def)
  next
    case (Some sc)
    obtain ts t where w: "withHolder (vs_at sc) trips = ts @ [t]" and r: "tr_status t = TripRunning" using withHolder_snoc by blast
    have ok: "tripsOk (ts @ [t])" using tripsOk_withHolder [OF assms, of "vs_at sc"] w by simp
    note nb = running_no_block [OF ok r]
    let ?t = "t\<lparr>tr_scans := tr_scans t @ [sc]\<rparr>"
    have add: "addScan sc trips = ts @ [?t]" by (simp add: addScan_def w updLast_snoc)
    have "tripStep extras trips l =
      ts @ [if vs_status sc = ScanBlock then ?t\<lparr>tr_status := TripBlocked, tr_endedAt := Some (lineStr l ''ts'')\<rparr> else ?t]"
      using False Some by (auto simp: tripStep_def Let_def isMessage_def add updLast_snoc)
    also have "tripsOk \<dots>"
      using nb r by (intro tripsOk_updLast [OF ok]) (auto simp: blockedOk_def)
    finally show ?thesis .
  qed
qed

lemma tripsOk_run: "tripsOk trips \<Longrightarrow> tripsOk (foldl (tripStep extras) trips logs)"
  by (induction logs arbitrary: trips) (simp_all add: tripsOk_step)

lemma no_dash: "(45 :: jschar) \<notin> set (showNat n)"
  using set_showNat [of n] by (auto simp: word_le_nat_alt)

lemma numbered_distinct: "numbered trips \<Longrightarrow> distinct (map tr_id trips)"
proof -
  assume n: "numbered trips"
  have digits: "\<forall>x \<in> set (showNat k). x \<noteq> 45" for k using no_dash [of k] by metis
  have "i = j" if h: "i < length trips" "j < length trips" "tr_id (trips ! i) = tr_id (trips ! j)" for i j
  proof -
    obtain a where "tr_id (trips ! i) = a @ [45] @ showNat i" using n h(1) unfolding numbered_def by blast
    moreover obtain b where "tr_id (trips ! j) = b @ [45] @ showNat j" using n h(2) unfolding numbered_def by blast
    ultimately have "a @ [45] @ showNat i = b @ [45] @ showNat j" using h(3) by simp
    then have "takeWhile (\<lambda>c. c \<noteq> 45) (rev (a @ [45] @ showNat i)) = takeWhile (\<lambda>c. c \<noteq> 45) (rev (b @ [45] @ showNat j))" by simp
    then have "rev (showNat i) = rev (showNat j)"
      by (simp add: takeWhile_append digits)
    then show ?thesis by simp
  qed
  then show ?thesis by (auto simp: distinct_conv_nth)
qed

lemma enrichScan_status: "vs_status (enrichScan gate sc) = vs_status sc"
  by (simp add: enrichScan_def Let_def)

lemma enrichTrip_fields:
  "tr_id (enrichTrip r t) = tr_id t"
  "tr_scans (enrichTrip r t) = map (enrichScan (sg_vigil (er_securityGate r))) (tr_scans t)"
  "tr_status (enrichTrip r t) = TripBlocked \<longleftrightarrow> tr_status t = TripBlocked"
  by (simp_all add: enrichTrip_def Let_def split: option.split)

lemma enrichTrip_ok: "blockedOk t \<Longrightarrow> blockedOk (enrichTrip r t)"
  by (simp add: blockedOk_def enrichTrip_fields enrichScan_status)

text \<open>
  The identifiers of the trips are distinct, and a trip is shown as blocked exactly when one of its scans blocked
  it, with and without the report.
\<close>

theorem trips_well_formed:
  "distinct (map tr_id (deriveTrips logs report extras)) \<and> list_all blockedOk (deriveTrips logs report extras)"
proof -
  have ok: "tripsOk (foldl (tripStep extras) [] logs)" by (rule tripsOk_run) (simp add: tripsOk_def numbered_def)
  then have "distinct (map tr_id (foldl (tripStep extras) [] logs))" using numbered_distinct by (simp add: tripsOk_def)
  with ok show ?thesis
    by (auto simp: deriveTrips_def Let_def list_all_iff tripsOk_def comp_def enrichTrip_ok enrichTrip_fields split: option.split)
qed

section \<open>The order of the evaluator\<close>

definition logLine :: "jsstring \<Rightarrow> (string \<times> jsval) list \<Rightarrow> LogLine" where
  "logLine msg fs = (J ''ts'', JStr (J ''t'')) # (J ''msg'', JStr msg) # map (\<lambda>(k, v). (J k, v)) fs"

text \<open>
  The evaluator scans before it logs that an agent starts. Its scans then belong to a trip of an agent called \<open>evaluator\<close>
  that stays running, and the trip of the agent shows none.
\<close>

theorem scan_before_start_orphaned:
  "map (\<lambda>t. (tr_agent t, tr_status t, length (tr_scans t)))
     (deriveTrips [logLine SCAN_DONE [(''source'', JStr (J ''advertised-surface''))],
        logLine AGENT_START [(''agent'', JStr (J ''mcp-fuzz-tester''))], logLine AGENT_DONE []] None (\<lambda>_. None)) =
   [(J ''evaluator'', TripRunning, 1), (J ''mcp-fuzz-tester'', TripOk, 0)]"
  by (simp add: deriveTrips_def tripStep_def logLine_def lineStr_def lineField_def scanOf_def message_defs addScan_def withHolder_def
      hasCurrent_def updLast_def newTrip_def baseScan_def Let_def)

end
