(* ===== verification/Story.thy ===== *)
theory Story
  imports Flow AskContext Regex
begin

text \<open>
  The steps and the verdict the dashboard tells of a run (\<^verbatim>\<open>src/frontend/src/model/story.ts\<close>), on top of the trips of theory
  Flow. A step has its state, its conclusion and its findings; the rows of facts, evidence and technical detail beside them are
  left out, and so are the fixed titles.
\<close>

section \<open>Roles and severities\<close>

definition kindOfRole :: "jsstring \<Rightarrow> AgentKind" where
  "kindOfRole role =
     (if role = J ''StaticSecurityAuditor'' then KStatic else if role = J ''DynamicProtocolFuzzer'' then KDynamic
      else if role = J ''RogueBehaviorProbe'' then KAdversarial else if role = J ''SynthesisScorer'' then KSynthesis else KGeneric)"

definition kindOfText :: "jsstring \<Rightarrow> AgentKind" where
  "kindOfText t =
     (if t = J ''static'' then KStatic else if t = J ''dynamic'' then KDynamic else if t = J ''adversarial'' then KAdversarial
      else if t = J ''synthesis'' then KSynthesis else KGeneric)"

fun SEVERITY_ORDER :: "Severity \<Rightarrow> int" where
  "SEVERITY_ORDER Critical = 0"
| "SEVERITY_ORDER High = 1"
| "SEVERITY_ORDER Medium = 2"
| "SEVERITY_ORDER Low = 3"
| "SEVERITY_ORDER Info = 4"

text \<open>\<open>sort(bySeverity)\<close>, which is stable.\<close>

definition bySeverity :: "Finding list \<Rightarrow> Finding list" where
  "bySeverity = sort_key (\<lambda>f. SEVERITY_ORDER (fi_severity f))"

fun severityLabel :: "Severity \<Rightarrow> jsstring" where
  "severityLabel Critical = (J ''cr'' @ [237] @ J ''tico'')"
| "severityLabel High = (J ''alto'')"
| "severityLabel Medium = (J ''medio'')"
| "severityLabel Low = (J ''bajo'')"
| "severityLabel Info = (J ''dato'')"

section \<open>Steps\<close>

datatype StepState = Pending | Running | StepOk | StepWarn | StepBad | Skipped | StepFailed | StepUnknown

record Step =
  sp_id :: jsstring
  sp_state :: StepState
  sp_conclusion :: jsstring
  sp_findings :: "Finding list"

record StoryRun = RunView +
  sy_agents :: "jsstring list"
  sy_currentAgent :: "jsstring option"

definition PREPARE_FAILED :: pattern where
  "PREPARE_FAILED = rxI (Alts [Lits ''stuck Pending'', Lits ''retries'', Lits ''clone'', Lits ''Job''])"

definition STUCK :: pattern where "STUCK = rxI (Lits ''stuck Pending'')"

definition truthyOpt :: "jsstring option \<Rightarrow> bool" where
  "truthyOpt v = (case v of Some s \<Rightarrow> s \<noteq> [] | None \<Rightarrow> False)"

definition prepareStep :: "StoryRun \<Rightarrow> Step" where
  "prepareStep run =
     (let phase = orText ''Pending'' (rv_phase run); message = orText '''' (rv_message run);
          reachedEval = (phase = J ''Evaluating'' \<or> phase = J ''Completed'' \<or> phase = J ''Failed'' \<and> truthyOpt (sy_currentAgent run));
          early = (phase = J ''Pending'' \<or> phase = J ''Cloning'' \<or> phase = J ''Running'');
          (state, conclusion) =
            (if phase = J ''Failed'' \<and> \<not> reachedEval \<and> test PREPARE_FAILED message then
               (StepFailed,
                if test STUCK message
                then (J ''El cluster no tuvo lugar para arrancar la caja aislada y, despu'' @ [233] @ J ''s de 2 reintentos, el run se dio por perdido. No se lleg'' @ [243] @ J '' a inspeccionar nada: no es un veredicto sobre el servidor.'')
                else (J ''No se pudo preparar la caja aislada, as'' @ [237] @ J '' que no se inspeccion'' @ [243] @ J '' nada. No es un veredicto sobre el servidor.''))
             else if early then
               (Running, if phase = J ''Cloning'' then (J ''Copiando el c'' @ [243] @ J ''digo'' @ [8230]) else if phase = J ''Running'' then (J ''Arrancando el servidor'' @ [8230])
                         else (J ''Esperando lugar en el cluster'' @ [8230]))
             else (StepOk, (J ''El servidor qued'' @ [243] @ J '' corriendo en una caja aislada, listo para inspeccionar.''))) in
      \<lparr>sp_id = J ''prepare'', sp_state = state, sp_conclusion = conclusion, sp_findings = []\<rparr>)"

definition SURFACE :: jsstring where "SURFACE = J ''advertised-surface''"

definition plural :: "host \<Rightarrow> jsnum \<Rightarrow> string \<Rightarrow> string \<Rightarrow> jsstring" where
  "plural h n one many = hNumStr h n @ J '' '' @ J (if n = Fin 1 then one else many)"

definition vigilStep :: "host \<Rightarrow> VigilScan list \<Rightarrow> VigilGateRecord option \<Rightarrow> bool \<Rightarrow> bool \<Rightarrow> Step" where
  "vigilStep h surface gate ended started =
     (let block = find (\<lambda>s. vs_status s = ScanBlock) surface;
          detection = (case Option.bind block vs_detection of
                         Some d \<Rightarrow> Some d
                       | None \<Rightarrow> Option.bind gate (\<lambda>g. find (\<lambda>d. vd_source d = SURFACE) (vg_detections g)));
          warnings = foldl maxN (Fin 0) (map vs_warnings surface);
          (state, conclusion) =
            (if block \<noteq> None \<or> (case detection of Some d \<Rightarrow> vd_abortive d | None \<Rightarrow> False) then
               (StepBad, (J ''Encontr'' @ [243] @ J '' instrucciones escondidas para enga'' @ [241] @ J ''ar a la IA. Cortamos la evaluaci'' @ [243] @ J ''n ac'' @ [225] @ J '': ning'' @ [250] @ J ''n modelo lleg'' @ [243] @ J '' a leer ese texto y el servidor queda como malicioso.''))
             else if list_ex (\<lambda>s. vs_status s = ScanUnavailable) surface then
               (StepWarn, (J ''Vigil no respondi'' @ [243] @ J '', as'' @ [237] @ J '' que seguimos sin su revisi'' @ [243] @ J ''n. El resultado vale menos.''))
             else if ltN (Fin 0) warnings then
               (StepWarn, (J ''Un solo detector marc'' @ [243] @ J '' '') @ plural h warnings ''texto'' ''textos'' @
                  (J ''. No alcanza para cortar (hacen falta dos que coincidan), pero queda anotado.''))
             else if surface \<noteq> [] then
               (StepOk, (J ''No encontr'' @ [243] @ J '' instrucciones escondidas. Lo que el servidor dice de s'' @ [237] @ J '' mismo es seguro de mostrar a un modelo.''))
             else if ended \<and> gate \<noteq> None then
               (if (case gate of Some g \<Rightarrow> vg_detections g \<noteq> [] | None \<Rightarrow> False) then (StepBad, (J ''Encontr'' @ [243] @ J '' instrucciones escondidas.''))
                else (StepOk, (J ''No encontr'' @ [243] @ J '' instrucciones escondidas.'')))
             else if ended then
               (if started then (StepUnknown, (J ''Los registros de este run ya se borraron; no sabemos qu'' @ [233] @ J '' revis'' @ [243] @ J ''.''))
                else (Skipped, (J ''No lleg'' @ [243] @ J '' a ejecutarse.'')))
             else if started then (Running, (J ''Revisando'' @ [8230])) else (Pending, (J ''Todav'' @ [237] @ J ''a no empez'' @ [243] @ J ''.''))) in
      \<lparr>sp_id = J ''vigil'', sp_state = state, sp_conclusion = conclusion, sp_findings = []\<rparr>)"

section \<open>Agents\<close>

text \<open>\<open>rec\<close>, \<open>num\<close>, \<open>str\<close> and \<open>bool\<close> on the output of an agent.\<close>

definition outNum :: "jsobj \<Rightarrow> string \<Rightarrow> jsnum option" where
  "outNum o' k = (case asNum (fld o' (J k)) of Some n \<Rightarrow> if isFiniteN n then Some n else None | None \<Rightarrow> None)"

definition outStr :: "jsobj \<Rightarrow> string \<Rightarrow> jsstring option" where
  "outStr o' k = (case asStr (fld o' (J k)) of Some s \<Rightarrow> if trimS s = [] then None else Some s | None \<Rightarrow> None)"

definition outFlag :: "jsobj \<Rightarrow> string \<Rightarrow> bool" where
  "outFlag o' k \<longleftrightarrow> asBool (fld o' (J k)) = Some True"

definition addN :: "jsnum \<Rightarrow> jsnum \<Rightarrow> jsnum" where
  "addN a b = (case (a, b) of (Fin x, Fin y) \<Rightarrow> Fin (x + y) | _ \<Rightarrow> NaN)"

definition adversarialFlags :: "jsobj \<Rightarrow> jsstring list" where
  "adversarialFlags out =
     (if outFlag out ''exfiltrationAttemptDetected'' then [(J ''intent'' @ [243] @ J '' mandar datos afuera'')] else []) @
     (if outFlag out ''ssrfOrHostReadDetected'' then [(J ''intent'' @ [243] @ J '' leer archivos o direcciones internas'')] else []) @
     (if outFlag out ''promptInjectionDetected'' then [(J ''meti'' @ [243] @ J '' instrucciones en sus respuestas'')] else []) @
     (if outFlag out ''silentSecondaryActionsDetected'' then [(J ''hizo acciones que no anunci'' @ [243])] else [])"

definition fuzzTrouble :: "jsobj \<Rightarrow> jsnum" where
  "fuzzTrouble out =
     (case asRec (fld out (J ''fuzzing'')) of
        None \<Rightarrow> Fin 0
      | Some fz \<Rightarrow> addN (case outNum fz ''crashes'' of Some n \<Rightarrow> n | None \<Rightarrow> Fin 0) (case outNum fz ''hangs'' of Some n \<Rightarrow> n | None \<Rightarrow> Fin 0))"

definition lastConclusion :: "host \<Rightarrow> AgentKind \<Rightarrow> jsobj \<Rightarrow> Finding list \<Rightarrow> StepState \<times> jsstring" where
  "lastConclusion h kind out findings =
     (case findings of
        worst # _ \<Rightarrow>
          (if fi_severity worst = Critical \<or> fi_severity worst = High then StepBad else if fi_severity worst = Info then StepOk else StepWarn,
           (J ''Lo m'' @ [225] @ J ''s grave que encontr'' @ [243] @ J '' ('') @ severityLabel (fi_severity worst) @ J ''): '' @ fi_title worst @ J ''.'')
      | [] \<Rightarrow>
          if kind = KStatic \<and> outFlag out ''dangerousSinksFound'' then
            (StepWarn, (J ''Hay partes del c'' @ [243] @ J ''digo que podr'' @ [237] @ J ''an ser peligrosas si alguien les pasa datos maliciosos'') @
               (case outNum out ''score'' of Some n \<Rightarrow> J '' (nota '' @ hNumStr h n @ J '' de 100)'' | None \<Rightarrow> []) @
               (J ''. Los pasos siguientes prueban si se pueden aprovechar.''))
          else if kind = KStatic \<and> asBool (fld out (J ''dangerousSinksFound'')) = Some False then
            (StepOk, (J ''No encontr'' @ [243] @ J '' caminos peligrosos desde lo que recibe una herramienta.''))
          else (StepOk, case outStr out ''summary'' of Some s \<Rightarrow> s | None \<Rightarrow> (J ''No encontr'' @ [243] @ J '' problemas.'')))"

definition agentConclusion :: "host \<Rightarrow> AgentKind \<Rightarrow> jsobj \<Rightarrow> Finding list \<Rightarrow> StepState \<times> jsstring" where
  "agentConclusion h kind out findings =
     (if kind = KAdversarial \<and> adversarialFlags out \<noteq> [] then
        (StepBad, J ''El servidor '' @ joinS (J '', '') (adversarialFlags out) @ J ''.'')
      else if kind = KAdversarial \<and> asBool (fld out (J ''isMalicious'')) = Some False then
        (StepOk, case outStr out ''summary'' of Some s \<Rightarrow> s | None \<Rightarrow> (J ''No hizo nada a escondidas.''))
      else if kind = KSynthesis then
        (StepOk, case outStr out ''summary'' of Some s \<Rightarrow> s | None \<Rightarrow> (J ''Combin'' @ [243] @ J '' los informes en la nota final.''))
      else if kind = KDynamic \<and> ltN (Fin 0) (fuzzTrouble out) then
        (StepWarn, (J ''Se cay'' @ [243] @ J '' o se colg'' @ [243] @ J '' '') @ plural h (fuzzTrouble out) ''vez'' ''veces'' @ J '' con pedidos mal formados.'')
      else lastConclusion h kind out findings)"

definition friendlyModel :: "jsstring option \<Rightarrow> jsstring" where
  "friendlyModel model =
     (case model of
        None \<Rightarrow> J ''el modelo''
      | Some m \<Rightarrow>
          if m = [] then J ''el modelo''
          else if test (rxI (Lits ''lfm'')) m then J ''LFM 2.5, en la GPU de la PC''
          else if 47 \<in> set m \<and> hd m \<noteq> 47 then tl (dropWhile (\<lambda>c. c \<noteq> 47) m) else m)"

definition storyAgentStep ::
  "host \<Rightarrow> jsstring \<Rightarrow> AgentKind \<Rightarrow> StoryRun \<Rightarrow> Trip option \<Rightarrow> EvaluationReport option \<Rightarrow> bool \<Rightarrow> Step" where
  "storyAgentStep h name kind run trip report blockedBefore =
     (let out = asRec (fld (rv_agentResults run) name);
          record' = Option.bind report (\<lambda>r. fld (er_agents r) name);
          error = orElse (orElse (Option.bind out (\<lambda>o'. outStr o' ''error'')) (Option.bind record' ar_error)) (Option.bind trip tr_error);
          findings = bySeverity (filter (\<lambda>f. fi_agent f = name) (rv_findings run));
          model = orElse (Option.bind trip tr_model) (map_option ar_model record');
          (state, conclusion) =
            (if blockedBefore then (Skipped, (J ''No se ejecut'' @ [243] @ J '': Vigil cort'' @ [243] @ J '' la evaluaci'' @ [243] @ J ''n antes.''))
             else if truthyOpt error \<or> map_option tr_status trip = Some TripFailed \<or> (case record' of Some r \<Rightarrow> \<not> ar_statusOk r | None \<Rightarrow> False) then
               (StepFailed, (J ''Este agente fall'' @ [243] @ J '' (el modelo no respondi'' @ [243] @ J '' bien o se acab'' @ [243] @ J '' el tiempo). El resto sigui'' @ [243] @ J '' sin '' @ [233] @ J ''l, as'' @ [237] @ J '' que el resultado es menos completo.'') @
                  whenText error (\<lambda>e. J '' Error: '' @ e))
             else case out of
               Some (e # es) \<Rightarrow> agentConclusion h kind (e # es) findings
             | _ \<Rightarrow>
                 if map_option tr_status trip = Some TripRunning \<or> sy_currentAgent run = Some name then
                   (Running, (J ''Trabajando'' @ [8230] @ J '' esperando la respuesta de '') @ friendlyModel model @ J ''.'')
                 else if isTerminalPhase (rv_phase run) then (Skipped, (J ''No lleg'' @ [243] @ J '' a ejecutarse.''))
                 else (Pending, (J ''Todav'' @ [237] @ J ''a no empez'' @ [243] @ J ''.''))) in
      \<lparr>sp_id = J ''agent-'' @ name, sp_state = state, sp_conclusion = conclusion, sp_findings = findings\<rparr>)"

section \<open>Verdict\<close>

datatype VerdictState = VRunning | VSafe | VCaution | VUntrusted | VMalicious | VError

record Verdict =
  vt_state :: VerdictState
  vt_safety :: "int option"
  vt_reliability :: "int option"

definition storyVerdict :: "StoryRun \<Rightarrow> bool \<Rightarrow> Verdict" where
  "storyVerdict run failedPrepare =
     (if \<not> isTerminalPhase (rv_phase run) then \<lparr>vt_state = VRunning, vt_safety = None, vt_reliability = None\<rparr>
      else case rv_scoring run of
        None \<Rightarrow> \<lparr>vt_state = VError, vt_safety = None, vt_reliability = None\<rparr>
      | Some sc \<Rightarrow>
          if failedPrepare \<or> sc_riskCategory sc = UnknownRisk then \<lparr>vt_state = VError, vt_safety = None, vt_reliability = None\<rparr>
          else \<lparr>vt_state = (case sc_riskCategory sc of Safe \<Rightarrow> VSafe | Caution \<Rightarrow> VCaution | Untrusted \<Rightarrow> VUntrusted | _ \<Rightarrow> VMalicious),
                vt_safety = Some (sc_safetyScore sc),
                vt_reliability = (if sc_safetyScore sc = 0 \<and> sc_reliabilityScore sc = 0 then None else Some (sc_reliabilityScore sc))\<rparr>)"

section \<open>The story\<close>

definition storyKindOf :: "(jsstring \<Rightarrow> jsstring option) \<Rightarrow> EvaluationReport option \<Rightarrow> Trip list \<Rightarrow> jsstring \<Rightarrow> AgentKind" where
  "storyKindOf roles report trips name =
     (let role = orElse (roles name) (map_option ar_role (Option.bind report (\<lambda>r. fld (er_agents r) name))) in
      if truthyOpt role then kindOfRole (case role of Some r \<Rightarrow> r | None \<Rightarrow> [])
      else case Option.bind (find (\<lambda>t. tr_agent t = name) trips) tr_kind of Some k \<Rightarrow> kindOfText k | None \<Rightarrow> KGeneric)"

definition surfaceScans :: "Trip list \<Rightarrow> VigilScan list" where
  "surfaceScans trips = concat (map (\<lambda>t. filter (\<lambda>s. vs_source s = SURFACE) (tr_scans t)) trips)"

definition surfaceTrip :: "Trip list \<Rightarrow> Trip option" where
  "surfaceTrip trips = find (\<lambda>t. list_ex (\<lambda>s. vs_source s = SURFACE) (tr_scans t)) trips"

definition isBlocked :: "Trip list \<Rightarrow> bool" where
  "isBlocked trips \<longleftrightarrow> list_ex (\<lambda>s. vs_status s = ScanBlock) (surfaceScans trips) \<or> list_ex (\<lambda>t. tr_status t = TripBlocked) trips"

text \<open>The loop over the agents: the steps so far, whether Vigil's step is placed, whether an earlier agent was cut off.\<close>

record StoryCtx =
  sx_host :: host
  sx_run :: StoryRun
  sx_report :: "EvaluationReport option"
  sx_trips :: "Trip list"
  sx_roles :: "jsstring \<Rightarrow> jsstring option"

definition vigilOf :: "StoryCtx \<Rightarrow> Step" where
  "vigilOf cx =
     vigilStep (sx_host cx) (surfaceScans (sx_trips cx)) (map_option (\<lambda>r. sg_vigil (er_securityGate r)) (sx_report cx))
       (isTerminalPhase (rv_phase (sx_run cx)))
       (surfaceScans (sx_trips cx) \<noteq> [] \<or> sp_state (prepareStep (sx_run cx)) = StepOk \<and> truthyOpt (sy_currentAgent (sx_run cx)))"

definition addAgent :: "StoryCtx \<Rightarrow> Step list \<times> bool \<times> bool \<Rightarrow> jsstring \<Rightarrow> Step list \<times> bool \<times> bool" where
  "addAgent cx acc name =
     (case acc of (steps, placed, blockedBefore) \<Rightarrow>
      let kind = storyKindOf (sx_roles cx) (sx_report cx) (sx_trips cx) name;
          place = ((kind = KDynamic \<or> kind = KAdversarial) \<and> \<not> placed);
          steps = (if place then steps @ [vigilOf cx] else steps);
          placed = (placed \<or> place);
          blockedBefore = (blockedBefore \<or> placed \<and> isBlocked (sx_trips cx));
          trip = find (\<lambda>t. tr_agent t = name) (sx_trips cx);
          blockedHolder = (isBlocked (sx_trips cx) \<and> trip \<noteq> None \<and> map_option tr_id trip = map_option tr_id (surfaceTrip (sx_trips cx))) in
      (steps @ [storyAgentStep (sx_host cx) name kind (sx_run cx) (if blockedHolder then None else trip) (sx_report cx) (blockedBefore \<or> blockedHolder)],
       placed, blockedBefore))"

definition skipRest :: "Step \<Rightarrow> Step list \<Rightarrow> Step list" where
  "skipRest prepare steps =
     (if sp_state prepare = StepFailed
      then take 1 steps @ map (\<lambda>s. s\<lparr>sp_state := Skipped, sp_conclusion := (J ''No se ejecut'' @ [243] @ J '': la caja aislada nunca arranc'' @ [243] @ J ''.'')\<rparr>) (drop 1 steps)
      else steps)"

definition vigilFindings :: "StoryRun \<Rightarrow> Step list \<Rightarrow> Step list" where
  "vigilFindings run steps =
     map (\<lambda>s. if sp_id s = J ''vigil'' then s\<lparr>sp_findings := filter (\<lambda>f. fi_agent f = J ''vigil-llm'') (bySeverity (rv_findings run))\<rparr> else s) steps"

definition storyNames :: "StoryRun \<Rightarrow> jsstring list" where
  "storyNames run = (if sy_agents run \<noteq> [] then sy_agents run else map fst (rv_agentResults run))"

definition storySteps :: "StoryCtx \<Rightarrow> Step list" where
  "storySteps cx =
     (let prepare = prepareStep (sx_run cx) in
      case foldl (addAgent cx) ([prepare], False, False) (storyNames (sx_run cx)) of (steps, placed, _) \<Rightarrow>
        let steps = (if \<not> placed \<and> (surfaceScans (sx_trips cx) \<noteq> [] \<or> sx_report cx \<noteq> None) then steps @ [vigilOf cx] else steps) in
        vigilFindings (sx_run cx) (skipRest prepare steps))"

definition buildStory ::
  "host \<Rightarrow> (jsstring \<Rightarrow> jsstring option) \<Rightarrow> EvaluationReport option \<Rightarrow> LogLine list \<Rightarrow> (jsstring \<Rightarrow> jsval option) \<Rightarrow> StoryRun \<Rightarrow>
   Step list \<times> Finding list \<times> Verdict" where
  "buildStory h roles report logs extras run =
     (storySteps \<lparr>sx_host = h, sx_run = run, sx_report = report, sx_trips = deriveTrips logs report extras, sx_roles = roles\<rparr>,
      bySeverity (rv_findings run), storyVerdict run (sp_state (prepareStep run) = StepFailed))"

section \<open>One step for each agent\<close>

abbreviation stepIds :: "Step list \<Rightarrow> jsstring list" where "stepIds steps \<equiv> map sp_id steps"

lemma step_ids [simp]:
  "sp_id (prepareStep run) = J ''prepare''" "sp_id (vigilOf cx) = J ''vigil''" "sp_id (storyAgentStep h name kind run trip report b) = J ''agent-'' @ name"
  by (simp_all add: prepareStep_def vigilOf_def vigilStep_def storyAgentStep_def Let_def split: prod.split)

lemma agent_not_vigil: "J ''agent-'' @ name \<noteq> J ''vigil''"
  by (simp add: J_def)

text \<open>The loop keeps the agents in order, and has placed Vigil's step once or not at all.\<close>

definition storyInv :: "StoryCtx \<Rightarrow> jsstring list \<Rightarrow> Step list \<times> bool \<times> bool \<Rightarrow> bool" where
  "storyInv cx names acc \<longleftrightarrow>
     (case acc of (steps, placed, blockedBefore) \<Rightarrow>
        filter (\<lambda>i. i \<noteq> J ''vigil'') (stepIds steps) = J ''prepare'' # map ((@) (J ''agent-'')) names \<and>
        filter (\<lambda>i. i = J ''vigil'') (stepIds steps) = (if placed then [J ''vigil''] else []) \<and> steps \<noteq> [] \<and> hd steps = prepareStep (sx_run cx))"

lemma storyInv_step: "storyInv cx names acc \<Longrightarrow> storyInv cx (names @ [name]) (addAgent cx acc name)"
  by (cases acc) (auto simp: storyInv_def addAgent_def Let_def agent_not_vigil hd_append)

lemma storyInv_foldl: "storyInv cx done acc \<Longrightarrow> storyInv cx (done @ names) (foldl (addAgent cx) acc names)"
proof (induction names arbitrary: "done" acc)
  case (Cons n names)
  from Cons.IH [OF storyInv_step [OF Cons.prems, of n]] show ?case by simp
qed simp

lemma storyInv_loop: "storyInv cx names (foldl (addAgent cx) ([prepareStep (sx_run cx)], False, False) names)"
  using storyInv_foldl [of cx "[]" "([prepareStep (sx_run cx)], False, False)" names] by (simp add: storyInv_def J_def)

lemma vigilFindings_ids: "stepIds (vigilFindings run steps) = stepIds steps"
  by (simp add: vigilFindings_def)

lemma skipRest_ids: "stepIds (skipRest prepare steps) = stepIds steps"
proof (cases "sp_state prepare = StepFailed")
  case True
  then have "stepIds (skipRest prepare steps) = stepIds (take 1 steps) @ stepIds (drop 1 steps)" by (simp add: skipRest_def)
  then show ?thesis by (simp only: map_append [symmetric] append_take_drop_id)
qed (simp add: skipRest_def)

lemma story_ids:
  "filter (\<lambda>i. i \<noteq> J ''vigil'') (stepIds (storySteps cx)) = J ''prepare'' # map ((@) (J ''agent-'')) (storyNames (sx_run cx)) \<and>
   length (filter (\<lambda>i. i = J ''vigil'') (stepIds (storySteps cx))) \<le> 1"
proof -
  obtain steps placed b where f: "foldl (addAgent cx) ([prepareStep (sx_run cx)], False, False) (storyNames (sx_run cx)) = (steps, placed, b)"
    by (rule prod_cases3)
  have inv: "storyInv cx (storyNames (sx_run cx)) (steps, placed, b)" using storyInv_loop [of cx "storyNames (sx_run cx)"] f by simp
  let ?steps = "if \<not> placed \<and> (surfaceScans (sx_trips cx) \<noteq> [] \<or> sx_report cx \<noteq> None) then steps @ [vigilOf cx] else steps"
  have ids: "stepIds (storySteps cx) = stepIds ?steps"
    by (simp add: storySteps_def f Let_def vigilFindings_ids skipRest_ids)
  show ?thesis
    using inv unfolding ids by (auto simp: storyInv_def simp del: length_filter_map)
qed

text \<open>
  The story of a run has a step for the preparation, one for each agent in the order of the run, and at most one
  for Vigil.
\<close>

theorem story_has_every_agent:
  "filter (\<lambda>i. i \<noteq> J ''vigil'') (stepIds (fst (buildStory h roles report logs extras run))) =
     J ''prepare'' # map ((@) (J ''agent-'')) (storyNames run) \<and>
   length (filter (\<lambda>i. i = J ''vigil'') (stepIds (fst (buildStory h roles report logs extras run)))) \<le> 1"
  using story_ids [of "\<lparr>sx_host = h, sx_run = run, sx_report = report, sx_trips = deriveTrips logs report extras, sx_roles = roles\<rparr>"]
  by (simp add: buildStory_def)

section \<open>A detection in the responses\<close>

definition abortedRun :: StoryRun where
  "abortedRun = \<lparr>rv_name = J ''r'', rv_serverRef = J ''s'', rv_phase = Some (J ''Failed''), rv_message = None, rv_scoring = None, rv_findings = [],
     rv_agentResults = [], sy_agents = [J ''fuzzer''], sy_currentAgent = Some (J ''fuzzer'')\<rparr>"

text \<open>
  A run that a scan of the fuzzed responses stopped, after the advertised texts passed: the step of Vigil says that it found nothing, and the step of
  the fuzzer that Vigil stopped the evaluation before it ran.
\<close>

theorem response_block_told_wrong:
  "map sp_state (fst (buildStory (sampleHost []) (\<lambda>_. Some (J ''DynamicProtocolFuzzer'')) None
     [logLine SCAN_DONE [(''source'', JStr SURFACE)], logLine DETECT_ABORT [(''source'', JStr (J ''fuzz-responses''))]] (\<lambda>_. None) abortedRun)) =
   [StepOk, StepOk, Skipped]"
proof -
  have trips: "deriveTrips [logLine SCAN_DONE [(''source'', JStr SURFACE)], logLine DETECT_ABORT [(''source'', JStr (J ''fuzz-responses''))]] None (\<lambda>_. None) =
    [(newTrip (J ''scan-'' @ showNat 0) (J ''evaluator'') None None (J ''t'') None)
       \<lparr>tr_scans := [\<lparr>vs_source = SURFACE, vs_at = J ''t'', vs_status = ScanPass, vs_units = None, vs_warnings = Fin 0, vs_confidence = None,
          vs_scanners = [], vs_warningRecords = None, vs_detection = None\<rparr>,
        \<lparr>vs_source = J ''fuzz-responses'', vs_at = J ''t'', vs_status = ScanBlock, vs_units = None, vs_warnings = Fin 0, vs_confidence = None,
          vs_scanners = [], vs_warningRecords = None, vs_detection = None\<rparr>],
        tr_status := TripBlocked, tr_endedAt := Some (J ''t'')\<rparr>]"
    by (simp add: deriveTrips_def tripStep_def logLine_def lineStr_def lineField_def scanOf_def message_defs addScan_def withHolder_def
        hasCurrent_def updLast_def newTrip_def baseScan_def sourceOf_def strs_def Let_def J_def)
  show ?thesis
    unfolding buildStory_def trips
    by (simp add: storySteps_def addAgent_def abortedRun_def prepareStep_def vigilOf_def vigilStep_def storyAgentStep_def skipRest_def vigilFindings_def storyNames_def storyKindOf_def kindOfRole_def
        orElse_def truthyOpt_def surfaceScans_def isBlocked_def surfaceTrip_def newTrip_def SURFACE_def orText_def isTerminalPhase_def maxN_def Let_def)
qed

end
