(* ===== verification/Spec2Isabelle.thy ===== *)
theory Spec2Isabelle
  imports Connect StatusWriter ScanOrder Entrypoint WebServer Chat Logger Story
begin

text \<open>
  \<^bold>\<open>A verification library for the MCP evaluator and its dashboard.\<close>

  \<^bold>\<open>The program.\<close> An operator starts one evaluator container per run. The evaluator
  (\<^verbatim>\<open>src/runner/src\<close>, TypeScript) reads the server under test and its personas from Kubernetes, collects
  evidence about the server (static files, an MCP session, fuzzing, adversarial probes), sends every
  untrusted text through the Vigil scanner, asks a language model per persona, computes a score and
  writes the status and the report of the run. The scanner and the model are reached through a SOCKS5 or HTTP
  mesh proxy. The dashboard (\<^verbatim>\<open>src/frontend\<close>) mirrors the custom resources to browsers, streams the log, tells the
  story of a run, accepts changes and answers questions about a run.

  \<^bold>\<open>Language and platform.\<close>
  \<^item> Prelude: UTF-16 strings as lists of 16-bit words, numbers as exact rationals with the three non-finite
    values, results of code that throws. Json: \<open>unknown\<close> values, property lists (locale \<open>keyed_store\<close>, interpreted on the
    operations of objects). Regex: a backtracking matcher for the source's patterns; Patterns: what anchored patterns accept.
    Utf8: encoding and decoding as \<open>Buffer\<close> does it.
  \<^item> RunMonad: computations that change a state and may throw, with the rules of a Hoare logic; the locale
    \<open>preorder_steps\<close> says which relations every step keeps, and is interpreted in Gate, RunOutcome and ScanOrder.

  \<^bold>\<open>The evaluator, theory by theory.\<close>
  \<^item> Types, Resources (\<^verbatim>\<open>types.ts\<close>): records, unions, error classes, guards, \<open>assertOpenCodeAgent\<close>, \<open>assertMCPServer\<close>.
  \<^item> Segments (\<^verbatim>\<open>vigilsegments.ts\<close>): the texts of the three gates, \<open>chunkText\<close>, \<open>scanUnits\<close>, the gate loop. Chunks are
    whole and bounded, no phrase is cut in every chunk, and every advertised or answered text is part of some unit.
  \<^item> Vigil (\<^verbatim>\<open>vigil.ts\<close>): combination of scanners, verdicts, retries and fallback; StatusWriter (\<^verbatim>\<open>k8s.ts\<close>): fetches,
    patches with the remembered terminal patch, report size policy, the dry writer (locale \<open>status_writer\<close>, two interpretations).
  \<^item> Framing, Transport, McpClient, Connect, Outcomes (\<^verbatim>\<open>mcpclient.ts\<close>): line and SSE framing (locale \<open>incremental\<close>), both
    transports (locale \<open>crash_reporting\<close>), the JSON-RPC client with pending requests and timers, the loops that wait for
    the target, and the contract of outcomes (locale \<open>outcome_source\<close>) the runners rely on.
  \<^item> Fuzz, FuzzRun (\<^verbatim>\<open>fuzz.ts\<close>), Probes (\<^verbatim>\<open>probes.ts\<close>), Static (\<^verbatim>\<open>static.ts\<close>): collection of evidence.
  \<^item> Config, AgentPrompt, Messages, Synthesis, Gate, Evaluator, Entrypoint (\<^verbatim>\<open>evaluator.ts\<close>, \<^verbatim>\<open>providers.ts\<close>): \<open>readEnv\<close>,
    \<open>runAgentPrompt\<close>, the messages, scores, \<open>scanUntrusted\<close>, \<open>evaluate\<close>, \<open>main\<close>. RunOutcome shows what a run comes to, ScanOrder
    in which order it scans and prompts.
  \<^item> Socks, Mesh, Bridge (\<^verbatim>\<open>meshhttp.ts\<close>): the SOCKS5 handshake over byte events, the mesh fetch, the local bridge with its tunnels.
  \<^item> Logger (\<^verbatim>\<open>logger.ts\<close>): levels, redaction, the written line.

  \<^bold>\<open>The dashboard.\<close>
  \<^item> Logs, LiveStore, WebServer (\<^verbatim>\<open>server/live.ts\<close>, \<^verbatim>\<open>src/data/live.ts\<close>, \<^verbatim>\<open>src/model/logs.ts\<close>): log lines and their follower, the
    store and its broadcasts, which every connected browser's snapshot refines, static files, routes and upgrades.
  \<^item> ServerForm, Actions (\<^verbatim>\<open>src/model/serverForm.ts\<close>, \<^verbatim>\<open>server/actions.ts\<close>, \<^verbatim>\<open>server/origin.ts\<close>): the form and the write routes.
  \<^item> Chat (\<^verbatim>\<open>server/chat.ts\<close>), AskContext (\<^verbatim>\<open>src/model/askContext.ts\<close>): questions about a run and what the model is told.
  \<^item> Flow, Story (\<^verbatim>\<open>src/model/flow.ts\<close>, \<^verbatim>\<open>src/model/story.ts\<close>): trips, steps and verdict told from the log and the report.

  \<^bold>\<open>What the theorems show.\<close> Under an enforced gate no prompt leaves before the texts it rests on were scanned, and an
  injection or an unusable scanner ends the run with its own error; a run has one of a few outcomes, and what it leaves is
  published before the process ends; requests of the mesh go through the proxy; a request of the client is settled exactly
  once; frames do not depend on how the stream is cut; evidence is complete and reports are consistent; scores are in range; secrets
  of a logged field do not reach the log; what browsers show is what the backend holds; the actions are guarded and the files
  served lie below the root; at most one question is with the chat model, and its prompt is bounded. Some theorems show behaviour the
  source does not intend; they are the findings of the manifest.

  \<^bold>\<open>Outside code.\<close> Kubernetes, the scanner, OpenCode, sockets, \<open>fetch\<close>, the URL parser, the clock and \<open>JSON.parse\<close> are arguments of the
  definitions: records of functions on a state of their own, which may answer anything. Interleaving is a list of events.

  \<^bold>\<open>Bounds and fuel.\<close> Most loops are structural or have a measure. \<open>chunkLoop\<close> may run for ever and is a partial function into
  \<open>option\<close>; \<open>chunks_bounded_and_whole\<close> shows that it returns for every window of at least two characters. The loops of theory
  Connect carry fuel, and \<open>target_waits_end\<close> shows that the timeout over the shortest pauses between attempts plus two is enough. Where the platform counts milliseconds or tokens
  the model has unbounded integers; lengths put into one byte (Socks) wrap around as 8-bit words. The rounding of inexact doubles is not modelled.

  \<^bold>\<open>Not modelled.\<close> Tracing spans and the telemetry setup (\<^verbatim>\<open>observability.ts\<close>), which do not influence results; sleeps; in the
  dashboard the Prometheus query, the hashes of the content security policy, the journal of the gateway, the state of a
  server in the list, React views, hooks, the router and the recorded demo; the Go operator and gateway, images, manifests
  and scripts, which are other languages or configuration.
\<close>

section \<open>The chat and the context of a run\<close>

text \<open>
  The lookup the backend gives to the chat: the run of that name, its server and its report, from what the
  store holds.
\<close>

definition runContextOf ::
  "host \<Rightarrow> (jsstring \<Rightarrow> RunView option) \<Rightarrow> (jsstring \<Rightarrow> ServerView option) \<Rightarrow> (jsstring \<Rightarrow> EvaluationReport option) \<Rightarrow>
   jsstring \<Rightarrow> jsstring option" where
  "runContextOf h runs servers reports name =
     (case runs name of
        None \<Rightarrow> None
      | Some run \<Rightarrow> Some (buildAskContext h run (servers (rv_serverRef run)) (reports name)))"

lemma context_length: "length (buildAskContext h run server report) \<le> 14010"
  by (simp add: buildAskContext_def Let_def MAX_CHARS_def CLOSE_FENCE_def)

lemma runContextOf_length: "runContextOf h runs servers reports name = Some c \<Longrightarrow> length c \<le> 14010"
  using context_length by (auto simp: runContextOf_def split: option.splits)

text \<open>
  C40. A prompt of the chat has at most 18022 characters, whatever the report of the run says, however long the
  question is and however the questions of several browsers interleave.
\<close>

theorem chat_prompt_bounded:
  assumes "(s, q) \<in> set (ch_prompts (chatRun w h cfg (runContextOf h' runs servers reports) evs))"
  shows "length (promptOf q) \<le> 18022"
proof -
  have q: "questionOk (runContextOf h' runs servers reports) q"
    using prompt_question [OF assms] by simp
  then have len: "length (qu_text q) \<le> 4000" by (simp add: questionOk_def MAX_TEXT_def)
  show ?thesis
  proof (cases "qu_context q")
    case (Some c)
    with q obtain r where "runContextOf h' runs servers reports r = Some c" by (auto simp: questionOk_def)
    from runContextOf_length [OF this] len show ?thesis by (simp add: promptOf_def Some J_def)
  qed (use len in \<open>simp add: promptOf_def\<close>)
qed

text \<open>A question about a run, asked in a new session.\<close>

lemma sample_run_name: "test RUN_NAME (J ''r'')"
proof -
  let ?rs = "[alnumLow, optR (Grp (Cat [betweenR 0 251 (Items False [One CHR ''-'', Rng CHR ''a'' CHR ''z'', Rng CHR ''0'' CHR ''9'', One CHR ''.'']), alnumLow]))]"
  show ?thesis
    unfolding RUN_NAME_def edged_def using test_anchored [of ?rs "J ''r''"]
    by (simp add: inRange_def unitIs_def quantifier_defs J_def)
qed

definition sampleContext :: "jsstring \<Rightarrow> jsstring option" where
  "sampleContext = runContextOf (sampleHost []) [J ''r'' \<mapsto> sampleRun] (\<lambda>_. None) (\<lambda>_. None)"

lemma sample_run_prompt:
  "(J ''ses_abcdefgh'', \<lparr>qu_text = J ''x'', qu_requested = None, qu_run = Some (J ''r''), qu_context = sampleContext (J ''r'')\<rparr>) \<in>
     set (ch_prompts (chatRun sampleUrls (sampleHost [([], JObj [(J ''text'', JStr (J ''x'')), (J ''run'', JStr (J ''r''))])]) sampleChat sampleContext sampleTalk))"
proof -
  have tr: "trimS (J ''x'') = J ''x''" by (simp add: J_def trimS_def isWs_def)
  obtain c where c: "sampleContext (J ''r'') = Some c" "c \<noteq> []"
    using context_ends [of "sampleHost []" sampleRun None None] by (auto simp: sampleContext_def runContextOf_def)
  have keys: "J ''text'' \<noteq> J ''session''" "J ''text'' \<noteq> J ''run''" "J ''run'' \<noteq> J ''session''" by (simp_all add: J_def)
  show ?thesis
    using sample_json_type sample_session sample_run_name c keys
    by (simp add: chatRun_def sampleTalk_def chatStep_def newChat_def question_def sampleChat_def chatEnabled_def sampleQuestion_def
        isSameOrigin_def readBody_def fromUtf8_Nil sampleHost_def sessionFor_def freshQuestion_def matching_def tr MAX_TEXT_def newSession_def isOk_def)
qed

theorem chat_prompt_bounded_witness:
  "length (promptOf \<lparr>qu_text = J ''x'', qu_requested = None, qu_run = Some (J ''r''), qu_context = sampleContext (J ''r'')\<rparr>) \<le> 18022"
  using sample_run_prompt unfolding sampleContext_def by (rule chat_prompt_bounded)

end
